(* ===== verification/Igloo_Prelude.thy ===== *)
theory Igloo_Prelude
  imports Main "HOL-Library.Word" "HOL-Library.Multiset"
begin

unbundle bit_operations_syntax

text \<open>
  The prelude of the development: what every component shares.

  \<^item> Machine integers.  Identifiers, hashes and bit sets are words of their width.  Counters,
    indexes and amounts are natural numbers together with the width they have in the Rust code:
    \<open>checked_add\<close> and \<open>checked_sub\<close> fail where the \<open>+\<close> and \<open>-\<close> of a build with overflow checks
    panics, \<open>sat_add\<close> and \<open>sat_sub\<close> are the saturating operations.
  \<^item> Failures.  A Rust computation that can panic has the type \<open>'a res\<close>: \<open>Inl\<close> is the panic,
    \<open>Inr\<close> the value.  A Rust \<open>Result\<close> is a value, so a fallible function that can also panic
    returns \<open>('e + 'a) res\<close>.  A loop whose termination depends on a component outside the
    repository carries fuel; \<open>OutOfFuel\<close> is the failure of running out of it.
  \<^item> \<open>rbind\<close>, \<open>rfold\<close>, \<open>rmap\<close>, \<open>rfilter\<close>: sequencing, a \<open>for\<close> loop over a state, a fallible
    \<open>map\<close> and a fallible \<open>filter\<close>; \<open>rindex\<close> and \<open>rmodify\<close> are indexing and the update of an
    element in place, which panic out of range.

  The collection \<open>res_simps\<close> turns a successful run of such a computation into the runs of its
  parts.
\<close>

named_theorems res_simps

section \<open>Types\<close>

type_synonym u8 = "8 word"
type_synonym u16 = "16 word"
type_synonym u32 = "32 word"
type_synonym u64 = "64 word"

text \<open>An account address and a hash: 32 bytes, of which the code only ever tests equality.\<close>

type_synonym pubkey = "256 word"
type_synonym hash = "256 word"

text \<open>A slot number.\<close>

type_synonym slot = nat

datatype failure =
    ArithmeticOverflow
  | IndexOutOfBounds
  | DivisionByZero
  | AssertionFailed string
  | UnwrapOnNone string
  | ExplicitPanic string
  | UnreachableCode
  | OutOfFuel

type_synonym 'a res = "failure + 'a"

section \<open>Sequencing\<close>

fun rbind :: "'a res \<Rightarrow> ('a \<Rightarrow> 'b res) \<Rightarrow> 'b res" where
  "rbind (Inl e) f = Inl e"
| "rbind (Inr x) f = f x"

definition rassert :: "bool \<Rightarrow> string \<Rightarrow> unit res" where
  "rassert b msg = (if b then Inr () else Inl (AssertionFailed msg))"

definition runwrap :: "string \<Rightarrow> 'a option \<Rightarrow> 'a res" where
  "runwrap msg x = (case x of Some v \<Rightarrow> Inr v | None \<Rightarrow> Inl (UnwrapOnNone msg))"

fun rfold :: "('a \<Rightarrow> 's \<Rightarrow> 's res) \<Rightarrow> 'a list \<Rightarrow> 's \<Rightarrow> 's res" where
  "rfold f [] s = Inr s"
| "rfold f (x # xs) s = rbind (f x s) (rfold f xs)"

fun rmap :: "('a \<Rightarrow> 'b res) \<Rightarrow> 'a list \<Rightarrow> 'b list res" where
  "rmap f [] = Inr []"
| "rmap f (x # xs) = rbind (f x) (\<lambda>y. rbind (rmap f xs) (\<lambda>ys. Inr (y # ys)))"

fun rfilter :: "('a \<Rightarrow> bool res) \<Rightarrow> 'a list \<Rightarrow> 'a list res" where
  "rfilter f [] = Inr []"
| "rfilter f (x # xs) =
     rbind (f x) (\<lambda>b. rbind (rfilter f xs) (\<lambda>ys. Inr (if b then x # ys else ys)))"

definition rindex :: "'a list \<Rightarrow> nat \<Rightarrow> 'a res" where
  "rindex xs i = (if i < length xs then Inr (xs ! i) else Inl IndexOutOfBounds)"

definition rmodify :: "nat \<Rightarrow> ('a \<Rightarrow> 'a res) \<Rightarrow> 'a list \<Rightarrow> 'a list res" where
  "rmodify i f xs = rbind (rindex xs i) (\<lambda>x. rbind (f x) (\<lambda>y. Inr (xs[i := y])))"

text \<open>The slice \<open>xs[a..b]\<close> and the iterator \<open>chunks\<close> of the standard library.\<close>

definition rslice :: "nat \<Rightarrow> nat \<Rightarrow> 'a list \<Rightarrow> 'a list res" where
  "rslice a b xs = (if a \<le> b \<and> b \<le> length xs then Inr (take (b - a) (drop a xs)) else Inl IndexOutOfBounds)"

function chunks :: "nat \<Rightarrow> 'a list \<Rightarrow> 'a list list" where
  "chunks n xs = (if xs = [] \<or> n = 0 then [] else take n xs # chunks n (drop n xs))"
  by pat_completeness auto

termination
  by (relation "measure (\<lambda>(n, xs). length xs)") auto

declare chunks.simps [simp del]

section \<open>Arithmetic of a given width\<close>

definition umax :: "nat \<Rightarrow> nat" where
  "umax w = 2 ^ w - 1"

definition checked_add :: "nat \<Rightarrow> nat \<Rightarrow> nat \<Rightarrow> nat res" where
  "checked_add w a b = (if a + b \<le> umax w then Inr (a + b) else Inl ArithmeticOverflow)"

definition checked_sub :: "nat \<Rightarrow> nat \<Rightarrow> nat res" where
  "checked_sub a b = (if b \<le> a then Inr (a - b) else Inl ArithmeticOverflow)"

definition checked_div :: "nat \<Rightarrow> nat \<Rightarrow> nat res" where
  "checked_div a b = (if b = 0 then Inl DivisionByZero else Inr (a div b))"

definition checked_mod :: "nat \<Rightarrow> nat \<Rightarrow> nat res" where
  "checked_mod a b = (if b = 0 then Inl DivisionByZero else Inr (a mod b))"

definition sat_add :: "nat \<Rightarrow> nat \<Rightarrow> nat \<Rightarrow> nat" where
  "sat_add w a b = min (a + b) (umax w)"

definition sat_sub :: "nat \<Rightarrow> nat \<Rightarrow> nat" where
  "sat_sub a b = a - b"

section \<open>Runs that succeed\<close>

lemma rbind_cong [fundef_cong]:
  "m = m' \<Longrightarrow> (\<And>x. m' = Inr x \<Longrightarrow> f x = f' x) \<Longrightarrow> rbind m f = rbind m' f'"
  by (cases m') auto

lemma rbind_Inr_iff [res_simps]:
  "rbind m f = Inr y \<longleftrightarrow> (\<exists>x. m = Inr x \<and> f x = Inr y)"
  by (cases m) auto

lemma Inr_rbind_iff [res_simps]:
  "Inr y = rbind m f \<longleftrightarrow> (\<exists>x. m = Inr x \<and> f x = Inr y)"
  by (cases m) auto

lemma rassert_Inr_iff [res_simps]: "rassert b msg = Inr u \<longleftrightarrow> b"
  by (simp add: rassert_def)

lemma runwrap_Inr_iff [res_simps]: "runwrap msg x = Inr v \<longleftrightarrow> x = Some v"
  by (simp add: runwrap_def split: option.splits)

lemma rindex_Inr_iff [res_simps]: "rindex xs i = Inr x \<longleftrightarrow> i < length xs \<and> x = xs ! i"
  by (auto simp: rindex_def)

lemma rmodify_Inr_iff [res_simps]:
  "rmodify i f xs = Inr ys \<longleftrightarrow> (\<exists>y. i < length xs \<and> f (xs ! i) = Inr y \<and> ys = xs[i := y])"
  by (auto simp: rmodify_def res_simps)

lemma checked_add_Inr_iff [res_simps]:
  "checked_add w a b = Inr c \<longleftrightarrow> a + b \<le> umax w \<and> c = a + b"
  by (auto simp: checked_add_def)

lemma checked_sub_Inr_iff [res_simps]: "checked_sub a b = Inr c \<longleftrightarrow> b \<le> a \<and> c = a - b"
  by (auto simp: checked_sub_def)

lemma checked_div_Inr_iff [res_simps]: "checked_div a b = Inr c \<longleftrightarrow> b \<noteq> 0 \<and> c = a div b"
  by (auto simp: checked_div_def)

lemma checked_mod_Inr_iff [res_simps]: "checked_mod a b = Inr c \<longleftrightarrow> b \<noteq> 0 \<and> c = a mod b"
  by (auto simp: checked_mod_def)

lemma rfold_append: "rfold f (xs @ ys) s = rbind (rfold f xs s) (rfold f ys)"
proof (induction xs arbitrary: s)
  case (Cons x xs)
  then show ?case by (cases "f x s") auto
qed simp

text \<open>
  A \<open>for\<close> loop keeps an invariant that its body keeps, and it returns when every run of its
  body under the invariant does.
\<close>

lemma rfold_invariant:
  assumes "rfold f xs s = Inr s'" and "I s"
    and "\<And>x s s'. x \<in> set xs \<Longrightarrow> I s \<Longrightarrow> f x s = Inr s' \<Longrightarrow> I s'"
  shows "I s'"
  using assms
proof (induction xs arbitrary: s)
  case Nil
  then show ?case by simp
next
  case (Cons x xs)
  from Cons.prems(1) obtain s1 where s1: "f x s = Inr s1" and rest: "rfold f xs s1 = Inr s'"
    by (auto simp: res_simps)
  from Cons.prems(2,3) s1 have "I s1" by (metis list.set_intros(1))
  from Cons.IH [OF rest this] Cons.prems(3) show ?case by (metis list.set_intros(2))
qed

lemma rfold_returns:
  assumes "I s" and "\<And>x s. x \<in> set xs \<Longrightarrow> I s \<Longrightarrow> \<exists>s'. f x s = Inr s' \<and> I s'"
  shows "\<exists>s'. rfold f xs s = Inr s' \<and> I s'"
  using assms
proof (induction xs arbitrary: s)
  case Nil
  then show ?case by simp
next
  case (Cons x xs)
  from Cons.prems obtain s1 where s1: "f x s = Inr s1" "I s1" by (metis list.set_intros(1))
  from Cons.IH [OF s1(2)] Cons.prems(2) show ?case
    using s1(1) by (metis list.set_intros(2) rbind.simps(2) rfold.simps(2))
qed

lemma rmap_Inr_iff [res_simps]:
  "rmap f xs = Inr ys \<longleftrightarrow> list_all2 (\<lambda>x y. f x = Inr y) xs ys"
  by (induction xs arbitrary: ys) (auto simp: res_simps list_all2_Cons1)

lemma rmap_pure: "(\<And>x. x \<in> set xs \<Longrightarrow> f x = Inr (g x)) \<Longrightarrow> rmap f xs = Inr (map g xs)"
  by (induction xs) auto

lemma rfilter_pure: "(\<And>x. x \<in> set xs \<Longrightarrow> f x = Inr (g x)) \<Longrightarrow> rfilter f xs = Inr (filter g xs)"
  by (induction xs) auto

section \<open>Chunks\<close>

lemma rslice_Inr_iff [res_simps]:
  "rslice a b xs = Inr ys \<longleftrightarrow> a \<le> b \<and> b \<le> length xs \<and> ys = take (b - a) (drop a xs)"
  by (auto simp: rslice_def)

lemma chunks_Nil [simp]: "chunks n [] = []"
  by (simp add: chunks.simps)

lemma concat_chunks: "0 < n \<Longrightarrow> concat (chunks n xs) = xs"
proof (induction n xs rule: chunks.induct)
  case (1 n xs)
  then show ?case by (cases "xs = []") (simp_all add: chunks.simps [of n xs])
qed

lemma chunks_nonempty: "0 < n \<Longrightarrow> c \<in> set (chunks n xs) \<Longrightarrow> c \<noteq> [] \<and> length c \<le> n"
proof (induction n xs rule: chunks.induct)
  case (1 n xs)
  then show ?case by (subst (asm) chunks.simps) (auto split: if_splits)
qed

lemma chunks_nth: "0 < n \<Longrightarrow> chunks n xs = map (\<lambda>i. take n (drop (i * n) xs)) [0..<(length xs + n - 1) div n]"
proof (induction n xs rule: chunks.induct)
  case (1 n xs)
  show ?case
  proof (cases "xs = []")
    case True
    then show ?thesis using "1.prems" by simp
  next
    case False
    have len: "(length xs + n - 1) div n = Suc ((length xs - n + n - 1) div n)"
    proof (cases "n \<le> length xs")
      case True
      then have "length xs + n - 1 = (length xs - 1) + n" "length xs - n + n = length xs"
        using "1.prems" by auto
      then show ?thesis using "1.prems" by (simp only: div_add_self2)
    next
      case small: False
      have "length xs + n - 1 = (length xs - 1) + n" using False by (cases xs) auto
      then have "(length xs + n - 1) div n = Suc ((length xs - 1) div n)" using "1.prems" by (simp only: div_add_self2)
      moreover have "(length xs - n + n - 1) div n = 0" "(length xs - 1) div n = 0" using small "1.prems" by auto
      ultimately show ?thesis by simp
    qed
    have "chunks n xs = take n xs # chunks n (drop n xs)" using False "1.prems" by (subst chunks.simps) simp
    also have "\<dots> = take n xs # map (\<lambda>i. take n (drop (i * n) (drop n xs))) [0..<(length xs - n + n - 1) div n]"
      using "1.IH" False "1.prems" by simp
    also have "\<dots> = map (\<lambda>i. take n (drop (i * n) xs)) (0 # map Suc [0..<(length xs - n + n - 1) div n])"
      by (simp add: add.commute)
    finally show ?thesis unfolding len upt_conv_Cons [OF zero_less_Suc] map_Suc_upt by simp
  qed
qed

section \<open>Arithmetic facts\<close>

lemma checked_add_ok: "a + b \<le> umax w \<Longrightarrow> checked_add w a b = Inr (a + b)"
  by (simp add: checked_add_def)

lemma checked_sub_ok: "b \<le> a \<Longrightarrow> checked_sub a b = Inr (a - b)"
  by (simp add: checked_sub_def)

lemma sat_add_exact: "a + b \<le> umax w \<Longrightarrow> sat_add w a b = a + b"
  by (simp add: sat_add_def)

lemma rindex_ok: "i < length xs \<Longrightarrow> rindex xs i = Inr (xs ! i)"
  by (simp add: rindex_def)

section \<open>Lists\<close>

lemma sum_list_update_nat:
  "i < length xs \<Longrightarrow> sum_list (xs[i := (y::nat)]) + xs ! i = sum_list xs + y"
proof (induction xs arbitrary: i)
  case Nil
  then show ?case by simp
next
  case (Cons x xs)
  then show ?case by (cases i) auto
qed

lemma count_list_append [simp]: "count_list (xs @ ys) a = count_list xs a + count_list ys a"
  by (induction xs) auto

lemma count_list_pos_iff: "0 < count_list xs a \<longleftrightarrow> a \<in> set xs"
  by (induction xs) auto

end
