(* ===== verification/Thread_Set.thy ===== *)
theory Thread_Set
  imports Igloo_Prelude
begin

text \<open>
  \<^verbatim>\<open>ThreadSet\<close> of \<^verbatim>\<open>scheduler/src/impls/prio_graph_scheduler/thread_aware_account_locks.rs\<close>: a set of
  worker threads as the bits of a \<open>u64\<close>.  The operations are the Rust ones, bit by bit;
  \<open>threads\<close> is the set a bit set stands for, and every operation is proved to be the set
  operation it names.  \<open>as_flag\<close> shifts by the thread number, which panics from 64 on.
\<close>

section \<open>Operations\<close>

type_synonym thread_id = nat
type_synonym thread_set = u64

definition MAX_THREADS :: nat where
  "MAX_THREADS = 64"

text \<open>\<open>u64::count_ones\<close> and \<open>u64::trailing_zeros\<close> of the standard library.\<close>

definition count_ones :: "u64 \<Rightarrow> nat" where
  "count_ones w = length (filter (bit w) [0..<64])"

definition trailing_zeros :: "u64 \<Rightarrow> nat" where
  "trailing_zeros w = length (takeWhile (\<lambda>i. \<not> bit w i) [0..<64])"

definition as_flag :: "thread_id \<Rightarrow> u64 res" where
  "as_flag t = (if t < 64 then Inr (push_bit t 1) else Inl ArithmeticOverflow)"

definition ts_none :: thread_set where
  "ts_none = 0"

definition ts_any :: "nat \<Rightarrow> thread_set res" where
  "ts_any n = (if n = MAX_THREADS then Inr (- 1) else rbind (as_flag n) (\<lambda>f. Inr (f - 1)))"

definition ts_only :: "thread_id \<Rightarrow> thread_set res" where
  "ts_only t = as_flag t"

definition ts_num_threads :: "thread_set \<Rightarrow> nat" where
  "ts_num_threads s = count_ones s"

definition only_one_contained :: "thread_set \<Rightarrow> thread_id option" where
  "only_one_contained s = (if ts_num_threads s = 1 then Some (trailing_zeros s) else None)"

definition ts_is_empty :: "thread_set \<Rightarrow> bool" where
  "ts_is_empty s \<longleftrightarrow> s = ts_none"

definition ts_contains :: "thread_set \<Rightarrow> thread_id \<Rightarrow> bool res" where
  "ts_contains s t = rbind (as_flag t) (\<lambda>f. Inr (s AND f \<noteq> 0))"

definition ts_insert :: "thread_id \<Rightarrow> thread_set \<Rightarrow> thread_set res" where
  "ts_insert t s = rbind (as_flag t) (\<lambda>f. Inr (s OR f))"

definition ts_remove :: "thread_id \<Rightarrow> thread_set \<Rightarrow> thread_set res" where
  "ts_remove t s = rbind (as_flag t) (\<lambda>f. Inr (s AND NOT f))"

definition contained_threads_iter :: "thread_set \<Rightarrow> thread_id list res" where
  "contained_threads_iter s = rfilter (ts_contains s) [0..<MAX_THREADS]"

definition ts_bitand :: "thread_set \<Rightarrow> thread_set \<Rightarrow> thread_set" where
  "ts_bitand a b = a AND b"

definition ts_sub :: "thread_set \<Rightarrow> thread_set \<Rightarrow> thread_set" where
  "ts_sub a b = a AND NOT b"

text \<open>The set of threads a bit set stands for.\<close>

definition threads :: "thread_set \<Rightarrow> thread_id set" where
  "threads s = {t. bit s t}"

section \<open>The operations are the set operations\<close>

lemma bit_u64_lt: "bit (s :: u64) t \<Longrightarrow> t < 64"
  using bit_imp_le_length by fastforce

lemma threads_lt: "t \<in> threads s \<Longrightarrow> t < 64"
  by (simp add: threads_def bit_u64_lt)

lemma threads_sub_lt: "threads s \<subseteq> {..<64}"
  by (auto intro: threads_lt)

lemma finite_threads [simp]: "finite (threads s)"
  using finite_subset threads_sub_lt by blast

lemma threads_inject: "threads s = threads s' \<longleftrightarrow> s = s'"
  by (auto simp: threads_def set_eq_iff intro: bit_word_eqI)

lemma threads_none [simp]: "threads ts_none = {}"
  by (simp add: threads_def ts_none_def)

lemma threads_zero [simp]: "threads 0 = {}"
  by (simp add: threads_def)

lemma ts_is_empty_iff: "ts_is_empty s \<longleftrightarrow> threads s = {}"
  by (metis threads_inject threads_none ts_is_empty_def)

lemma as_flag_ok: "t < 64 \<Longrightarrow> as_flag t = Inr (2 ^ t)"
  by (simp add: as_flag_def push_bit_eq_mult)

lemma bit_flag: "bit (2 ^ t :: u64) i \<longleftrightarrow> i = t \<and> t < 64"
  by (auto simp: bit_exp_iff possible_bit_word)

lemma threads_flag: "t < 64 \<Longrightarrow> threads (2 ^ t) = {t}"
  by (simp add: threads_def bit_flag)

lemma ts_only_ok: "t < 64 \<Longrightarrow> \<exists>s. ts_only t = Inr s \<and> threads s = {t}"
  by (simp add: ts_only_def as_flag_ok threads_flag)

lemma bit_mask_u64: "bit (2 ^ n - 1 :: u64) i \<longleftrightarrow> i < n \<and> i < 64"
  by (simp add: mask_eq_exp_minus_1 [symmetric] bit_mask_iff possible_bit_word conj_commute)

lemma ts_any_ok: "n \<le> 64 \<Longrightarrow> \<exists>s. ts_any n = Inr s \<and> threads s = {..<n}"
  by (auto simp: ts_any_def MAX_THREADS_def as_flag_ok threads_def bit_mask_u64 possible_bit_word)

lemma ts_contains_ok: "t < 64 \<Longrightarrow> ts_contains s t = Inr (t \<in> threads s)"
proof -
  assume t: "t < 64"
  have "(s AND 2 ^ t \<noteq> 0) \<longleftrightarrow> bit s t"
    using t by (auto simp: bit_eq_iff [where ?'a = "64 word"] bit_and_iff bit_flag)
  with t show ?thesis by (simp add: ts_contains_def as_flag_ok threads_def)
qed

lemma ts_insert_ok: "t < 64 \<Longrightarrow> \<exists>s'. ts_insert t s = Inr s' \<and> threads s' = insert t (threads s)"
  by (auto simp: ts_insert_def as_flag_ok threads_def bit_or_iff bit_flag)

lemma ts_remove_ok: "t < 64 \<Longrightarrow> \<exists>s'. ts_remove t s = Inr s' \<and> threads s' = threads s - {t}"
  by (auto simp: ts_remove_def as_flag_ok threads_def bit_and_iff bit_not_iff bit_flag
      possible_bit_word bit_u64_lt)

lemma threads_bitand [simp]: "threads (ts_bitand a b) = threads a \<inter> threads b"
  by (auto simp: ts_bitand_def threads_def bit_and_iff)

lemma threads_sub [simp]: "threads (ts_sub a b) = threads a - threads b"
  by (auto simp: ts_sub_def threads_def bit_and_iff bit_not_iff possible_bit_word bit_u64_lt)

lemma contained_threads_iter_ok:
  "contained_threads_iter s = Inr (filter (\<lambda>t. t \<in> threads s) [0..<64])"
  unfolding contained_threads_iter_def MAX_THREADS_def
  by (rule rfilter_pure) (simp add: ts_contains_ok)

lemma contained_threads_iter_set:
  "contained_threads_iter s = Inr ts \<Longrightarrow> set ts = threads s \<and> sorted ts \<and> distinct ts"
  by (auto simp: contained_threads_iter_ok threads_lt sorted_wrt_filter)

lemma ts_num_threads_card: "ts_num_threads s = card (threads s)"
proof -
  have "threads s = set (filter (bit s) [0..<64])"
    by (auto simp: threads_def bit_u64_lt)
  then show ?thesis
    by (simp add: ts_num_threads_def count_ones_def distinct_card del: set_filter)
qed

lemma trailing_zeros_singleton: "threads s = {t} \<Longrightarrow> trailing_zeros s = t"
proof -
  assume s: "threads s = {t}"
  then have t: "t < 64" by (metis insertI1 threads_lt)
  have bits: "bit s i \<longleftrightarrow> i = t" for i using s by (auto simp: threads_def)
  have "[0..<64] = [0..<t] @ [t..<64]"
    using t by (metis le0 less_imp_le upt_add_eq_append le_add_diff_inverse)
  moreover have "[t..<64] = t # [Suc t..<64]" using t by (simp add: upt_conv_Cons)
  ultimately have split: "[0..<64] = [0..<t] @ t # [Suc t..<64]" by simp
  have "takeWhile (\<lambda>i. \<not> bit s i) [0..<64] = [0..<t]"
    unfolding split by (subst takeWhile_append2) (auto simp: bits)
  then show ?thesis by (simp add: trailing_zeros_def)
qed

lemma only_one_contained_iff: "only_one_contained s = Some t \<longleftrightarrow> threads s = {t}"
proof
  assume "only_one_contained s = Some t"
  then have "card (threads s) = 1" and t: "t = trailing_zeros s"
    by (auto simp: only_one_contained_def ts_num_threads_card split: if_splits)
  then obtain u where "threads s = {u}" by (auto simp: card_1_singleton_iff)
  with t show "threads s = {t}" by (simp add: trailing_zeros_singleton)
next
  assume "threads s = {t}"
  then show "only_one_contained s = Some t"
    by (simp add: only_one_contained_def ts_num_threads_card trailing_zeros_singleton)
qed

end
