(* ===== verification/Lock_Interface.thy ===== *)
theory Lock_Interface
  imports Igloo_Prelude
begin

text \<open>
  The contract between the lock table and the scheduler that uses it.

  A \<open>holding\<close> is the set of locks of one transaction in flight: the accounts it writes, the
  accounts it reads, and the thread it runs on.  \<open>held_w\<close> and \<open>held_r\<close> add up the holdings of a
  multiset, and \<open>accounts_for\<close> says that a table holds exactly those locks.

  The locale \<open>counted_locks\<close> states what a table of counted locks promises of its four
  operations: the exact condition under which each returns and its effect on the counts.  From
  that alone it derives what the scheduler needs: taking the locks of a transaction adds its
  holding, releasing them removes it, and no two holdings on different threads conflict.
\<close>

section \<open>Holdings\<close>

type_synonym 'a holding = "'a list \<times> 'a list \<times> nat"

definition held_w :: "'a holding multiset \<Rightarrow> 'a \<Rightarrow> nat \<Rightarrow> nat" where
  "held_w M a t = (\<Sum>(W, R, u) \<in># M. if u = t then count_list W a else 0)"

definition held_r :: "'a holding multiset \<Rightarrow> 'a \<Rightarrow> nat \<Rightarrow> nat" where
  "held_r M a t = (\<Sum>(W, R, u) \<in># M. if u = t then count_list R a else 0)"

definition accounts_for ::
  "('l \<Rightarrow> 'a \<Rightarrow> nat \<Rightarrow> nat) \<Rightarrow> ('l \<Rightarrow> 'a \<Rightarrow> nat \<Rightarrow> nat) \<Rightarrow> 'l \<Rightarrow> 'a holding multiset \<Rightarrow> bool" where
  "accounts_for wc rc L M \<longleftrightarrow> wc L = held_w M \<and> rc L = held_r M"

text \<open>Two transactions conflict when one writes an account the other reads or writes.\<close>

definition conflict :: "'a list \<times> 'a list \<Rightarrow> 'a list \<times> 'a list \<Rightarrow> bool" where
  "conflict x y \<longleftrightarrow>
     (\<exists>a \<in> set (fst x). a \<in> set (fst y) \<or> a \<in> set (snd y)) \<or>
     (\<exists>a \<in> set (snd x). a \<in> set (fst y))"

definition holding_accounts :: "'a holding \<Rightarrow> 'a list \<times> 'a list" where
  "holding_accounts h = (fst h, fst (snd h))"

definition holding_thread :: "'a holding \<Rightarrow> nat" where
  "holding_thread h = snd (snd h)"

lemma held_empty [simp]: "held_w {#} a t = 0" "held_r {#} a t = 0"
  by (simp_all add: held_w_def held_r_def)

lemma held_add [simp]:
  "held_w (add_mset (W, R, u) M) a t = held_w M a t + (if u = t then count_list W a else 0)"
  "held_r (add_mset (W, R, u) M) a t = held_r M a t + (if u = t then count_list R a else 0)"
  by (simp_all add: held_w_def held_r_def)

lemma held_union [simp]:
  "held_w (M + N) a t = held_w M a t + held_w N a t"
  "held_r (M + N) a t = held_r M a t + held_r N a t"
  by (simp_all add: held_w_def held_r_def)

lemma held_pos:
  assumes "(W, R, t) \<in># M"
  shows "a \<in> set W \<Longrightarrow> 0 < held_w M a t" and "a \<in> set R \<Longrightarrow> 0 < held_r M a t"
proof -
  from assms obtain N where "M = add_mset (W, R, t) N" by (meson multi_member_split)
  then show "a \<in> set W \<Longrightarrow> 0 < held_w M a t" "a \<in> set R \<Longrightarrow> 0 < held_r M a t"
    by (auto simp: count_list_pos_iff add_pos_nonneg intro: add_nonneg_pos)
qed

lemma conflict_commute: "conflict x y \<longleftrightarrow> conflict y x"
  by (auto simp: conflict_def)

section \<open>The contract\<close>

definition count_inc :: "('a \<Rightarrow> 'b \<Rightarrow> nat) \<Rightarrow> 'a \<Rightarrow> 'b \<Rightarrow> 'a \<Rightarrow> 'b \<Rightarrow> nat" where
  "count_inc c a t = c(a := (c a)(t := Suc (c a t)))"

definition count_dec :: "('a \<Rightarrow> 'b \<Rightarrow> nat) \<Rightarrow> 'a \<Rightarrow> 'b \<Rightarrow> 'a \<Rightarrow> 'b \<Rightarrow> nat" where
  "count_dec c a t = c(a := (c a)(t := c a t - 1))"

locale counted_locks =
  fixes inv :: "'l \<Rightarrow> bool"
    and width :: "'l \<Rightarrow> nat"
    and wc rc :: "'l \<Rightarrow> 'a \<Rightarrow> nat \<Rightarrow> nat"
    and wlock wunlock rlock runlock :: "nat \<Rightarrow> 'a \<Rightarrow> 'l \<Rightarrow> 'l res"
  assumes exclusive: "inv L \<Longrightarrow> 0 < wc L a t \<Longrightarrow> u \<noteq> t \<Longrightarrow> wc L a u = 0 \<and> rc L a u = 0"
    and wlock_ok: "inv L \<Longrightarrow> t < width L \<Longrightarrow> (\<forall>u. u \<noteq> t \<longrightarrow> wc L a u = 0 \<and> rc L a u = 0) \<Longrightarrow>
      wc L a t < umax 32 \<Longrightarrow>
      \<exists>L'. wlock t a L = Inr L' \<and> inv L' \<and> width L' = width L \<and>
        wc L' = count_inc (wc L) a t \<and> rc L' = rc L"
    and wlock_needs: "inv L \<Longrightarrow> wlock t a L = Inr L' \<Longrightarrow>
      (\<forall>u. u \<noteq> t \<longrightarrow> wc L a u = 0 \<and> rc L a u = 0) \<and> wc L a t < umax 32"
    and rlock_ok: "inv L \<Longrightarrow> t < width L \<Longrightarrow> (\<forall>u. u \<noteq> t \<longrightarrow> wc L a u = 0) \<Longrightarrow>
      rc L a t < umax 32 \<Longrightarrow>
      \<exists>L'. rlock t a L = Inr L' \<and> inv L' \<and> width L' = width L \<and>
        wc L' = wc L \<and> rc L' = count_inc (rc L) a t"
    and rlock_needs: "inv L \<Longrightarrow> rlock t a L = Inr L' \<Longrightarrow>
      (\<forall>u. u \<noteq> t \<longrightarrow> wc L a u = 0) \<and> rc L a t < umax 32"
    and wunlock_ok: "inv L \<Longrightarrow> 0 < wc L a t \<Longrightarrow>
      \<exists>L'. wunlock t a L = Inr L' \<and> inv L' \<and> width L' = width L \<and>
        wc L' = count_dec (wc L) a t \<and> rc L' = rc L"
    and wunlock_needs: "inv L \<Longrightarrow> wunlock t a L = Inr L' \<Longrightarrow> 0 < wc L a t"
    and runlock_ok: "inv L \<Longrightarrow> 0 < rc L a t \<Longrightarrow>
      \<exists>L'. runlock t a L = Inr L' \<and> inv L' \<and> width L' = width L \<and>
        wc L' = wc L \<and> rc L' = count_dec (rc L) a t"
    and runlock_needs: "inv L \<Longrightarrow> runlock t a L = Inr L' \<Longrightarrow> 0 < rc L a t"
begin

lemma wlocks_ok:
  assumes "inv L" "t < width L"
    and "\<forall>a \<in> set W. \<forall>u. u \<noteq> t \<longrightarrow> wc L a u = 0 \<and> rc L a u = 0"
    and "\<forall>a \<in> set W. wc L a t + count_list W a \<le> umax 32"
  shows "\<exists>L'. rfold (wlock t) W L = Inr L' \<and> inv L' \<and> width L' = width L \<and> rc L' = rc L \<and>
           (\<forall>a u. wc L' a u = wc L a u + (if u = t then count_list W a else 0))"
  using assms
proof (induction W arbitrary: L)
  case Nil
  then show ?case by simp
next
  case (Cons a W)
  have "wc L a t + count_list (a # W) a \<le> umax 32" using Cons.prems(4) by simp
  then have "wc L a t < umax 32" by simp
  then obtain L1 where L1: "wlock t a L = Inr L1" "inv L1" "width L1 = width L"
    "wc L1 = count_inc (wc L) a t" "rc L1 = rc L"
    using wlock_ok Cons.prems by (metis list.set_intros(1))
  have "\<exists>L'. rfold (wlock t) W L1 = Inr L' \<and> inv L' \<and> width L' = width L1 \<and> rc L' = rc L1 \<and>
      (\<forall>a u. wc L' a u = wc L1 a u + (if u = t then count_list W a else 0))"
    using Cons.prems L1 by (intro Cons.IH) (auto simp: count_inc_def split: if_splits)
  with L1 show ?case by (auto simp: count_inc_def)
qed

lemma rlocks_ok:
  assumes "inv L" "t < width L" "\<forall>a \<in> set R. \<forall>u. u \<noteq> t \<longrightarrow> wc L a u = 0"
    and "\<forall>a \<in> set R. rc L a t + count_list R a \<le> umax 32"
  shows "\<exists>L'. rfold (rlock t) R L = Inr L' \<and> inv L' \<and> width L' = width L \<and> wc L' = wc L \<and>
           (\<forall>a u. rc L' a u = rc L a u + (if u = t then count_list R a else 0))"
  using assms
proof (induction R arbitrary: L)
  case Nil
  then show ?case by simp
next
  case (Cons a R)
  have "rc L a t + count_list (a # R) a \<le> umax 32" using Cons.prems(4) by simp
  then have "rc L a t < umax 32" by simp
  then obtain L1 where L1: "rlock t a L = Inr L1" "inv L1" "width L1 = width L"
    "wc L1 = wc L" "rc L1 = count_inc (rc L) a t"
    using rlock_ok Cons.prems by (metis list.set_intros(1))
  have "\<exists>L'. rfold (rlock t) R L1 = Inr L' \<and> inv L' \<and> width L' = width L1 \<and> wc L' = wc L1 \<and>
      (\<forall>a u. rc L' a u = rc L1 a u + (if u = t then count_list R a else 0))"
    using Cons.prems L1 by (intro Cons.IH) (auto simp: count_inc_def split: if_splits)
  with L1 show ?case by (auto simp: count_inc_def)
qed

lemma wlocks_run:
  assumes "inv L" "t < width L" "rfold (wlock t) W L = Inr L'"
  shows "inv L' \<and> width L' = width L \<and> rc L' = rc L \<and>
           (\<forall>a u. wc L' a u = wc L a u + (if u = t then count_list W a else 0))"
  using assms
proof (induction W arbitrary: L)
  case Nil
  then show ?case by simp
next
  case (Cons a W)
  then obtain L1 where L1: "wlock t a L = Inr L1" and rest: "rfold (wlock t) W L1 = Inr L'"
    by (auto simp: res_simps)
  then have "inv L1 \<and> width L1 = width L \<and> wc L1 = count_inc (wc L) a t \<and> rc L1 = rc L"
    using wlock_ok [OF Cons.prems(1,2)] wlock_needs [OF Cons.prems(1) L1] by fastforce
  then show ?case using Cons.IH [OF _ _ rest] Cons.prems(2) by (auto simp: count_inc_def)
qed

lemma rlocks_run:
  assumes "inv L" "t < width L" "rfold (rlock t) R L = Inr L'"
  shows "inv L' \<and> width L' = width L \<and> wc L' = wc L \<and>
           (\<forall>a u. rc L' a u = rc L a u + (if u = t then count_list R a else 0))"
  using assms
proof (induction R arbitrary: L)
  case Nil
  then show ?case by simp
next
  case (Cons a R)
  then obtain L1 where L1: "rlock t a L = Inr L1" and rest: "rfold (rlock t) R L1 = Inr L'"
    by (auto simp: res_simps)
  then have "inv L1 \<and> width L1 = width L \<and> wc L1 = wc L \<and> rc L1 = count_inc (rc L) a t"
    using rlock_ok [OF Cons.prems(1,2)] rlock_needs [OF Cons.prems(1) L1] by fastforce
  then show ?case using Cons.IH [OF _ _ rest] Cons.prems(2) by (auto simp: count_inc_def)
qed

lemma wunlocks_ok:
  assumes "inv L" "\<forall>a. count_list W a \<le> wc L a t"
  shows "\<exists>L'. rfold (wunlock t) W L = Inr L' \<and> inv L' \<and> width L' = width L \<and> rc L' = rc L \<and>
           (\<forall>a u. wc L' a u = wc L a u - (if u = t then count_list W a else 0))"
  using assms
proof (induction W arbitrary: L)
  case Nil
  then show ?case by simp
next
  case (Cons a W)
  have "0 < wc L a t" using Cons.prems(2) [rule_format, of a] by simp
  then obtain L1 where L1: "wunlock t a L = Inr L1" "inv L1" "width L1 = width L"
    "wc L1 = count_dec (wc L) a t" "rc L1 = rc L"
    using wunlock_ok Cons.prems by metis
  have "count_list W b \<le> wc L1 b t" for b
    using Cons.prems(2) [rule_format, of b] L1(4) by (auto simp: count_dec_def split: if_splits)
  then have "\<exists>L'. rfold (wunlock t) W L1 = Inr L' \<and> inv L' \<and> width L' = width L1 \<and> rc L' = rc L1 \<and>
      (\<forall>a u. wc L' a u = wc L1 a u - (if u = t then count_list W a else 0))"
    using L1 by (intro Cons.IH) auto
  with L1 show ?case by (auto simp: count_dec_def)
qed

lemma runlocks_ok:
  assumes "inv L" "\<forall>a. count_list R a \<le> rc L a t"
  shows "\<exists>L'. rfold (runlock t) R L = Inr L' \<and> inv L' \<and> width L' = width L \<and> wc L' = wc L \<and>
           (\<forall>a u. rc L' a u = rc L a u - (if u = t then count_list R a else 0))"
  using assms
proof (induction R arbitrary: L)
  case Nil
  then show ?case by simp
next
  case (Cons a R)
  have "0 < rc L a t" using Cons.prems(2) [rule_format, of a] by simp
  then obtain L1 where L1: "runlock t a L = Inr L1" "inv L1" "width L1 = width L"
    "wc L1 = wc L" "rc L1 = count_dec (rc L) a t"
    using runlock_ok Cons.prems by metis
  have "count_list R b \<le> rc L1 b t" for b
    using Cons.prems(2) [rule_format, of b] L1(5) by (auto simp: count_dec_def split: if_splits)
  then have "\<exists>L'. rfold (runlock t) R L1 = Inr L' \<and> inv L' \<and> width L' = width L1 \<and> wc L' = wc L1 \<and>
      (\<forall>a u. rc L' a u = rc L1 a u - (if u = t then count_list R a else 0))"
    using L1 by (intro Cons.IH) auto
  with L1 show ?case by (auto simp: count_dec_def)
qed

lemma wlocks_needs:
  assumes "inv L" "t < width L" "rfold (wlock t) W L = Inr L'"
  shows "(\<forall>a \<in> set W. \<forall>u. u \<noteq> t \<longrightarrow> wc L a u = 0 \<and> rc L a u = 0) \<and>
         (\<forall>a \<in> set W. wc L a t + count_list W a \<le> umax 32)"
  using assms
proof (induction W arbitrary: L)
  case Nil
  then show ?case by simp
next
  case (Cons a W)
  then obtain L1 where L1: "wlock t a L = Inr L1" and rest: "rfold (wlock t) W L1 = Inr L'"
    by (auto simp: res_simps)
  note needs = wlock_needs [OF Cons.prems(1) L1]
  with L1 have "inv L1 \<and> width L1 = width L \<and> wc L1 = count_inc (wc L) a t \<and> rc L1 = rc L"
    using wlock_ok [OF Cons.prems(1,2)] by fastforce
  with Cons.IH [OF _ _ rest] Cons.prems(2) needs show ?case
    by (cases "a \<in> set W") (auto simp: count_inc_def count_notin split: if_splits)
qed

lemma rlocks_needs:
  assumes "inv L" "t < width L" "rfold (rlock t) R L = Inr L'"
  shows "(\<forall>a \<in> set R. \<forall>u. u \<noteq> t \<longrightarrow> wc L a u = 0) \<and>
         (\<forall>a \<in> set R. rc L a t + count_list R a \<le> umax 32)"
  using assms
proof (induction R arbitrary: L)
  case Nil
  then show ?case by simp
next
  case (Cons a R)
  then obtain L1 where L1: "rlock t a L = Inr L1" and rest: "rfold (rlock t) R L1 = Inr L'"
    by (auto simp: res_simps)
  note needs = rlock_needs [OF Cons.prems(1) L1]
  with L1 have "inv L1 \<and> width L1 = width L \<and> wc L1 = wc L \<and> rc L1 = count_inc (rc L) a t"
    using rlock_ok [OF Cons.prems(1,2)] by fastforce
  with Cons.IH [OF _ _ rest] Cons.prems(2) needs show ?case
    by (cases "a \<in> set R") (auto simp: count_inc_def count_notin split: if_splits)
qed

lemma acquire_ok:
  assumes "inv L" "t < width L"
    and "\<forall>a \<in> set W. \<forall>u. u \<noteq> t \<longrightarrow> wc L a u = 0 \<and> rc L a u = 0"
    and "\<forall>a \<in> set R. \<forall>u. u \<noteq> t \<longrightarrow> wc L a u = 0"
    and "\<forall>a \<in> set W. wc L a t + count_list W a \<le> umax 32"
    and "\<forall>a \<in> set R. rc L a t + count_list R a \<le> umax 32"
  shows "\<exists>L'. rbind (rfold (wlock t) W L) (rfold (rlock t) R) = Inr L'"
proof -
  obtain L1 where L1: "rfold (wlock t) W L = Inr L1" "inv L1" "width L1 = width L" "rc L1 = rc L"
    "\<forall>a u. wc L1 a u = wc L a u + (if u = t then count_list W a else 0)"
    using wlocks_ok assms by metis
  have "\<exists>L'. rfold (rlock t) R L1 = Inr L' \<and> inv L' \<and> width L' = width L1 \<and> wc L' = wc L1 \<and>
           (\<forall>a u. rc L' a u = rc L1 a u + (if u = t then count_list R a else 0))"
    using L1 assms by (intro rlocks_ok) auto
  with L1(1) show ?thesis by auto
qed

lemma acquire_needs:
  assumes "inv L" "t < width L" "rbind (rfold (wlock t) W L) (rfold (rlock t) R) = Inr L'"
  shows "(\<forall>a \<in> set W. \<forall>u. u \<noteq> t \<longrightarrow> wc L a u = 0 \<and> rc L a u = 0) \<and>
         (\<forall>a \<in> set R. \<forall>u. u \<noteq> t \<longrightarrow> wc L a u = 0) \<and>
         (\<forall>a \<in> set W. wc L a t + count_list W a \<le> umax 32) \<and>
         (\<forall>a \<in> set R. rc L a t + count_list R a \<le> umax 32)"
proof -
  from assms(3) obtain L1 where run: "rfold (wlock t) W L = Inr L1" "rfold (rlock t) R L1 = Inr L'"
    by (auto simp: res_simps)
  have w: "inv L1 \<and> width L1 = width L \<and> rc L1 = rc L \<and>
      (\<forall>a u. wc L1 a u = wc L a u + (if u = t then count_list W a else 0))"
    by (rule wlocks_run [OF assms(1,2) run(1)])
  with rlocks_needs [OF _ _ run(2)] assms(2) have
    "(\<forall>a \<in> set R. \<forall>u. u \<noteq> t \<longrightarrow> wc L a u = 0) \<and> (\<forall>a \<in> set R. rc L a t + count_list R a \<le> umax 32)"
    by simp
  with wlocks_needs [OF assms(1,2) run(1)] show ?thesis by blast
qed

lemma acquire_run:
  assumes "inv L" "accounts_for wc rc L M" "t < width L"
    and "rbind (rfold (wlock t) W L) (rfold (rlock t) R) = Inr L'"
  shows "inv L' \<and> width L' = width L \<and> accounts_for wc rc L' (add_mset (W, R, t) M)"
proof -
  from assms(4) obtain L1 where run: "rfold (wlock t) W L = Inr L1" "rfold (rlock t) R L1 = Inr L'"
    by (auto simp: res_simps)
  note w = wlocks_run [OF assms(1,3) run(1)]
  with rlocks_run [OF _ _ run(2)] assms(3) show ?thesis
    using assms(2) by (auto simp: accounts_for_def fun_eq_iff)
qed

lemma release_ok:
  assumes "inv L" "accounts_for wc rc L M" "(W, R, t) \<in># M"
  shows "\<exists>L'. rbind (rfold (wunlock t) W L) (rfold (runlock t) R) = Inr L' \<and>
           inv L' \<and> width L' = width L \<and> accounts_for wc rc L' (M - {#(W, R, t)#})"
proof -
  obtain N where M: "M = add_mset (W, R, t) N" using assms(3) by (meson multi_member_split)
  have "\<forall>a. count_list W a \<le> wc L a t" using assms(2) by (simp add: accounts_for_def M)
  then obtain L1 where L1: "rfold (wunlock t) W L = Inr L1" "inv L1" "width L1 = width L"
    "rc L1 = rc L" "\<forall>a u. wc L1 a u = wc L a u - (if u = t then count_list W a else 0)"
    using wunlocks_ok [OF assms(1)] by metis
  have "\<forall>a. count_list R a \<le> rc L1 a t" using assms(2) L1(4) by (simp add: accounts_for_def M)
  then obtain L2 where "rfold (runlock t) R L1 = Inr L2" "inv L2" "width L2 = width L1"
    "wc L2 = wc L1" "\<forall>a u. rc L2 a u = rc L1 a u - (if u = t then count_list R a else 0)"
    using runlocks_ok [OF L1(2)] by metis
  with L1 assms(2) show ?thesis by (auto simp: accounts_for_def M fun_eq_iff)
qed

lemma no_conflict:
  assumes "inv L" "accounts_for wc rc L M" "x \<in># M" "y \<in># M" "holding_thread x \<noteq> holding_thread y"
  shows "\<not> conflict (holding_accounts x) (holding_accounts y)"
proof -
  obtain W R t W' R' t' where x: "x = (W, R, t)" and y: "y = (W', R', t')" by (cases x, cases y)
  have ne: "t \<noteq> t'" using assms(5) by (simp add: x y holding_thread_def)
  have pos: "a \<in> set W \<Longrightarrow> 0 < wc L a t" "a \<in> set W' \<Longrightarrow> 0 < wc L a t'"
    "a \<in> set R \<Longrightarrow> 0 < rc L a t" "a \<in> set R' \<Longrightarrow> 0 < rc L a t'" for a
    using assms(2,3,4) held_pos by (auto simp: accounts_for_def x y)
  have "a \<in> set W \<Longrightarrow> a \<notin> set W' \<and> a \<notin> set R'" for a
    using pos exclusive [OF assms(1), of a t t'] ne by (metis less_irrefl)
  moreover have "a \<in> set R \<Longrightarrow> a \<notin> set W'" for a
    using pos exclusive [OF assms(1), of a t' t] ne by (metis less_irrefl)
  ultimately show ?thesis by (auto simp: conflict_def holding_accounts_def x y)
qed

end

end
