(* ===== verification/Account_Locks.thy ===== *)
theory Account_Locks
  imports Thread_Set Lock_Interface
begin

text \<open>
  \<^verbatim>\<open>ThreadAwareAccountLocks\<close> of
  \<^verbatim>\<open>scheduler/src/impls/prio_graph_scheduler/thread_aware_account_locks.rs\<close>: the table of account
  locks the scheduler takes for a transaction on one worker thread.  A write lock belongs to one
  thread and counts how often that thread took it; read locks are counted per thread.

  \<open>wcount\<close> and \<open>rcount\<close> abstract a table to the number of write and read locks a thread holds on
  an account, and \<open>locks_inv\<close> is the representation invariant.  Under it a table is determined
  by its counts, the operations are characterised by their effect on the counts, and the threads
  the table offers are exactly those on which the locks can be taken.
\<close>

section \<open>State\<close>

record account_write_locks =
  wl_thread_id :: thread_id
  wl_lock_count :: nat

record account_read_locks =
  rl_thread_set :: thread_set
  rl_lock_counts :: "nat list"

record account_locks =
  al_write :: "account_write_locks option"
  al_read :: "account_read_locks option"

record lock_table =
  num_threads :: nat
  locks :: "pubkey \<rightharpoonup> account_locks"

abbreviation no_locks :: account_locks where
  "no_locks \<equiv> \<lparr>al_write = None, al_read = None\<rparr>"

definition entry_or_default :: "pubkey \<Rightarrow> lock_table \<Rightarrow> account_locks" where
  "entry_or_default a L = (case locks L a of Some e \<Rightarrow> e | None \<Rightarrow> no_locks)"

definition put_entry :: "pubkey \<Rightarrow> account_locks option \<Rightarrow> lock_table \<Rightarrow> lock_table" where
  "put_entry a e L = L\<lparr>locks := (locks L)(a := e)\<rparr>"

section \<open>Operations\<close>

definition new_lock_table :: "nat \<Rightarrow> lock_table res" where
  "new_lock_table n =
     rbind (rassert (n > 0) ''num threads must be > 0'') (\<lambda>_.
     rbind (rassert (n \<le> MAX_THREADS) ''num threads must be <= MAX_THREADS'') (\<lambda>_.
     Inr \<lparr>num_threads = n, locks = Map.empty\<rparr>))"

definition write_lock_account :: "thread_id \<Rightarrow> pubkey \<Rightarrow> lock_table \<Rightarrow> lock_table res" where
  "write_lock_account t a L =
     (let e = entry_or_default a L in
      rbind (case al_read e of
               Some r \<Rightarrow> rassert (only_one_contained (rl_thread_set r) = Some t)
                           ''outstanding read lock must be on same thread''
             | None \<Rightarrow> Inr ()) (\<lambda>_.
      rbind (case al_write e of
               Some w \<Rightarrow>
                 rbind (rassert (wl_thread_id w = t)
                          ''outstanding write lock must be on same thread'') (\<lambda>_.
                 rbind (checked_add 32 (wl_lock_count w) 1) (\<lambda>c.
                 Inr (w\<lparr>wl_lock_count := c\<rparr>)))
             | None \<Rightarrow> Inr \<lparr>wl_thread_id = t, wl_lock_count = 1\<rparr>) (\<lambda>w.
      Inr (put_entry a (Some (e\<lparr>al_write := Some w\<rparr>)) L))))"

definition write_unlock_account :: "thread_id \<Rightarrow> pubkey \<Rightarrow> lock_table \<Rightarrow> lock_table res" where
  "write_unlock_account t a L =
     (case locks L a of
        None \<Rightarrow> Inl (ExplicitPanic ''write lock must exist for account'')
      | Some e \<Rightarrow>
          (case al_write e of
             None \<Rightarrow> Inl (ExplicitPanic ''write lock must exist for account'')
           | Some w \<Rightarrow>
               rbind (rassert (wl_thread_id w = t)
                        ''outstanding write lock must be on same thread'') (\<lambda>_.
               rbind (checked_sub (wl_lock_count w) 1) (\<lambda>c.
               Inr (if c = 0
                    then (if al_read e = None then put_entry a None L
                          else put_entry a (Some (e\<lparr>al_write := None\<rparr>)) L)
                    else put_entry a (Some (e\<lparr>al_write := Some (w\<lparr>wl_lock_count := c\<rparr>)\<rparr>)) L)))))"

definition read_lock_account :: "thread_id \<Rightarrow> pubkey \<Rightarrow> lock_table \<Rightarrow> lock_table res" where
  "read_lock_account t a L =
     (let e = entry_or_default a L in
      rbind (case al_write e of
               Some w \<Rightarrow> rassert (wl_thread_id w = t)
                           ''outstanding write lock must be on same thread''
             | None \<Rightarrow> Inr ()) (\<lambda>_.
      rbind (case al_read e of
               Some r \<Rightarrow>
                 rbind (ts_insert t (rl_thread_set r)) (\<lambda>s.
                 rbind (rmodify t (\<lambda>c. checked_add 32 c 1) (rl_lock_counts r)) (\<lambda>cs.
                 Inr \<lparr>rl_thread_set = s, rl_lock_counts = cs\<rparr>))
             | None \<Rightarrow>
                 rbind (rmodify t (\<lambda>_. Inr 1) (replicate MAX_THREADS 0)) (\<lambda>cs.
                 rbind (ts_only t) (\<lambda>s.
                 Inr \<lparr>rl_thread_set = s, rl_lock_counts = cs\<rparr>))) (\<lambda>r.
      Inr (put_entry a (Some (e\<lparr>al_read := Some r\<rparr>)) L))))"

definition read_unlock_account :: "thread_id \<Rightarrow> pubkey \<Rightarrow> lock_table \<Rightarrow> lock_table res" where
  "read_unlock_account t a L =
     (case locks L a of
        None \<Rightarrow> Inl (ExplicitPanic ''read lock must exist for account'')
      | Some e \<Rightarrow>
          (case al_read e of
             None \<Rightarrow> Inl (ExplicitPanic ''read lock must exist for account'')
           | Some r \<Rightarrow>
               rbind (ts_contains (rl_thread_set r) t) (\<lambda>held.
               rbind (rassert held ''outstanding read lock must be on same thread'') (\<lambda>_.
               rbind (rmodify t (\<lambda>c. checked_sub c 1) (rl_lock_counts r)) (\<lambda>cs.
               rbind (rindex cs t) (\<lambda>c.
               if c = 0
               then rbind (ts_remove t (rl_thread_set r)) (\<lambda>s.
                    Inr (if ts_is_empty s
                         then (if al_write e = None then put_entry a None L
                               else put_entry a (Some (e\<lparr>al_read := None\<rparr>)) L)
                         else put_entry a
                                (Some (e\<lparr>al_read := Some \<lparr>rl_thread_set = s, rl_lock_counts = cs\<rparr>\<rparr>))
                                L))
               else Inr (put_entry a
                           (Some (e\<lparr>al_read := Some (r\<lparr>rl_lock_counts := cs\<rparr>)\<rparr>)) L)))))))"

definition lock_accounts ::
  "pubkey list \<Rightarrow> pubkey list \<Rightarrow> thread_id \<Rightarrow> lock_table \<Rightarrow> lock_table res" where
  "lock_accounts W R t L =
     rbind (rassert (t < num_threads L) ''thread_id must be < num_threads'') (\<lambda>_.
     rbind (rfold (write_lock_account t) W L) (rfold (read_lock_account t) R))"

definition unlock_accounts ::
  "pubkey list \<Rightarrow> pubkey list \<Rightarrow> thread_id \<Rightarrow> lock_table \<Rightarrow> lock_table res" where
  "unlock_accounts W R t L =
     rbind (rfold (write_unlock_account t) W L) (rfold (read_unlock_account t) R)"

text \<open>The Rust function has the access mode as a constant parameter.\<close>

definition schedulable_threads :: "bool \<Rightarrow> lock_table \<Rightarrow> pubkey \<Rightarrow> thread_set res" where
  "schedulable_threads wr L a =
     (case locks L a of
        None \<Rightarrow> ts_any (num_threads L)
      | Some e \<Rightarrow>
          (case (al_write e, al_read e) of
             (None, Some r) \<Rightarrow>
               if wr
               then (case only_one_contained (rl_thread_set r) of
                       Some t \<Rightarrow> ts_only t | None \<Rightarrow> Inr ts_none)
               else ts_any (num_threads L)
           | (Some w, None) \<Rightarrow> ts_only (wl_thread_id w)
           | (Some w, Some r) \<Rightarrow>
               rbind (rassert (only_one_contained (rl_thread_set r) = Some (wl_thread_id w))
                        ''assertion left == right failed'') (\<lambda>_.
               Inr (rl_thread_set r))
           | (None, None) \<Rightarrow> Inl UnreachableCode))"

definition read_schedulable_threads :: "lock_table \<Rightarrow> pubkey \<Rightarrow> thread_set res" where
  "read_schedulable_threads = schedulable_threads False"

definition write_schedulable_threads :: "lock_table \<Rightarrow> pubkey \<Rightarrow> thread_set res" where
  "write_schedulable_threads = schedulable_threads True"

text \<open>
  The two loops of \<^verbatim>\<open>accounts_schedulable_threads\<close>: intersect the threads of one account after
  the other, and return early when none is left.
\<close>

fun intersect_threads ::
  "(pubkey \<Rightarrow> thread_set res) \<Rightarrow> pubkey list \<Rightarrow> thread_set \<Rightarrow> thread_set option res" where
  "intersect_threads f [] s = Inr (Some s)"
| "intersect_threads f (a # as) s =
     rbind (f a) (\<lambda>p.
       let s' = ts_bitand s p
       in if ts_is_empty s' then Inr None else intersect_threads f as s')"

definition accounts_schedulable_threads ::
  "pubkey list \<Rightarrow> pubkey list \<Rightarrow> lock_table \<Rightarrow> thread_set option res" where
  "accounts_schedulable_threads W R L =
     rbind (ts_any (num_threads L)) (\<lambda>s.
     rbind (intersect_threads (write_schedulable_threads L) W s) (\<lambda>o1.
       case o1 of
         None \<Rightarrow> Inr None
       | Some s' \<Rightarrow> intersect_threads (read_schedulable_threads L) R s'))"

definition try_lock_accounts ::
  "pubkey list \<Rightarrow> pubkey list \<Rightarrow> thread_set \<Rightarrow> (thread_set \<Rightarrow> thread_id res) \<Rightarrow> lock_table
     \<Rightarrow> (thread_id option \<times> lock_table) res" where
  "try_lock_accounts W R allowed thread_selector L =
     rbind (accounts_schedulable_threads W R L) (\<lambda>o1.
       case o1 of
         None \<Rightarrow> Inr (None, L)
       | Some s0 \<Rightarrow>
           (let s = ts_bitand s0 allowed in
            if ts_is_empty s then Inr (None, L)
            else rbind (thread_selector s) (\<lambda>t.
                 rbind (lock_accounts W R t L) (\<lambda>L'.
                 Inr (Some t, L')))))"

section \<open>Abstraction and invariant\<close>

definition entry_wcount :: "account_locks \<Rightarrow> thread_id \<Rightarrow> nat" where
  "entry_wcount e t =
     (case al_write e of None \<Rightarrow> 0 | Some w \<Rightarrow> if wl_thread_id w = t then wl_lock_count w else 0)"

definition entry_rcount :: "account_locks \<Rightarrow> thread_id \<Rightarrow> nat" where
  "entry_rcount e t =
     (case al_read e of None \<Rightarrow> 0 | Some r \<Rightarrow> if t < 64 then rl_lock_counts r ! t else 0)"

definition wcount :: "lock_table \<Rightarrow> pubkey \<Rightarrow> thread_id \<Rightarrow> nat" where
  "wcount L a t = (case locks L a of None \<Rightarrow> 0 | Some e \<Rightarrow> entry_wcount e t)"

definition rcount :: "lock_table \<Rightarrow> pubkey \<Rightarrow> thread_id \<Rightarrow> nat" where
  "rcount L a t = (case locks L a of None \<Rightarrow> 0 | Some e \<Rightarrow> entry_rcount e t)"

definition write_locks_ok :: "nat \<Rightarrow> account_write_locks \<Rightarrow> bool" where
  "write_locks_ok n w \<longleftrightarrow> wl_thread_id w < n \<and> 0 < wl_lock_count w \<and> wl_lock_count w \<le> umax 32"

definition read_locks_ok :: "nat \<Rightarrow> account_read_locks \<Rightarrow> bool" where
  "read_locks_ok n r \<longleftrightarrow>
     length (rl_lock_counts r) = 64 \<and> (\<forall>c \<in> set (rl_lock_counts r). c \<le> umax 32) \<and>
     threads (rl_thread_set r) = {t. t < 64 \<and> 0 < rl_lock_counts r ! t} \<and>
     threads (rl_thread_set r) \<noteq> {} \<and> threads (rl_thread_set r) \<subseteq> {..<n}"

definition entry_ok :: "nat \<Rightarrow> account_locks \<Rightarrow> bool" where
  "entry_ok n e \<longleftrightarrow>
     (al_write e \<noteq> None \<or> al_read e \<noteq> None) \<and>
     (\<forall>w. al_write e = Some w \<longrightarrow> write_locks_ok n w) \<and>
     (\<forall>r. al_read e = Some r \<longrightarrow> read_locks_ok n r) \<and>
     (\<forall>w r. al_write e = Some w \<longrightarrow> al_read e = Some r \<longrightarrow>
        threads (rl_thread_set r) = {wl_thread_id w})"

definition locks_inv :: "lock_table \<Rightarrow> bool" where
  "locks_inv L \<longleftrightarrow>
     0 < num_threads L \<and> num_threads L \<le> 64 \<and> finite (dom (locks L)) \<and>
     (\<forall>a e. locks L a = Some e \<longrightarrow> entry_ok (num_threads L) e)"

text \<open>When a thread may take one more write or read lock of an account.\<close>

definition write_free :: "lock_table \<Rightarrow> pubkey \<Rightarrow> thread_id \<Rightarrow> bool" where
  "write_free L a t \<longleftrightarrow> (\<forall>u. u \<noteq> t \<longrightarrow> wcount L a u = 0 \<and> rcount L a u = 0)"

definition read_free :: "lock_table \<Rightarrow> pubkey \<Rightarrow> thread_id \<Rightarrow> bool" where
  "read_free L a t \<longleftrightarrow> (\<forall>u. u \<noteq> t \<longrightarrow> wcount L a u = 0)"

section \<open>The counts determine the table\<close>

lemmas count_defs = wcount_def rcount_def entry_wcount_def entry_rcount_def
lemmas ok_defs = entry_ok_def write_locks_ok_def read_locks_ok_def

lemma locks_inv_entry: "locks_inv L \<Longrightarrow> locks L a = Some e \<Longrightarrow> entry_ok (num_threads L) e"
  by (simp add: locks_inv_def)

lemma locks_inv_num_threads: "locks_inv L \<Longrightarrow> 0 < num_threads L \<and> num_threads L \<le> 64"
  by (simp add: locks_inv_def)

lemma entry_wcount_pos: "entry_ok n e \<Longrightarrow>
    0 < entry_wcount e t \<longleftrightarrow> (\<exists>w. al_write e = Some w \<and> wl_thread_id w = t)"
  by (auto simp: entry_wcount_def ok_defs split: option.splits)

lemma entry_rcount_pos: "entry_ok n e \<Longrightarrow>
    0 < entry_rcount e t \<longleftrightarrow> (\<exists>r. al_read e = Some r \<and> t \<in> threads (rl_thread_set r))"
  by (auto simp: entry_rcount_def ok_defs split: option.splits if_splits)

lemma entry_ok_excl: "entry_ok n e \<Longrightarrow> 0 < entry_wcount e t \<Longrightarrow> u \<noteq> t \<Longrightarrow>
    entry_wcount e u = 0 \<and> entry_rcount e u = 0"
proof -
  assume e: "entry_ok n e" "0 < entry_wcount e t" and u: "u \<noteq> t"
  then obtain w where w: "al_write e = Some w" "wl_thread_id w = t"
    by (auto simp: entry_wcount_pos)
  then have "\<not> 0 < entry_rcount e u"
    unfolding entry_rcount_pos [OF e(1)] using e(1) u by (auto simp: entry_ok_def)
  with w u show "entry_wcount e u = 0 \<and> entry_rcount e u = 0" by (simp add: entry_wcount_def)
qed

lemma entry_ok_held: "entry_ok n e \<Longrightarrow> \<exists>t<n. 0 < entry_wcount e t \<or> 0 < entry_rcount e t"
proof -
  assume e: "entry_ok n e"
  then consider w where "al_write e = Some w" "wl_thread_id w < n"
    | r t where "al_read e = Some r" "t \<in> threads (rl_thread_set r)" "t < n"
    by (fastforce simp: ok_defs)
  then show ?thesis
    by cases (use e in \<open>auto simp: entry_wcount_pos entry_rcount_pos\<close>)
qed

text \<open>
  A write-locked account is held by no other thread, in either mode: the exclusion the locks are
  for.
\<close>

lemma locks_exclusive: "locks_inv L \<Longrightarrow> 0 < wcount L a t \<Longrightarrow> u \<noteq> t \<Longrightarrow>
    wcount L a u = 0 \<and> rcount L a u = 0"
  by (auto simp: wcount_def rcount_def dest: locks_inv_entry entry_ok_excl split: option.splits)

lemma count_bounds:
  assumes "locks_inv L"
  shows "wcount L a t \<le> umax 32" and "rcount L a t \<le> umax 32"
    and "num_threads L \<le> t \<Longrightarrow> wcount L a t = 0 \<and> rcount L a t = 0"
proof -
  show "wcount L a t \<le> umax 32" "rcount L a t \<le> umax 32"
    using assms by (auto simp: count_defs ok_defs dest: locks_inv_entry split: option.splits)
  show "num_threads L \<le> t \<Longrightarrow> wcount L a t = 0 \<and> rcount L a t = 0"
    using assms
    by (force simp: count_defs ok_defs dest: locks_inv_entry split: option.splits)
qed

lemma write_locks_canonical:
  assumes "entry_ok n e" "entry_ok n' e'" and w: "\<And>t. entry_wcount e t = entry_wcount e' t"
  shows "al_write e = al_write e'"
proof (cases "al_write e")
  case None
  then have "entry_wcount e' t = 0" for t using w [of t] by (simp add: entry_wcount_def)
  with None show ?thesis using entry_wcount_pos [OF assms(2)] by (metis less_irrefl not_Some_eq)
next
  case (Some x)
  then have "0 < entry_wcount e (wl_thread_id x)" using entry_wcount_pos [OF assms(1)] by blast
  then obtain y where y: "al_write e' = Some y" "wl_thread_id y = wl_thread_id x"
    using w entry_wcount_pos [OF assms(2)] by metis
  have "wl_lock_count y = wl_lock_count x"
    using w [of "wl_thread_id x"] y Some by (simp add: entry_wcount_def)
  with y Some show ?thesis by simp
qed

lemma read_locks_canonical:
  assumes "entry_ok n e" "entry_ok n' e'" and r: "\<And>t. entry_rcount e t = entry_rcount e' t"
  shows "al_read e = al_read e'"
proof (cases "al_read e")
  case None
  then have "entry_rcount e' t = 0" for t using r [of t] by (simp add: entry_rcount_def)
  then have "\<not> (\<exists>x. al_read e' = Some x \<and> t \<in> threads (rl_thread_set x))" for t
    using entry_rcount_pos [OF assms(2)] by (metis less_irrefl)
  with None assms(2) show ?thesis by (cases "al_read e'") (auto simp: ok_defs)
next
  case (Some x)
  with assms(1) obtain t where "t \<in> threads (rl_thread_set x)" by (auto simp: ok_defs)
  with Some have "0 < entry_rcount e t" using entry_rcount_pos [OF assms(1)] by blast
  then obtain y where y: "al_read e' = Some y" using r entry_rcount_pos [OF assms(2)] by metis
  have len: "length (rl_lock_counts x) = 64" "length (rl_lock_counts y) = 64"
    using assms(1,2) Some y by (auto simp: ok_defs)
  have "rl_lock_counts x ! i = rl_lock_counts y ! i" if "i < 64" for i
    using r [of i] Some y that by (simp add: entry_rcount_def)
  then have counts: "rl_lock_counts x = rl_lock_counts y" using len by (simp add: nth_equalityI)
  moreover have "threads (rl_thread_set x) = threads (rl_thread_set y)"
    using assms(1,2) Some y counts by (auto simp: ok_defs)
  ultimately show ?thesis using Some y by (simp add: threads_inject)
qed

lemma lock_table_canonical:
  assumes "locks_inv L" "locks_inv L'" "num_threads L = num_threads L'"
    and "wcount L = wcount L'" "rcount L = rcount L'"
  shows "L = L'"
proof -
  have "locks L a = locks L' a" for a
  proof -
    have w: "wcount L a t = wcount L' a t" and r: "rcount L a t = rcount L' a t" for t
      using assms(4,5) by simp_all
    show ?thesis
    proof (cases "locks L a"; cases "locks L' a")
      fix e e'
      assume e: "locks L a = Some e" "locks L' a = Some e'"
      then have ok: "entry_ok (num_threads L) e" "entry_ok (num_threads L') e'"
        using assms(1,2) locks_inv_entry by auto
      have "entry_wcount e t = entry_wcount e' t" "entry_rcount e t = entry_rcount e' t" for t
        using w [of t] r [of t] e by (simp_all add: wcount_def rcount_def)
      then have "e = e'"
        using write_locks_canonical [OF ok] read_locks_canonical [OF ok] by simp
      with e show ?thesis by simp
    qed (use w r assms(1,2) in \<open>force simp: wcount_def rcount_def dest: locks_inv_entry entry_ok_held\<close>)+
  qed
  then show ?thesis using assms(3) by (simp add: ext)
qed

section \<open>Locking and unlocking one account\<close>

lemma num_threads_put [simp]: "num_threads (put_entry a x L) = num_threads L"
  by (simp add: put_entry_def)

lemma wcount_put: "wcount (put_entry a x L) =
    (wcount L)(a := (case x of None \<Rightarrow> (\<lambda>_. 0) | Some e \<Rightarrow> entry_wcount e))"
  by (auto simp: wcount_def put_entry_def fun_eq_iff split: option.splits)

lemma rcount_put: "rcount (put_entry a x L) =
    (rcount L)(a := (case x of None \<Rightarrow> (\<lambda>_. 0) | Some e \<Rightarrow> entry_rcount e))"
  by (auto simp: rcount_def put_entry_def fun_eq_iff split: option.splits)

lemma locks_inv_put: "locks_inv L \<Longrightarrow> pred_option (entry_ok (num_threads L)) x \<Longrightarrow>
    locks_inv (put_entry a x L)"
  by (auto simp: locks_inv_def put_entry_def split: if_splits)

lemma entry_or_default_counts:
  "wcount L a = entry_wcount (entry_or_default a L)"
  "rcount L a = entry_rcount (entry_or_default a L)"
  by (auto simp: fun_eq_iff count_defs entry_or_default_def split: option.splits)

lemma entry_or_default_cases:
  assumes "locks_inv L"
  obtains "entry_or_default a L = no_locks" "locks L a = None"
  | e where "entry_or_default a L = e" "locks L a = Some e" "entry_ok (num_threads L) e"
  using locks_inv_entry [OF assms]
  by (cases "locks L a") (auto simp: entry_or_default_def)

text \<open>The invariant of an entry that is present, or of the default.\<close>

definition entry_weak :: "nat \<Rightarrow> account_locks \<Rightarrow> bool" where
  "entry_weak n e \<longleftrightarrow> e = no_locks \<or> entry_ok n e"

lemma entry_or_default_weak: "locks_inv L \<Longrightarrow> entry_weak (num_threads L) (entry_or_default a L)"
  by (auto simp: entry_weak_def elim: entry_or_default_cases [of L a])

lemma entry_weakD:
  assumes "entry_weak n e"
  shows "al_write e = Some w \<Longrightarrow> write_locks_ok n w"
    and "al_read e = Some r \<Longrightarrow> read_locks_ok n r"
    and "al_write e = Some w \<Longrightarrow> al_read e = Some r \<Longrightarrow> threads (rl_thread_set r) = {wl_thread_id w}"
  using assms by (auto simp: entry_weak_def entry_ok_def)

lemma entry_ok_write:
  assumes "entry_weak n e" "write_locks_ok n w"
    and "\<And>r. al_read e = Some r \<Longrightarrow> threads (rl_thread_set r) = {wl_thread_id w}"
  shows "entry_ok n (e\<lparr>al_write := Some w\<rparr>)"
  using assms by (auto simp: entry_weak_def entry_ok_def)

lemma entry_ok_read:
  assumes "entry_weak n e" "read_locks_ok n r"
    and "\<And>w. al_write e = Some w \<Longrightarrow> threads (rl_thread_set r) = {wl_thread_id w}"
  shows "entry_ok n (e\<lparr>al_read := Some r\<rparr>)"
  using assms by (auto simp: entry_weak_def entry_ok_def)

lemma entry_counts_update [simp]:
  "entry_rcount (e\<lparr>al_write := x\<rparr>) = entry_rcount e"
  "entry_wcount (e\<lparr>al_read := y\<rparr>) = entry_wcount e"
  "entry_wcount (e\<lparr>al_write := Some w\<rparr>) = (\<lambda>_. 0)(wl_thread_id w := wl_lock_count w)"
  "entry_wcount (e\<lparr>al_write := None\<rparr>) = (\<lambda>_. 0)"
  "entry_rcount (e\<lparr>al_read := None\<rparr>) = (\<lambda>_. 0)"
  by (auto simp: entry_rcount_def entry_wcount_def fun_eq_iff)

lemma entry_rcount_set:
  "entry_rcount (e\<lparr>al_read := Some r\<rparr>) t = (if t < 64 then rl_lock_counts r ! t else 0)"
  by (simp add: entry_rcount_def)

lemma entry_wcount_None: "al_write e = None \<Longrightarrow> entry_wcount e = (\<lambda>_. 0)"
  by (auto simp: entry_wcount_def)

lemma entry_rcount_None: "al_read e = None \<Longrightarrow> entry_rcount e = (\<lambda>_. 0)"
  by (auto simp: entry_rcount_def)

lemma only_owner:
  assumes "entry_weak n e" "\<And>u. u \<noteq> t \<Longrightarrow> entry_wcount e u = 0" "al_write e = Some y"
  shows "wl_thread_id y = t"
proof -
  have "0 < entry_wcount e (wl_thread_id y)"
    using entry_weakD(1) [OF assms(1,3)] assms(3) by (simp add: entry_wcount_def write_locks_ok_def)
  then show ?thesis using assms(2) by (metis less_irrefl)
qed

lemma only_reader:
  assumes "entry_weak n e" "\<And>u. u \<noteq> t \<Longrightarrow> entry_rcount e u = 0" "al_read e = Some x"
  shows "threads (rl_thread_set x) = {t}"
proof -
  have ok: "read_locks_ok n x" using entry_weakD(2) [OF assms(1,3)] .
  have "u = t" if "u \<in> threads (rl_thread_set x)" for u
    using that assms(2,3) ok threads_lt [OF that] by (force simp: entry_rcount_def read_locks_ok_def)
  with ok show ?thesis by (auto simp: read_locks_ok_def)
qed

lemma write_lock_account_run:
  fixes a t L
  defines "e \<equiv> entry_or_default a L"
  assumes owner: "\<And>y. al_write e = Some y \<Longrightarrow> wl_thread_id y = t"
    and reads: "\<And>x. al_read e = Some x \<Longrightarrow> threads (rl_thread_set x) = {t}"
    and room: "entry_wcount e t < umax 32"
  shows "write_lock_account t a L = Inr (put_entry a (Some (e\<lparr>al_write :=
    Some \<lparr>wl_thread_id = t, wl_lock_count = Suc (entry_wcount e t)\<rparr>\<rparr>)) L)"
proof (cases "al_write e")
  case None
  then show ?thesis
    using reads
    by (auto simp: write_lock_account_def e_def [symmetric] rassert_def only_one_contained_iff
        entry_wcount_def split: option.splits)
next
  case (Some y)
  then have y: "wl_thread_id y = t" "wl_lock_count y = entry_wcount e t"
    using owner by (auto simp: entry_wcount_def)
  have "checked_add 32 (wl_lock_count y) 1 = Inr (Suc (entry_wcount e t))"
    using room y by (simp add: checked_add_def)
  moreover define w where "w = \<lparr>wl_thread_id = t, wl_lock_count = Suc (entry_wcount e t)\<rparr>"
  moreover have "y\<lparr>wl_lock_count := Suc (entry_wcount e t)\<rparr> = w"
    using y by (cases y) (simp add: w_def)
  ultimately show ?thesis
    unfolding w_def [symmetric] using reads Some y(1)
    by (auto simp: write_lock_account_def e_def [symmetric] rassert_def only_one_contained_iff
        split: option.splits)
qed

lemma write_lock_account_ok:
  assumes inv: "locks_inv L" and t: "t < num_threads L"
    and free: "write_free L a t" and room: "wcount L a t < umax 32"
  shows "\<exists>L'. write_lock_account t a L = Inr L' \<and> locks_inv L' \<and> num_threads L' = num_threads L \<and>
           wcount L' = count_inc (wcount L) a t \<and> rcount L' = rcount L"
proof -
  define e where "e = entry_or_default a L"
  have weak: "entry_weak (num_threads L) e" using entry_or_default_weak [OF inv] by (simp add: e_def)
  have w: "wcount L a = entry_wcount e" and r: "rcount L a = entry_rcount e"
    by (simp_all add: e_def entry_or_default_counts)
  have zero: "entry_wcount e u = 0" "entry_rcount e u = 0" if "u \<noteq> t" for u
    using free that w r by (simp_all add: write_free_def)
  note owner = only_owner [OF weak zero(1)] and reads = only_reader [OF weak zero(2)]
  define w' where "w' = \<lparr>wl_thread_id = t, wl_lock_count = Suc (wcount L a t)\<rparr>"
  have run: "write_lock_account t a L = Inr (put_entry a (Some (e\<lparr>al_write := Some w'\<rparr>)) L)"
    using write_lock_account_run [of a L t] owner reads room w by (simp add: e_def w'_def)
  have "write_locks_ok (num_threads L) w'" using t room by (simp add: w'_def write_locks_ok_def)
  then have "entry_ok (num_threads L) (e\<lparr>al_write := Some w'\<rparr>)"
    using entry_ok_write [OF weak] reads by (simp add: w'_def)
  then have "locks_inv (put_entry a (Some (e\<lparr>al_write := Some w'\<rparr>)) L)"
    using inv by (simp add: locks_inv_put)
  then show ?thesis
    using run r w zero by (auto simp: wcount_put rcount_put count_inc_def w'_def fun_eq_iff)
qed

lemma write_unlock_account_ok:
  assumes inv: "locks_inv L" and held: "0 < wcount L a t"
  shows "\<exists>L'. write_unlock_account t a L = Inr L' \<and> locks_inv L' \<and> num_threads L' = num_threads L \<and>
           wcount L' = count_dec (wcount L) a t \<and> rcount L' = rcount L"
proof -
  from held obtain e where e: "locks L a = Some e" "0 < entry_wcount e t"
    by (auto simp: wcount_def split: option.splits)
  have ok: "entry_ok (num_threads L) e" using inv e(1) by (rule locks_inv_entry)
  with e obtain w where w: "al_write e = Some w" "wl_thread_id w = t" by (auto simp: entry_wcount_pos)
  have pos: "0 < wl_lock_count w" using ok w by (auto simp: ok_defs)
  have cnt: "wcount L a = (\<lambda>_. 0)(t := wl_lock_count w)" "rcount L a = entry_rcount e"
    using e w by (auto simp: fun_eq_iff count_defs)
  define x where "x = (if wl_lock_count w = 1
    then (if al_read e = None then None else Some (e\<lparr>al_write := None\<rparr>))
    else Some (e\<lparr>al_write := Some (w\<lparr>wl_lock_count := wl_lock_count w - 1\<rparr>)\<rparr>))"
  have run: "write_unlock_account t a L = Inr (put_entry a x L)"
    using e w pos by (auto simp: write_unlock_account_def x_def rassert_def checked_sub_def)
  have "pred_option (entry_ok (num_threads L)) x"
    using ok w pos by (auto simp: x_def entry_ok_def write_locks_ok_def)
  then have "locks_inv (put_entry a x L)" using inv by (simp add: locks_inv_put)
  moreover have "wcount (put_entry a x L) = count_dec (wcount L) a t"
    using cnt w pos by (auto simp: wcount_put x_def count_dec_def fun_eq_iff)
  moreover have "rcount (put_entry a x L) = rcount L"
    using cnt by (auto simp: rcount_put x_def fun_eq_iff entry_rcount_None)
  ultimately show ?thesis using run by simp
qed

lemma read_lock_account_run:
  fixes a t L
  defines "e \<equiv> entry_or_default a L"
  assumes t64: "t < 64" and ok_reads: "\<And>x. al_read e = Some x \<Longrightarrow> read_locks_ok n x"
    and owner: "\<And>y. al_write e = Some y \<Longrightarrow> wl_thread_id y = t"
    and room: "entry_rcount e t < umax 32"
  shows "\<exists>s cs. read_lock_account t a L =
           Inr (put_entry a (Some (e\<lparr>al_read := Some \<lparr>rl_thread_set = s, rl_lock_counts = cs\<rparr>\<rparr>)) L) \<and>
         length cs = 64 \<and> (\<forall>u < 64. cs ! u = (if u = t then Suc (entry_rcount e t) else entry_rcount e u)) \<and>
         threads s = insert t {u. u < 64 \<and> 0 < entry_rcount e u}"
proof (cases "al_read e")
  case None
  obtain s where s: "ts_only t = Inr s" "threads s = {t}" using ts_only_ok [OF t64] by blast
  have "read_lock_account t a L = Inr (put_entry a (Some (e\<lparr>al_read :=
      Some \<lparr>rl_thread_set = s, rl_lock_counts = (replicate 64 0)[t := 1]\<rparr>\<rparr>)) L)"
    using None s t64 owner
    by (auto simp: read_lock_account_def e_def [symmetric] rassert_def MAX_THREADS_def rmodify_def
        rindex_def split: option.splits)
  moreover have "length ((replicate 64 0)[t := 1 :: nat]) = 64" by simp
  moreover have "\<forall>u < 64. (replicate 64 0)[t := 1] ! u =
      (if u = t then Suc (entry_rcount e t) else entry_rcount e u)"
    using None t64 by (simp add: nth_list_update entry_rcount_None)
  moreover have "threads s = insert t {u. u < 64 \<and> 0 < entry_rcount e u}"
    using None s by (simp add: entry_rcount_None)
  ultimately show ?thesis by blast
next
  case (Some x)
  have ok: "read_locks_ok n x" using ok_reads [OF Some] .
  obtain s where s: "ts_insert t (rl_thread_set x) = Inr s"
    "threads s = insert t (threads (rl_thread_set x))" using ts_insert_ok [OF t64] by blast
  have cnt: "entry_rcount e u = rl_lock_counts x ! u" if "u < 64" for u
    using Some that by (simp add: entry_rcount_def)
  have "checked_add 32 (rl_lock_counts x ! t) 1 = Inr (Suc (entry_rcount e t))"
    using room cnt [OF t64] by (simp add: checked_add_def)
  then have "read_lock_account t a L = Inr (put_entry a (Some (e\<lparr>al_read :=
      Some \<lparr>rl_thread_set = s, rl_lock_counts = (rl_lock_counts x)[t := Suc (entry_rcount e t)]\<rparr>\<rparr>)) L)"
    using Some s t64 owner ok
    by (auto simp: read_lock_account_def e_def [symmetric] rassert_def rmodify_def
        rindex_def read_locks_ok_def split: option.splits)
  moreover have "length ((rl_lock_counts x)[t := Suc (entry_rcount e t)]) = 64"
    using ok by (simp add: read_locks_ok_def)
  moreover have "\<forall>u < 64. (rl_lock_counts x)[t := Suc (entry_rcount e t)] ! u =
      (if u = t then Suc (entry_rcount e t) else entry_rcount e u)"
    using ok t64 cnt by (auto simp: nth_list_update read_locks_ok_def)
  moreover have "threads s = insert t {u. u < 64 \<and> 0 < entry_rcount e u}"
    using s ok cnt by (auto simp: read_locks_ok_def)
  ultimately show ?thesis by blast
qed

lemma read_lock_account_ok:
  assumes inv: "locks_inv L" and t: "t < num_threads L"
    and free: "read_free L a t" and room: "rcount L a t < umax 32"
  shows "\<exists>L'. read_lock_account t a L = Inr L' \<and> locks_inv L' \<and> num_threads L' = num_threads L \<and>
           wcount L' = wcount L \<and> rcount L' = count_inc (rcount L) a t"
proof -
  define e where "e = entry_or_default a L"
  have t64: "t < 64" using t locks_inv_num_threads [OF inv] by linarith
  have weak: "entry_weak (num_threads L) e" using entry_or_default_weak [OF inv] by (simp add: e_def)
  have w: "wcount L a = entry_wcount e" and r: "rcount L a = entry_rcount e"
    by (simp_all add: e_def entry_or_default_counts)
  have zero: "entry_wcount e u = 0" if "u \<noteq> t" for u using free that w by (simp add: read_free_def)
  note owner = only_owner [OF weak zero]
  have "entry_rcount e t < umax 32" using room r by simp
  from read_lock_account_run [OF t64, of a L "num_threads L", folded e_def, OF entry_weakD(2) [OF weak] owner this]
  obtain s cs where run: "read_lock_account t a L =
      Inr (put_entry a (Some (e\<lparr>al_read := Some \<lparr>rl_thread_set = s, rl_lock_counts = cs\<rparr>\<rparr>)) L)"
    and len: "length cs = 64"
    and cs: "\<And>u. u < 64 \<Longrightarrow> cs ! u = (if u = t then Suc (rcount L a t) else rcount L a u)"
    and s: "threads s = insert t {u. u < 64 \<and> 0 < rcount L a u}" unfolding r by auto
  have "threads s \<subseteq> {..<num_threads L}"
    using s t count_bounds(3) [OF inv] by (auto simp: not_less) (metis linorder_not_less less_irrefl)
  moreover have "c \<le> umax 32" if "c \<in> set cs" for c
    using that len cs room count_bounds(2) [OF inv] by (auto simp: in_set_conv_nth)
  ultimately have "read_locks_ok (num_threads L) \<lparr>rl_thread_set = s, rl_lock_counts = cs\<rparr>"
    using s len cs t64 by (auto simp: read_locks_ok_def)
  moreover have "threads s = {t}" if "al_write e = Some y" for y
  proof -
    have "0 < wcount L a t"
      using that owner w entry_weakD(1) [OF weak that]
      by (auto simp: entry_wcount_def write_locks_ok_def)
    then show ?thesis using locks_exclusive [OF inv] s by (auto, metis less_irrefl)
  qed
  ultimately have "entry_ok (num_threads L)
      (e\<lparr>al_read := Some \<lparr>rl_thread_set = s, rl_lock_counts = cs\<rparr>\<rparr>)"
    using entry_ok_read [OF weak] owner by simp
  then show ?thesis
    using inv run w cs t64 r
    by (auto simp: locks_inv_put wcount_put rcount_put count_inc_def fun_eq_iff entry_rcount_set)
       (auto simp: entry_rcount_def split: option.splits)
qed

lemma read_locks_dec:
  assumes r: "read_locks_ok n r" and t: "t \<in> threads (rl_thread_set r)"
    and s: "threads s = threads (rl_thread_set r) - (if rl_lock_counts r ! t = 1 then {t} else {})"
    and cs: "cs = (rl_lock_counts r)[t := rl_lock_counts r ! t - 1]"
  shows "threads s = {u. u < 64 \<and> 0 < cs ! u}"
    and "threads s \<noteq> {} \<Longrightarrow> read_locks_ok n \<lparr>rl_thread_set = s, rl_lock_counts = cs\<rparr>"
proof -
  have t64: "t < 64" using t by (rule threads_lt)
  have nth: "cs ! u = (if u = t then rl_lock_counts r ! t - 1 else rl_lock_counts r ! u)" if "u < 64" for u
    using r t64 that by (simp add: cs read_locks_ok_def nth_list_update)
  show sub: "threads s = {u. u < 64 \<and> 0 < cs ! u}"
    using r s nth t by (auto simp: read_locks_ok_def split: if_splits)
  have "c \<le> umax 32" if "c \<in> set cs" for c
  proof -
    from that obtain i where i: "i < 64" "c = cs ! i"
      using r by (auto simp: cs in_set_conv_nth read_locks_ok_def)
    moreover have "rl_lock_counts r ! i \<le> umax 32" using r i(1) by (simp add: read_locks_ok_def)
    ultimately show ?thesis using nth by (auto split: if_splits)
  qed
  then show "threads s \<noteq> {} \<Longrightarrow> read_locks_ok n \<lparr>rl_thread_set = s, rl_lock_counts = cs\<rparr>"
    using r s sub by (auto simp: read_locks_ok_def cs)
qed

lemma read_unlock_account_ok:
  assumes inv: "locks_inv L" and held: "0 < rcount L a t"
  shows "\<exists>L'. read_unlock_account t a L = Inr L' \<and> locks_inv L' \<and> num_threads L' = num_threads L \<and>
           wcount L' = wcount L \<and> rcount L' = count_dec (rcount L) a t"
proof -
  from held obtain e where e: "locks L a = Some e" "0 < entry_rcount e t"
    by (auto simp: rcount_def split: option.splits)
  have ok: "entry_ok (num_threads L) e" using inv e(1) by (rule locks_inv_entry)
  with e obtain r where r: "al_read e = Some r" "t \<in> threads (rl_thread_set r)"
    by (auto simp: entry_rcount_pos)
  have t64: "t < 64" using r(2) by (rule threads_lt)
  have rok: "read_locks_ok (num_threads L) r" using ok r(1) by (simp add: entry_ok_def)
  have cnt: "wcount L a = entry_wcount e" "\<And>u. rcount L a u = (if u < 64 then rl_lock_counts r ! u else 0)"
    using e r by (auto simp: fun_eq_iff count_defs)
  define cs where "cs = (rl_lock_counts r)[t := rl_lock_counts r ! t - 1]"
  obtain s where s: "ts_remove t (rl_thread_set r) = Inr s" "threads s = threads (rl_thread_set r) - {t}"
    using ts_remove_ok [OF t64] by blast
  define s' where "s' = (if rl_lock_counts r ! t = 1 then s else rl_thread_set r)"
  have s': "threads s' = threads (rl_thread_set r) - (if rl_lock_counts r ! t = 1 then {t} else {})"
    using s(2) by (simp add: s'_def)
  note dec = read_locks_dec [OF rok r(2) s' cs_def]
  define x where "x = (if threads s' = {}
    then (if al_write e = None then None else Some (e\<lparr>al_read := None\<rparr>))
    else Some (e\<lparr>al_read := Some \<lparr>rl_thread_set = s', rl_lock_counts = cs\<rparr>\<rparr>))"
  have pos: "0 < rl_lock_counts r ! t" using held cnt(2) [of t] t64 by simp
  have mod: "rmodify t (\<lambda>c. checked_sub c 1) (rl_lock_counts r) = Inr cs"
    using rok t64 pos by (simp add: rmodify_def rindex_def read_locks_ok_def checked_sub_def cs_def)
  have idx: "rindex cs t = Inr (rl_lock_counts r ! t - 1)"
    using rok t64 by (simp add: cs_def rindex_def read_locks_ok_def)
  have upd: "r\<lparr>rl_lock_counts := cs\<rparr> = \<lparr>rl_thread_set = rl_thread_set r, rl_lock_counts = cs\<rparr>"
    by simp
  have "threads (rl_thread_set r) \<noteq> {}" using r(2) by blast
  then have run: "read_unlock_account t a L = Inr (put_entry a x L)"
    using e(1) r pos s(1) mod idx
    by (auto simp: read_unlock_account_def ts_contains_ok [OF t64] rassert_def x_def s'_def
        ts_is_empty_iff upd)
  have "pred_option (entry_ok (num_threads L)) x"
    using ok dec(2) s' r(1) by (auto simp: x_def entry_ok_def)
  then have "locks_inv (put_entry a x L)" using inv by (simp add: locks_inv_put)
  moreover have "wcount (put_entry a x L) = wcount L"
    using cnt(1) by (auto simp: wcount_put x_def fun_eq_iff entry_wcount_None)
  moreover have "(case x of None \<Rightarrow> (\<lambda>_. 0) | Some e \<Rightarrow> entry_rcount e) u =
      (if u < 64 then cs ! u else 0)" for u
    using dec(1) by (auto simp: x_def entry_rcount_set)
  then have "rcount (put_entry a x L) = count_dec (rcount L) a t"
    using cnt(2) t64 rok
    by (auto simp: rcount_put count_dec_def fun_eq_iff cs_def nth_list_update read_locks_ok_def)
  ultimately show ?thesis using run by simp
qed

text \<open>Each of the four operations panics exactly when its condition on the counts fails.\<close>

lemma entry_rcount_zero_outside:
  "read_locks_ok n r \<Longrightarrow> al_read e = Some r \<Longrightarrow> u \<notin> threads (rl_thread_set r) \<Longrightarrow> entry_rcount e u = 0"
  by (auto simp: entry_rcount_def read_locks_ok_def)

lemma write_lock_account_needs:
  assumes inv: "locks_inv L" and run: "write_lock_account t a L = Inr L'"
  shows "write_free L a t \<and> wcount L a t < umax 32"
proof -
  define e where "e = entry_or_default a L"
  have weak: "entry_weak (num_threads L) e" using entry_or_default_weak [OF inv] by (simp add: e_def)
  have reads: "threads (rl_thread_set r) = {t}" if "al_read e = Some r" for r
    using run that
    by (auto simp: write_lock_account_def e_def [symmetric] Let_def res_simps only_one_contained_iff)
  have writes: "wl_thread_id w = t \<and> wl_lock_count w < umax 32" if "al_write e = Some w" for w
    using run that by (auto simp: write_lock_account_def e_def [symmetric] Let_def res_simps)
  have "entry_wcount e u = 0" if "u \<noteq> t" for u
    using writes that by (auto simp: entry_wcount_def split: option.splits)
  moreover have "entry_rcount e u = 0" if "u \<noteq> t" for u
    using reads that entry_weakD(2) [OF weak]
    by (cases "al_read e") (auto simp: entry_rcount_None entry_rcount_zero_outside)
  moreover have "entry_wcount e t < umax 32"
    using writes by (auto simp: entry_wcount_def umax_def split: option.splits)
  ultimately show ?thesis by (simp add: write_free_def entry_or_default_counts e_def)
qed

lemma read_lock_account_needs:
  assumes inv: "locks_inv L" and run: "read_lock_account t a L = Inr L'"
  shows "read_free L a t \<and> rcount L a t < umax 32"
proof -
  define e where "e = entry_or_default a L"
  have writes: "wl_thread_id w = t" if "al_write e = Some w" for w
    using run that by (auto simp: read_lock_account_def e_def [symmetric] Let_def res_simps)
  have reads: "rl_lock_counts r ! t < umax 32" if "al_read e = Some r" for r
    using run that by (auto simp: read_lock_account_def e_def [symmetric] Let_def res_simps)
  have "entry_wcount e u = 0" if "u \<noteq> t" for u
    using writes that by (auto simp: entry_wcount_def split: option.splits)
  moreover have "entry_rcount e t < umax 32"
    using reads by (auto simp: entry_rcount_def umax_def split: option.splits)
  ultimately show ?thesis by (simp add: read_free_def entry_or_default_counts e_def)
qed

lemma write_unlock_account_needs:
  "locks_inv L \<Longrightarrow> write_unlock_account t a L = Inr L' \<Longrightarrow> 0 < wcount L a t"
  by (auto simp: write_unlock_account_def res_simps wcount_def entry_wcount_def split: option.splits)

lemma read_unlock_account_needs:
  assumes inv: "locks_inv L" and run: "read_unlock_account t a L = Inr L'"
  shows "0 < rcount L a t"
proof -
  from run obtain e r where e: "locks L a = Some e" "al_read e = Some r"
    and t: "ts_contains (rl_thread_set r) t = Inr True"
    by (auto simp: read_unlock_account_def res_simps split: option.splits)
  from t have t64: "t < 64" by (auto simp: ts_contains_def as_flag_def split: if_splits)
  with t have "t \<in> threads (rl_thread_set r)" by (simp add: ts_contains_ok)
  then show ?thesis
    using e locks_inv_entry [OF inv e(1)] by (auto simp: rcount_def entry_rcount_pos)
qed

section \<open>The threads on offer\<close>

lemma entry_writer: "entry_ok n e \<Longrightarrow> al_write e = Some w \<Longrightarrow>
    {t. t < n \<and> (\<forall>u. u \<noteq> t \<longrightarrow> entry_wcount e u = 0)} = {wl_thread_id w}"
  by (auto simp: entry_wcount_def entry_ok_def write_locks_ok_def)

lemma entry_write_free_unwritten:
  assumes "entry_ok n e" "al_write e = None" "al_read e = Some r"
  shows "{t. t < n \<and> (\<forall>u. u \<noteq> t \<longrightarrow> entry_rcount e u = 0)} =
    (if \<exists>t. threads (rl_thread_set r) = {t} then threads (rl_thread_set r) else {})"
proof -
  have ok: "read_locks_ok n r" using assms by (simp add: entry_ok_def)
  have pos: "entry_rcount e u = 0 \<longleftrightarrow> u \<notin> threads (rl_thread_set r)" for u
    using entry_rcount_pos [OF assms(1), of u] assms(3) by auto
  have "threads (rl_thread_set r) \<noteq> {}" using ok unfolding read_locks_ok_def by blast
  then have "(\<forall>u. u \<noteq> t \<longrightarrow> entry_rcount e u = 0) \<longleftrightarrow> threads (rl_thread_set r) = {t}" for t
    unfolding pos by (metis singleton_iff subsetI subset_singletonD)
  moreover have "threads (rl_thread_set r) \<subseteq> {..<n}" using ok unfolding read_locks_ok_def by blast
  ultimately show ?thesis by auto
qed

lemma free_entry:
  assumes "locks L a = Some e"
  shows "read_free L a t \<longleftrightarrow> (\<forall>u. u \<noteq> t \<longrightarrow> entry_wcount e u = 0)"
    and "write_free L a t \<longleftrightarrow> (\<forall>u. u \<noteq> t \<longrightarrow> entry_wcount e u = 0 \<and> entry_rcount e u = 0)"
  using assms by (auto simp: write_free_def read_free_def wcount_def rcount_def)

lemma schedulable_threads_written:
  assumes e: "locks L a = Some e" "entry_ok n e" "al_write e = Some w" and n: "n \<le> 64"
  shows "\<exists>S. schedulable_threads wr L a = Inr S \<and>
    threads S = {t. t < n \<and> (if wr then write_free L a t else read_free L a t)}"
proof -
  have lt: "wl_thread_id w < 64" using e n by (auto simp: ok_defs)
  have ex: "read_free L a t \<and> t < n \<longleftrightarrow> t = wl_thread_id w" for t
    using entry_writer [OF e(2,3)] free_entry(1) [OF e(1)] by auto
  have "0 < entry_wcount e (wl_thread_id w)" using e(2,3) by (auto simp: entry_wcount_pos)
  then have "write_free L a (wl_thread_id w)"
    using entry_ok_excl [OF e(2)] by (simp add: free_entry(2) [OF e(1)])
  moreover have "write_free L a t \<Longrightarrow> read_free L a t" for t
    by (simp add: free_entry [OF e(1)])
  ultimately have "{t. t < n \<and> (if wr then write_free L a t else read_free L a t)} = {wl_thread_id w}"
    using ex by auto
  then show ?thesis
    using e lt by (auto simp: schedulable_threads_def entry_ok_def ts_only_def as_flag_ok threads_flag
        rassert_def only_one_contained_iff split: option.splits)
qed

lemma schedulable_threads_unwritten:
  assumes e: "locks L a = Some e" "entry_ok (num_threads L) e" "al_write e = None"
    and n: "num_threads L \<le> 64"
  shows "\<exists>S. schedulable_threads wr L a = Inr S \<and>
    threads S = {t. t < num_threads L \<and> (if wr then write_free L a t else read_free L a t)}"
proof -
  obtain A where A: "ts_any (num_threads L) = Inr A" "threads A = {..<num_threads L}"
    using ts_any_ok [OF n] by blast
  obtain r where r: "al_read e = Some r" using e by (auto simp: entry_ok_def)
  note free = free_entry [OF e(1)] entry_wcount_None [OF e(3)]
  note set = entry_write_free_unwritten [OF e(2,3) r]
  show ?thesis
  proof (cases "only_one_contained (rl_thread_set r)")
    case None
    then have "\<not> (\<exists>t. threads (rl_thread_set r) = {t})"
      using only_one_contained_iff by (metis option.distinct(1))
    with None show ?thesis using e r A set by (auto simp: schedulable_threads_def free)
  next
    case (Some t)
    then have t: "threads (rl_thread_set r) = {t}" by (simp add: only_one_contained_iff)
    then have "t < 64" by (metis insertI1 threads_lt)
    with Some t show ?thesis
      using e r A set
      by (auto simp: schedulable_threads_def free ts_only_def as_flag_ok threads_flag)
  qed
qed

lemma schedulable_threads_ok:
  assumes inv: "locks_inv L"
  shows "\<exists>S. schedulable_threads wr L a = Inr S \<and>
    threads S = {t. t < num_threads L \<and> (if wr then write_free L a t else read_free L a t)}"
proof (cases "locks L a")
  case None
  then show ?thesis
    using ts_any_ok locks_inv_num_threads [OF inv]
    by (auto simp: schedulable_threads_def write_free_def read_free_def wcount_def rcount_def
        lessThan_def)
next
  case (Some e)
  then show ?thesis
    using locks_inv_entry [OF inv Some] locks_inv_num_threads [OF inv]
    by (cases "al_write e") (blast intro: schedulable_threads_written schedulable_threads_unwritten)+
qed

lemma intersect_threads_ok:
  assumes "\<And>a. a \<in> set as \<Longrightarrow> \<exists>p. f a = Inr p \<and> threads p = P a" and "threads s \<noteq> {}"
  shows "\<exists>x. intersect_threads f as s = Inr x \<and>
    (case x of None \<Rightarrow> threads s \<inter> \<Inter> (P ` set as) = {}
     | Some s' \<Rightarrow> threads s' = threads s \<inter> \<Inter> (P ` set as) \<and> threads s' \<noteq> {})"
  using assms
proof (induction as arbitrary: s)
  case Nil
  then show ?case by simp
next
  case (Cons a as)
  from Cons.prems(1) obtain p where p: "f a = Inr p" "threads p = P a" by force
  show ?case
  proof (cases "threads (ts_bitand s p) = {}")
    case True
    with p show ?thesis by (auto simp: ts_is_empty_iff Let_def)
  next
    case False
    from Cons.IH [OF _ False] Cons.prems(1) obtain x where
      "intersect_threads f as (ts_bitand s p) = Inr x"
      "case x of None \<Rightarrow> threads (ts_bitand s p) \<inter> \<Inter> (P ` set as) = {}
       | Some s' \<Rightarrow> threads s' = threads (ts_bitand s p) \<inter> \<Inter> (P ` set as) \<and> threads s' \<noteq> {}"
      by force
    with p False show ?thesis
      by (auto simp: ts_is_empty_iff Let_def Int_assoc split: option.splits)
  qed
qed

text \<open>The threads on which all the accounts of a transaction can be locked.\<close>

definition lockable_threads :: "pubkey list \<Rightarrow> pubkey list \<Rightarrow> lock_table \<Rightarrow> thread_id set" where
  "lockable_threads W R L =
     {t. t < num_threads L \<and> (\<forall>a \<in> set W. write_free L a t) \<and> (\<forall>a \<in> set R. read_free L a t)}"

lemma accounts_schedulable_threads_ok:
  assumes inv: "locks_inv L"
  shows "\<exists>x. accounts_schedulable_threads W R L = Inr x \<and>
    (case x of None \<Rightarrow> lockable_threads W R L = {}
     | Some S \<Rightarrow> threads S = lockable_threads W R L \<and> threads S \<noteq> {})"
proof -
  let ?n = "num_threads L"
  obtain A where A: "ts_any ?n = Inr A" "threads A = {..<?n}"
    using ts_any_ok locks_inv_num_threads [OF inv] by blast
  have ne: "threads A \<noteq> {}" using A locks_inv_num_threads [OF inv] by auto
  let ?w = "\<lambda>a. {t. t < ?n \<and> write_free L a t}" and ?r = "\<lambda>a. {t. t < ?n \<and> read_free L a t}"
  have w: "\<exists>p. write_schedulable_threads L a = Inr p \<and> threads p = ?w a" for a
    using schedulable_threads_ok [OF inv, of True] by (simp add: write_schedulable_threads_def)
  have r: "\<exists>p. read_schedulable_threads L a = Inr p \<and> threads p = ?r a" for a
    using schedulable_threads_ok [OF inv, of False] by (simp add: read_schedulable_threads_def)
  have eq: "lockable_threads W R L = threads A \<inter> \<Inter> (?w ` set W) \<inter> \<Inter> (?r ` set R)"
    using A(2) by (auto simp: lockable_threads_def)
  obtain x where x: "intersect_threads (write_schedulable_threads L) W A = Inr x"
    "case x of None \<Rightarrow> threads A \<inter> \<Inter> (?w ` set W) = {}
     | Some s \<Rightarrow> threads s = threads A \<inter> \<Inter> (?w ` set W) \<and> threads s \<noteq> {}"
    using intersect_threads_ok [of W "write_schedulable_threads L" ?w, OF w ne] by blast
  show ?thesis
  proof (cases x)
    case None
    with x A eq show ?thesis by (auto simp: accounts_schedulable_threads_def)
  next
    case (Some s)
    with x have s: "threads s = threads A \<inter> \<Inter> (?w ` set W)" "threads s \<noteq> {}" by auto
    have eq': "threads s \<inter> \<Inter> (?r ` set R) = lockable_threads W R L" using s(1) eq by simp
    have "accounts_schedulable_threads W R L = intersect_threads (read_schedulable_threads L) R s"
      using x(1) A(1) Some by (simp add: accounts_schedulable_threads_def)
    then show ?thesis
      using intersect_threads_ok [of R "read_schedulable_threads L" ?r, OF r s(2)]
      unfolding eq' by simp
  qed
qed

section \<open>The table meets the contract\<close>

interpretation lt: counted_locks locks_inv num_threads wcount rcount
  write_lock_account write_unlock_account read_lock_account read_unlock_account
proof (unfold_locales, goal_cases)
  case (1 L a t u)
  then show ?case by (rule locks_exclusive)
next
  case (2 L t a)
  then show ?case by (simp add: write_lock_account_ok write_free_def)
next
  case (3 L t a L')
  then show ?case using write_lock_account_needs by (auto simp: write_free_def)
next
  case (4 L t a)
  then show ?case by (simp add: read_lock_account_ok read_free_def)
next
  case (5 L t a L')
  then show ?case using read_lock_account_needs by (auto simp: read_free_def)
next
  case (6 L a t)
  then show ?case by (rule write_unlock_account_ok)
next
  case (7 L t a L')
  then show ?case by (rule write_unlock_account_needs)
next
  case (8 L a t)
  then show ?case by (rule read_unlock_account_ok)
next
  case (9 L t a L')
  then show ?case by (rule read_unlock_account_needs)
qed

abbreviation table_holds :: "lock_table \<Rightarrow> pubkey holding multiset \<Rightarrow> bool" where
  "table_holds \<equiv> accounts_for wcount rcount"

lemma new_lock_table_Inr:
  "new_lock_table n = Inr L \<longleftrightarrow> 0 < n \<and> n \<le> 64 \<and> L = \<lparr>num_threads = n, locks = Map.empty\<rparr>"
  by (auto simp: new_lock_table_def MAX_THREADS_def rassert_def)

lemma new_lock_table_holds:
  "new_lock_table n = Inr L \<Longrightarrow> locks_inv L \<and> table_holds L {#} \<and> num_threads L = n"
  by (auto simp: new_lock_table_Inr locks_inv_def accounts_for_def wcount_def rcount_def fun_eq_iff)

text \<open>When there is room for the locks of a transaction in the 32-bit counters.\<close>

definition count_room :: "pubkey list \<Rightarrow> pubkey list \<Rightarrow> thread_id \<Rightarrow> lock_table \<Rightarrow> bool" where
  "count_room W R t L \<longleftrightarrow>
     (\<forall>a \<in> set W. wcount L a t + count_list W a \<le> umax 32) \<and>
     (\<forall>a \<in> set R. rcount L a t + count_list R a \<le> umax 32)"

lemma lock_accounts_returns:
  assumes "locks_inv L"
  shows "(\<exists>L'. lock_accounts W R t L = Inr L') \<longleftrightarrow> t \<in> lockable_threads W R L \<and> count_room W R t L"
proof
  assume "\<exists>L'. lock_accounts W R t L = Inr L'"
  then obtain L' where t: "t < num_threads L"
    and run: "rbind (rfold (write_lock_account t) W L) (rfold (read_lock_account t) R) = Inr L'"
    by (auto simp: lock_accounts_def rassert_def split: if_splits)
  show "t \<in> lockable_threads W R L \<and> count_room W R t L"
    using lt.acquire_needs [OF assms t run] t
    by (auto simp: lockable_threads_def count_room_def write_free_def read_free_def)
next
  assume "t \<in> lockable_threads W R L \<and> count_room W R t L"
  then show "\<exists>L'. lock_accounts W R t L = Inr L'"
    using lt.acquire_ok [OF assms, of t W R]
    by (auto simp: lock_accounts_def rassert_def lockable_threads_def count_room_def
        write_free_def read_free_def)
qed

lemma lock_accounts_holds:
  assumes "locks_inv L" "table_holds L M" "lock_accounts W R t L = Inr L'"
  shows "locks_inv L' \<and> num_threads L' = num_threads L \<and> table_holds L' (add_mset (W, R, t) M)"
  using assms(3) lt.acquire_run [OF assms(1,2), of t W R L']
  by (auto simp: lock_accounts_def rassert_def split: if_splits)

lemma unlock_accounts_holds:
  assumes "locks_inv L" "table_holds L M" "(W, R, t) \<in># M"
  shows "\<exists>L'. unlock_accounts W R t L = Inr L' \<and> locks_inv L' \<and> num_threads L' = num_threads L \<and>
           table_holds L' (M - {#(W, R, t)#})"
  using lt.release_ok [OF assms] by (simp add: unlock_accounts_def)

lemma try_lock_accounts_cases:
  assumes inv: "locks_inv L"
  obtains (none) "lockable_threads W R L \<inter> threads allowed = {}"
      "try_lock_accounts W R allowed sel L = Inr (None, L)"
  | (some) S where "threads S = lockable_threads W R L \<inter> threads allowed" "threads S \<noteq> {}"
      "try_lock_accounts W R allowed sel L =
         rbind (sel S) (\<lambda>t. rbind (lock_accounts W R t L) (\<lambda>L'. Inr (Some t, L')))"
proof -
  obtain x where x: "accounts_schedulable_threads W R L = Inr x"
    "case x of None \<Rightarrow> lockable_threads W R L = {}
     | Some S \<Rightarrow> threads S = lockable_threads W R L \<and> threads S \<noteq> {}"
    using accounts_schedulable_threads_ok [OF inv] by blast
  show ?thesis
  proof (cases x)
    case None
    with x that(1) show ?thesis by (simp add: try_lock_accounts_def)
  next
    case (Some s)
    have "try_lock_accounts W R allowed sel L =
        (if threads (ts_bitand s allowed) = {} then Inr (None, L)
         else rbind (sel (ts_bitand s allowed))
                (\<lambda>t. rbind (lock_accounts W R t L) (\<lambda>L'. Inr (Some t, L'))))"
      using x Some by (simp add: try_lock_accounts_def ts_is_empty_iff Let_def)
    then show ?thesis
      using x Some that(1) that(2) [of "ts_bitand s allowed"]
      by (cases "threads (ts_bitand s allowed) = {}") simp_all
  qed
qed

section \<open>Properties\<close>

text \<open>
  \<^verbatim>\<open>try_lock_accounts\<close> is complete: on a well-formed table it refuses a transaction only
  when no allowed thread could take all of its locks, that is, when every allowed thread finds
  one of the written accounts locked by another thread or one of the read accounts
  write-locked by another thread; and a refusal leaves the table as it was.
\<close>

lemma try_lock_accounts_refuses:
  assumes "locks_inv L"
  shows "try_lock_accounts W R allowed sel L = Inr (None, L') \<longleftrightarrow>
    L' = L \<and> lockable_threads W R L \<inter> threads allowed = {}"
  using assms by (rule try_lock_accounts_cases [of L W R allowed sel]) (auto simp: res_simps)

text \<open>
  C18.  \<^verbatim>\<open>try_lock_accounts\<close> is sound: whatever the selector answers, a transaction is only ever
  locked on a thread on which no other thread's lock conflicts with it; the table stays
  well-formed and its counts grow by exactly the locks of the transaction on that thread.
\<close>

theorem try_lock_accounts_takes:
  assumes "locks_inv L" and "try_lock_accounts W R allowed sel L = Inr (Some t, L')"
  shows "t \<in> lockable_threads W R L \<and> locks_inv L' \<and>
    (\<forall>a u. wcount L' a u = wcount L a u + (if u = t then count_list W a else 0)) \<and>
    (\<forall>a u. rcount L' a u = rcount L a u + (if u = t then count_list R a else 0))"
proof -
  have run: "lock_accounts W R t L = Inr L'"
    using assms by (cases rule: try_lock_accounts_cases [of L W R allowed sel]) (auto simp: res_simps)
  then have t: "t \<in> lockable_threads W R L" using lock_accounts_returns [OF assms(1)] by blast
  from run have t': "t < num_threads L" and run':
    "rbind (rfold (write_lock_account t) W L) (rfold (read_lock_account t) R) = Inr L'"
    by (auto simp: lock_accounts_def rassert_def split: if_splits)
  then obtain L1 where L1: "rfold (write_lock_account t) W L = Inr L1"
    "rfold (read_lock_account t) R L1 = Inr L'" by (auto simp: res_simps)
  from lt.wlocks_run [OF assms(1) t' L1(1)] lt.rlocks_run [OF _ _ L1(2)] t' t show ?thesis by simp
qed

text \<open>
  C19.  Releasing is the inverse of locking: after \<^verbatim>\<open>lock_accounts\<close> has taken the locks of a
  transaction, \<^verbatim>\<open>unlock_accounts\<close> with the same accounts and thread does not panic and gives back
  the very table, entry by entry: no lock, no empty entry and no stale bit is left behind.
\<close>

theorem unlock_after_lock:
  assumes "locks_inv L" and "lock_accounts W R t L = Inr L'"
  shows "unlock_accounts W R t L' = Inr L"
proof -
  from assms(2) have t: "t < num_threads L"
    and run: "rbind (rfold (write_lock_account t) W L) (rfold (read_lock_account t) R) = Inr L'"
    by (auto simp: lock_accounts_def rassert_def split: if_splits)
  then obtain L1 where L1: "rfold (write_lock_account t) W L = Inr L1"
    "rfold (read_lock_account t) R L1 = Inr L'" by (auto simp: res_simps)
  note up = lt.wlocks_run [OF assms(1) t L1(1)]
  have up': "locks_inv L' \<and> num_threads L' = num_threads L1 \<and> wcount L' = wcount L1 \<and>
      (\<forall>a u. rcount L' a u = rcount L1 a u + (if u = t then count_list R a else 0))"
    using lt.rlocks_run [OF _ _ L1(2)] up t by simp
  then obtain L2 where L2: "rfold (write_unlock_account t) W L' = Inr L2" "locks_inv L2"
    "num_threads L2 = num_threads L'" "rcount L2 = rcount L'"
    "\<forall>a u. wcount L2 a u = wcount L' a u - (if u = t then count_list W a else 0)"
    using lt.wunlocks_ok [of L' W t] up by auto
  then obtain L3 where L3: "rfold (read_unlock_account t) R L2 = Inr L3" "locks_inv L3"
    "num_threads L3 = num_threads L2" "wcount L3 = wcount L2"
    "\<forall>a u. rcount L3 a u = rcount L2 a u - (if u = t then count_list R a else 0)"
    using lt.runlocks_ok [of L2 R t] up' by auto
  have "L3 = L"
    by (rule lock_table_canonical) (use L2 L3 up up' assms(1) in \<open>auto simp: fun_eq_iff\<close>)
  with L2(1) L3(1) show ?thesis by (simp add: unlock_accounts_def)
qed

text \<open>
  The exact condition under which \<^verbatim>\<open>lock_accounts\<close> does not panic: the thread exists, no
  other thread holds a conflicting lock, and the 32-bit counters have room.
\<close>

lemma lock_accounts_panics_exactly:
  assumes "locks_inv L"
  shows "(\<exists>L'. lock_accounts W R t L = Inr L') \<longleftrightarrow>
    t < num_threads L \<and> (\<forall>a \<in> set W. write_free L a t) \<and> (\<forall>a \<in> set R. read_free L a t) \<and>
    count_room W R t L"
  using lock_accounts_returns [OF assms] by (simp add: lockable_threads_def)

section \<open>Witnesses\<close>

definition example_table :: lock_table where
  "example_table = \<lparr>num_threads = 4, locks = Map.empty\<rparr>"

definition example_locked :: lock_table where
  "example_locked = \<lparr>num_threads = 4, locks = [
     1 \<mapsto> \<lparr>al_write = Some \<lparr>wl_thread_id = 2, wl_lock_count = 1\<rparr>, al_read = None\<rparr>,
     7 \<mapsto> \<lparr>al_write = None,
           al_read = Some \<lparr>rl_thread_set = 4, rl_lock_counts = (replicate 64 0)[2 := 1]\<rparr>\<rparr>]\<rparr>"

lemma example_table_inv: "locks_inv example_table"
  by (simp add: example_table_def locks_inv_def)

lemma example_lock: "lock_accounts [1] [7] 2 example_table = Inr example_locked"
  by code_simp

theorem try_lock_accounts_takes_witness:
  "2 \<in> lockable_threads [1] [7] example_table"
proof -
  have "try_lock_accounts [1] [7] 15 (\<lambda>_. Inr 2) example_table = Inr (Some 2, example_locked)"
    by code_simp
  then show ?thesis using try_lock_accounts_takes [OF example_table_inv] by blast
qed

theorem unlock_after_lock_witness: "unlock_accounts [1] [7] 2 example_locked = Inr example_table"
  by (rule unlock_after_lock [OF example_table_inv example_lock])

end
