(* ===== verification/Scheduler_Messages.thy ===== *)
theory Scheduler_Messages
  imports Lock_Interface
begin

text \<open>
  The values the scheduler exchanges with its workers: \<^verbatim>\<open>scheduler/src/scheduler_messages.rs\<close>,
  \<^verbatim>\<open>scheduler/src/id_generator.rs\<close> and \<^verbatim>\<open>impls/prio_graph_scheduler/transaction_priority_id.rs\<close>.

  A transaction is a value of a type \<open>'tx\<close> of the Solana SDK.  The scheduler reads two things
  of its message, the account keys and whether the key of an index is writable; they are the
  fields of \<open>message_api\<close>, the argument through which the definitions see the SDK.
\<close>

section \<open>Identifiers\<close>

datatype transaction_batch_id = TransactionBatchId (batch_id_value: u64)

datatype transaction_id = TransactionId (transaction_id_value: u64)

instantiation transaction_id :: linorder
begin

definition less_eq_transaction_id :: "transaction_id \<Rightarrow> transaction_id \<Rightarrow> bool" where
  "less_eq_transaction_id x y \<longleftrightarrow> transaction_id_value x \<le> transaction_id_value y"

definition less_transaction_id :: "transaction_id \<Rightarrow> transaction_id \<Rightarrow> bool" where
  "less_transaction_id x y \<longleftrightarrow> transaction_id_value x < transaction_id_value y"

instance
  by standard
    (auto simp: less_eq_transaction_id_def less_transaction_id_def transaction_id.expand)

end

text \<open>
  The derived order of \<^verbatim>\<open>TransactionPriorityId\<close> compares the fields in the order of their
  declaration: the priority first, then the id.
\<close>

datatype transaction_priority_id =
  TransactionPriorityId (tp_priority: u64) (tp_id: transaction_id)

instantiation transaction_priority_id :: linorder
begin

definition less_eq_transaction_priority_id ::
  "transaction_priority_id \<Rightarrow> transaction_priority_id \<Rightarrow> bool" where
  "less_eq_transaction_priority_id x y \<longleftrightarrow>
     tp_priority x < tp_priority y \<or> tp_priority x = tp_priority y \<and> tp_id x \<le> tp_id y"

definition less_transaction_priority_id ::
  "transaction_priority_id \<Rightarrow> transaction_priority_id \<Rightarrow> bool" where
  "less_transaction_priority_id x y \<longleftrightarrow>
     tp_priority x < tp_priority y \<or> tp_priority x = tp_priority y \<and> tp_id x < tp_id y"

instance
  by standard
    (auto simp: less_eq_transaction_priority_id_def less_transaction_priority_id_def
      intro: transaction_priority_id.expand)

end

section \<open>The id generator\<close>

record id_generator =
  next_id :: u64

definition id_generator_default :: id_generator where
  "id_generator_default = \<lparr>next_id = - 1\<rparr>"

text \<open>The identifier is converted from the \<open>u64\<close> by the \<^verbatim>\<open>From\<close> instance of its type.\<close>

definition gen :: "(u64 \<Rightarrow> 'i) \<Rightarrow> id_generator \<Rightarrow> 'i \<times> id_generator" where
  "gen from g = (from (next_id g), g\<lparr>next_id := next_id g - 1\<rparr>)"

text \<open>The identifiers of \<open>n\<close> calls in a row, for the statements about the generator.\<close>

fun gen_many :: "nat \<Rightarrow> id_generator \<Rightarrow> u64 list" where
  "gen_many 0 g = []"
| "gen_many (Suc n) g = (let (i, g') = gen id g in i # gen_many n g')"

section \<open>Batches\<close>

record max_age =
  epoch_invalidation_slot :: slot
  alt_invalidation_slot :: slot

record 'tx scheduling_batch =
  sb_batch_id :: transaction_batch_id
  sb_ids :: "transaction_id list"
  sb_transactions :: "'tx list"
  sb_max_ages :: "max_age list"

definition valid :: "'tx scheduling_batch \<Rightarrow> bool" where
  "valid b \<longleftrightarrow>
     length (sb_transactions b) = length (sb_ids b) \<and> length (sb_ids b) = length (sb_max_ages b)"

record 'tx scheduling_batch_result =
  sr_batch :: "'tx scheduling_batch"
  sr_retryable_indexes :: "nat list"

section \<open>The accounts of a transaction\<close>

record 'tx message_api =
  account_keys :: "'tx \<Rightarrow> pubkey list"
  is_writable :: "'tx \<Rightarrow> nat \<Rightarrow> bool"

text \<open>
  The accounts a transaction locks for writing and for reading: the \<^verbatim>\<open>filter_map\<close> over the
  enumerated keys that the scheduler writes out at each of its uses.
\<close>

definition write_account_locks :: "'tx message_api \<Rightarrow> 'tx \<Rightarrow> pubkey list" where
  "write_account_locks A tx =
     map snd (filter (\<lambda>(i, k). is_writable A tx i) (enumerate 0 (account_keys A tx)))"

definition read_account_locks :: "'tx message_api \<Rightarrow> 'tx \<Rightarrow> pubkey list" where
  "read_account_locks A tx =
     map snd (filter (\<lambda>(i, k). \<not> is_writable A tx i) (enumerate 0 (account_keys A tx)))"

text \<open>Both lists at once, and when two transactions conflict.\<close>

definition tx_accounts :: "'tx message_api \<Rightarrow> 'tx \<Rightarrow> pubkey list \<times> pubkey list" where
  "tx_accounts A tx = (write_account_locks A tx, read_account_locks A tx)"

definition tx_conflict :: "'tx message_api \<Rightarrow> 'tx \<Rightarrow> 'tx \<Rightarrow> bool" where
  "tx_conflict A x y \<longleftrightarrow> conflict (tx_accounts A x) (tx_accounts A y)"

section \<open>Facts\<close>

lemma gen_many_nth: "k < n \<Longrightarrow> gen_many n g ! k = next_id g - of_nat k"
proof (induction n arbitrary: g k)
  case (Suc n)
  then show ?case by (cases k) (auto simp: gen_def)
qed simp

lemma length_gen_many: "length (gen_many n g) = n"
  by (induction n arbitrary: g) (auto simp: gen_def)

lemma mem_write_locks: "k \<in> set (write_account_locks A tx) \<longleftrightarrow>
    (\<exists>i < length (account_keys A tx). account_keys A tx ! i = k \<and> is_writable A tx i)"
  by (force simp: write_account_locks_def in_set_enumerate_eq)

lemma mem_read_locks: "k \<in> set (read_account_locks A tx) \<longleftrightarrow>
    (\<exists>i < length (account_keys A tx). account_keys A tx ! i = k \<and> \<not> is_writable A tx i)"
  by (force simp: read_account_locks_def in_set_enumerate_eq)

text \<open>
  The generator never repeats an identifier within \<open>2^64\<close> calls, although it counts down and
  wraps around at zero.
\<close>

lemma gen_distinct: "n \<le> 2 ^ 64 \<Longrightarrow> distinct (gen_many n g)"
  by (simp add: distinct_conv_nth length_gen_many gen_many_nth word_of_nat_eq_iff
      take_bit_nat_eq_self)

end
