(* ===== verification/Account_Set.thy ===== *)
theory Account_Set
  imports Scheduler_Messages
begin

text \<open>
  \<^verbatim>\<open>ReadWriteAccountSet\<close> of \<^verbatim>\<open>impls/prio_graph_scheduler/read_write_account_set.rs\<close>: the accounts of
  the transactions that could not be scheduled in this pass.  A transaction that touches them
  must wait, so that no transaction overtakes a conflicting one of higher priority.
\<close>

section \<open>State and operations\<close>

record account_set =
  read_set :: "pubkey set"
  write_set :: "pubkey set"

definition account_set_default :: account_set where
  "account_set_default = \<lparr>read_set = {}, write_set = {}\<rparr>"

definition can_read :: "pubkey \<Rightarrow> account_set \<Rightarrow> bool" where
  "can_read k s \<longleftrightarrow> k \<notin> write_set s"

definition can_write :: "pubkey \<Rightarrow> account_set \<Rightarrow> bool" where
  "can_write k s \<longleftrightarrow> k \<notin> write_set s \<and> k \<notin> read_set s"

definition add_read :: "pubkey \<Rightarrow> account_set \<Rightarrow> bool \<times> account_set" where
  "add_read k s = (can_read k s, s\<lparr>read_set := insert k (read_set s)\<rparr>)"

definition add_write :: "pubkey \<Rightarrow> account_set \<Rightarrow> bool \<times> account_set" where
  "add_write k s = (can_write k s, s\<lparr>write_set := insert k (write_set s)\<rparr>)"

definition account_set_clear :: "account_set \<Rightarrow> account_set" where
  "account_set_clear s = s\<lparr>read_set := {}, write_set := {}\<rparr>"

definition check_locks :: "'tx message_api \<Rightarrow> 'tx \<Rightarrow> account_set \<Rightarrow> bool" where
  "check_locks A tx s =
     list_all (\<lambda>(i, k). if is_writable A tx i then can_write k s else can_read k s)
       (enumerate 0 (account_keys A tx))"

definition take_locks_step ::
  "'tx message_api \<Rightarrow> 'tx \<Rightarrow> nat \<times> pubkey \<Rightarrow> bool \<times> account_set \<Rightarrow> bool \<times> account_set" where
  "take_locks_step A tx = (\<lambda>(i, k) (all_available, s).
     let (available, s') = (if is_writable A tx i then add_write k s else add_read k s)
     in (all_available \<and> available, s'))"

definition take_locks :: "'tx message_api \<Rightarrow> 'tx \<Rightarrow> account_set \<Rightarrow> bool \<times> account_set" where
  "take_locks A tx s = fold (take_locks_step A tx) (enumerate 0 (account_keys A tx)) (True, s)"

section \<open>Facts\<close>

lemma check_locks_iff:
  "check_locks A tx s \<longleftrightarrow>
     (\<forall>k \<in> set (write_account_locks A tx). k \<notin> write_set s \<and> k \<notin> read_set s) \<and>
     (\<forall>k \<in> set (read_account_locks A tx). k \<notin> write_set s)"
  by (auto simp: check_locks_def list_all_length nth_enumerate_eq mem_write_locks mem_read_locks
      can_write_def can_read_def)

lemma take_locks_fold_sets:
  "write_set (snd (fold (take_locks_step A tx) xs (b, s))) =
     write_set s \<union> snd ` set (filter (\<lambda>(i, k). is_writable A tx i) xs) \<and>
   read_set (snd (fold (take_locks_step A tx) xs (b, s))) =
     read_set s \<union> snd ` set (filter (\<lambda>(i, k). \<not> is_writable A tx i) xs)"
  by (induction xs arbitrary: b s)
    (auto simp: take_locks_step_def add_write_def add_read_def split: prod.splits)

lemma take_locks_sets:
  "write_set (snd (take_locks A tx s)) = write_set s \<union> set (write_account_locks A tx)"
  "read_set (snd (take_locks A tx s)) = read_set s \<union> set (read_account_locks A tx)"
  by (auto simp: take_locks_def take_locks_fold_sets write_account_locks_def read_account_locks_def)

lemma take_locks_fold_available:
  "distinct (map snd xs) \<Longrightarrow>
   fst (fold (take_locks_step A tx) xs (b, s)) \<longleftrightarrow>
     b \<and> list_all (\<lambda>(i, k). if is_writable A tx i then can_write k s else can_read k s) xs"
proof (induction xs arbitrary: b s)
  case Nil
  then show ?case by simp
next
  case (Cons x xs)
  obtain i k where x: "x = (i, k)" by (cases x)
  define s' where "s' = (if is_writable A tx i then s\<lparr>write_set := insert k (write_set s)\<rparr>
    else s\<lparr>read_set := insert k (read_set s)\<rparr>)"
  have "list_all (\<lambda>(i, k). if is_writable A tx i then can_write k s' else can_read k s') xs \<longleftrightarrow>
      list_all (\<lambda>(i, k). if is_writable A tx i then can_write k s else can_read k s) xs"
    using Cons.prems x by (force simp: list_all_iff can_write_def can_read_def s'_def)
  moreover have "take_locks_step A tx x (b, s) =
      (b \<and> (if is_writable A tx i then can_write k s else can_read k s), s')"
    by (simp add: x take_locks_step_def add_write_def add_read_def s'_def)
  ultimately show ?case using Cons.prems by (simp add: Cons.IH x)
qed

lemma fold_take_locks_sets:
  "write_set (fold (\<lambda>tx s. snd (take_locks A tx s)) txs s) =
     write_set s \<union> (\<Union>tx \<in> set txs. set (write_account_locks A tx))"
  "read_set (fold (\<lambda>tx s. snd (take_locks A tx s)) txs s) =
     read_set s \<union> (\<Union>tx \<in> set txs. set (read_account_locks A tx))"
  by (induction txs arbitrary: s) (auto simp: take_locks_sets)

section \<open>Properties\<close>

text \<open>
  C29.  The set is precise: after the locks of a sequence of transactions have been taken,
  \<^verbatim>\<open>check_locks\<close> accepts a transaction exactly when it conflicts with none of them.
\<close>

theorem check_locks_precise:
  "check_locks A tx (fold (\<lambda>y s. snd (take_locks A y s)) txs account_set_default) \<longleftrightarrow>
     (\<forall>y \<in> set txs. \<not> tx_conflict A tx y)"
  by (auto simp: check_locks_iff fold_take_locks_sets account_set_default_def tx_conflict_def
      conflict_def tx_accounts_def)

text \<open>
  For a transaction that names no account twice, the answer of \<^verbatim>\<open>take_locks\<close> is that of
  \<^verbatim>\<open>check_locks\<close> before the call.
\<close>

lemma take_locks_reports:
  "distinct (account_keys A tx) \<Longrightarrow> fst (take_locks A tx s) \<longleftrightarrow> check_locks A tx s"
  by (simp add: take_locks_def check_locks_def take_locks_fold_available)

definition example_messages :: "(pubkey list \<times> nat) message_api" where
  "example_messages = \<lparr>account_keys = fst, is_writable = (\<lambda>(ks, n) i. i < n)\<rparr>"

theorem check_locks_precise_witness:
  "\<not> tx_conflict example_messages ([1, 2], 1) ([3, 2], 1) \<and>
   \<not> check_locks example_messages ([2], 1)
       (fold (\<lambda>y s. snd (take_locks example_messages y s)) [([3, 2], 1)] account_set_default)"
proof -
  have "check_locks example_messages ([1, 2], 1)
      (fold (\<lambda>y s. snd (take_locks example_messages y s)) [([3, 2], 1)] account_set_default)"
    by (simp add: check_locks_def example_messages_def account_set_default_def take_locks_def
        take_locks_step_def add_write_def add_read_def can_write_def can_read_def)
  moreover have "tx_conflict example_messages ([2], 1) ([3, 2], 1)"
    by (simp add: tx_conflict_def conflict_def tx_accounts_def write_account_locks_def
        read_account_locks_def example_messages_def)
  ultimately show ?thesis
    using check_locks_precise [of example_messages _ "[([3, 2], 1)]"] by simp
qed

end
