(* ===== verification/Transaction_State.thy ===== *)
theory Transaction_State
  imports Scheduler_Messages
begin

text \<open>
  \<^verbatim>\<open>TransactionState\<close> of \<^verbatim>\<open>impls/prio_graph_scheduler/transaction_state.rs\<close>: a transaction is
  unprocessed, or pending on a worker.  A transition takes the state out, leaving
  \<^verbatim>\<open>Transitioning\<close> behind, and panics on a state it must not start from.
\<close>

section \<open>States and transitions\<close>

record 'tx ttl =
  ttl_transaction :: 'tx
  ttl_max_age :: max_age

datatype 'tx transaction_state =
    Unprocessed "'tx ttl" u64 nat
  | Pending "'tx ttl" u64 nat
  | Transitioning

definition new_transaction_state :: "'tx ttl \<Rightarrow> u64 \<Rightarrow> nat \<Rightarrow> 'tx transaction_state" where
  "new_transaction_state ttl p c = Unprocessed ttl p c"

fun state_priority :: "'tx transaction_state \<Rightarrow> u64 res" where
  "state_priority (Unprocessed _ p _) = Inr p"
| "state_priority (Pending _ p _) = Inr p"
| "state_priority Transitioning = Inl UnreachableCode"

fun state_cost :: "'tx transaction_state \<Rightarrow> nat res" where
  "state_cost (Unprocessed _ _ c) = Inr c"
| "state_cost (Pending _ _ c) = Inr c"
| "state_cost Transitioning = Inl UnreachableCode"

text \<open>\<^verbatim>\<open>take\<close> returns the state and leaves the dummy in its place.\<close>

definition take_state ::
  "'tx transaction_state \<Rightarrow> 'tx transaction_state \<times> 'tx transaction_state" where
  "take_state s = (s, Transitioning)"

definition transition_to_pending ::
  "'tx transaction_state \<Rightarrow> ('tx ttl \<times> 'tx transaction_state) res" where
  "transition_to_pending s =
     (case fst (take_state s) of
        Unprocessed ttl p c \<Rightarrow> Inr (ttl, Pending ttl p c)
      | Pending _ _ _ \<Rightarrow> Inl (ExplicitPanic ''transaction already pending'')
      | Transitioning \<Rightarrow> Inl UnreachableCode)"

definition transition_to_unprocessed ::
  "'tx ttl \<Rightarrow> 'tx transaction_state \<Rightarrow> 'tx transaction_state res" where
  "transition_to_unprocessed ttl s =
     (case fst (take_state s) of
        Unprocessed _ _ _ \<Rightarrow> Inl (ExplicitPanic ''already unprocessed'')
      | Pending _ p c \<Rightarrow> Inr (Unprocessed ttl p c)
      | Transitioning \<Rightarrow> Inl UnreachableCode)"

fun state_transaction_ttl :: "'tx transaction_state \<Rightarrow> 'tx ttl res" where
  "state_transaction_ttl (Unprocessed ttl _ _) = Inr ttl"
| "state_transaction_ttl (Pending _ _ _) = Inl (ExplicitPanic ''transaction is pending'')"
| "state_transaction_ttl Transitioning = Inl UnreachableCode"

section \<open>Facts\<close>

lemma transition_to_pending_Inr [res_simps]:
  "transition_to_pending s = Inr (ttl, s') \<longleftrightarrow>
     (\<exists>p c. s = Unprocessed ttl p c \<and> s' = Pending ttl p c)"
  by (auto simp: transition_to_pending_def take_state_def split: transaction_state.splits)

lemma transition_to_unprocessed_Inr [res_simps]:
  "transition_to_unprocessed ttl s = Inr s' \<longleftrightarrow>
     (\<exists>ttl0 p c. s = Pending ttl0 p c \<and> s' = Unprocessed ttl p c)"
  by (auto simp: transition_to_unprocessed_def take_state_def split: transaction_state.splits)

lemma state_transaction_ttl_Inr [res_simps]:
  "state_transaction_ttl s = Inr ttl \<longleftrightarrow> (\<exists>p c. s = Unprocessed ttl p c)"
  by (cases s) auto

fun_cases state_priority_Inr_E: "state_priority s = Inr p"
fun_cases state_cost_Inr_E: "state_cost s = Inr c"

text \<open>
  The life of a transaction: the transitions that do not panic, from a new transaction on.
\<close>

inductive tx_life :: "'tx transaction_state \<Rightarrow> 'tx transaction_state \<Rightarrow> bool" where
  life_new: "tx_life s s"
| life_pending: "tx_life s t \<Longrightarrow> transition_to_pending t = Inr (ttl, u) \<Longrightarrow> tx_life s u"
| life_unprocessed: "tx_life s t \<Longrightarrow> transition_to_unprocessed ttl t = Inr u \<Longrightarrow> tx_life s u"

text \<open>
  Over the whole life of a transaction its priority and its cost stay those it was created
  with, and the intermediate \<^verbatim>\<open>Transitioning\<close> state is never left behind.
\<close>

lemma tx_life_keeps:
  assumes "tx_life (new_transaction_state ttl p c) s"
  shows "state_priority s = Inr p \<and> state_cost s = Inr c \<and> s \<noteq> Transitioning"
  using assms
  by (induction "new_transaction_state ttl p c" s rule: tx_life.induct)
    (auto simp: new_transaction_state_def res_simps)

end
