(* ===== verification/State_Container.thy ===== *)
theory State_Container
  imports Transaction_State
begin

text \<open>
  \<^verbatim>\<open>TransactionStateContainer\<close> of \<^verbatim>\<open>impls/prio_graph_scheduler/transaction_state_container.rs\<close>: a
  bounded priority queue of transaction ids beside the map from ids to transaction states.

  The queue is a min-max heap of the crate \<^verbatim>\<open>min_max_heap\<close>, an argument \<open>heap_api\<close> of the
  definitions.  \<open>heap_laws\<close> states its documented behaviour over the multiset of its elements.
\<close>

section \<open>The heap\<close>

record 'h heap_api =
  hp_with_capacity :: "nat \<Rightarrow> 'h"
  hp_capacity :: "'h \<Rightarrow> nat"
  hp_len :: "'h \<Rightarrow> nat"
  hp_is_empty :: "'h \<Rightarrow> bool"
  hp_push :: "transaction_priority_id \<Rightarrow> 'h \<Rightarrow> 'h"
  hp_pop_max :: "'h \<Rightarrow> (transaction_priority_id \<times> 'h) option"
  hp_push_pop_min :: "transaction_priority_id \<Rightarrow> 'h \<Rightarrow> transaction_priority_id \<times> 'h"
  hp_peek_min :: "'h \<Rightarrow> transaction_priority_id option"
  hp_peek_max :: "'h \<Rightarrow> transaction_priority_id option"

definition heap_laws :: "'h heap_api \<Rightarrow> ('h \<Rightarrow> transaction_priority_id multiset) \<Rightarrow> bool" where
  "heap_laws H elems \<longleftrightarrow>
     (\<forall>c. elems (hp_with_capacity H c) = {#} \<and> c \<le> hp_capacity H (hp_with_capacity H c)) \<and>
     (\<forall>h. hp_len H h = size (elems h) \<and> size (elems h) \<le> hp_capacity H h) \<and>
     (\<forall>h. hp_is_empty H h \<longleftrightarrow> elems h = {#}) \<and>
     (\<forall>x h. elems (hp_push H x h) = add_mset x (elems h) \<and>
        (size (elems h) < hp_capacity H h \<longrightarrow>
           hp_capacity H (hp_push H x h) = hp_capacity H h)) \<and>
     (\<forall>h. hp_pop_max H h = None \<longleftrightarrow> elems h = {#}) \<and>
     (\<forall>h x h'. hp_pop_max H h = Some (x, h') \<longrightarrow>
        elems h = add_mset x (elems h') \<and> (\<forall>y \<in># elems h. y \<le> x) \<and>
        hp_capacity H h' = hp_capacity H h) \<and>
     (\<forall>x h y h'. hp_push_pop_min H x h = (y, h') \<longrightarrow>
        add_mset x (elems h) = add_mset y (elems h') \<and> (\<forall>z \<in># add_mset x (elems h). y \<le> z) \<and>
        hp_capacity H h' = hp_capacity H h) \<and>
     (\<forall>h. case hp_peek_min H h of None \<Rightarrow> elems h = {#}
          | Some x \<Rightarrow> x \<in># elems h \<and> (\<forall>y \<in># elems h. x \<le> y)) \<and>
     (\<forall>h. case hp_peek_max H h of None \<Rightarrow> elems h = {#}
          | Some x \<Rightarrow> x \<in># elems h \<and> (\<forall>y \<in># elems h. y \<le> x))"

lemma heap_lawsD:
  assumes "heap_laws H elems"
  shows "elems (hp_with_capacity H c) = {#}" "c \<le> hp_capacity H (hp_with_capacity H c)"
    and "hp_len H h = size (elems h)" "size (elems h) \<le> hp_capacity H h"
    and "hp_is_empty H h \<longleftrightarrow> elems h = {#}"
    and "elems (hp_push H x h) = add_mset x (elems h)"
    and "size (elems h) < hp_capacity H h \<Longrightarrow> hp_capacity H (hp_push H x h) = hp_capacity H h"
    and "hp_pop_max H h = None \<longleftrightarrow> elems h = {#}"
    and "hp_pop_max H h = Some (x, h') \<Longrightarrow>
      elems h = add_mset x (elems h') \<and> (\<forall>y \<in># elems h. y \<le> x) \<and> hp_capacity H h' = hp_capacity H h"
    and "hp_push_pop_min H x h = (y, h') \<Longrightarrow>
      add_mset x (elems h) = add_mset y (elems h') \<and> (\<forall>z \<in># add_mset x (elems h). y \<le> z) \<and>
      hp_capacity H h' = hp_capacity H h"
    and "case hp_peek_min H h of None \<Rightarrow> elems h = {#}
      | Some x \<Rightarrow> x \<in># elems h \<and> (\<forall>y \<in># elems h. x \<le> y)"
    and "case hp_peek_max H h of None \<Rightarrow> elems h = {#}
      | Some x \<Rightarrow> x \<in># elems h \<and> (\<forall>y \<in># elems h. y \<le> x)"
  using assms unfolding heap_laws_def by blast+

section \<open>State and operations\<close>

record ('h, 'tx) container =
  priority_queue :: 'h
  id_to_transaction_state :: "transaction_id \<rightharpoonup> 'tx transaction_state"

datatype min_max_result = NoElements | OneElement u64 | MinMax u64 u64

definition container_with_capacity :: "'h heap_api \<Rightarrow> nat \<Rightarrow> ('h, 'tx) container" where
  "container_with_capacity H c =
     \<lparr>priority_queue = hp_with_capacity H c, id_to_transaction_state = Map.empty\<rparr>"

definition container_len :: "'h heap_api \<Rightarrow> ('h, 'tx) container \<Rightarrow> nat" where
  "container_len H C = hp_len H (priority_queue C)"

definition container_is_empty :: "'h heap_api \<Rightarrow> ('h, 'tx) container \<Rightarrow> bool" where
  "container_is_empty H C = hp_is_empty H (priority_queue C)"

definition remaining_queue_capacity :: "'h heap_api \<Rightarrow> ('h, 'tx) container \<Rightarrow> nat res" where
  "remaining_queue_capacity H C =
     checked_sub (hp_capacity H (priority_queue C)) (hp_len H (priority_queue C))"

definition container_pop ::
  "'h heap_api \<Rightarrow> ('h, 'tx) container \<Rightarrow> (transaction_priority_id \<times> ('h, 'tx) container) option" where
  "container_pop H C =
     map_option (\<lambda>(x, h). (x, C\<lparr>priority_queue := h\<rparr>)) (hp_pop_max H (priority_queue C))"

text \<open>
  The mutable reference of \<^verbatim>\<open>get_mut_transaction_state\<close> is a lookup, and \<open>put_transaction_state\<close>
  the write through it.
\<close>

definition get_mut_transaction_state ::
  "transaction_id \<Rightarrow> ('h, 'tx) container \<Rightarrow> 'tx transaction_state option" where
  "get_mut_transaction_state i C = id_to_transaction_state C i"

definition put_transaction_state ::
  "transaction_id \<Rightarrow> 'tx transaction_state \<Rightarrow> ('h, 'tx) container \<Rightarrow> ('h, 'tx) container" where
  "put_transaction_state i s C =
     C\<lparr>id_to_transaction_state := (id_to_transaction_state C)(i \<mapsto> s)\<rparr>"

definition get_transaction_ttl ::
  "transaction_id \<Rightarrow> ('h, 'tx) container \<Rightarrow> 'tx ttl option res" where
  "get_transaction_ttl i C =
     (case id_to_transaction_state C i of
        None \<Rightarrow> Inr None
      | Some s \<Rightarrow> rbind (state_transaction_ttl s) (\<lambda>ttl. Inr (Some ttl)))"

definition remove_by_id :: "transaction_id \<Rightarrow> ('h, 'tx) container \<Rightarrow> ('h, 'tx) container res" where
  "remove_by_id i C =
     (case id_to_transaction_state C i of
        None \<Rightarrow> Inl (UnwrapOnNone ''transaction must exist'')
      | Some _ \<Rightarrow> Inr (C\<lparr>id_to_transaction_state := (id_to_transaction_state C)(i := None)\<rparr>))"

definition push_id_into_queue ::
  "'h heap_api \<Rightarrow> transaction_priority_id \<Rightarrow> ('h, 'tx) container \<Rightarrow> (bool \<times> ('h, 'tx) container) res" where
  "push_id_into_queue H x C =
     rbind (remaining_queue_capacity H C) (\<lambda>room.
       if room = 0
       then (let (y, h) = hp_push_pop_min H x (priority_queue C) in
             rbind (remove_by_id (tp_id y) (C\<lparr>priority_queue := h\<rparr>)) (\<lambda>C'. Inr (True, C')))
       else Inr (False, C\<lparr>priority_queue := hp_push H x (priority_queue C)\<rparr>))"

definition insert_new_transaction ::
  "'h heap_api \<Rightarrow> transaction_id \<Rightarrow> 'tx ttl \<Rightarrow> u64 \<Rightarrow> nat \<Rightarrow> ('h, 'tx) container
     \<Rightarrow> (bool \<times> ('h, 'tx) container) res" where
  "insert_new_transaction H i ttl p c C =
     push_id_into_queue H (TransactionPriorityId p i)
       (C\<lparr>id_to_transaction_state :=
            (id_to_transaction_state C)(i \<mapsto> new_transaction_state ttl p c)\<rparr>)"

definition retry_transaction ::
  "'h heap_api \<Rightarrow> transaction_id \<Rightarrow> 'tx ttl \<Rightarrow> ('h, 'tx) container \<Rightarrow> ('h, 'tx) container res" where
  "retry_transaction H i ttl C =
     rbind (runwrap ''transaction must exist'' (get_mut_transaction_state i C)) (\<lambda>s.
     rbind (state_priority s) (\<lambda>p.
     rbind (transition_to_unprocessed ttl s) (\<lambda>s'.
     rbind (push_id_into_queue H (TransactionPriorityId p i) (put_transaction_state i s' C)) (\<lambda>(_, C').
     Inr C'))))"

definition get_min_max_priority :: "'h heap_api \<Rightarrow> ('h, 'tx) container \<Rightarrow> min_max_result" where
  "get_min_max_priority H C =
     (case hp_peek_min H (priority_queue C) of
        Some x \<Rightarrow>
          (case hp_peek_max H (priority_queue C) of
             Some y \<Rightarrow> MinMax (tp_priority x) (tp_priority y)
           | None \<Rightarrow> OneElement (tp_priority x))
      | None \<Rightarrow> NoElements)"

section \<open>Invariant\<close>

text \<open>
  Every id of the queue is there once and has an unprocessed transaction of its priority in the
  map.
\<close>

definition queued_ok ::
  "transaction_priority_id multiset \<Rightarrow> (transaction_id \<rightharpoonup> 'tx transaction_state) \<Rightarrow> bool" where
  "queued_ok E S \<longleftrightarrow>
     finite (dom S) \<and> (\<forall>i. count (image_mset tp_id E) i \<le> 1) \<and>
     (\<forall>x \<in># E. \<exists>ttl c. S (tp_id x) = Some (Unprocessed ttl (tp_priority x) c))"

definition container_inv ::
  "('h \<Rightarrow> transaction_priority_id multiset) \<Rightarrow> ('h, 'tx) container \<Rightarrow> bool" where
  "container_inv elems C \<longleftrightarrow> queued_ok (elems (priority_queue C)) (id_to_transaction_state C)"

lemma queued_ok_add: "queued_ok (add_mset x E) S \<longleftrightarrow>
    queued_ok E S \<and> tp_id x \<notin># image_mset tp_id E \<and>
    (\<exists>ttl c. S (tp_id x) = Some (Unprocessed ttl (tp_priority x) c))"
proof -
  let ?c = "count (image_mset tp_id E)"
  have "(\<forall>i. count (image_mset tp_id (add_mset x E)) i \<le> 1) \<longleftrightarrow>
      (\<forall>i. ?c i \<le> 1) \<and> tp_id x \<notin># image_mset tp_id E"
  proof (intro iffI conjI allI)
    fix i
    assume all: "\<forall>i. count (image_mset tp_id (add_mset x E)) i \<le> 1"
    have "?c i \<le> count (image_mset tp_id (add_mset x E)) i" by simp
    then show "?c i \<le> 1" using all le_trans by blast
    show "tp_id x \<notin># image_mset tp_id E"
      using all [rule_format, of "tp_id x"] unfolding not_in_iff by simp
  next
    fix i
    assume "(\<forall>i. ?c i \<le> 1) \<and> tp_id x \<notin># image_mset tp_id E"
    then show "count (image_mset tp_id (add_mset x E)) i \<le> 1" unfolding not_in_iff by auto
  qed
  then show ?thesis unfolding queued_ok_def by auto
qed

lemma queued_ok_upd: "queued_ok E S \<Longrightarrow> i \<notin># image_mset tp_id E \<Longrightarrow> queued_ok E (S(i := s))"
  by (auto simp: queued_ok_def)

lemma queued_ok_empty: "queued_ok {#} S \<longleftrightarrow> finite (dom S)"
  by (simp add: queued_ok_def)

lemma container_with_capacity_inv:
  "heap_laws H elems \<Longrightarrow> container_inv elems (container_with_capacity H c)"
  by (simp add: container_inv_def container_with_capacity_def queued_ok_empty heap_lawsD(1))

lemma remaining_queue_capacity_ok:
  "heap_laws H elems \<Longrightarrow> remaining_queue_capacity H C =
     Inr (hp_capacity H (priority_queue C) - size (elems (priority_queue C)))"
  by (simp add: remaining_queue_capacity_def checked_sub_def heap_lawsD(3,4))

text \<open>
  Pushing an id whose transaction is unprocessed: with room it is queued, without room the least
  of the queue and the new id is dropped from the queue and from the map.
\<close>

lemma push_id_into_queue_ok:
  assumes H: "heap_laws H elems" and ok: "queued_ok (add_mset x (elems (priority_queue C))) (id_to_transaction_state C)"
  obtains (room) C' where "push_id_into_queue H x C = Inr (False, C')" "container_inv elems C'"
      "size (elems (priority_queue C)) < hp_capacity H (priority_queue C)"
      "elems (priority_queue C') = add_mset x (elems (priority_queue C))"
      "id_to_transaction_state C' = id_to_transaction_state C"
      "hp_capacity H (priority_queue C') = hp_capacity H (priority_queue C)"
  | (full) y C' where "push_id_into_queue H x C = Inr (True, C')" "container_inv elems C'"
      "size (elems (priority_queue C)) = hp_capacity H (priority_queue C)"
      "add_mset x (elems (priority_queue C)) = add_mset y (elems (priority_queue C'))"
      "\<forall>z \<in># add_mset x (elems (priority_queue C)). y \<le> z"
      "id_to_transaction_state C' = (id_to_transaction_state C)(tp_id y := None)"
      "hp_capacity H (priority_queue C') = hp_capacity H (priority_queue C)"
proof (cases "size (elems (priority_queue C)) < hp_capacity H (priority_queue C)")
  case True
  then show ?thesis
    using ok by (intro room [of "C\<lparr>priority_queue := hp_push H x (priority_queue C)\<rparr>"])
      (simp_all add: push_id_into_queue_def remaining_queue_capacity_ok [OF H] container_inv_def
        heap_lawsD(6,7) [OF H])
next
  case False
  then have len: "size (elems (priority_queue C)) = hp_capacity H (priority_queue C)"
    using heap_lawsD(4) [OF H] by (metis le_neq_implies_less)
  obtain y h where y: "hp_push_pop_min H x (priority_queue C) = (y, h)" by fastforce
  note pp = heap_lawsD(10) [OF H y]
  have ok': "queued_ok (add_mset y (elems h)) (id_to_transaction_state C)" using ok pp by simp
  then obtain ttl c where s: "id_to_transaction_state C (tp_id y) = Some (Unprocessed ttl (tp_priority y) c)"
    by (auto simp: queued_ok_add)
  let ?C = "C\<lparr>priority_queue := h,
      id_to_transaction_state := (id_to_transaction_state C)(tp_id y := None)\<rparr>"
  have inv: "container_inv elems ?C"
    using ok' by (simp add: container_inv_def queued_ok_add queued_ok_upd)
  have run: "push_id_into_queue H x C = Inr (True, ?C)"
    using len y s by (simp add: push_id_into_queue_def remaining_queue_capacity_ok [OF H] remove_by_id_def)
  show ?thesis
  proof (rule full [OF run inv len])
    show "\<forall>z \<in># add_mset x (elems (priority_queue C)). y \<le> z" using pp by blast
  qed (use pp in simp_all)
qed

lemma container_pop_ok:
  assumes H: "heap_laws H elems" and ok: "container_inv elems C" and run: "container_pop H C = Some (x, C')"
  shows "container_inv elems C' \<and> elems (priority_queue C) = add_mset x (elems (priority_queue C')) \<and>
    id_to_transaction_state C' = id_to_transaction_state C \<and>
    hp_capacity H (priority_queue C') = hp_capacity H (priority_queue C) \<and>
    (\<forall>y \<in># elems (priority_queue C). y \<le> x)"
proof -
  from run obtain h where h: "hp_pop_max H (priority_queue C) = Some (x, h)" "C' = C\<lparr>priority_queue := h\<rparr>"
    by (auto simp: container_pop_def)
  with heap_lawsD(9) [OF H h(1)] ok show ?thesis by (auto simp: container_inv_def queued_ok_add)
qed

lemma container_pop_None:
  "heap_laws H elems \<Longrightarrow> container_pop H C = None \<longleftrightarrow> elems (priority_queue C) = {#}"
  by (simp add: container_pop_def heap_lawsD(8))

lemma get_transaction_ttl_ok:
  "id_to_transaction_state C i = Some (Unprocessed ttl p c) \<Longrightarrow> get_transaction_ttl i C = Inr (Some ttl)"
  by (simp add: get_transaction_ttl_def)

lemma pending_not_queued:
  "queued_ok E S \<Longrightarrow> S i = Some (Pending ttl p c) \<Longrightarrow> i \<notin># image_mset tp_id E"
  by (auto simp: queued_ok_def)

lemma fresh_not_queued: "queued_ok E S \<Longrightarrow> S i = None \<Longrightarrow> i \<notin># image_mset tp_id E"
  by (auto simp: queued_ok_def)

lemma queued_ok_finite: "queued_ok E S \<Longrightarrow> finite (dom S)"
  by (simp add: queued_ok_def)

section \<open>Properties\<close>

text \<open>
  C20.  Inserting a transaction with a new id never panics and keeps the container well-formed and
  within its capacity.  While there is room nothing is dropped; when the queue is full exactly
  one transaction leaves, one of least priority among those queued and the new one, and it
  leaves the map as well.
\<close>

theorem insert_new_transaction_keeps:
  assumes "heap_laws H elems" "container_inv elems C" "id_to_transaction_state C i = None"
  shows "\<exists>dropped C'. insert_new_transaction H i ttl p c C = Inr (dropped, C') \<and> container_inv elems C' \<and>
    size (elems (priority_queue C')) \<le> hp_capacity H (priority_queue C) \<and>
    (if size (elems (priority_queue C)) < hp_capacity H (priority_queue C)
     then \<not> dropped \<and>
       elems (priority_queue C') = add_mset (TransactionPriorityId p i) (elems (priority_queue C)) \<and>
       id_to_transaction_state C' = (id_to_transaction_state C)(i \<mapsto> Unprocessed ttl p c)
     else dropped \<and> (\<exists>y.
       add_mset (TransactionPriorityId p i) (elems (priority_queue C)) =
         add_mset y (elems (priority_queue C')) \<and>
       (\<forall>z \<in># add_mset (TransactionPriorityId p i) (elems (priority_queue C)). y \<le> z) \<and>
       id_to_transaction_state C' =
         (id_to_transaction_state C)(i \<mapsto> Unprocessed ttl p c, tp_id y := None)))"
proof -
  let ?C = "C\<lparr>id_to_transaction_state := (id_to_transaction_state C)(i \<mapsto> Unprocessed ttl p c)\<rparr>"
  have "i \<notin># image_mset tp_id (elems (priority_queue C))"
    using assms(2,3) fresh_not_queued by (auto simp: container_inv_def)
  then have "queued_ok (add_mset (TransactionPriorityId p i) (elems (priority_queue ?C)))
      (id_to_transaction_state ?C)"
    using assms(2) by (simp add: queued_ok_add queued_ok_upd container_inv_def)
  then show ?thesis
  proof (cases rule: push_id_into_queue_ok [OF assms(1), consumes 1, case_names room full])
    case (room C')
    then show ?thesis
      by (auto simp: insert_new_transaction_def new_transaction_state_def)
  next
    case (full y C')
    have "size (elems (priority_queue C')) = size (elems (priority_queue ?C))"
      using arg_cong [OF full(4), of size] by simp
    then have "size (elems (priority_queue C')) \<le> hp_capacity H (priority_queue C)"
      using full(3) by simp
    with full show ?thesis
      by (intro exI [of _ True] exI [of _ C'] conjI)
        (auto simp: insert_new_transaction_def new_transaction_state_def simp del: set_mset_add_mset_insert)
  qed
qed

text \<open>
  Retrying a pending transaction in a queue with room makes it unprocessed again, queued
  under the priority it had, and keeps the container well-formed.
\<close>

lemma retry_transaction_requeues:
  assumes "heap_laws H elems" "container_inv elems C"
    "id_to_transaction_state C i = Some (Pending ttl0 p c)"
    "size (elems (priority_queue C)) < hp_capacity H (priority_queue C)"
  shows "\<exists>C'. retry_transaction H i ttl C = Inr C' \<and> container_inv elems C' \<and>
    elems (priority_queue C') = add_mset (TransactionPriorityId p i) (elems (priority_queue C)) \<and>
    id_to_transaction_state C' = (id_to_transaction_state C)(i \<mapsto> Unprocessed ttl p c)"
proof -
  let ?C = "put_transaction_state i (Unprocessed ttl p c) C"
  have "i \<notin># image_mset tp_id (elems (priority_queue C))"
    using assms(2,3) pending_not_queued by (fastforce simp: container_inv_def)
  then have "queued_ok (add_mset (TransactionPriorityId p i) (elems (priority_queue ?C)))
      (id_to_transaction_state ?C)"
    using assms(2) by (simp add: queued_ok_add queued_ok_upd container_inv_def put_transaction_state_def)
  then show ?thesis
  proof (cases rule: push_id_into_queue_ok [OF assms(1), consumes 1, case_names room full])
    case (room C')
    then show ?thesis
      using assms(3)
      by (auto simp: retry_transaction_def get_mut_transaction_state_def runwrap_def
          transition_to_unprocessed_def take_state_def put_transaction_state_def)
  next
    case (full y C')
    then show ?thesis using assms(4) by (simp add: put_transaction_state_def)
  qed
qed

section \<open>A heap that satisfies the laws\<close>

text \<open>The heap of the witnesses: its elements in a list, and a capacity.\<close>

type_synonym list_heap = "nat \<times> transaction_priority_id list"

definition list_heap_api :: "list_heap heap_api" where
  "list_heap_api = \<lparr>
     hp_with_capacity = (\<lambda>c. (c, [])),
     hp_capacity = (\<lambda>(c, xs). max c (length xs)),
     hp_len = (\<lambda>(c, xs). length xs),
     hp_is_empty = (\<lambda>(c, xs). xs = []),
     hp_push = (\<lambda>x (c, xs). (c, x # xs)),
     hp_pop_max = (\<lambda>(c, xs). if xs = [] then None
        else Some (Max (set xs), max c (length xs), remove1 (Max (set xs)) xs)),
     hp_push_pop_min = (\<lambda>x (c, xs). (Min (set (x # xs)),
        max c (length xs), remove1 (Min (set (x # xs))) (x # xs))),
     hp_peek_min = (\<lambda>(c, xs). if xs = [] then None else Some (Min (set xs))),
     hp_peek_max = (\<lambda>(c, xs). if xs = [] then None else Some (Max (set xs)))\<rparr>"

definition list_heap_elems :: "list_heap \<Rightarrow> transaction_priority_id multiset" where
  "list_heap_elems h = mset (snd h)"

lemma remove1_facts:
  assumes "x \<in> set xs"
  shows "mset xs = add_mset x (mset (remove1 x xs))" and "length xs = Suc (length (remove1 x xs))"
  using assms by (auto simp: length_remove1 intro: Suc_pred [symmetric] length_pos_if_in_set)

lemma list_heap_laws: "heap_laws list_heap_api list_heap_elems"
proof -
  note defs = list_heap_api_def list_heap_elems_def
  have pop: "mset xs = add_mset (Max (set xs)) (mset (remove1 (Max (set xs)) xs))" if "xs \<noteq> []"
    for xs :: "transaction_priority_id list"
    using that by (auto intro!: remove1_facts Max_in)
  have ppm: "mset ys = add_mset (Min (set ys)) (mset (remove1 (Min (set ys)) ys))"
    "length (remove1 (Min (set ys)) ys) = length ys - 1" if "ys \<noteq> []"
    for ys :: "transaction_priority_id list"
    using that remove1_facts [OF Min_in [of "set ys"]] by auto
  have len: "max (max a (length xs)) (length (remove1 x xs)) = max a (length xs)"
    for a x and xs :: "transaction_priority_id list"
    by (rule max_absorb1) (simp add: length_remove1 le_max_iff_disj)
  show ?thesis
    unfolding heap_laws_def
  proof (intro conjI allI impI, goal_cases)
    case (9 h x h')
    then show ?case using pop [of "snd h"] by (cases h) (auto simp: defs split: if_splits)
  next
    case (10 h x h')
    then show ?case by (cases h) (auto simp: defs split: if_splits)
  next
    case (11 h x h')
    then show ?case using len by (cases h) (auto simp: defs split: if_splits)
  next
    case (12 x h y h')
    then show ?case using ppm(1) [of "x # snd h"] by (cases h) (auto simp: defs)
  next
    case (13 x h y h')
    then show ?case by (cases h) (auto simp: defs)
  next
    case (14 x h y h')
    then show ?case using ppm(2) [of "x # snd h"] by (cases h) (simp add: defs, clarsimp)
  qed (auto simp: defs split: if_splits)
qed

section \<open>Witnesses\<close>

definition example_ttl :: "nat ttl" where
  "example_ttl = \<lparr>ttl_transaction = 7,
     ttl_max_age = \<lparr>epoch_invalidation_slot = 0, alt_invalidation_slot = 0\<rparr>\<rparr>"

definition example_container :: "(list_heap, nat) container" where
  "example_container = \<lparr>priority_queue = (1, [TransactionPriorityId 3 (TransactionId 1)]),
     id_to_transaction_state = [TransactionId 1 \<mapsto> Unprocessed example_ttl 3 100]\<rparr>"

lemma example_container_inv: "container_inv list_heap_elems example_container"
  by (simp add: container_inv_def queued_ok_def example_container_def list_heap_elems_def)

theorem insert_new_transaction_keeps_witness:
  "\<exists>C'. insert_new_transaction list_heap_api (TransactionId 2) example_ttl 5 100 example_container = Inr (True, C')"
proof -
  have "id_to_transaction_state example_container (TransactionId 2) = None"
    by (simp add: example_container_def)
  moreover have "\<not> size (list_heap_elems (priority_queue example_container))
      < hp_capacity list_heap_api (priority_queue example_container)"
    by (simp add: example_container_def list_heap_api_def list_heap_elems_def)
  ultimately show ?thesis
    using insert_new_transaction_keeps [OF list_heap_laws example_container_inv,
        of "TransactionId 2" example_ttl 5 100] by auto
qed

end
