(* ===== verification/In_Flight.thy ===== *)
theory In_Flight
  imports Scheduler_Messages
begin

text \<open>
  \<^verbatim>\<open>InFlightTracker\<close> of \<^verbatim>\<open>impls/prio_graph_scheduler/in_flight_tracker.rs\<close>: the number of
  transactions and compute units each worker has in flight, and the batches they belong to.
  Indexing out of range and the arithmetic on the counters panic.
\<close>

section \<open>State and operations\<close>

record batch_entry =
  be_thread_id :: nat
  be_num_transactions :: nat
  be_total_cus :: nat

record in_flight_tracker =
  num_in_flight_per_thread :: "nat list"
  cus_in_flight_per_thread :: "nat list"
  batches :: "transaction_batch_id \<rightharpoonup> batch_entry"
  batch_id_generator :: id_generator

definition new_in_flight_tracker :: "nat \<Rightarrow> in_flight_tracker" where
  "new_in_flight_tracker n =
     \<lparr>num_in_flight_per_thread = replicate n 0, cus_in_flight_per_thread = replicate n 0,
      batches = Map.empty, batch_id_generator = id_generator_default\<rparr>"

definition track_batch ::
  "nat \<Rightarrow> nat \<Rightarrow> nat \<Rightarrow> in_flight_tracker \<Rightarrow> (transaction_batch_id \<times> in_flight_tracker) res" where
  "track_batch n cus t T =
     (let (bid, g) = gen TransactionBatchId (batch_id_generator T) in
      rbind (rmodify t (\<lambda>x. checked_add 64 x n) (num_in_flight_per_thread T)) (\<lambda>ns.
      rbind (rmodify t (\<lambda>x. checked_add 64 x cus) (cus_in_flight_per_thread T)) (\<lambda>cs.
      Inr (bid, T\<lparr>num_in_flight_per_thread := ns, cus_in_flight_per_thread := cs,
        batches := (batches T)(bid \<mapsto>
          \<lparr>be_thread_id = t, be_num_transactions = n, be_total_cus = cus\<rparr>),
        batch_id_generator := g\<rparr>))))"

definition tracker_complete_batch ::
  "transaction_batch_id \<Rightarrow> in_flight_tracker \<Rightarrow> (nat \<times> in_flight_tracker) res" where
  "tracker_complete_batch bid T =
     (case batches T bid of
        None \<Rightarrow> Inl (ExplicitPanic ''batch id is not being tracked'')
      | Some e \<Rightarrow>
          rbind (rmodify (be_thread_id e) (\<lambda>x. checked_sub x (be_num_transactions e))
                   (num_in_flight_per_thread T)) (\<lambda>ns.
          rbind (rmodify (be_thread_id e) (\<lambda>x. checked_sub x (be_total_cus e))
                   (cus_in_flight_per_thread T)) (\<lambda>cs.
          Inr (be_thread_id e, T\<lparr>num_in_flight_per_thread := ns, cus_in_flight_per_thread := cs,
            batches := (batches T)(bid := None)\<rparr>))))"

section \<open>Invariant\<close>

text \<open>
  The counters of a thread are the totals over its tracked batches.
\<close>

definition thread_batches :: "in_flight_tracker \<Rightarrow> nat \<Rightarrow> transaction_batch_id set" where
  "thread_batches T t = {b. \<exists>e. batches T b = Some e \<and> be_thread_id e = t}"

definition tracker_inv :: "nat \<Rightarrow> in_flight_tracker \<Rightarrow> bool" where
  "tracker_inv n T \<longleftrightarrow>
     length (num_in_flight_per_thread T) = n \<and> length (cus_in_flight_per_thread T) = n \<and>
     finite (dom (batches T)) \<and>
     (\<forall>b e. batches T b = Some e \<longrightarrow> be_thread_id e < n) \<and>
     (\<forall>t < n. num_in_flight_per_thread T ! t =
        (\<Sum>b \<in> thread_batches T t. be_num_transactions (the (batches T b)))) \<and>
     (\<forall>t < n. cus_in_flight_per_thread T ! t =
        (\<Sum>b \<in> thread_batches T t. be_total_cus (the (batches T b))))"

lemma finite_thread_batches: "finite (dom (batches T)) \<Longrightarrow> finite (thread_batches T t)"
  by (rule finite_subset [of _ "dom (batches T)"]) (auto simp: thread_batches_def)

lemma new_in_flight_tracker_inv: "tracker_inv n (new_in_flight_tracker n)"
  by (simp add: tracker_inv_def new_in_flight_tracker_def thread_batches_def)

lemma thread_batches_insert:
  "thread_batches (T\<lparr>num_in_flight_per_thread := ns, cus_in_flight_per_thread := cs,
     batches := (batches T)(b \<mapsto> e), batch_id_generator := g\<rparr>) t =
     (if be_thread_id e = t then insert b (thread_batches T t) else thread_batches T t - {b})"
  by (auto simp: thread_batches_def)

lemma thread_batches_remove:
  "thread_batches (T\<lparr>num_in_flight_per_thread := ns, cus_in_flight_per_thread := cs,
     batches := (batches T)(b := None)\<rparr>) t = thread_batches T t - {b}"
  by (auto simp: thread_batches_def)

lemma track_batch_inv:
  assumes inv: "tracker_inv n T" and run: "track_batch k cus t T = Inr (b, T')"
    and fresh: "TransactionBatchId (next_id (batch_id_generator T)) \<notin> dom (batches T)"
  shows "tracker_inv n T'"
proof -
  let ?b = "TransactionBatchId (next_id (batch_id_generator T))"
  let ?e = "\<lparr>be_thread_id = t, be_num_transactions = k, be_total_cus = cus\<rparr>"
  have t: "t < n" and T': "T' = T\<lparr>num_in_flight_per_thread :=
        (num_in_flight_per_thread T)[t := num_in_flight_per_thread T ! t + k],
      cus_in_flight_per_thread := (cus_in_flight_per_thread T)[t := cus_in_flight_per_thread T ! t + cus],
      batches := (batches T)(?b \<mapsto> ?e),
      batch_id_generator := snd (gen TransactionBatchId (batch_id_generator T))\<rparr>"
    using run inv by (auto simp: track_batch_def gen_def res_simps tracker_inv_def)
  have notin: "?b \<notin> thread_batches T u" for u using fresh by (auto simp: thread_batches_def)
  have sums: "(\<Sum>b \<in> thread_batches T' u. f (the (batches T' b))) =
      (\<Sum>b \<in> thread_batches T u. f (the (batches T b))) + (if u = t then f ?e else 0)"
    for u and f :: "batch_entry \<Rightarrow> nat"
  proof -
    have "(\<Sum>b \<in> thread_batches T u. f (the (batches T' b))) =
        (\<Sum>b \<in> thread_batches T u. f (the (batches T b)))"
      by (rule sum.cong) (use notin T' in auto)
    then show ?thesis
      using notin [of u] inv
      by (auto simp: T' thread_batches_insert finite_thread_batches tracker_inv_def)
  qed
  show ?thesis
    using inv t unfolding tracker_inv_def sums
    by (auto simp: T' nth_list_update split: if_splits)
qed

lemma tracker_complete_batch_ok:
  assumes inv: "tracker_inv n T" and e: "batches T b = Some e"
  shows "\<exists>T'. tracker_complete_batch b T = Inr (be_thread_id e, T') \<and> tracker_inv n T' \<and>
           batches T' = (batches T)(b := None) \<and> batch_id_generator T' = batch_id_generator T"
proof -
  let ?t = "be_thread_id e"
  have t: "?t < n" and fin: "finite (thread_batches T u)" and b: "b \<in> thread_batches T ?t" for u
    using inv e finite_thread_batches by (auto simp: tracker_inv_def thread_batches_def)
  have le: "f e \<le> (\<Sum>b \<in> thread_batches T ?t. f (the (batches T b)))" for f :: "batch_entry \<Rightarrow> nat"
    using member_le_sum [OF b _ fin, of "\<lambda>b. f (the (batches T b))"] e by simp
  define T' where "T' = T\<lparr>num_in_flight_per_thread :=
        (num_in_flight_per_thread T)[?t := num_in_flight_per_thread T ! ?t - be_num_transactions e],
      cus_in_flight_per_thread :=
        (cus_in_flight_per_thread T)[?t := cus_in_flight_per_thread T ! ?t - be_total_cus e],
      batches := (batches T)(b := None)\<rparr>"
  have run: "tracker_complete_batch b T = Inr (?t, T')"
    using inv t le [of be_num_transactions] le [of be_total_cus] e
    by (simp add: tracker_complete_batch_def rmodify_def rindex_def checked_sub_def tracker_inv_def
        T'_def)
  have sums: "(\<Sum>b \<in> thread_batches T' u. f (the (batches T' b))) =
      (\<Sum>b \<in> thread_batches T u. f (the (batches T b))) - (if u = ?t then f e else 0)"
    for u and f :: "batch_entry \<Rightarrow> nat"
  proof -
    have "(\<Sum>b \<in> thread_batches T u - {b}. f (the (batches T' b))) =
        (\<Sum>b \<in> thread_batches T u - {b}. f (the (batches T b)))"
      by (rule sum.cong) (auto simp: T'_def)
    moreover have "b \<notin> thread_batches T u" if "u \<noteq> ?t" using e that by (auto simp: thread_batches_def)
    ultimately show ?thesis
      using b e by (auto simp: T'_def thread_batches_remove sum_diff1_nat)
  qed
  have "tracker_inv n T'"
    using inv t unfolding tracker_inv_def sums
    by (auto simp: T'_def nth_list_update split: if_splits)
  with run show ?thesis by (simp add: T'_def)
qed

section \<open>Properties\<close>

text \<open>
  Completing a tracked batch never panics: it returns the thread the batch was tracked for,
  gives back exactly the counters and keeps every counter equal to the total over the batches
  still tracked.
\<close>

lemma complete_tracked_batch:
  assumes "tracker_inv n T" and "batches T b = Some e"
  shows "\<exists>T'. tracker_complete_batch b T = Inr (be_thread_id e, T') \<and> tracker_inv n T' \<and>
    batches T' = (batches T)(b := None)"
  using tracker_complete_batch_ok [OF assms] by blast

text \<open>
  Tracking a batch and completing it again restores every counter and every tracked batch.
\<close>

lemma track_then_complete:
  assumes "tracker_inv n T" and "track_batch k cus t T = Inr (b, T')"
    and "TransactionBatchId (next_id (batch_id_generator T)) \<notin> dom (batches T)"
  shows "\<exists>T''. tracker_complete_batch b T' = Inr (t, T'') \<and>
    num_in_flight_per_thread T'' = num_in_flight_per_thread T \<and>
    cus_in_flight_per_thread T'' = cus_in_flight_per_thread T \<and> batches T'' = batches T"
  using assms
  by (auto simp: track_batch_def gen_def res_simps tracker_complete_batch_def rmodify_def rindex_def
      checked_sub_def fun_upd_idem_iff domIff split: if_splits)

definition example_tracker :: in_flight_tracker where
  "example_tracker = \<lparr>num_in_flight_per_thread = [0, 2], cus_in_flight_per_thread = [0, 200],
     batches = [TransactionBatchId 9 \<mapsto>
       \<lparr>be_thread_id = 1, be_num_transactions = 2, be_total_cus = 200\<rparr>],
     batch_id_generator = \<lparr>next_id = 8\<rparr>\<rparr>"

end
