(* ===== verification/Prio_Scheduler.thy ===== *)
theory Prio_Scheduler
  imports Account_Locks Account_Set State_Container In_Flight
begin

text \<open>
  \<^verbatim>\<open>PrioGraphScheduler\<close> of \<^verbatim>\<open>impls/prio_graph_scheduler/scheduler.rs\<close> and the wrapper of
  \<^verbatim>\<open>impls/prio_graph_scheduler/mod.rs\<close>.  The theory holds the definitions; \<open>Scheduler_Safety\<close>
  and \<open>Scheduler_Progress\<close> hold what is proved of them.

  What the scheduler uses of other crates is the \<open>runtime\<close>, an argument of the definitions: the
  messages of the SDK, the min-max heap, the priority graph of the crate \<^verbatim>\<open>prio_graph\<close>, the two
  ends of the channels to and from the workers, the limit \<^verbatim>\<open>MAX_BLOCK_UNITS\<close>, and the time a call of
  the filter takes.  \<open>ch_send\<close> answers \<open>None\<close> where the channel reports that it is disconnected.

  The local variables of \<^verbatim>\<open>schedule\<close> are the record \<open>pass\<close>.  A loop over the graph takes fuel,
  since how often the graph answers is not determined by this code.
\<close>

section \<open>What other crates provide\<close>

datatype access_kind = AccessRead | AccessWrite

record 'g graph_api =
  pg_new :: 'g
  pg_insert :: "transaction_priority_id \<Rightarrow> (pubkey \<times> access_kind) list \<Rightarrow> 'g \<Rightarrow> 'g res"
  pg_is_empty :: "'g \<Rightarrow> bool"
  pg_pop :: "'g \<Rightarrow> (transaction_priority_id \<times> 'g) option"
  pg_unblock :: "transaction_priority_id \<Rightarrow> 'g \<Rightarrow> 'g res"
  pg_pop_and_unblock :: "'g \<Rightarrow> (transaction_priority_id \<times> 'g) option"

datatype try_recv_error = RecvEmpty | RecvDisconnected

record ('tx, 's, 'r) channel_api =
  ch_send :: "'tx scheduling_batch \<Rightarrow> 's \<Rightarrow> 's option"
  ch_try_recv :: "'r \<Rightarrow> (try_recv_error + 'tx scheduling_batch_result) \<times> 'r"

record ('tx, 'h, 'g, 's, 'r) runtime =
  rt_messages :: "'tx message_api"
  rt_heap :: "'h heap_api"
  rt_graph :: "'g graph_api"
  rt_channels :: "('tx, 's, 'r) channel_api"
  rt_max_block_units :: nat
  rt_filter_us :: "'tx list \<Rightarrow> nat"

section \<open>State\<close>

definition TARGET_NUM_TRANSACTIONS_PER_BATCH :: nat where
  "TARGET_NUM_TRANSACTIONS_PER_BATCH = 128"

definition MAX_FILTER_CHUNK_SIZE :: nat where
  "MAX_FILTER_CHUNK_SIZE = 128"

definition MAX_TRANSACTIONS_PER_SCHEDULING_PASS :: nat where
  "MAX_TRANSACTIONS_PER_SCHEDULING_PASS = 100000"

datatype scheduler_error =
    DisconnectedSendChannel string
  | DisconnectedRecvChannel string

record ('s, 'r) prio_scheduler =
  in_flight :: in_flight_tracker
  account_locks_table :: lock_table
  consume_work_senders :: "'s list"
  finished_consume_work_receiver :: 'r
  look_ahead_window_size :: nat

definition new_prio_scheduler :: "'s list \<Rightarrow> 'r \<Rightarrow> ('s, 'r) prio_scheduler res" where
  "new_prio_scheduler senders receiver =
     rbind (new_lock_table (length senders)) (\<lambda>L.
     Inr \<lparr>in_flight = new_in_flight_tracker (length senders), account_locks_table = L,
          consume_work_senders = senders, finished_consume_work_receiver = receiver,
          look_ahead_window_size = 2048\<rparr>)"

record scheduling_summary =
  su_num_scheduled :: nat
  su_num_unschedulable :: nat
  su_num_filtered_out :: nat
  su_filter_time_us :: nat

section \<open>Batches\<close>

record 'tx pass_batches =
  b_ids :: "transaction_id list list"
  b_transactions :: "'tx list list"
  b_max_ages :: "max_age list list"
  b_total_cus :: "nat list"

definition new_batches :: "nat \<Rightarrow> 'tx pass_batches" where
  "new_batches n =
     \<lparr>b_ids = replicate n [], b_transactions = replicate n [], b_max_ages = replicate n [],
      b_total_cus = replicate n 0\<rparr>"

definition take_batch ::
  "thread_id \<Rightarrow> 'tx pass_batches
     \<Rightarrow> ((transaction_id list \<times> 'tx list \<times> max_age list \<times> nat) \<times> 'tx pass_batches) res" where
  "take_batch t B =
     rbind (rindex (b_ids B) t) (\<lambda>ids.
     rbind (rindex (b_transactions B) t) (\<lambda>txs.
     rbind (rindex (b_max_ages B) t) (\<lambda>ages.
     rbind (rindex (b_total_cus B) t) (\<lambda>cus.
     Inr ((ids, txs, ages, cus),
       \<lparr>b_ids = (b_ids B)[t := []], b_transactions = (b_transactions B)[t := []],
        b_max_ages = (b_max_ages B)[t := []], b_total_cus = (b_total_cus B)[t := 0]\<rparr>)))))"

text \<open>The four pushes of a scheduled transaction onto the batch of its thread.\<close>

definition push_to_batch ::
  "thread_id \<Rightarrow> transaction_id \<Rightarrow> 'tx \<Rightarrow> max_age \<Rightarrow> nat \<Rightarrow> 'tx pass_batches \<Rightarrow> 'tx pass_batches res" where
  "push_to_batch t i tx age cost B =
     rbind (rmodify t (\<lambda>l. Inr (l @ [tx])) (b_transactions B)) (\<lambda>txs.
     rbind (rmodify t (\<lambda>l. Inr (l @ [i])) (b_ids B)) (\<lambda>ids.
     rbind (rmodify t (\<lambda>l. Inr (l @ [age])) (b_max_ages B)) (\<lambda>ages.
     rbind (rmodify t (\<lambda>c. Inr (sat_add 64 c cost)) (b_total_cus B)) (\<lambda>cus.
     Inr \<lparr>b_ids = ids, b_transactions = txs, b_max_ages = ages, b_total_cus = cus\<rparr>))))"

section \<open>Sending\<close>

definition send_batch ::
  "('tx, 'h, 'g, 's, 'r) runtime \<Rightarrow> thread_id \<Rightarrow> 'tx pass_batches \<Rightarrow> ('s, 'r) prio_scheduler
     \<Rightarrow> ((scheduler_error + nat) \<times> 'tx pass_batches \<times> ('s, 'r) prio_scheduler) res" where
  "send_batch rt t B S =
     rbind (rindex (b_ids B) t) (\<lambda>waiting.
     if waiting = [] then Inr (Inr 0, B, S)
     else
       rbind (take_batch t B) (\<lambda>((ids, txs, ages, cus), B').
       rbind (track_batch (length ids) cus t (in_flight S)) (\<lambda>(bid, T).
       rbind (rindex (consume_work_senders S) t) (\<lambda>s.
         case ch_send (rt_channels rt)
                \<lparr>sb_batch_id = bid, sb_ids = ids, sb_transactions = txs, sb_max_ages = ages\<rparr> s of
           None \<Rightarrow> Inr (Inl (DisconnectedSendChannel ''consume work sender''), B',
                     S\<lparr>in_flight := T\<rparr>)
         | Some s' \<Rightarrow> Inr (Inr (length ids), B',
             S\<lparr>in_flight := T, consume_work_senders := (consume_work_senders S)[t := s']\<rparr>)))))"

text \<open>\<^verbatim>\<open>send_batches\<close> sums the results of the threads in order and stops at the first error.\<close>

fun send_batches_from ::
  "('tx, 'h, 'g, 's, 'r) runtime \<Rightarrow> thread_id list \<Rightarrow> nat \<Rightarrow> 'tx pass_batches \<Rightarrow> ('s, 'r) prio_scheduler
     \<Rightarrow> ((scheduler_error + nat) \<times> 'tx pass_batches \<times> ('s, 'r) prio_scheduler) res" where
  "send_batches_from rt [] n B S = Inr (Inr n, B, S)"
| "send_batches_from rt (t # ts) n B S =
     rbind (send_batch rt t B S) (\<lambda>(r, B', S').
       case r of
         Inl e \<Rightarrow> Inr (Inl e, B', S')
       | Inr k \<Rightarrow> rbind (checked_add 64 n k) (\<lambda>n'. send_batches_from rt ts n' B' S'))"

definition send_batches ::
  "('tx, 'h, 'g, 's, 'r) runtime \<Rightarrow> 'tx pass_batches \<Rightarrow> ('s, 'r) prio_scheduler
     \<Rightarrow> ((scheduler_error + nat) \<times> 'tx pass_batches \<times> ('s, 'r) prio_scheduler) res" where
  "send_batches rt B S = send_batches_from rt [0..<length (consume_work_senders S)] 0 B S"

section \<open>Choosing a thread\<close>

type_synonym thread_load = "thread_id \<times> nat \<times> nat"

text \<open>
  \<^verbatim>\<open>min_by\<close> of the standard library: the first of the least elements, here for the order that
  compares the compute units and then the number of transactions.
\<close>

definition load_less :: "thread_load \<Rightarrow> thread_load \<Rightarrow> bool" where
  "load_less a b \<longleftrightarrow>
     fst (snd a) < fst (snd b) \<or> fst (snd a) = fst (snd b) \<and> snd (snd a) < snd (snd b)"

fun min_by_load :: "thread_load list \<Rightarrow> thread_load option" where
  "min_by_load [] = None"
| "min_by_load (x # xs) = Some (fold (\<lambda>y m. if load_less y m then y else m) xs x)"

definition thread_load_of ::
  "nat list \<Rightarrow> nat list \<Rightarrow> 'tx list list \<Rightarrow> nat list \<Rightarrow> thread_id \<Rightarrow> thread_load res" where
  "thread_load_of batch_cus in_flight_cus batch_txs in_flight_txs t =
     rbind (rindex batch_cus t) (\<lambda>c1.
     rbind (rindex in_flight_cus t) (\<lambda>c2.
     rbind (checked_add 64 c1 c2) (\<lambda>cus.
     rbind (rindex batch_txs t) (\<lambda>n1.
     rbind (rindex in_flight_txs t) (\<lambda>n2.
     rbind (checked_add 64 (length n1) n2) (\<lambda>n.
     Inr (t, cus, n)))))))"

definition select_thread ::
  "thread_set \<Rightarrow> nat list \<Rightarrow> nat list \<Rightarrow> 'tx list list \<Rightarrow> nat list \<Rightarrow> thread_id res" where
  "select_thread ts batch_cus in_flight_cus batch_txs in_flight_txs =
     rbind (contained_threads_iter ts) (\<lambda>tids.
     rbind (rmap (thread_load_of batch_cus in_flight_cus batch_txs in_flight_txs) tids) (\<lambda>loads.
     runwrap ''called Option::unwrap() on a None value'' (map_option fst (min_by_load loads))))"

definition get_transaction_account_access ::
  "'tx message_api \<Rightarrow> 'tx ttl \<Rightarrow> (pubkey \<times> access_kind) list" where
  "get_transaction_account_access A ttl =
     map (\<lambda>(i, k). if is_writable A (ttl_transaction ttl) i then (k, AccessWrite) else (k, AccessRead))
       (enumerate 0 (account_keys A (ttl_transaction ttl)))"

section \<open>Scheduling one transaction\<close>

record 'tx scheduling_info =
  si_thread_id :: thread_id
  si_transaction :: 'tx
  si_max_age :: max_age
  si_cost :: nat

datatype scheduling_error = Filtered | UnschedulableConflicts

definition try_schedule_transaction ::
  "'tx message_api \<Rightarrow> ('tx \<Rightarrow> bool) \<Rightarrow> nat \<Rightarrow> (thread_set \<Rightarrow> thread_id res) \<Rightarrow>
     'tx transaction_state \<Rightarrow> account_set \<Rightarrow> lock_table \<Rightarrow>
     ((scheduling_error + 'tx scheduling_info) \<times> 'tx transaction_state \<times> account_set \<times> lock_table) res"
where
  "try_schedule_transaction A pre_lock_filter n thread_selector s blocking L =
     rbind (state_transaction_ttl s) (\<lambda>ttl.
     let tx = ttl_transaction ttl in
     if \<not> pre_lock_filter tx then Inr (Inl Filtered, s, blocking, L)
     else if \<not> check_locks A tx blocking
     then Inr (Inl UnschedulableConflicts, s, snd (take_locks A tx blocking), L)
     else
       rbind (ts_any n) (\<lambda>any.
       rbind (try_lock_accounts (write_account_locks A tx) (read_account_locks A tx) any
                thread_selector L) (\<lambda>(chosen, L').
         case chosen of
           None \<Rightarrow> Inr (Inl UnschedulableConflicts, s, snd (take_locks A tx blocking), L')
         | Some t \<Rightarrow>
             rbind (transition_to_pending s) (\<lambda>(ttl', s').
             rbind (state_cost s') (\<lambda>cost.
             Inr (Inr \<lparr>si_thread_id = t, si_transaction = ttl_transaction ttl',
                       si_max_age = ttl_max_age ttl', si_cost = cost\<rparr>,
                  s', blocking, L'))))))"

section \<open>A scheduling pass\<close>

record ('tx, 'h, 'g, 's, 'r) pass =
  pa_scheduler :: "('s, 'r) prio_scheduler"
  pa_container :: "('h, 'tx) container"
  pa_schedulable_threads :: thread_set
  pa_batches :: "'tx pass_batches"
  pa_unschedulable_ids :: "transaction_priority_id list"
  pa_blocking_locks :: account_set
  pa_graph :: 'g
  pa_num_filtered_out :: nat
  pa_filter_time_us :: nat
  pa_window_budget :: nat
  pa_unblock_this_batch :: "transaction_priority_id list"
  pa_num_scheduled :: nat
  pa_num_sent :: nat
  pa_num_unschedulable :: nat

subsection \<open>Filling the look-ahead window\<close>

fun pop_chunk ::
  "'h heap_api \<Rightarrow> nat \<Rightarrow> ('h, 'tx) container \<Rightarrow> transaction_priority_id list \<times> ('h, 'tx) container" where
  "pop_chunk H 0 C = ([], C)"
| "pop_chunk H (Suc n) C =
     (case container_pop H C of
        None \<Rightarrow> ([], C)
      | Some (x, C') \<Rightarrow> (let (xs, C'') = pop_chunk H n C' in (x # xs, C'')))"

definition ttl_of_id :: "transaction_priority_id \<Rightarrow> ('h, 'tx) container \<Rightarrow> 'tx ttl res" where
  "ttl_of_id x C =
     rbind (get_transaction_ttl (tp_id x) C)
       (runwrap ''called Option::unwrap() on a None value'')"

definition insert_or_drop ::
  "('tx, 'h, 'g, 's, 'r) runtime \<Rightarrow> transaction_priority_id \<times> bool \<Rightarrow> ('tx, 'h, 'g, 's, 'r) pass
     \<Rightarrow> ('tx, 'h, 'g, 's, 'r) pass res" where
  "insert_or_drop rt = (\<lambda>(x, keep) P.
     if keep
     then rbind (ttl_of_id x (pa_container P)) (\<lambda>ttl.
          rbind (pg_insert (rt_graph rt) x (get_transaction_account_access (rt_messages rt) ttl)
                   (pa_graph P)) (\<lambda>g.
          Inr (P\<lparr>pa_graph := g\<rparr>)))
     else rbind (remove_by_id (tp_id x) (pa_container P)) (\<lambda>C.
          Inr (P\<lparr>pa_container := C, pa_num_filtered_out := sat_add 64 (pa_num_filtered_out P) 1\<rparr>)))"

text \<open>
  One round of the loop of \<^verbatim>\<open>chunked_pops\<close>, for a chunk of the given size: it tells whether the
  queue still had that many ids.
\<close>

definition pop_filter_insert ::
  "('tx, 'h, 'g, 's, 'r) runtime \<Rightarrow> ('tx list \<Rightarrow> bool list \<Rightarrow> bool list) \<Rightarrow> nat
     \<Rightarrow> ('tx, 'h, 'g, 's, 'r) pass \<Rightarrow> (bool \<times> ('tx, 'h, 'g, 's, 'r) pass) res" where
  "pop_filter_insert rt pre_graph_filter chunk P =
     (let (ids, C) = pop_chunk (rt_heap rt) chunk (pa_container P) in
      rbind (rmap (\<lambda>x. ttl_of_id x C) ids) (\<lambda>ttls.
      let txs = map ttl_transaction ttls;
          flags = pre_graph_filter txs (replicate chunk True);
          P1 = P\<lparr>pa_container := C,
                 pa_filter_time_us := sat_add 64 (pa_filter_time_us P) (rt_filter_us rt txs)\<rparr>
      in rbind (rfold (insert_or_drop rt) (zip ids flags) P1) (\<lambda>P2.
         Inr (length ids = chunk, P2))))"

function chunked_pops_loop ::
  "('tx, 'h, 'g, 's, 'r) runtime \<Rightarrow> ('tx list \<Rightarrow> bool list \<Rightarrow> bool list) \<Rightarrow> nat
     \<Rightarrow> ('tx, 'h, 'g, 's, 'r) pass \<Rightarrow> (nat \<times> ('tx, 'h, 'g, 's, 'r) pass) res" where
  "chunked_pops_loop rt pre_graph_filter budget P =
     (if budget = 0 then Inr (budget, P)
      else
        (let chunk = min budget MAX_FILTER_CHUNK_SIZE; budget' = sat_sub budget chunk in
         rbind (pop_filter_insert rt pre_graph_filter chunk P) (\<lambda>(more, P').
           if more then chunked_pops_loop rt pre_graph_filter budget' P' else Inr (budget', P'))))"
  by pat_completeness auto

termination
  by (relation "measure (\<lambda>(_, _, budget, _). budget)")
    (auto simp: sat_sub_def MAX_FILTER_CHUNK_SIZE_def)

declare chunked_pops_loop.simps [simp del]

definition chunked_pops ::
  "('tx, 'h, 'g, 's, 'r) runtime \<Rightarrow> ('tx list \<Rightarrow> bool list \<Rightarrow> bool list)
     \<Rightarrow> ('tx, 'h, 'g, 's, 'r) pass \<Rightarrow> ('tx, 'h, 'g, 's, 'r) pass res" where
  "chunked_pops rt pre_graph_filter P =
     rbind (chunked_pops_loop rt pre_graph_filter (pa_window_budget P) P) (\<lambda>(budget, P').
     Inr (P'\<lparr>pa_window_budget := budget\<rparr>))"

subsection \<open>One transaction of the graph\<close>

text \<open>How the body of a loop ends: it goes on, leaves the loop, or returns with an error.\<close>

datatype loop_exit = Proceed | BreakLoop | RaiseError scheduler_error

text \<open>The batch of a thread is sent when it has reached its target size.\<close>

definition send_if_full ::
  "('tx, 'h, 'g, 's, 'r) runtime \<Rightarrow> thread_id \<Rightarrow> transaction_id list \<Rightarrow> 'tx pass_batches
     \<Rightarrow> ('s, 'r) prio_scheduler
     \<Rightarrow> ((scheduler_error + nat) \<times> 'tx pass_batches \<times> ('s, 'r) prio_scheduler) res" where
  "send_if_full rt t ids B S =
     (if length ids \<ge> TARGET_NUM_TRANSACTIONS_PER_BATCH then send_batch rt t B S
      else Inr (Inr 0, B, S))"

definition schedule_scheduled ::
  "('tx, 'h, 'g, 's, 'r) runtime \<Rightarrow> nat \<Rightarrow> transaction_priority_id \<Rightarrow> 'tx scheduling_info
     \<Rightarrow> ('tx, 'h, 'g, 's, 'r) pass \<Rightarrow> (loop_exit \<times> ('tx, 'h, 'g, 's, 'r) pass) res" where
  "schedule_scheduled rt max_cu_per_thread x info P =
     (let t = si_thread_id info; P1 = P\<lparr>pa_num_scheduled := sat_add 64 (pa_num_scheduled P) 1\<rparr> in
      rbind (push_to_batch t (tp_id x) (si_transaction info) (si_max_age info) (si_cost info)
               (pa_batches P1)) (\<lambda>B.
      rbind (rindex (b_ids B) t) (\<lambda>ids.
      rbind (send_if_full rt t ids B (pa_scheduler P1)) (\<lambda>(r, B', S).
      let P2 = P1\<lparr>pa_batches := B', pa_scheduler := S\<rparr> in
      case r of
        Inl e \<Rightarrow> Inr (RaiseError e, P2)
      | Inr sent \<Rightarrow>
          (let P3 = P2\<lparr>pa_num_sent := sat_add 64 (pa_num_sent P2) sent\<rparr> in
           rbind (rindex (cus_in_flight_per_thread (in_flight S)) t) (\<lambda>c1.
           rbind (rindex (b_total_cus B') t) (\<lambda>c2.
           rbind (checked_add 64 c1 c2) (\<lambda>cus.
           rbind (if cus \<ge> max_cu_per_thread then ts_remove t (pa_schedulable_threads P3)
                  else Inr (pa_schedulable_threads P3)) (\<lambda>ts.
           let P4 = P3\<lparr>pa_schedulable_threads := ts\<rparr> in
           if cus \<ge> max_cu_per_thread \<and> ts_is_empty ts then Inr (BreakLoop, P4)
           else if pa_num_scheduled P4 \<ge> MAX_TRANSACTIONS_PER_SCHEDULING_PASS
           then Inr (BreakLoop, P4)
           else Inr (Proceed, P4))))))))))"

text \<open>The thread selector of the pass: the closure over the batches and the loads in flight.\<close>

definition pass_selector :: "('tx, 'h, 'g, 's, 'r) pass \<Rightarrow> thread_set \<Rightarrow> thread_id res" where
  "pass_selector P ts =
     select_thread ts (b_total_cus (pa_batches P))
       (cus_in_flight_per_thread (in_flight (pa_scheduler P)))
       (b_transactions (pa_batches P)) (num_in_flight_per_thread (in_flight (pa_scheduler P)))"

text \<open>What \<^verbatim>\<open>try_schedule_transaction\<close> has written through its mutable references.\<close>

definition write_back ::
  "transaction_id \<Rightarrow> 'tx transaction_state \<Rightarrow> account_set \<Rightarrow> lock_table
     \<Rightarrow> ('tx, 'h, 'g, 's, 'r) pass \<Rightarrow> ('tx, 'h, 'g, 's, 'r) pass" where
  "write_back i s blocking L P =
     P\<lparr>pa_container := put_transaction_state i s (pa_container P), pa_blocking_locks := blocking,
       pa_scheduler := (pa_scheduler P)\<lparr>account_locks_table := L\<rparr>\<rparr>"

definition handle_schedule_result ::
  "('tx, 'h, 'g, 's, 'r) runtime \<Rightarrow> nat \<Rightarrow> transaction_priority_id
     \<Rightarrow> scheduling_error + 'tx scheduling_info
     \<Rightarrow> ('tx, 'h, 'g, 's, 'r) pass \<Rightarrow> (loop_exit \<times> ('tx, 'h, 'g, 's, 'r) pass) res" where
  "handle_schedule_result rt max_cu_per_thread x result P =
     (case result of
        Inl Filtered \<Rightarrow>
          rbind (remove_by_id (tp_id x) (pa_container P)) (\<lambda>C.
          Inr (Proceed, P\<lparr>pa_container := C\<rparr>))
      | Inl UnschedulableConflicts \<Rightarrow>
          Inr (Proceed, P\<lparr>pa_unschedulable_ids := pa_unschedulable_ids P @ [x],
            pa_num_unschedulable := sat_add 64 (pa_num_unschedulable P) 1\<rparr>)
      | Inr info \<Rightarrow> schedule_scheduled rt max_cu_per_thread x info P)"

definition schedule_one ::
  "('tx, 'h, 'g, 's, 'r) runtime \<Rightarrow> ('tx \<Rightarrow> bool) \<Rightarrow> nat \<Rightarrow> transaction_priority_id
     \<Rightarrow> ('tx, 'h, 'g, 's, 'r) pass \<Rightarrow> (loop_exit \<times> ('tx, 'h, 'g, 's, 'r) pass) res" where
  "schedule_one rt pre_lock_filter max_cu_per_thread x P =
     (let P0 = P\<lparr>pa_unblock_this_batch := pa_unblock_this_batch P @ [x]\<rparr> in
      case get_mut_transaction_state (tp_id x) (pa_container P0) of
        None \<Rightarrow> Inl (ExplicitPanic ''transaction state must exist'')
      | Some s \<Rightarrow>
          rbind (try_schedule_transaction (rt_messages rt) pre_lock_filter
                   (length (consume_work_senders (pa_scheduler P0))) (pass_selector P0) s
                   (pa_blocking_locks P0) (account_locks_table (pa_scheduler P0)))
            (\<lambda>(result, s', blocking, L).
          handle_schedule_result rt max_cu_per_thread x result
            (write_back (tp_id x) s' blocking L P0)))"

subsection \<open>The loops\<close>

fun inner_loop ::
  "('tx, 'h, 'g, 's, 'r) runtime \<Rightarrow> ('tx \<Rightarrow> bool) \<Rightarrow> nat \<Rightarrow> nat
     \<Rightarrow> ('tx, 'h, 'g, 's, 'r) pass \<Rightarrow> (scheduler_error option \<times> ('tx, 'h, 'g, 's, 'r) pass) res" where
  "inner_loop rt pre_lock_filter max_cu_per_thread 0 P = Inl OutOfFuel"
| "inner_loop rt pre_lock_filter max_cu_per_thread (Suc fuel) P =
     (case pg_pop (rt_graph rt) (pa_graph P) of
        None \<Rightarrow> Inr (None, P)
      | Some (x, g) \<Rightarrow>
          rbind (schedule_one rt pre_lock_filter max_cu_per_thread x (P\<lparr>pa_graph := g\<rparr>)) (\<lambda>(exit, P').
            case exit of
              Proceed \<Rightarrow> inner_loop rt pre_lock_filter max_cu_per_thread fuel P'
            | BreakLoop \<Rightarrow> Inr (None, P')
            | RaiseError e \<Rightarrow> Inr (Some e, P')))"

text \<open>\<^verbatim>\<open>saturating_add_assign!(num_sent, self.send_batches(&mut batches)?)\<close>.\<close>

definition send_all ::
  "('tx, 'h, 'g, 's, 'r) runtime \<Rightarrow> ('tx, 'h, 'g, 's, 'r) pass
     \<Rightarrow> (scheduler_error option \<times> ('tx, 'h, 'g, 's, 'r) pass) res" where
  "send_all rt P =
     rbind (send_batches rt (pa_batches P) (pa_scheduler P)) (\<lambda>(r, B, S).
       let P1 = P\<lparr>pa_batches := B, pa_scheduler := S\<rparr> in
       case r of
         Inl e \<Rightarrow> Inr (Some e, P1)
       | Inr n \<Rightarrow> Inr (None, P1\<lparr>pa_num_sent := sat_add 64 (pa_num_sent P1) n\<rparr>))"

text \<open>The end of a round: refresh the window, then unblock what the sent transactions blocked.\<close>

definition refill_and_unblock ::
  "('tx, 'h, 'g, 's, 'r) runtime \<Rightarrow> ('tx list \<Rightarrow> bool list \<Rightarrow> bool list)
     \<Rightarrow> ('tx, 'h, 'g, 's, 'r) pass \<Rightarrow> ('tx, 'h, 'g, 's, 'r) pass res" where
  "refill_and_unblock rt pre_graph_filter P =
     rbind (chunked_pops rt pre_graph_filter
              (P\<lparr>pa_window_budget :=
                   sat_add 64 (pa_window_budget P) (length (pa_unblock_this_batch P))\<rparr>)) (\<lambda>P1.
     rbind (rfold (pg_unblock (rt_graph rt)) (pa_unblock_this_batch P1) (pa_graph P1)) (\<lambda>g.
     Inr (P1\<lparr>pa_graph := g, pa_unblock_this_batch := []\<rparr>)))"

fun outer_loop ::
  "('tx, 'h, 'g, 's, 'r) runtime \<Rightarrow> ('tx list \<Rightarrow> bool list \<Rightarrow> bool list) \<Rightarrow> ('tx \<Rightarrow> bool) \<Rightarrow> nat
     \<Rightarrow> nat \<Rightarrow> nat \<Rightarrow> ('tx, 'h, 'g, 's, 'r) pass
     \<Rightarrow> (scheduler_error option \<times> ('tx, 'h, 'g, 's, 'r) pass) res" where
  "outer_loop rt pre_graph_filter pre_lock_filter max_cu_per_thread inner 0 P = Inl OutOfFuel"
| "outer_loop rt pre_graph_filter pre_lock_filter max_cu_per_thread inner (Suc fuel) P =
     (if \<not> pa_num_scheduled P < MAX_TRANSACTIONS_PER_SCHEDULING_PASS then Inr (None, P)
      else if pg_is_empty (rt_graph rt) (pa_graph P) then Inr (None, P)
      else
        rbind (inner_loop rt pre_lock_filter max_cu_per_thread inner P) (\<lambda>(e1, P1).
        if e1 \<noteq> None then Inr (e1, P1)
        else
          rbind (send_all rt P1) (\<lambda>(e2, P2).
          if e2 \<noteq> None then Inr (e2, P2)
          else
            rbind (refill_and_unblock rt pre_graph_filter P2)
              (outer_loop rt pre_graph_filter pre_lock_filter max_cu_per_thread inner fuel))))"

definition push_back ::
  "('tx, 'h, 'g, 's, 'r) runtime \<Rightarrow> transaction_priority_id \<Rightarrow> ('tx, 'h, 'g, 's, 'r) pass
     \<Rightarrow> ('tx, 'h, 'g, 's, 'r) pass res" where
  "push_back rt x P =
     rbind (push_id_into_queue (rt_heap rt) x (pa_container P)) (\<lambda>(_, C).
     Inr (P\<lparr>pa_container := C\<rparr>))"

fun drain_graph ::
  "('tx, 'h, 'g, 's, 'r) runtime \<Rightarrow> nat \<Rightarrow> ('tx, 'h, 'g, 's, 'r) pass
     \<Rightarrow> ('tx, 'h, 'g, 's, 'r) pass res" where
  "drain_graph rt 0 P = Inl OutOfFuel"
| "drain_graph rt (Suc fuel) P =
     (case pg_pop_and_unblock (rt_graph rt) (pa_graph P) of
        None \<Rightarrow> Inr P
      | Some (x, g) \<Rightarrow> rbind (push_back rt x (P\<lparr>pa_graph := g\<rparr>)) (drain_graph rt fuel))"

subsection \<open>The pass\<close>

text \<open>The threads that have room for more compute units.\<close>

definition threads_with_room :: "nat \<Rightarrow> nat \<Rightarrow> in_flight_tracker \<Rightarrow> thread_set res" where
  "threads_with_room n max_cu_per_thread T =
     rbind (ts_any n) (rfold (\<lambda>t ts.
       rbind (rindex (cus_in_flight_per_thread T) t) (\<lambda>c.
       if c \<ge> max_cu_per_thread then ts_remove t ts else Inr ts)) [0..<n])"

definition initial_pass ::
  "('tx, 'h, 'g, 's, 'r) runtime \<Rightarrow> thread_set \<Rightarrow> ('h, 'tx) container \<Rightarrow> ('s, 'r) prio_scheduler
     \<Rightarrow> ('tx, 'h, 'g, 's, 'r) pass" where
  "initial_pass rt ts C S =
     \<lparr>pa_scheduler = S, pa_container = C, pa_schedulable_threads = ts,
      pa_batches = new_batches (length (consume_work_senders S)), pa_unschedulable_ids = [],
      pa_blocking_locks = account_set_default, pa_graph = pg_new (rt_graph rt),
      pa_num_filtered_out = 0, pa_filter_time_us = 0,
      pa_window_budget = look_ahead_window_size S, pa_unblock_this_batch = [],
      pa_num_scheduled = 0, pa_num_sent = 0, pa_num_unschedulable = 0\<rparr>"

definition pass_summary :: "('tx, 'h, 'g, 's, 'r) pass \<Rightarrow> scheduling_summary" where
  "pass_summary P =
     \<lparr>su_num_scheduled = pa_num_scheduled P, su_num_unschedulable = pa_num_unschedulable P,
      su_num_filtered_out = pa_num_filtered_out P, su_filter_time_us = pa_filter_time_us P\<rparr>"

text \<open>What follows the loops: send what is left and put back what was not scheduled.\<close>

definition finish_pass ::
  "('tx, 'h, 'g, 's, 'r) runtime \<Rightarrow> nat \<Rightarrow> ('tx, 'h, 'g, 's, 'r) pass
     \<Rightarrow> (scheduler_error option \<times> ('tx, 'h, 'g, 's, 'r) pass) res" where
  "finish_pass rt fuel P =
     rbind (send_all rt P) (\<lambda>(e, P1).
     if e \<noteq> None then Inr (e, P1)
     else
       rbind (rfold (push_back rt) (pa_unschedulable_ids P1) P1) (\<lambda>P2.
       rbind (drain_graph rt fuel P2) (\<lambda>P3.
       rbind (rassert (pa_num_scheduled P3 = pa_num_sent P3)
                ''number of scheduled and sent transactions must match'') (\<lambda>_.
       Inr (None, P3)))))"

definition run_pass ::
  "('tx, 'h, 'g, 's, 'r) runtime \<Rightarrow> ('tx list \<Rightarrow> bool list \<Rightarrow> bool list) \<Rightarrow> ('tx \<Rightarrow> bool) \<Rightarrow> nat
     \<Rightarrow> nat \<Rightarrow> ('tx, 'h, 'g, 's, 'r) pass
     \<Rightarrow> (scheduler_error option \<times> ('tx, 'h, 'g, 's, 'r) pass) res" where
  "run_pass rt pre_graph_filter pre_lock_filter max_cu_per_thread fuel P =
     rbind (chunked_pops rt pre_graph_filter P) (\<lambda>P1.
     rbind (outer_loop rt pre_graph_filter pre_lock_filter max_cu_per_thread fuel fuel P1) (\<lambda>(e, P2).
     if e \<noteq> None then Inr (e, P2) else finish_pass rt fuel P2))"

definition schedule ::
  "('tx, 'h, 'g, 's, 'r) runtime \<Rightarrow> nat \<Rightarrow> ('tx list \<Rightarrow> bool list \<Rightarrow> bool list) \<Rightarrow> ('tx \<Rightarrow> bool)
     \<Rightarrow> ('h, 'tx) container \<Rightarrow> ('s, 'r) prio_scheduler
     \<Rightarrow> ((scheduler_error + scheduling_summary) \<times> ('h, 'tx) container \<times> ('s, 'r) prio_scheduler) res" where
  "schedule rt fuel pre_graph_filter pre_lock_filter C S =
     (let n = length (consume_work_senders S) in
      rbind (checked_div (rt_max_block_units rt) n) (\<lambda>max_cu_per_thread.
      rbind (threads_with_room n max_cu_per_thread (in_flight S)) (\<lambda>ts.
      if ts_is_empty ts
      then Inr (Inr \<lparr>su_num_scheduled = 0, su_num_unschedulable = 0, su_num_filtered_out = 0,
                     su_filter_time_us = 0\<rparr>, C, S)
      else
        rbind (run_pass rt pre_graph_filter pre_lock_filter max_cu_per_thread fuel
                 (initial_pass rt ts C S)) (\<lambda>(e, P).
        Inr (case e of Some err \<Rightarrow> Inl err | None \<Rightarrow> Inr (pass_summary P),
             pa_container P, pa_scheduler P)))))"

section \<open>Receiving completed batches\<close>

definition complete_batch ::
  "'tx message_api \<Rightarrow> transaction_batch_id \<Rightarrow> 'tx list \<Rightarrow> ('s, 'r) prio_scheduler
     \<Rightarrow> ('s, 'r) prio_scheduler res" where
  "complete_batch A bid txs S =
     rbind (tracker_complete_batch bid (in_flight S)) (\<lambda>(t, T).
     rbind (rfold (\<lambda>tx. unlock_accounts (write_account_locks A tx) (read_account_locks A tx) t) txs
              (account_locks_table S)) (\<lambda>L.
     Inr (S\<lparr>in_flight := T, account_locks_table := L\<rparr>)))"

text \<open>
  The loop over the completed transactions, with the index it has reached and the retryable
  indexes not yet consumed.
\<close>

fun retry_or_remove ::
  "'h heap_api \<Rightarrow> nat \<Rightarrow> (transaction_id \<times> 'tx \<times> max_age) list \<Rightarrow> nat list \<Rightarrow> ('h, 'tx) container
     \<Rightarrow> ('h, 'tx) container res" where
  "retry_or_remove H index [] retryable C = Inr C"
| "retry_or_remove H index ((i, tx, age) # rest) retryable C =
     (case retryable of
        k # ks \<Rightarrow>
          if k = index
          then rbind (retry_transaction H i \<lparr>ttl_transaction = tx, ttl_max_age = age\<rparr> C)
                 (retry_or_remove H (Suc index) rest ks)
          else rbind (remove_by_id i C) (retry_or_remove H (Suc index) rest retryable)
      | [] \<Rightarrow> rbind (remove_by_id i C) (retry_or_remove H (Suc index) rest retryable))"

definition try_receive_completed ::
  "('tx, 'h, 'g, 's, 'r) runtime \<Rightarrow> ('h, 'tx) container \<Rightarrow> ('s, 'r) prio_scheduler
     \<Rightarrow> ((scheduler_error + nat \<times> nat) \<times> ('h, 'tx) container \<times> ('s, 'r) prio_scheduler) res" where
  "try_receive_completed rt C S =
     (case ch_try_recv (rt_channels rt) (finished_consume_work_receiver S) of
        (Inr result, r) \<Rightarrow>
          (let batch = sr_batch result;
               S1 = S\<lparr>finished_consume_work_receiver := r\<rparr> in
           rbind (complete_batch (rt_messages rt) (sb_batch_id batch) (sb_transactions batch) S1) (\<lambda>S2.
           rbind (retry_or_remove (rt_heap rt) 0
                    (zip (sb_ids batch) (zip (sb_transactions batch) (sb_max_ages batch)))
                    (sr_retryable_indexes result) C) (\<lambda>C'.
           Inr (Inr (length (sb_ids batch), length (sr_retryable_indexes result)), C', S2))))
      | (Inl RecvEmpty, r) \<Rightarrow> Inr (Inr (0, 0), C, S\<lparr>finished_consume_work_receiver := r\<rparr>)
      | (Inl RecvDisconnected, r) \<Rightarrow>
          Inr (Inl (DisconnectedRecvChannel ''finished consume work''), C,
               S\<lparr>finished_consume_work_receiver := r\<rparr>))"

fun receive_completed ::
  "('tx, 'h, 'g, 's, 'r) runtime \<Rightarrow> nat \<Rightarrow> nat \<Rightarrow> nat \<Rightarrow> ('h, 'tx) container \<Rightarrow> ('s, 'r) prio_scheduler
     \<Rightarrow> ((scheduler_error + nat \<times> nat) \<times> ('h, 'tx) container \<times> ('s, 'r) prio_scheduler) res" where
  "receive_completed rt 0 num retried C S = Inl OutOfFuel"
| "receive_completed rt (Suc fuel) num retried C S =
     rbind (try_receive_completed rt C S) (\<lambda>(r, C', S').
       case r of
         Inl e \<Rightarrow> Inr (Inl e, C', S')
       | Inr (n, k) \<Rightarrow>
           if n = 0 then Inr (Inr (num, retried), C', S')
           else receive_completed rt fuel (sat_add 64 num n) (sat_add 64 retried k) C' S')"

section \<open>The scheduler behind the interface\<close>

record ('h, 'tx, 's, 'r) wrapper =
  inner :: "('s, 'r) prio_scheduler"
  wrapped_container :: "('h, 'tx) container"

definition new_wrapper ::
  "('tx, 'h, 'g, 's, 'r) runtime \<Rightarrow> 's list \<Rightarrow> 'r \<Rightarrow> ('h, 'tx, 's, 'r) wrapper res" where
  "new_wrapper rt senders receiver =
     rbind (new_prio_scheduler senders receiver) (\<lambda>S.
     Inr \<lparr>inner = S, wrapped_container = container_with_capacity (rt_heap rt) 10240\<rparr>)"

definition insert_unprioritized ::
  "'h heap_api \<Rightarrow> ('tx \<times> transaction_id) \<times> max_age \<Rightarrow> ('h, 'tx) container \<Rightarrow> ('h, 'tx) container res" where
  "insert_unprioritized H = (\<lambda>((tx, i), age) C.
     rbind (insert_new_transaction H i \<lparr>ttl_transaction = tx, ttl_max_age = age\<rparr> 0 100 C) (\<lambda>(_, C').
     Inr C'))"

definition schedule_batch ::
  "('tx, 'h, 'g, 's, 'r) runtime \<Rightarrow> nat \<Rightarrow> 'tx scheduling_batch \<Rightarrow> ('h, 'tx, 's, 'r) wrapper
     \<Rightarrow> ((scheduler_error + unit) \<times> ('h, 'tx, 's, 'r) wrapper) res" where
  "schedule_batch rt fuel batch w =
     rbind (rfold (insert_unprioritized (rt_heap rt))
              (zip (zip (sb_transactions batch) (sb_ids batch)) (sb_max_ages batch))
              (wrapped_container w)) (\<lambda>C.
     rbind (schedule rt fuel (\<lambda>_ flags. replicate (length flags) True) (\<lambda>_. True) C (inner w)) (\<lambda>(r, C', S).
     Inr (map_sum id (\<lambda>_. ()) r, \<lparr>inner = S, wrapped_container = C'\<rparr>)))"

definition receive_complete ::
  "('tx, 'h, 'g, 's, 'r) runtime \<Rightarrow> nat \<Rightarrow> ('h, 'tx, 's, 'r) wrapper
     \<Rightarrow> ((scheduler_error + unit) \<times> ('h, 'tx, 's, 'r) wrapper) res" where
  "receive_complete rt fuel w =
     rbind (receive_completed rt fuel 0 0 (wrapped_container w) (inner w)) (\<lambda>(r, C, S).
     Inr (map_sum id (\<lambda>_. ()) r, \<lparr>inner = S, wrapped_container = C\<rparr>))"

end
