(* ===== verification/Scheduler_Example.thy ===== *)
theory Scheduler_Example
  imports Prio_Scheduler
begin

text \<open>
  A concrete runtime, with which the statements about the scheduler are evaluated: the heap is the
  list heap of \<open>State_Container\<close>, the graph hands its ids out in the order of insertion, a sender
  is the list of the batches it was given, and a receiver the results handed out and those still
  to come.  A transaction is its account keys with the number of those that are writable.
\<close>

type_synonym example_tx = "pubkey list \<times> nat"
type_synonym list_graph = "transaction_priority_id list \<times> transaction_priority_id list"
type_synonym list_sender = "example_tx scheduling_batch list"
type_synonym list_receiver =
  "example_tx scheduling_batch_result list \<times> example_tx scheduling_batch_result list"

definition list_graph_api :: "list_graph graph_api" where
  "list_graph_api = \<lparr>
     pg_new = ([], []),
     pg_insert = (\<lambda>x _ (waiting, popped). Inr (waiting @ [x], popped)),
     pg_is_empty = (\<lambda>(waiting, popped). waiting = []),
     pg_pop = (\<lambda>(waiting, popped). case waiting of [] \<Rightarrow> None
       | x # xs \<Rightarrow> Some (x, removeAll x xs, x # popped)),
     pg_unblock = (\<lambda>x (waiting, popped). Inr (waiting, removeAll x popped)),
     pg_pop_and_unblock =
       (\<lambda>(waiting, popped). case waiting of [] \<Rightarrow> None | x # xs \<Rightarrow> Some (x, removeAll x xs, popped))\<rparr>"

definition list_channels :: "(example_tx, list_sender, list_receiver) channel_api" where
  "list_channels = \<lparr>
     ch_send = (\<lambda>b s. Some (s @ [b])),
     ch_try_recv = (\<lambda>(handed, coming). case coming of
        [] \<Rightarrow> (Inl RecvEmpty, handed, coming) | x # xs \<Rightarrow> (Inr x, handed @ [x], xs))\<rparr>"

definition example_runtime ::
  "(example_tx, list_heap, list_graph, list_sender, list_receiver) runtime" where
  "example_runtime = \<lparr>rt_messages = example_messages, rt_heap = list_heap_api,
     rt_graph = list_graph_api, rt_channels = list_channels, rt_max_block_units = 48000000,
     rt_filter_us = (\<lambda>_. 1)\<rparr>"

definition example_age :: max_age where
  "example_age = \<lparr>epoch_invalidation_slot = 0, alt_invalidation_slot = 0\<rparr>"

text \<open>Two transactions that do not conflict.\<close>

definition example_batch :: "example_tx scheduling_batch" where
  "example_batch = \<lparr>sb_batch_id = TransactionBatchId 0,
     sb_ids = [TransactionId 1, TransactionId 2], sb_transactions = [([10, 30], 1), ([20, 30], 1)],
     sb_max_ages = [example_age, example_age]\<rparr>"

definition example_new :: "(list_heap, example_tx, list_sender, list_receiver) wrapper" where
  "example_new =
     \<lparr>inner = \<lparr>in_flight = new_in_flight_tracker 2,
        account_locks_table = \<lparr>num_threads = 2, locks = Map.empty\<rparr>,
        consume_work_senders = [[], []], finished_consume_work_receiver = ([], []),
        look_ahead_window_size = 2048\<rparr>,
      wrapped_container = \<lparr>priority_queue = (10240, []), id_to_transaction_state = Map.empty\<rparr>\<rparr>"

definition example_queued :: "(list_heap, example_tx) container" where
  "example_queued =
     \<lparr>priority_queue = (10240, [TransactionPriorityId 0 (TransactionId 2),
        TransactionPriorityId 0 (TransactionId 1)]),
      id_to_transaction_state = [
        TransactionId 1 \<mapsto> Unprocessed \<lparr>ttl_transaction = ([10, 30], 1), ttl_max_age = example_age\<rparr> 0 100,
        TransactionId 2 \<mapsto> Unprocessed \<lparr>ttl_transaction = ([20, 30], 1), ttl_max_age = example_age\<rparr> 0 100]\<rparr>"

text \<open>The batches the two workers are sent.\<close>

definition example_sent0 :: "example_tx scheduling_batch" where
  "example_sent0 = \<lparr>sb_batch_id = TransactionBatchId (- 1), sb_ids = [TransactionId 2],
     sb_transactions = [([20, 30], 1)], sb_max_ages = [example_age]\<rparr>"

definition example_sent1 :: "example_tx scheduling_batch" where
  "example_sent1 = \<lparr>sb_batch_id = TransactionBatchId (- 2), sb_ids = [TransactionId 1],
     sb_transactions = [([10, 30], 1)], sb_max_ages = [example_age]\<rparr>"

definition example_results :: "example_tx scheduling_batch_result list" where
  "example_results = [\<lparr>sr_batch = example_sent1, sr_retryable_indexes = []\<rparr>,
     \<lparr>sr_batch = example_sent0, sr_retryable_indexes = []\<rparr>]"

section \<open>Evaluation\<close>

text \<open>
  A sequence is evaluated from its first part on: the rest is left alone until the value it gets is
  known.
\<close>

lemma rbind_weak_cong: "m = m' \<Longrightarrow> rbind m f = rbind m' f"
  by simp

lemma pop_chunk_numeral: "pop_chunk H (numeral n) C =
    (case container_pop H C of
       None \<Rightarrow> ([], C)
     | Some (x, C') \<Rightarrow> (let (xs, C'') = pop_chunk H (pred_numeral n) C' in (x # xs, C'')))"
  by (simp add: numeral_eq_Suc)

lemma zip_replicate_numeral:
  "zip (x # xs) (replicate (numeral n) y) = (x, y) # zip xs (replicate (pred_numeral n) y)"
  by (simp add: numeral_eq_Suc)

lemma inner_loop_numeral: "inner_loop rt f m (numeral n) P =
    (case pg_pop (rt_graph rt) (pa_graph P) of
       None \<Rightarrow> Inr (None, P)
     | Some (x, g) \<Rightarrow>
         rbind (schedule_one rt f m x (P\<lparr>pa_graph := g\<rparr>)) (\<lambda>(exit, P').
           case exit of
             Proceed \<Rightarrow> inner_loop rt f m (pred_numeral n) P'
           | BreakLoop \<Rightarrow> Inr (None, P')
           | RaiseError e \<Rightarrow> Inr (Some e, P')))"
  by (simp add: numeral_eq_Suc)

lemma outer_loop_numeral: "outer_loop rt gf f m k (numeral n) P =
    (if \<not> pa_num_scheduled P < MAX_TRANSACTIONS_PER_SCHEDULING_PASS then Inr (None, P)
     else if pg_is_empty (rt_graph rt) (pa_graph P) then Inr (None, P)
     else
       rbind (inner_loop rt f m k P) (\<lambda>(e1, P1).
       if e1 \<noteq> None then Inr (e1, P1)
       else
         rbind (send_all rt P1) (\<lambda>(e2, P2).
         if e2 \<noteq> None then Inr (e2, P2)
         else rbind (refill_and_unblock rt gf P2) (outer_loop rt gf f m k (pred_numeral n)))))"
  by (simp add: numeral_eq_Suc)

lemma drain_graph_numeral: "drain_graph rt (numeral n) P =
    (case pg_pop_and_unblock (rt_graph rt) (pa_graph P) of
       None \<Rightarrow> Inr P
     | Some (x, g) \<Rightarrow> rbind (push_back rt x (P\<lparr>pa_graph := g\<rparr>)) (drain_graph rt (pred_numeral n)))"
  by (simp add: numeral_eq_Suc)

lemma contained_threads_iter_3: "contained_threads_iter 3 = Inr [0, 1]"
  by (simp add: contained_threads_iter_ok threads_def upt_rec)

lemma only_one_contained_examples:
  "only_one_contained 1 = Some 0" "only_one_contained 2 = Some 1" "only_one_contained 3 = None"
  by (simp_all add: only_one_contained_def ts_num_threads_def count_ones_def trailing_zeros_def upt_rec)

lemmas runtime_defs = example_runtime_def list_heap_api_def list_graph_api_def list_channels_def
  example_messages_def example_age_def

lemmas arith_defs = checked_add_def checked_sub_def checked_div_def sat_add_def sat_sub_def umax_def
  rindex_def rmodify_def rassert_def runwrap_def MAX_THREADS_def MAX_FILTER_CHUNK_SIZE_def
  MAX_TRANSACTIONS_PER_SCHEDULING_PASS_def TARGET_NUM_TRANSACTIONS_PER_BATCH_def Let_def
  word_le_nat_alt word_less_nat_alt upt_rec

lemmas thread_set_defs = ts_any_def as_flag_def ts_is_empty_def ts_none_def ts_only_def ts_insert_def
  ts_remove_def ts_contains_def ts_bitand_def contained_threads_iter_3 only_one_contained_examples

lemmas lock_defs = try_lock_accounts_def accounts_schedulable_threads_def write_account_locks_def
  read_account_locks_def write_schedulable_threads_def read_schedulable_threads_def
  schedulable_threads_def lock_accounts_def write_lock_account_def read_lock_account_def
  entry_or_default_def put_entry_def unlock_accounts_def write_unlock_account_def
  read_unlock_account_def check_locks_def can_write_def can_read_def account_set_default_def

lemmas container_defs = container_with_capacity_def insert_new_transaction_def push_id_into_queue_def
  remaining_queue_capacity_def new_transaction_state_def container_pop_def get_transaction_ttl_def
  get_mut_transaction_state_def put_transaction_state_def remove_by_id_def
  transition_to_pending_def take_state_def less_eq_transaction_priority_id_def
  less_eq_transaction_id_def max_def

lemmas pass_defs = initial_pass_def new_batches_def run_pass_def chunked_pops_def
  chunked_pops_loop.simps pop_filter_insert_def ttl_of_id_def insert_or_drop_def
  get_transaction_account_access_def pop_chunk_numeral zip_replicate_numeral inner_loop_numeral
  outer_loop_numeral drain_graph_numeral schedule_one_def try_schedule_transaction_def
  pass_selector_def select_thread_def thread_load_of_def load_less_def write_back_def
  handle_schedule_result_def schedule_scheduled_def push_to_batch_def send_if_full_def send_all_def
  send_batches_def send_batch_def take_batch_def track_batch_def gen_def id_generator_default_def
  refill_and_unblock_def finish_pass_def push_back_def pass_summary_def new_in_flight_tracker_def

lemma receive_completed_numeral: "receive_completed rt (numeral n) num retried C S =
    rbind (try_receive_completed rt C S) (\<lambda>(r, C', S').
      case r of
        Inl e \<Rightarrow> Inr (Inl e, C', S')
      | Inr (n', k) \<Rightarrow>
          if n' = 0 then Inr (Inr (num, retried), C', S')
          else receive_completed rt (pred_numeral n) (sat_add 64 num n') (sat_add 64 retried k) C' S')"
  by (simp add: numeral_eq_Suc)

lemmas receive_defs = receive_completed_numeral try_receive_completed_def complete_batch_def
  tracker_complete_batch_def

lemma example_new_run: "new_wrapper example_runtime [[], []] ([], []) = Inr example_new"
  by (simp add: new_wrapper_def new_prio_scheduler_def new_lock_table_def runtime_defs arith_defs
      container_defs example_new_def numeral_2_eq_2)

lemma example_insert: "rfold (insert_unprioritized (rt_heap example_runtime))
    (zip (zip (sb_transactions example_batch) (sb_ids example_batch)) (sb_max_ages example_batch))
    (wrapped_container example_new) = Inr example_queued"
  by (simp add: runtime_defs container_defs insert_unprioritized_def example_batch_def example_new_def
      example_queued_def checked_sub_def)

lemma example_room: "threads_with_room 2 24000000 (new_in_flight_tracker 2) = Inr 3"
  by (simp add: threads_with_room_def new_in_flight_tracker_def thread_set_defs arith_defs numeral_2_eq_2)

text \<open>
  The pass, with the two batches sent, one to each worker, and the results received afterwards.
\<close>

lemma example_pass: "\<exists>P. run_pass example_runtime (\<lambda>_ flags. replicate (length flags) True) (\<lambda>_. True)
      24000000 10 (initial_pass example_runtime 3 example_queued (inner example_new)) = Inr (None, P) \<and>
    consume_work_senders (pa_scheduler P) = [[example_sent0], [example_sent1]] \<and>
    finished_consume_work_receiver (pa_scheduler P) = ([], []) \<and>
    (\<exists>C S. receive_completed example_runtime 5 0 0 (pa_container P)
        ((pa_scheduler P)\<lparr>consume_work_senders := [[example_sent0], [example_sent1]],
           finished_consume_work_receiver := ([], example_results)\<rparr>) = Inr (Inr (2, 0), C, S) \<and>
      consume_work_senders S = [[example_sent0], [example_sent1]] \<and>
      finished_consume_work_receiver S = (example_results, []))"
  by (simp add: example_queued_def example_new_def example_sent0_def example_sent1_def
      example_results_def runtime_defs arith_defs thread_set_defs lock_defs container_defs pass_defs
      receive_defs cong: rbind_weak_cong)

lemma example_scheduled:
  obtains w w' where "schedule_batch example_runtime 10 example_batch example_new = Inr (Inr (), w)"
    "consume_work_senders (inner w) = [[example_sent0], [example_sent1]]"
    "finished_consume_work_receiver (inner w) = ([], [])"
    "receive_complete example_runtime 5 (w\<lparr>inner := (inner w)\<lparr>consume_work_senders := [[example_sent0], [example_sent1]],
       finished_consume_work_receiver := ([], example_results)\<rparr>\<rparr>) = Inr (Inr (), w')"
    "consume_work_senders (inner w') = [[example_sent0], [example_sent1]]"
    "finished_consume_work_receiver (inner w') = (example_results, [])"
proof -
  obtain P C S where P: "run_pass example_runtime (\<lambda>_ flags. replicate (length flags) True) (\<lambda>_. True)
      24000000 10 (initial_pass example_runtime 3 example_queued (inner example_new)) = Inr (None, P)"
    "consume_work_senders (pa_scheduler P) = [[example_sent0], [example_sent1]]"
    "finished_consume_work_receiver (pa_scheduler P) = ([], [])"
    and S: "receive_completed example_runtime 5 0 0 (pa_container P)
        ((pa_scheduler P)\<lparr>consume_work_senders := [[example_sent0], [example_sent1]],
           finished_consume_work_receiver := ([], example_results)\<rparr>) = Inr (Inr (2, 0), C, S)"
      "consume_work_senders S = [[example_sent0], [example_sent1]]"
      "finished_consume_work_receiver S = (example_results, [])"
    using example_pass by blast
  have new: "length (consume_work_senders (inner example_new)) = 2"
    "in_flight (inner example_new) = new_in_flight_tracker 2"
    "rt_max_block_units example_runtime = 48000000"
    by (simp_all add: example_new_def example_runtime_def)
  have "schedule_batch example_runtime 10 example_batch example_new =
      Inr (Inr (), \<lparr>inner = pa_scheduler P, wrapped_container = pa_container P\<rparr>)"
    unfolding schedule_batch_def example_insert
    by (simp add: schedule_def new checked_div_def example_room ts_is_empty_def ts_none_def P(1))
  from that [OF this, of "\<lparr>inner = S, wrapped_container = C\<rparr>"] P S show ?thesis
    by (simp add: receive_complete_def)
qed

end
