(* ===== verification/Scheduler_Safety.thy ===== *)
theory Scheduler_Safety
  imports Scheduler_Example
begin

text \<open>
  What the scheduler guarantees whatever the heap and the graph answer: the locks of the table
  are exactly those of the transactions in flight, of the transactions waiting in a batch, and
  of batches a worker was no longer there to take.

  Of the channels only their history is used: \<open>sent\<close> is the list of the batches a sender has
  accepted, \<open>got\<close> the list of the results a receiver has handed out.
\<close>

section \<open>Histories and holdings\<close>

definition channel_history ::
  "('tx, 's, 'r) channel_api \<Rightarrow> ('s \<Rightarrow> 'tx scheduling_batch list)
     \<Rightarrow> ('r \<Rightarrow> 'tx scheduling_batch_result list) \<Rightarrow> bool" where
  "channel_history Ch sent got \<longleftrightarrow>
     (\<forall>b s s'. ch_send Ch b s = Some s' \<longrightarrow> sent s' = sent s @ [b]) \<and>
     (\<forall>r x r'. ch_try_recv Ch r = (Inr x, r') \<longrightarrow> got r' = got r @ [x]) \<and>
     (\<forall>r e r'. ch_try_recv Ch r = (Inl e, r') \<longrightarrow> got r' = got r)"

definition tx_holdings :: "'tx message_api \<Rightarrow> nat \<Rightarrow> 'tx list \<Rightarrow> pubkey holding multiset" where
  "tx_holdings A t txs = mset (map (\<lambda>tx. (write_account_locks A tx, read_account_locks A tx, t)) txs)"

definition completed_ids :: "'tx scheduling_batch_result list \<Rightarrow> transaction_batch_id set" where
  "completed_ids rs = (\<lambda>x. sb_batch_id (sr_batch x)) ` set rs"

text \<open>The batches of a thread that were sent and are not completed.\<close>

definition outstanding ::
  "('s \<Rightarrow> 'tx scheduling_batch list) \<Rightarrow> ('r \<Rightarrow> 'tx scheduling_batch_result list)
     \<Rightarrow> ('s, 'r) prio_scheduler \<Rightarrow> nat \<Rightarrow> 'tx scheduling_batch list" where
  "outstanding sent got S t =
     filter (\<lambda>b. sb_batch_id b \<notin> completed_ids (got (finished_consume_work_receiver S)))
       (sent (consume_work_senders S ! t))"

definition thread_flight ::
  "'tx message_api \<Rightarrow> ('s \<Rightarrow> 'tx scheduling_batch list) \<Rightarrow> ('r \<Rightarrow> 'tx scheduling_batch_result list)
     \<Rightarrow> ('s, 'r) prio_scheduler \<Rightarrow> nat \<Rightarrow> pubkey holding multiset" where
  "thread_flight A sent got S t =
     tx_holdings A t (concat (map sb_transactions (outstanding sent got S t)))"

definition flight ::
  "'tx message_api \<Rightarrow> ('s \<Rightarrow> 'tx scheduling_batch list) \<Rightarrow> ('r \<Rightarrow> 'tx scheduling_batch_result list)
     \<Rightarrow> ('s, 'r) prio_scheduler \<Rightarrow> pubkey holding multiset" where
  "flight A sent got S = (\<Sum>t < length (consume_work_senders S). thread_flight A sent got S t)"

definition batched :: "'tx message_api \<Rightarrow> nat \<Rightarrow> 'tx pass_batches \<Rightarrow> pubkey holding multiset" where
  "batched A n B = (\<Sum>t < n. tx_holdings A t (b_transactions B ! t))"

definition batches_ok :: "nat \<Rightarrow> 'tx pass_batches \<Rightarrow> bool" where
  "batches_ok n B \<longleftrightarrow>
     length (b_ids B) = n \<and> length (b_transactions B) = n \<and> length (b_max_ages B) = n \<and>
     length (b_total_cus B) = n \<and>
     (\<forall>t < n. length (b_transactions B ! t) = length (b_ids B ! t) \<and>
              length (b_max_ages B ! t) = length (b_ids B ! t))"

definition all_sent ::
  "('s \<Rightarrow> 'tx scheduling_batch list) \<Rightarrow> ('s, 'r) prio_scheduler \<Rightarrow> 'tx scheduling_batch list" where
  "all_sent sent S = concat (map sent (consume_work_senders S))"

abbreviation next_batch_id :: "('s, 'r) prio_scheduler \<Rightarrow> u64" where
  "next_batch_id S \<equiv> next_id (batch_id_generator (in_flight S))"

text \<open>
  The bookkeeping of the batches sent so far: their ids are distinct and above the next one, they
  are well-formed, and those not completed are tracked for their thread.  Results come from
  batches that were sent.
\<close>

definition history_inv ::
  "('s \<Rightarrow> 'tx scheduling_batch list) \<Rightarrow> ('r \<Rightarrow> 'tx scheduling_batch_result list)
     \<Rightarrow> ('s, 'r) prio_scheduler \<Rightarrow> bool" where
  "history_inv sent got S \<longleftrightarrow>
     distinct (map sb_batch_id (all_sent sent S)) \<and>
     (\<forall>b \<in> set (all_sent sent S). next_batch_id S < batch_id_value (sb_batch_id b) \<and>
        valid b \<and> sb_ids b \<noteq> []) \<and>
     (\<forall>x \<in> set (got (finished_consume_work_receiver S)). sr_batch x \<in> set (all_sent sent S)) \<and>
     (\<forall>t < length (consume_work_senders S). \<forall>b \<in> set (outstanding sent got S t).
        \<exists>e. batches (in_flight S) (sb_batch_id b) = Some e \<and> be_thread_id e = t)"

text \<open>The locks of the table, with \<open>K\<close> the locks of batches that no worker took.\<close>

definition locks_accounted ::
  "'tx message_api \<Rightarrow> ('s \<Rightarrow> 'tx scheduling_batch list) \<Rightarrow> ('r \<Rightarrow> 'tx scheduling_batch_result list)
     \<Rightarrow> pubkey holding multiset \<Rightarrow> 'tx pass_batches \<Rightarrow> ('s, 'r) prio_scheduler \<Rightarrow> bool" where
  "locks_accounted A sent got K B S \<longleftrightarrow>
     locks_inv (account_locks_table S) \<and>
     num_threads (account_locks_table S) = length (consume_work_senders S) \<and>
     batches_ok (length (consume_work_senders S)) B \<and>
     table_holds (account_locks_table S)
       (flight A sent got S + batched A (length (consume_work_senders S)) B + K) \<and>
     history_inv sent got S"

section \<open>Sums over threads\<close>

lemma sum_thread_update:
  fixes f g :: "nat \<Rightarrow> 'a multiset"
  assumes "t < n" "f t = X + g t" "\<And>u. u < n \<Longrightarrow> u \<noteq> t \<Longrightarrow> f u = g u"
  shows "(\<Sum>u < n. f u) = X + (\<Sum>u < n. g u)"
proof -
  have "(\<Sum>u < n. f u) = f t + (\<Sum>u \<in> {..<n} - {t}. f u)" using assms(1) by (simp add: sum.remove)
  also have "(\<Sum>u \<in> {..<n} - {t}. f u) = (\<Sum>u \<in> {..<n} - {t}. g u)" using assms(3) by (intro sum.cong) auto
  finally show ?thesis using assms(1,2) by (simp add: sum.remove ac_simps)
qed

lemma tx_holdings_append: "tx_holdings A t (xs @ ys) = tx_holdings A t xs + tx_holdings A t ys"
  by (simp add: tx_holdings_def)

lemma tx_holdings_Nil [simp]: "tx_holdings A t [] = {#}"
  by (simp add: tx_holdings_def)

lemma batched_new [simp]: "batched A n (new_batches n) = {#}"
  by (simp add: batched_def new_batches_def)

lemma batches_ok_new: "batches_ok n (new_batches n)"
  by (simp add: batches_ok_def new_batches_def)

lemma all_sent_nth:
  "t < length (consume_work_senders S) \<Longrightarrow> set (sent (consume_work_senders S ! t)) \<subseteq> set (all_sent sent S)"
  by (auto simp: all_sent_def intro!: bexI [OF _ nth_mem])

lemma outstanding_sent:
  "t < length (consume_work_senders S) \<Longrightarrow> b \<in> set (outstanding sent got S t) \<Longrightarrow> b \<in> set (all_sent sent S)"
  using all_sent_nth [of t S sent] by (auto simp: outstanding_def)

lemma sum_list_length_update:
  "t < length (xs :: 'b list list) \<Longrightarrow>
     sum_list (map length (xs[t := ys])) + length (xs ! t) = sum_list (map length xs) + length ys"
  using sum_list_update_nat [of t "map length xs" "length ys"] by (simp add: map_update)

section \<open>Sending\<close>

lemma channel_historyD:
  assumes "channel_history Ch sent got"
  shows "ch_send Ch b s = Some s' \<Longrightarrow> sent s' = sent s @ [b]"
    and "ch_try_recv Ch r = (Inr x, r') \<Longrightarrow> got r' = got r @ [x]"
    and "ch_try_recv Ch r = (Inl e, r') \<Longrightarrow> got r' = got r"
  using assms unfolding channel_history_def by blast+

lemma mset_concat_update:
  "t < length xs \<Longrightarrow> f y = f (xs ! t) @ [b] \<Longrightarrow>
     mset (concat (map f (xs[t := y]))) = mset (b # concat (map f xs))"
proof (induction xs arbitrary: t)
  case (Cons x xs)
  then show ?case by (cases t) auto
qed simp

lemma unat_pred: "(w :: u64) \<noteq> 0 \<Longrightarrow> unat (w - 1) = unat w - 1"
  by (simp add: unat_minus_one)

lemma track_batch_Inr:
  assumes "track_batch k cus t T = Inr (bid, T')"
  shows "bid = TransactionBatchId (next_id (batch_id_generator T))"
    and "batches T' = (batches T)(bid \<mapsto> \<lparr>be_thread_id = t, be_num_transactions = k, be_total_cus = cus\<rparr>)"
    and "next_id (batch_id_generator T') = next_id (batch_id_generator T) - 1"
  using assms by (auto simp: track_batch_def gen_def res_simps)

lemma take_batch_Inr:
  assumes "take_batch t B = Inr ((ids, txs, ages, cus), B')"
  shows "ids = b_ids B ! t" "txs = b_transactions B ! t" "ages = b_max_ages B ! t"
    and "cus = b_total_cus B ! t"
    and "B' = \<lparr>b_ids = (b_ids B)[t := []], b_transactions = (b_transactions B)[t := []],
        b_max_ages = (b_max_ages B)[t := []], b_total_cus = (b_total_cus B)[t := 0]\<rparr>"
  using assms by (auto simp: take_batch_def res_simps)

lemma batches_ok_take:
  assumes "batches_ok n B" "t < n"
  defines "B' \<equiv> \<lparr>b_ids = (b_ids B)[t := []], b_transactions = (b_transactions B)[t := []],
        b_max_ages = (b_max_ages B)[t := []], b_total_cus = (b_total_cus B)[t := 0]\<rparr>"
  shows "batches_ok n B'" and "batched A n B = tx_holdings A t (b_transactions B ! t) + batched A n B'"
proof -
  show "batches_ok n B'" using assms(1,2) by (auto simp: B'_def batches_ok_def nth_list_update)
  show "batched A n B = tx_holdings A t (b_transactions B ! t) + batched A n B'"
    unfolding batched_def
    by (rule sum_thread_update [OF assms(2)])
      (use assms(1,2) in \<open>auto simp: B'_def batches_ok_def nth_list_update\<close>)
qed

lemma flight_send:
  assumes t: "t < length (consume_work_senders S)" and sent: "sent s' = sent (consume_work_senders S ! t) @ [b]"
    and fresh: "sb_batch_id b \<notin> completed_ids (got (finished_consume_work_receiver S))"
  shows "flight A sent got (S\<lparr>in_flight := T, consume_work_senders := (consume_work_senders S)[t := s']\<rparr>) =
    tx_holdings A t (sb_transactions b) + flight A sent got S"
proof -
  let ?S = "S\<lparr>in_flight := T, consume_work_senders := (consume_work_senders S)[t := s']\<rparr>"
  let ?n = "length (consume_work_senders S)"
  have "(\<Sum>u < ?n. thread_flight A sent got ?S u) =
      tx_holdings A t (sb_transactions b) + (\<Sum>u < ?n. thread_flight A sent got S u)"
    by (rule sum_thread_update [OF t])
      (use t sent fresh in \<open>auto simp: thread_flight_def outstanding_def tx_holdings_append\<close>)
  then show ?thesis by (simp add: flight_def)
qed

lemma completed_ids_above:
  assumes "history_inv sent got S" "b \<in> completed_ids (got (finished_consume_work_receiver S))"
  shows "next_batch_id S < batch_id_value b"
  using assms by (auto simp: history_inv_def completed_ids_def)

lemma history_send:
  assumes h: "history_inv sent got S" and t: "t < length (consume_work_senders S)"
    and sent: "sent s' = sent (consume_work_senders S ! t) @ [b]"
    and id: "sb_batch_id b = TransactionBatchId (next_batch_id S)" and pos: "next_batch_id S \<noteq> 0"
    and b: "valid b" "sb_ids b \<noteq> []"
    and T: "next_id (batch_id_generator T) = next_batch_id S - 1"
      "batches T = (batches (in_flight S))(sb_batch_id b \<mapsto> e)" "be_thread_id e = t"
  shows "history_inv sent got (S\<lparr>in_flight := T, consume_work_senders := (consume_work_senders S)[t := s']\<rparr>)"
    (is "history_inv sent got ?S")
proof -
  have m: "mset (all_sent sent ?S) = mset (b # all_sent sent S)"
    using mset_concat_update [OF t sent] by (simp add: all_sent_def)
  have set: "set (all_sent sent ?S) = insert b (set (all_sent sent S))"
    using mset_eq_setD [OF m] by simp
  have ids: "mset (map sb_batch_id (all_sent sent ?S)) = mset (map sb_batch_id (b # all_sent sent S))"
    using m by (metis mset_map)
  have above: "next_batch_id S < batch_id_value (sb_batch_id y)" if "y \<in> set (all_sent sent S)" for y
    using h that by (auto simp: history_inv_def)
  then have new: "sb_batch_id b \<notin> sb_batch_id ` set (all_sent sent S)" using id by fastforce
  then have dist: "distinct (map sb_batch_id (all_sent sent ?S))"
    using mset_eq_imp_distinct_iff [OF ids] h by (simp add: history_inv_def)
  have less: "next_batch_id S - 1 < next_batch_id S" using pos by (simp add: word_less_nat_alt unat_pred unat_gt_0)
  have above': "next_batch_id ?S < batch_id_value (sb_batch_id y)" if "y \<in> set (all_sent sent ?S)" for y
    using that above less id T(1) by (auto simp: set intro: less_trans)
  have out: "set (outstanding sent got ?S u) \<subseteq> set (outstanding sent got S u) \<union> (if u = t then {b} else {})"
    if "u < length (consume_work_senders S)" for u
    using that sent t by (auto simp: outstanding_def)
  have "\<exists>e. batches T (sb_batch_id y) = Some e \<and> be_thread_id e = u"
    if u: "u < length (consume_work_senders S)" and y: "y \<in> set (outstanding sent got ?S u)" for u y
  proof (cases "sb_batch_id y = sb_batch_id b")
    case True
    then have "y \<notin> set (outstanding sent got S u)"
      using new outstanding_sent [OF u] by (metis imageI)
    then have "u = t" using out [OF u] y by (auto split: if_splits)
    with True T show ?thesis by simp
  next
    case False
    then have "y \<in> set (outstanding sent got S u)" using out [OF u] y by (auto split: if_splits)
    with False u h T(2) show ?thesis by (auto simp: history_inv_def)
  qed
  with dist above' set h b show ?thesis by (auto simp: history_inv_def)
qed

lemma history_drop:
  assumes h: "history_inv sent got S" and pos: "next_batch_id S \<noteq> 0"
    and T: "next_id (batch_id_generator T) = next_batch_id S - 1"
      "batches T = (batches (in_flight S))(TransactionBatchId (next_batch_id S) \<mapsto> e)"
  shows "history_inv sent got (S\<lparr>in_flight := T\<rparr>)"
proof -
  have less: "next_batch_id S - 1 < next_batch_id S" using pos by (simp add: word_less_nat_alt unat_pred unat_gt_0)
  have "\<exists>e. batches T (sb_batch_id y) = Some e \<and> be_thread_id e = u"
    if u: "u < length (consume_work_senders S)" and y: "y \<in> set (outstanding sent got S u)" for u y
  proof -
    have "y \<in> set (all_sent sent S)" using outstanding_sent [OF u y] .
    then have "sb_batch_id y \<noteq> TransactionBatchId (next_batch_id S)" using h by (auto simp: history_inv_def)
    then show ?thesis using h u y T(2) by (auto simp: history_inv_def)
  qed
  with h T(1) less show ?thesis
    by (auto simp: history_inv_def all_sent_def outstanding_def intro: less_trans)
qed

text \<open>
  Sending the batch of a thread: nothing changes but that the batch is empty now and, when the
  worker was there, in flight.
\<close>

definition batch_total :: "'tx pass_batches \<Rightarrow> nat" where
  "batch_total B = sum_list (map length (b_ids B))"

lemma send_batchE:
  assumes "send_batch rt t B S = Inr (r, B', S')" "b_ids B ! t \<noteq> []" "t < length (consume_work_senders S)"
  obtains cus T b where
    "take_batch t B = Inr ((sb_ids b, sb_transactions b, sb_max_ages b, cus), B')"
    "track_batch (length (sb_ids b)) cus t (in_flight S) = Inr (sb_batch_id b, T)"
    "case ch_send (rt_channels rt) b (consume_work_senders S ! t) of
       None \<Rightarrow> r = Inl (DisconnectedSendChannel ''consume work sender'') \<and> S' = S\<lparr>in_flight := T\<rparr>
     | Some s' \<Rightarrow> r = Inr (length (sb_ids b)) \<and>
         S' = S\<lparr>in_flight := T, consume_work_senders := (consume_work_senders S)[t := s']\<rparr>"
proof -
  obtain ids txs ages cus bid T where
    "take_batch t B = Inr ((ids, txs, ages, cus), B')"
    "track_batch (length ids) cus t (in_flight S) = Inr (bid, T)"
    "case ch_send (rt_channels rt) \<lparr>sb_batch_id = bid, sb_ids = ids, sb_transactions = txs, sb_max_ages = ages\<rparr>
        (consume_work_senders S ! t) of
       None \<Rightarrow> r = Inl (DisconnectedSendChannel ''consume work sender'') \<and> S' = S\<lparr>in_flight := T\<rparr>
     | Some s' \<Rightarrow> r = Inr (length ids) \<and>
         S' = S\<lparr>in_flight := T, consume_work_senders := (consume_work_senders S)[t := s']\<rparr>"
    using assms by (auto simp: send_batch_def res_simps split: option.splits if_splits)
  then show ?thesis
    by (intro that [of "\<lparr>sb_batch_id = bid, sb_ids = ids, sb_transactions = txs, sb_max_ages = ages\<rparr>" cus T]) (simp_all split: option.splits)
qed

lemma send_batch_safe:
  assumes hist: "channel_history (rt_channels rt) sent got"
    and inv: "locks_accounted A sent got K B S"
    and t: "t < length (consume_work_senders S)" and pos: "batch_total B < unat (next_batch_id S)"
    and run: "send_batch rt t B S = Inr (r, B', S')"
  shows "length (consume_work_senders S') = length (consume_work_senders S) \<and>
    finished_consume_work_receiver S' = finished_consume_work_receiver S \<and>
    account_locks_table S' = account_locks_table S \<and>
    unat (next_batch_id S) \<le> unat (next_batch_id S') + length (b_ids B ! t) \<and>
    batch_total B' + length (b_ids B ! t) = batch_total B \<and>
    (case r of Inr k \<Rightarrow> k = length (b_ids B ! t) \<and> locks_accounted A sent got K B' S'
     | Inl e \<Rightarrow> \<exists>K'. locks_accounted A sent got K' B' S')"
proof -
  let ?n = "length (consume_work_senders S)"
  have ok: "batches_ok ?n B" and h: "history_inv sent got S" using inv by (auto simp: locks_accounted_def)
  show ?thesis
  proof (cases "b_ids B ! t = []")
    case True
    then show ?thesis using run t ok inv by (auto simp: send_batch_def res_simps batches_ok_def)
  next
    case ne: False
    obtain cus T b where take: "take_batch t B = Inr ((sb_ids b, sb_transactions b, sb_max_ages b, cus), B')"
      and track: "track_batch (length (sb_ids b)) cus t (in_flight S) = Inr (sb_batch_id b, T)"
      and r: "case ch_send (rt_channels rt) b (consume_work_senders S ! t) of
           None \<Rightarrow> r = Inl (DisconnectedSendChannel ''consume work sender'') \<and> S' = S\<lparr>in_flight := T\<rparr>
         | Some s' \<Rightarrow> r = Inr (length (sb_ids b)) \<and>
             S' = S\<lparr>in_flight := T, consume_work_senders := (consume_work_senders S)[t := s']\<rparr>"
      using run ne t by (rule send_batchE)
    note B' = take_batch_Inr [OF take] and T = track_batch_Inr [OF track]
    note ok' = batches_ok_take(1) [OF ok t, folded B'(5)] batches_ok_take(2) [OF ok t, of A, folded B'(5)]
    have b: "valid b" "sb_ids b \<noteq> []" "sb_batch_id b = TransactionBatchId (next_batch_id S)"
      using ok t ne B' T by (auto simp: valid_def batches_ok_def)
    have total: "batch_total B' + length (b_ids B ! t) = batch_total B"
      using ok t sum_list_length_update [of t "b_ids B" "[]"] B'(5) by (simp add: batch_total_def batches_ok_def)
    have nz: "next_batch_id S \<noteq> 0" using pos by auto
    have unat: "unat (next_batch_id S) \<le> unat (next_batch_id S - 1) + length (b_ids B ! t)"
      using ne nz by (simp add: unat_pred) (cases "b_ids B ! t"; simp)
    show ?thesis
    proof (cases "ch_send (rt_channels rt) b (consume_work_senders S ! t)")
      case None
      then have S': "S' = S\<lparr>in_flight := T\<rparr>" and r': "\<exists>e. r = Inl e" using r by auto
      have "history_inv sent got S'" using history_drop [OF h nz] T S' by simp
      then have "locks_accounted A sent got (tx_holdings A t (b_transactions B ! t) + K) B' S'"
        using inv ok' S'
        by (auto simp: locks_accounted_def flight_def thread_flight_def outstanding_def ac_simps)
      then show ?thesis using S' r' total unat T by auto
    next
      case (Some s')
      then have S': "S' = S\<lparr>in_flight := T, consume_work_senders := (consume_work_senders S)[t := s']\<rparr>"
        and r': "r = Inr (length (sb_ids b))" using r by auto
      have sent: "sent s' = sent (consume_work_senders S ! t) @ [b]" using channel_historyD(1) [OF hist Some] .
      have "history_inv sent got S'"
        unfolding S' by (rule history_send [OF h t sent b(3) nz b(1,2) T(3), of "\<lparr>be_thread_id = t, be_num_transactions = length (sb_ids b), be_total_cus = cus\<rparr>"])
          (use T in simp_all)
      moreover have "sb_batch_id b \<notin> completed_ids (got (finished_consume_work_receiver S))"
        using completed_ids_above [OF h] b(3) by fastforce
      then have "flight A sent got S' = tx_holdings A t (sb_transactions b) + flight A sent got S"
        using flight_send [of t S sent s' b, OF t sent] S' by simp
      ultimately have "locks_accounted A sent got K B' S'"
        using inv ok' S' B'(2) by (auto simp: locks_accounted_def ac_simps)
      then show ?thesis using S' r' total unat T B'(1) by auto
    qed
  qed
qed

lemma send_batches_from_safe:
  assumes hist: "channel_history (rt_channels rt) sent got"
    and "locks_accounted A sent got K B S" "\<forall>t \<in> set ts. t < length (consume_work_senders S)"
    and "batch_total B < unat (next_batch_id S)" "send_batches_from rt ts n B S = Inr (r, B', S')"
  shows "\<exists>k. length (consume_work_senders S') = length (consume_work_senders S) \<and>
    finished_consume_work_receiver S' = finished_consume_work_receiver S \<and>
    account_locks_table S' = account_locks_table S \<and>
    unat (next_batch_id S) \<le> unat (next_batch_id S') + k \<and> batch_total B' + k = batch_total B \<and>
    (case r of Inr m \<Rightarrow> m = n + k \<and> locks_accounted A sent got K B' S'
     | Inl e \<Rightarrow> \<exists>K'. locks_accounted A sent got K' B' S')"
  using assms(2-)
proof (induction ts arbitrary: n B S)
  case Nil
  then show ?case by auto
next
  case (Cons t ts)
  from Cons.prems(4) obtain r1 B1 S1 where run: "send_batch rt t B S = Inr (r1, B1, S1)"
    and rest: "(case r1 of Inl e \<Rightarrow> Inr (Inl e, B1, S1)
      | Inr k \<Rightarrow> rbind (checked_add 64 n k) (\<lambda>n'. send_batches_from rt ts n' B1 S1)) = Inr (r, B', S')"
    by (auto simp: res_simps)
  have t: "t < length (consume_work_senders S)" using Cons.prems(2) by simp
  let ?k = "length (b_ids B ! t)"
  note one = send_batch_safe [OF hist Cons.prems(1) t Cons.prems(3) run]
  show ?case
  proof (cases r1)
    case (Inl e)
    then show ?thesis using rest one by (intro exI [of _ ?k]) auto
  next
    case (Inr k)
    then have k: "k = ?k" "locks_accounted A sent got K B1 S1" using one by auto
    have ts: "\<forall>t \<in> set ts. t < length (consume_work_senders S1)" using Cons.prems(2) one by simp
    have pos: "batch_total B1 < unat (next_batch_id S1)" using Cons.prems(3) one by linarith
    from rest Inr have "send_batches_from rt ts (n + k) B1 S1 = Inr (r, B', S')" by (auto simp: res_simps)
    from Cons.IH [OF k(2) ts pos this] obtain j where
      "length (consume_work_senders S') = length (consume_work_senders S1)"
      "finished_consume_work_receiver S' = finished_consume_work_receiver S1"
      "account_locks_table S' = account_locks_table S1"
      "unat (next_batch_id S1) \<le> unat (next_batch_id S') + j" "batch_total B' + j = batch_total B1"
      "case r of Inr m \<Rightarrow> m = n + k + j \<and> locks_accounted A sent got K B' S'
       | Inl e \<Rightarrow> \<exists>K'. locks_accounted A sent got K' B' S'" by blast
    then show ?thesis using one k(1) by (intro exI [of _ "k + j"]) (auto split: sum.splits)
  qed
qed

section \<open>One transaction\<close>

lemma try_lock_accounts_holds:
  assumes "locks_inv L" "table_holds L M" "try_lock_accounts W R allowed sel L = Inr (chosen, L')"
  shows "case chosen of None \<Rightarrow> L' = L
    | Some t \<Rightarrow> t < num_threads L \<and> locks_inv L' \<and> num_threads L' = num_threads L \<and>
        table_holds L' (add_mset (W, R, t) M)"
  using assms(1)
proof (cases rule: try_lock_accounts_cases [of L W R allowed sel, consumes 1, case_names none some])
  case none
  then show ?thesis using assms(3) by auto
next
  case (some S)
  then obtain t where t: "chosen = Some t" "lock_accounts W R t L = Inr L'"
    using assms(3) by (auto simp: res_simps)
  moreover have "t < num_threads L"
    using t(2) lock_accounts_returns [OF assms(1)] by (auto simp: lockable_threads_def)
  ultimately show ?thesis using lock_accounts_holds [OF assms(1,2)] by auto
qed

lemma try_schedule_transaction_cases:
  assumes "try_schedule_transaction A f n sel s blocking L = Inr (r, s', blocking', L')"
  obtains (filtered) ttl p c where "s = Unprocessed ttl p c" "\<not> f (ttl_transaction ttl)"
      "r = Inl Filtered" "s' = s" "blocking' = blocking" "L' = L"
  | (blocked) ttl p c where "s = Unprocessed ttl p c" "f (ttl_transaction ttl)"
      "\<not> check_locks A (ttl_transaction ttl) blocking" "r = Inl UnschedulableConflicts" "s' = s"
      "blocking' = snd (take_locks A (ttl_transaction ttl) blocking)" "L' = L"
  | (locked) ttl p c any where "s = Unprocessed ttl p c" "f (ttl_transaction ttl)"
      "check_locks A (ttl_transaction ttl) blocking" "ts_any n = Inr any"
      "try_lock_accounts (write_account_locks A (ttl_transaction ttl))
         (read_account_locks A (ttl_transaction ttl)) any sel L = Inr (None, L')"
      "r = Inl UnschedulableConflicts" "s' = s"
      "blocking' = snd (take_locks A (ttl_transaction ttl) blocking)"
  | (scheduled) ttl p c any t where "s = Unprocessed ttl p c" "f (ttl_transaction ttl)"
      "check_locks A (ttl_transaction ttl) blocking" "ts_any n = Inr any"
      "try_lock_accounts (write_account_locks A (ttl_transaction ttl))
         (read_account_locks A (ttl_transaction ttl)) any sel L = Inr (Some t, L')"
      "r = Inr \<lparr>si_thread_id = t, si_transaction = ttl_transaction ttl, si_max_age = ttl_max_age ttl, si_cost = c\<rparr>"
      "s' = Pending ttl p c" "blocking' = blocking"
proof -
  from assms obtain ttl p c where s: "s = Unprocessed ttl p c"
    by (auto simp: try_schedule_transaction_def res_simps)
  note run = assms [unfolded try_schedule_transaction_def s Let_def, simplified]
  show ?thesis
  proof (cases "f (ttl_transaction ttl)"; cases "check_locks A (ttl_transaction ttl) blocking")
    assume f: "f (ttl_transaction ttl)" and c: "check_locks A (ttl_transaction ttl) blocking"
    with run obtain any chosen L1 where l: "ts_any n = Inr any"
      "try_lock_accounts (write_account_locks A (ttl_transaction ttl))
         (read_account_locks A (ttl_transaction ttl)) any sel L = Inr (chosen, L1)"
      by (auto simp: res_simps)
    show ?thesis
    proof (cases chosen)
      case None
      then show ?thesis using run f c l by (intro that(3) [OF s f c l(1)]) (simp_all add: s)
    next
      case (Some t)
      then show ?thesis
        using run f c l by (intro that(4) [OF s f c l(1), of t])
          (simp_all add: transition_to_pending_def take_state_def)
    qed
  next
    assume f: "f (ttl_transaction ttl)" and c: "\<not> check_locks A (ttl_transaction ttl) blocking"
    then show ?thesis using run by (intro that(2) [OF s f c]) (simp_all add: s)
  qed (use run in \<open>intro that(1) [OF s], simp_all add: s\<close>)+
qed

lemma try_schedule_transaction_safe:
  assumes L: "locks_inv L" "table_holds L M"
    and run: "try_schedule_transaction A f n sel s blocking L = Inr (r, s', blocking', L')"
  shows "case r of Inl e \<Rightarrow> L' = L \<and> s' = s
    | Inr info \<Rightarrow> si_thread_id info < num_threads L \<and> locks_inv L' \<and> num_threads L' = num_threads L \<and>
        table_holds L' (tx_holdings A (si_thread_id info) [si_transaction info] + M)"
  using run
proof (cases rule: try_schedule_transaction_cases)
  case (locked ttl p c any)
  then show ?thesis using try_lock_accounts_holds [OF L locked(5)] by simp
next
  case (scheduled ttl p c any t)
  then show ?thesis using try_lock_accounts_holds [OF L scheduled(5)] by (simp add: tx_holdings_def)
qed auto

lemma push_to_batch_safe:
  assumes ok: "batches_ok n B" and run: "push_to_batch t i tx age cost B = Inr B'"
  shows "t < n \<and> batches_ok n B' \<and> batched A n B' = tx_holdings A t [tx] + batched A n B \<and>
    batch_total B' = Suc (batch_total B)"
proof -
  have t: "t < n" and B': "b_transactions B' = (b_transactions B)[t := b_transactions B ! t @ [tx]]"
      "b_ids B' = (b_ids B)[t := b_ids B ! t @ [i]]" "b_max_ages B' = (b_max_ages B)[t := b_max_ages B ! t @ [age]]"
      "length (b_total_cus B') = length (b_total_cus B)"
    using run ok by (auto simp: push_to_batch_def res_simps batches_ok_def)
  have "batches_ok n B'" using ok t B' by (auto simp: batches_ok_def nth_list_update)
  moreover have "batched A n B' = tx_holdings A t [tx] + batched A n B"
    unfolding batched_def
    by (rule sum_thread_update [OF t])
      (use ok t B' in \<open>auto simp: batches_ok_def nth_list_update tx_holdings_append ac_simps\<close>)
  moreover have "batch_total B' = Suc (batch_total B)"
    using sum_list_length_update [of t "b_ids B" "b_ids B ! t @ [i]"] ok t B'
    by (simp add: batch_total_def batches_ok_def)
  ultimately show ?thesis using t by simp
qed

section \<open>The pass\<close>

text \<open>
  The invariant of a pass.  \<open>id0\<close> is the next batch id at its beginning, which is larger than the
  number of transactions a pass can schedule: the generator does not wrap around.
\<close>

definition pass_safe ::
  "'tx message_api \<Rightarrow> ('s \<Rightarrow> 'tx scheduling_batch list) \<Rightarrow> ('r \<Rightarrow> 'tx scheduling_batch_result list)
     \<Rightarrow> nat \<Rightarrow> pubkey holding multiset \<Rightarrow> ('tx, 'h, 'g, 's, 'r) pass \<Rightarrow> bool" where
  "pass_safe A sent got id0 K P \<longleftrightarrow>
     locks_accounted A sent got K (pa_batches P) (pa_scheduler P) \<and>
     id0 \<le> unat (next_batch_id (pa_scheduler P)) + pa_num_sent P \<and>
     pa_num_sent P + batch_total (pa_batches P) = pa_num_scheduled P \<and>
     pa_num_scheduled P \<le> MAX_TRANSACTIONS_PER_SCHEDULING_PASS \<and>
     MAX_TRANSACTIONS_PER_SCHEDULING_PASS < id0"

text \<open>What is left when the pass ends with an error.\<close>

definition pass_aborted ::
  "'tx message_api \<Rightarrow> ('s \<Rightarrow> 'tx scheduling_batch list) \<Rightarrow> ('r \<Rightarrow> 'tx scheduling_batch_result list)
     \<Rightarrow> ('tx, 'h, 'g, 's, 'r) pass \<Rightarrow> bool" where
  "pass_aborted A sent got P \<longleftrightarrow> (\<exists>K B. locks_accounted A sent got K B (pa_scheduler P))"

lemma pass_safe_ids: "pass_safe A sent got id0 K P \<Longrightarrow>
    batch_total (pa_batches P) < unat (next_batch_id (pa_scheduler P))"
  by (simp add: pass_safe_def)

lemma umax_pass: "n \<le> MAX_TRANSACTIONS_PER_SCHEDULING_PASS \<Longrightarrow> n \<le> umax 64"
  by (simp add: MAX_TRANSACTIONS_PER_SCHEDULING_PASS_def umax_def)

lemma send_all_safe:
  assumes hist: "channel_history (rt_channels rt) sent got" and inv: "pass_safe A sent got id0 K P"
    and run: "send_all rt P = Inr (e, P')"
  shows "if e = None then pass_safe A sent got id0 K P' \<and> pa_num_scheduled P' = pa_num_scheduled P
    else pass_aborted A sent got P'"
proof -
  from run obtain r B S where sb: "send_batches_from rt [0..<length (consume_work_senders (pa_scheduler P))] 0
      (pa_batches P) (pa_scheduler P) = Inr (r, B, S)"
    and r0: "(let P1 = P\<lparr>pa_batches := B, pa_scheduler := S\<rparr> in
       case r of Inl e \<Rightarrow> Inr (Some e, P1)
       | Inr n \<Rightarrow> Inr (None, P1\<lparr>pa_num_sent := sat_add 64 (pa_num_sent P1) n\<rparr>)) = (Inr (e, P') :: _ res)"
    unfolding send_all_def send_batches_def rbind_Inr_iff by (auto simp del: upt_Suc)
  have r: "case r of Inl err \<Rightarrow> e = Some err \<and> P' = P\<lparr>pa_batches := B, pa_scheduler := S\<rparr>
      | Inr n \<Rightarrow> e = None \<and> P' = P\<lparr>pa_batches := B, pa_scheduler := S,
          pa_num_sent := sat_add 64 (pa_num_sent P) n\<rparr>"
    using r0 by (cases r) (auto simp: Let_def)
  have acc: "locks_accounted A sent got K (pa_batches P) (pa_scheduler P)"
    using inv by (simp add: pass_safe_def)
  have "\<forall>t \<in> set [0..<length (consume_work_senders (pa_scheduler P))].
      t < length (consume_work_senders (pa_scheduler P))" by simp
  from send_batches_from_safe [OF hist acc this pass_safe_ids [OF inv] sb]
  obtain k where k: "unat (next_batch_id (pa_scheduler P)) \<le> unat (next_batch_id S) + k"
    "batch_total B + k = batch_total (pa_batches P)"
    "case r of Inr m \<Rightarrow> m = 0 + k \<and> locks_accounted A sent got K B S
     | Inl e \<Rightarrow> \<exists>K'. locks_accounted A sent got K' B S" by blast
  show ?thesis
  proof (cases r)
    case (Inl err)
    then show ?thesis using r k(3) by (auto simp: pass_aborted_def)
  next
    case (Inr m)
    have "pa_num_sent P + k \<le> umax 64" using inv k(2) by (intro umax_pass) (simp add: pass_safe_def)
    then show ?thesis using Inr r k inv by (auto simp: pass_safe_def sat_add_exact)
  qed
qed

text \<open>The fields of a pass that filling the window leaves alone.\<close>

definition pass_frame :: "('tx, 'h, 'g, 's, 'r) pass \<Rightarrow> ('tx, 'h, 'g, 's, 'r) pass \<Rightarrow> bool" where
  "pass_frame P P' \<longleftrightarrow>
     pa_scheduler P' = pa_scheduler P \<and> pa_batches P' = pa_batches P \<and>
     pa_num_scheduled P' = pa_num_scheduled P \<and> pa_num_sent P' = pa_num_sent P \<and>
     pa_unschedulable_ids P' = pa_unschedulable_ids P \<and>
     pa_blocking_locks P' = pa_blocking_locks P \<and>
     pa_schedulable_threads P' = pa_schedulable_threads P \<and>
     pa_unblock_this_batch P' = pa_unblock_this_batch P"

lemma pass_frame_refl [simp]: "pass_frame P P"
  by (simp add: pass_frame_def)

lemma pass_frame_trans: "pass_frame P Q \<Longrightarrow> pass_frame Q R \<Longrightarrow> pass_frame P R"
  by (simp add: pass_frame_def)

lemma pass_safe_frame: "pass_frame P P' \<Longrightarrow> pass_safe A sent got id0 K P \<Longrightarrow> pass_safe A sent got id0 K P'"
  by (simp add: pass_frame_def pass_safe_def)

lemma insert_or_drop_frame: "insert_or_drop rt xk P = Inr P' \<Longrightarrow> pass_frame P P'"
  by (cases xk) (auto simp: insert_or_drop_def res_simps pass_frame_def split: if_splits)

lemma pop_filter_insert_frame:
  assumes "pop_filter_insert rt f chunk P = Inr (full, P')"
  shows "pass_frame P P'"
proof -
  obtain ids C where pc: "pop_chunk (rt_heap rt) chunk (pa_container P) = (ids, C)" by fastforce
  with assms obtain txs where run: "rfold (insert_or_drop rt) (zip ids (f txs (replicate chunk True)))
      (P\<lparr>pa_container := C, pa_filter_time_us := sat_add 64 (pa_filter_time_us P) (rt_filter_us rt txs)\<rparr>) = Inr P'"
    by (auto simp: pop_filter_insert_def res_simps Let_def)
  show ?thesis
    by (rule rfold_invariant [OF run, of "pass_frame P"])
      (auto simp: pass_frame_def dest: insert_or_drop_frame)
qed

lemma chunked_pops_loop_frame: "chunked_pops_loop rt f budget P = Inr (budget', P') \<Longrightarrow> pass_frame P P'"
proof (induction rt f budget P arbitrary: budget' P' rule: chunked_pops_loop.induct)
  case (1 rt f budget P)
  let ?chunk = "min budget MAX_FILTER_CHUNK_SIZE"
  show ?case
  proof (cases "budget = 0")
    case True
    then show ?thesis using "1.prems" by (simp add: chunked_pops_loop.simps)
  next
    case False
    with "1.prems" obtain full P1 where P1: "pop_filter_insert rt f ?chunk P = Inr (full, P1)"
      and rest: "(if full then chunked_pops_loop rt f (sat_sub budget ?chunk) P1
        else Inr (sat_sub budget ?chunk, P1)) = Inr (budget', P')"
      by (subst (asm) chunked_pops_loop.simps) (auto simp: res_simps Let_def)
    have "pass_frame P1 P'"
      using rest "1.IH" [OF False refl refl P1 refl] by (cases full) auto
    with pop_filter_insert_frame [OF P1] show ?thesis by (rule pass_frame_trans)
  qed
qed

lemma chunked_pops_frame: "chunked_pops rt f P = Inr P' \<Longrightarrow> pass_frame P P'"
  by (auto simp: chunked_pops_def res_simps dest!: chunked_pops_loop_frame) (simp add: pass_frame_def)

lemma refill_and_unblock_safe:
  assumes "pass_safe A sent got id0 K P" "refill_and_unblock rt f P = Inr P'"
  shows "pass_safe A sent got id0 K P' \<and> pa_num_scheduled P' = pa_num_scheduled P"
  using assms
  by (auto simp: refill_and_unblock_def res_simps pass_safe_def dest!: chunked_pops_frame)
    (auto simp: pass_frame_def)

lemma schedule_scheduled_cases:
  fixes P :: "('tx, 'h, 'g, 's, 'r) pass"
  assumes "schedule_scheduled rt m x info P = Inr (exit, P')"
  defines "t \<equiv> si_thread_id info" and "S \<equiv> pa_scheduler P"
    and "P1 \<equiv> P\<lparr>pa_num_scheduled := sat_add 64 (pa_num_scheduled P) 1\<rparr>"
  obtains B ids r B' S' where
    "push_to_batch t (tp_id x) (si_transaction info) (si_max_age info) (si_cost info) (pa_batches P) = Inr B"
    "rindex (b_ids B) t = Inr ids"
    "send_if_full rt t ids B S = Inr (r, B', S')"
    "case r of Inl e \<Rightarrow> exit = RaiseError e \<and> P' = P1\<lparr>pa_batches := B', pa_scheduler := S'\<rparr>
     | Inr k \<Rightarrow> P' = P1\<lparr>pa_batches := B', pa_scheduler := S', pa_num_sent := sat_add 64 (pa_num_sent P) k,
          pa_schedulable_threads := pa_schedulable_threads P'\<rparr> \<and>
        (exit = BreakLoop \<or> exit = Proceed \<and> pa_num_scheduled P' < MAX_TRANSACTIONS_PER_SCHEDULING_PASS)"
proof -
  note run = assms(1) [unfolded schedule_scheduled_def Let_def, folded t_def P1_def]
  have [simp]: "pa_scheduler P1 = S" "pa_batches P1 = pa_batches P" "pa_num_sent P1 = pa_num_sent P"
    by (simp_all add: P1_def S_def)
  from run obtain B ids r B' S' where
    a: "push_to_batch t (tp_id x) (si_transaction info) (si_max_age info) (si_cost info) (pa_batches P) = Inr B"
    "rindex (b_ids B) t = Inr ids"
    "send_if_full rt t ids B S = Inr (r, B', S')"
    by (auto simp: rbind_Inr_iff)
  show ?thesis
  proof (rule that [OF a])
    show "case r of Inl e \<Rightarrow> exit = RaiseError e \<and> P' = P1\<lparr>pa_batches := B', pa_scheduler := S'\<rparr>
     | Inr k \<Rightarrow> P' = P1\<lparr>pa_batches := B', pa_scheduler := S', pa_num_sent := sat_add 64 (pa_num_sent P) k,
          pa_schedulable_threads := pa_schedulable_threads P'\<rparr> \<and>
        (exit = BreakLoop \<or> exit = Proceed \<and> pa_num_scheduled P' < MAX_TRANSACTIONS_PER_SCHEDULING_PASS)"
    proof (cases r)
      case (Inl e)
      then show ?thesis using run a by simp
    next
      case (Inr k)
      then show ?thesis using run a by (auto simp: res_simps split: if_splits)
    qed
  qed
qed

text \<open>The pass before the batch of the scheduled transaction is extended.\<close>

definition pass_locked ::
  "'tx message_api \<Rightarrow> ('s \<Rightarrow> 'tx scheduling_batch list) \<Rightarrow> ('r \<Rightarrow> 'tx scheduling_batch_result list)
     \<Rightarrow> nat \<Rightarrow> pubkey holding multiset \<Rightarrow> 'tx scheduling_info \<Rightarrow> ('tx, 'h, 'g, 's, 'r) pass \<Rightarrow> bool" where
  "pass_locked A sent got id0 K info P \<longleftrightarrow>
     locks_accounted A sent got (tx_holdings A (si_thread_id info) [si_transaction info] + K)
       (pa_batches P) (pa_scheduler P) \<and>
     id0 \<le> unat (next_batch_id (pa_scheduler P)) + pa_num_sent P \<and>
     pa_num_sent P + batch_total (pa_batches P) = pa_num_scheduled P \<and>
     pa_num_scheduled P < MAX_TRANSACTIONS_PER_SCHEDULING_PASS \<and>
     MAX_TRANSACTIONS_PER_SCHEDULING_PASS < id0"

lemma send_if_full_safe:
  assumes hist: "channel_history (rt_channels rt) sent got"
    and acc: "locks_accounted A sent got K B S"
    and t: "t < length (consume_work_senders S)" and total: "batch_total B < unat (next_batch_id S)"
    and send: "send_if_full rt t (b_ids B ! t) B S = Inr (r, B', S')"
  shows "\<exists>k. unat (next_batch_id S) \<le> unat (next_batch_id S') + k \<and> batch_total B' + k = batch_total B \<and>
    (case r of Inr j \<Rightarrow> j = k \<and> locks_accounted A sent got K B' S'
     | Inl e \<Rightarrow> \<exists>K'. locks_accounted A sent got K' B' S')"
proof (cases "length (b_ids B ! t) \<ge> TARGET_NUM_TRANSACTIONS_PER_BATCH")
  case True
  then show ?thesis
    using send send_batch_safe [OF hist acc t total]
    by (intro exI [of _ "length (b_ids B ! t)"]) (auto simp: send_if_full_def)
next
  case False
  then show ?thesis using send acc by (intro exI [of _ 0]) (auto simp: send_if_full_def)
qed

lemma schedule_scheduled_fields:
  assumes "schedule_scheduled rt m x info P = Inr (exit, P')"
  obtains B ids r B' S' where
    "push_to_batch (si_thread_id info) (tp_id x) (si_transaction info) (si_max_age info) (si_cost info) (pa_batches P) = Inr B"
    "rindex (b_ids B) (si_thread_id info) = Inr ids"
    "send_if_full rt (si_thread_id info) ids B (pa_scheduler P) = Inr (r, B', S')"
    "case r of Inl e \<Rightarrow> exit = RaiseError e \<and> pa_scheduler P' = S'
     | Inr k \<Rightarrow> pa_batches P' = B' \<and> pa_scheduler P' = S' \<and> pa_num_sent P' = sat_add 64 (pa_num_sent P) k \<and>
        pa_num_scheduled P' = sat_add 64 (pa_num_scheduled P) 1 \<and>
        (exit = BreakLoop \<or> exit = Proceed \<and> pa_num_scheduled P' < MAX_TRANSACTIONS_PER_SCHEDULING_PASS)"
  using assms
proof (rule schedule_scheduled_cases)
  fix B ids r B' S'
  assume a: "push_to_batch (si_thread_id info) (tp_id x) (si_transaction info) (si_max_age info) (si_cost info) (pa_batches P) = Inr B"
    "rindex (b_ids B) (si_thread_id info) = Inr ids" "send_if_full rt (si_thread_id info) ids B (pa_scheduler P) = Inr (r, B', S')"
  assume rest: "case r of Inl e \<Rightarrow> exit = RaiseError e \<and>
      P' = P\<lparr>pa_num_scheduled := sat_add 64 (pa_num_scheduled P) 1, pa_batches := B', pa_scheduler := S'\<rparr>
   | Inr k \<Rightarrow> P' = P\<lparr>pa_num_scheduled := sat_add 64 (pa_num_scheduled P) 1, pa_batches := B', pa_scheduler := S',
        pa_num_sent := sat_add 64 (pa_num_sent P) k, pa_schedulable_threads := pa_schedulable_threads P'\<rparr> \<and>
      (exit = BreakLoop \<or> exit = Proceed \<and> pa_num_scheduled P' < MAX_TRANSACTIONS_PER_SCHEDULING_PASS)"
  show ?thesis
    by (rule that [OF a]) (use rest in \<open>cases r; auto dest: arg_cong [where f = pa_batches]
        arg_cong [where f = pa_scheduler] arg_cong [where f = pa_num_sent]
        arg_cong [where f = pa_num_scheduled]\<close>)
qed

lemma schedule_scheduled_safe:
  assumes hist: "channel_history (rt_channels rt) sent got"
    and inv: "pass_locked A sent got id0 K info P"
    and run: "schedule_scheduled rt m x info P = Inr (exit, P')"
  shows "case exit of RaiseError e \<Rightarrow> pass_aborted A sent got P'
    | BreakLoop \<Rightarrow> pass_safe A sent got id0 K P'
    | Proceed \<Rightarrow> pass_safe A sent got id0 K P' \<and> pa_num_scheduled P' < MAX_TRANSACTIONS_PER_SCHEDULING_PASS"
proof -
  let ?t = "si_thread_id info" and ?S = "pa_scheduler P"
  obtain B ids r B' S' where
    push: "push_to_batch ?t (tp_id x) (si_transaction info) (si_max_age info) (si_cost info) (pa_batches P) = Inr B"
    and ids: "rindex (b_ids B) ?t = Inr ids" and send: "send_if_full rt ?t ids B ?S = Inr (r, B', S')"
    and rest: "case r of Inl e \<Rightarrow> exit = RaiseError e \<and> pa_scheduler P' = S'
     | Inr k \<Rightarrow> pa_batches P' = B' \<and> pa_scheduler P' = S' \<and> pa_num_sent P' = sat_add 64 (pa_num_sent P) k \<and>
        pa_num_scheduled P' = sat_add 64 (pa_num_scheduled P) 1 \<and>
        (exit = BreakLoop \<or> exit = Proceed \<and> pa_num_scheduled P' < MAX_TRANSACTIONS_PER_SCHEDULING_PASS)"
    using run by (rule schedule_scheduled_fields)
  have acc: "locks_accounted A sent got (tx_holdings A ?t [si_transaction info] + K) (pa_batches P) ?S"
    using inv by (simp add: pass_locked_def)
  then have ok: "batches_ok (length (consume_work_senders ?S)) (pa_batches P)" by (simp add: locks_accounted_def)
  note pushed = push_to_batch_safe [OF ok push, of A]
  have accB: "locks_accounted A sent got K B ?S"
    using acc pushed by (auto simp: locks_accounted_def ac_simps)
  have total: "batch_total B < unat (next_batch_id ?S)"
    using inv pushed by (simp add: pass_locked_def)
  have "ids = b_ids B ! ?t" using ids by (auto simp: res_simps)
  with send have "send_if_full rt ?t (b_ids B ! ?t) B ?S = Inr (r, B', S')" by simp
  from send_if_full_safe [OF hist accB conjunct1 [OF pushed] total this]
  obtain k where k: "unat (next_batch_id ?S) \<le> unat (next_batch_id S') + k" "batch_total B' + k = batch_total B"
      "case r of Inr j \<Rightarrow> j = k \<and> locks_accounted A sent got K B' S'
       | Inl e \<Rightarrow> \<exists>K'. locks_accounted A sent got K' B' S'" by blast
  show ?thesis
  proof (cases r)
    case (Inl e)
    then show ?thesis using rest k(3) by (auto simp: pass_aborted_def)
  next
    case (Inr j)
    have n: "pa_num_sent P + batch_total B = Suc (pa_num_scheduled P)"
      using inv pushed by (simp add: pass_locked_def)
    have "pa_num_scheduled P + 1 \<le> umax 64" "pa_num_sent P + k \<le> umax 64"
      using inv n k(2) by (auto intro!: umax_pass simp: pass_locked_def)
    then have "pa_num_scheduled P' = Suc (pa_num_scheduled P)" "pa_num_sent P' = pa_num_sent P + k"
      using rest Inr k(3) by (auto simp: sat_add_exact)
    then have "pass_safe A sent got id0 K P'"
      using rest Inr k n inv by (auto simp: pass_safe_def pass_locked_def)
    then show ?thesis using rest Inr by auto
  qed
qed

lemma handle_schedule_result_safe:
  assumes hist: "channel_history (rt_channels rt) sent got"
    and lt: "pa_num_scheduled P < MAX_TRANSACTIONS_PER_SCHEDULING_PASS"
    and inv: "case result of Inl e \<Rightarrow> pass_safe A sent got id0 K P | Inr info \<Rightarrow> pass_locked A sent got id0 K info P"
    and run: "handle_schedule_result rt m x result P = Inr (exit, P')"
  shows "case exit of RaiseError e \<Rightarrow> pass_aborted A sent got P'
    | BreakLoop \<Rightarrow> pass_safe A sent got id0 K P'
    | Proceed \<Rightarrow> pass_safe A sent got id0 K P' \<and> pa_num_scheduled P' < MAX_TRANSACTIONS_PER_SCHEDULING_PASS"
proof (cases result)
  case (Inl e)
  then show ?thesis
    using run inv lt
    by (cases e) (auto simp: handle_schedule_result_def res_simps pass_safe_def)
next
  case (Inr info)
  then show ?thesis
    using run inv schedule_scheduled_safe [OF hist] by (simp add: handle_schedule_result_def)
qed

lemma schedule_one_Inr:
  assumes "schedule_one rt f m x P = Inr (exit, P')"
  obtains s result s' blocking L where
    "id_to_transaction_state (pa_container P) (tp_id x) = Some s"
    "try_schedule_transaction (rt_messages rt) f (length (consume_work_senders (pa_scheduler P)))
       (pass_selector P) s (pa_blocking_locks P) (account_locks_table (pa_scheduler P)) = Inr (result, s', blocking, L)"
    "handle_schedule_result rt m x result (write_back (tp_id x) s' blocking L
       (P\<lparr>pa_unblock_this_batch := pa_unblock_this_batch P @ [x]\<rparr>)) = Inr (exit, P')"
proof -
  have sel: "pass_selector (P\<lparr>pa_unblock_this_batch := u\<rparr>) = pass_selector P" for u
    by (simp add: pass_selector_def fun_eq_iff)
  obtain s where s: "id_to_transaction_state (pa_container P) (tp_id x) = Some s"
    using assms
    by (cases "id_to_transaction_state (pa_container P) (tp_id x)")
      (simp_all add: schedule_one_def get_mut_transaction_state_def)
  with assms that show ?thesis
    by (auto simp: schedule_one_def get_mut_transaction_state_def sel res_simps)
qed

lemma schedule_one_safe:
  assumes hist: "channel_history (rt_channels rt) sent got" and inv: "pass_safe (rt_messages rt) sent got id0 K P"
    and lt: "pa_num_scheduled P < MAX_TRANSACTIONS_PER_SCHEDULING_PASS"
    and run: "schedule_one rt f m x P = Inr (exit, P')"
  shows "case exit of RaiseError e \<Rightarrow> pass_aborted (rt_messages rt) sent got P'
    | BreakLoop \<Rightarrow> pass_safe (rt_messages rt) sent got id0 K P'
    | Proceed \<Rightarrow> pass_safe (rt_messages rt) sent got id0 K P' \<and>
        pa_num_scheduled P' < MAX_TRANSACTIONS_PER_SCHEDULING_PASS"
  using run
proof (rule schedule_one_Inr)
  let ?A = "rt_messages rt" and ?S = "pa_scheduler P"
  fix s result s' blocking L
  assume sched: "try_schedule_transaction ?A f (length (consume_work_senders ?S)) (pass_selector P) s
      (pa_blocking_locks P) (account_locks_table ?S) = Inr (result, s', blocking, L)"
  let ?P1 = "write_back (tp_id x) s' blocking L (P\<lparr>pa_unblock_this_batch := pa_unblock_this_batch P @ [x]\<rparr>)"
  assume rest: "handle_schedule_result rt m x result ?P1 = Inr (exit, P')"
  have acc: "locks_accounted ?A sent got K (pa_batches P) ?S" using inv by (simp add: pass_safe_def)
  then have holds: "locks_inv (account_locks_table ?S)" "table_holds (account_locks_table ?S)
      (flight ?A sent got ?S + batched ?A (length (consume_work_senders ?S)) (pa_batches P) + K)"
    by (auto simp: locks_accounted_def)
  have frame: "flight ?A sent got (?S\<lparr>account_locks_table := L\<rparr>) = flight ?A sent got ?S"
    "history_inv sent got (?S\<lparr>account_locks_table := L\<rparr>)"
    using acc
    by (auto simp: locks_accounted_def flight_def thread_flight_def history_inv_def all_sent_def outstanding_def)
  have "case result of Inl e \<Rightarrow> pass_safe ?A sent got id0 K ?P1 | Inr info \<Rightarrow> pass_locked ?A sent got id0 K info ?P1"
    using try_schedule_transaction_safe [OF holds sched] inv lt acc frame
    by (auto simp: pass_safe_def pass_locked_def locks_accounted_def write_back_def ac_simps split: sum.splits)
  from handle_schedule_result_safe [OF hist _ this rest] lt show ?thesis by (simp add: write_back_def)
qed

lemma inner_loop_safe:
  assumes hist: "channel_history (rt_channels rt) sent got"
    and "pass_safe (rt_messages rt) sent got id0 K P"
    and "pa_num_scheduled P < MAX_TRANSACTIONS_PER_SCHEDULING_PASS"
    and "inner_loop rt f m fuel P = Inr (e, P')"
  shows "if e = None then pass_safe (rt_messages rt) sent got id0 K P'
    else pass_aborted (rt_messages rt) sent got P'"
  using assms(2-)
proof (induction fuel arbitrary: P)
  case 0
  then show ?case by simp
next
  case (Suc fuel)
  show ?case
  proof (cases "pg_pop (rt_graph rt) (pa_graph P)")
    case None
    then show ?thesis using Suc.prems by auto
  next
    case (Some xg)
    obtain x g where xg: "xg = (x, g)" by fastforce
    with Some Suc.prems obtain exit P1 where
      one: "schedule_one rt f m x (P\<lparr>pa_graph := g\<rparr>) = Inr (exit, P1)" and
      rest: "(case exit of Proceed \<Rightarrow> inner_loop rt f m fuel P1 | BreakLoop \<Rightarrow> Inr (None, P1)
        | RaiseError e \<Rightarrow> Inr (Some e, P1)) = Inr (e, P')"
      by (auto simp: res_simps)
    have "pass_safe (rt_messages rt) sent got id0 K (P\<lparr>pa_graph := g\<rparr>)"
      using Suc.prems(1) by (simp add: pass_safe_def)
    from schedule_one_safe [OF hist this _ one] Suc.prems(2) rest show ?thesis
      using Suc.IH by (cases exit) auto
  qed
qed

lemma outer_loop_safe:
  assumes hist: "channel_history (rt_channels rt) sent got"
    and "pass_safe (rt_messages rt) sent got id0 K P"
    and "outer_loop rt gf f m inn fuel P = Inr (e, P')"
  shows "if e = None then pass_safe (rt_messages rt) sent got id0 K P'
    else pass_aborted (rt_messages rt) sent got P'"
  using assms(2-)
proof (induction fuel arbitrary: P)
  case 0
  then show ?case by simp
next
  case (Suc fuel)
  show ?case
  proof (cases "pa_num_scheduled P < MAX_TRANSACTIONS_PER_SCHEDULING_PASS \<and> \<not> pg_is_empty (rt_graph rt) (pa_graph P)")
    case False
    then show ?thesis using Suc.prems by (auto split: if_splits)
  next
    case True
    then obtain e1 P1 where i: "inner_loop rt f m inn P = Inr (e1, P1)"
      and rest: "(if e1 \<noteq> None then Inr (e1, P1) else rbind (send_all rt P1) (\<lambda>(e2, P2).
          if e2 \<noteq> None then Inr (e2, P2)
          else rbind (refill_and_unblock rt gf P2) (outer_loop rt gf f m inn fuel))) = Inr (e, P')"
      using Suc.prems(2) by (auto simp: res_simps)
    note in1 = inner_loop_safe [OF hist Suc.prems(1) conjunct1 [OF True] i]
    show ?thesis
    proof (cases e1)
      case (Some err)
      then show ?thesis using in1 rest by auto
    next
      case None
      with rest obtain e2 P2 where s: "send_all rt P1 = Inr (e2, P2)"
        and rest2: "(if e2 \<noteq> None then Inr (e2, P2)
          else rbind (refill_and_unblock rt gf P2) (outer_loop rt gf f m inn fuel)) = Inr (e, P')"
        by (auto simp: res_simps)
      have s1: "pass_safe (rt_messages rt) sent got id0 K P1" using in1 None by simp
      note s2 = send_all_safe [OF hist s1 s]
      show ?thesis
      proof (cases e2)
        case (Some err)
        then show ?thesis using s2 rest2 by auto
      next
        case None
        with rest2 obtain P3 where P3: "refill_and_unblock rt gf P2 = Inr P3"
          "outer_loop rt gf f m inn fuel P3 = Inr (e, P')" by (auto simp: res_simps)
        have "pass_safe (rt_messages rt) sent got id0 K P3"
          using s2 None refill_and_unblock_safe [OF _ P3(1)] by auto
        from Suc.IH [OF this P3(2)] show ?thesis .
      qed
    qed
  qed
qed

lemma push_back_frame: "push_back rt x P = Inr P' \<Longrightarrow> pass_frame P P'"
  by (auto simp: push_back_def res_simps pass_frame_def)

lemma drain_graph_frame: "drain_graph rt fuel P = Inr P' \<Longrightarrow> pass_frame P P'"
proof (induction fuel arbitrary: P)
  case (Suc fuel)
  show ?case
  proof (cases "pg_pop_and_unblock (rt_graph rt) (pa_graph P)")
    case None
    then show ?thesis using Suc.prems by simp
  next
    case (Some xg)
    then obtain P1 where "push_back rt (fst xg) (P\<lparr>pa_graph := snd xg\<rparr>) = Inr P1" "drain_graph rt fuel P1 = Inr P'"
      using Suc.prems by (auto simp: res_simps split: prod.splits)
    then show ?thesis using Suc.IH push_back_frame by (fastforce simp: pass_frame_def)
  qed
qed simp

lemma finish_pass_safe:
  assumes hist: "channel_history (rt_channels rt) sent got" and inv: "pass_safe A sent got id0 K P"
    and run: "finish_pass rt fuel P = Inr (e, P')"
  shows "if e = None then pass_safe A sent got id0 K P' \<and> pa_num_scheduled P' = pa_num_sent P'
    else pass_aborted A sent got P'"
proof -
  obtain e1 P1 where s: "send_all rt P = Inr (e1, P1)"
    and rest: "(if e1 \<noteq> None then Inr (e1, P1)
     else rbind (rfold (push_back rt) (pa_unschedulable_ids P1) P1) (\<lambda>P2.
       rbind (drain_graph rt fuel P2) (\<lambda>P3.
       rbind (rassert (pa_num_scheduled P3 = pa_num_sent P3)
                ''number of scheduled and sent transactions must match'') (\<lambda>_.
       Inr (None, P3))))) = Inr (e, P')"
    using run by (auto simp: finish_pass_def res_simps)
  note s1 = send_all_safe [OF hist inv s]
  show ?thesis
  proof (cases e1)
    case (Some err)
    then show ?thesis using s1 rest by auto
  next
    case None
    with rest obtain P2 where P2: "rfold (push_back rt) (pa_unschedulable_ids P1) P1 = Inr P2"
      and P3: "drain_graph rt fuel P2 = Inr P'" "e = None" "pa_num_scheduled P' = pa_num_sent P'"
      by (auto simp: res_simps)
    have "pass_frame P1 P2"
      by (rule rfold_invariant [OF P2, of "pass_frame P1"]) (auto dest: push_back_frame pass_frame_trans)
    then have "pass_frame P1 P'" using drain_graph_frame [OF P3(1)] pass_frame_trans by blast
    then show ?thesis using s1 None P3 pass_safe_frame by auto
  qed
qed

lemma run_pass_safe:
  assumes hist: "channel_history (rt_channels rt) sent got"
    and inv: "pass_safe (rt_messages rt) sent got id0 K P"
    and run: "run_pass rt gf f m fuel P = Inr (e, P')"
  shows "if e = None then pass_safe (rt_messages rt) sent got id0 K P' \<and> pa_num_scheduled P' = pa_num_sent P'
    else pass_aborted (rt_messages rt) sent got P'"
proof -
  from run obtain P1 e2 P2 where P1: "chunked_pops rt gf P = Inr P1"
    and P2: "outer_loop rt gf f m fuel fuel P1 = Inr (e2, P2)"
    and rest: "(if e2 \<noteq> None then Inr (e2, P2) else finish_pass rt fuel P2) = Inr (e, P')"
    by (auto simp: run_pass_def res_simps)
  have "pass_safe (rt_messages rt) sent got id0 K P1" using chunked_pops_frame [OF P1] inv pass_safe_frame by blast
  note o = outer_loop_safe [OF hist this P2]
  show ?thesis
    using o rest finish_pass_safe [OF hist] by (cases e2) auto
qed

section \<open>Scheduling\<close>

text \<open>
  The invariant between calls, for some locks \<open>K\<close> of batches no worker took.
\<close>

definition sched_safe ::
  "'tx message_api \<Rightarrow> ('s \<Rightarrow> 'tx scheduling_batch list) \<Rightarrow> ('r \<Rightarrow> 'tx scheduling_batch_result list)
     \<Rightarrow> pubkey holding multiset \<Rightarrow> ('s, 'r) prio_scheduler \<Rightarrow> bool" where
  "sched_safe A sent got K S \<longleftrightarrow>
     locks_accounted A sent got K (new_batches (length (consume_work_senders S)) :: 'tx pass_batches) S"

lemma batch_total_new: "batch_total (new_batches n) = 0"
  by (simp add: batch_total_def new_batches_def sum_list_replicate)

lemma sched_safe_initial_pass:
  assumes "sched_safe A sent got K S" "MAX_TRANSACTIONS_PER_SCHEDULING_PASS < unat (next_batch_id S)"
  shows "pass_safe A sent got (unat (next_batch_id S)) K (initial_pass rt ts C S)"
  using assms by (simp add: sched_safe_def pass_safe_def initial_pass_def batch_total_new)

text \<open>What waits in a batch that is dropped stays locked.\<close>

lemma sched_safe_forget: "locks_accounted A sent got K B S \<Longrightarrow> \<exists>K'. sched_safe A sent got K' S"
  by (auto simp: sched_safe_def locks_accounted_def batches_ok_new ac_simps
      intro!: exI [of _ "batched A (length (consume_work_senders S)) B + K"])

lemma batches_empty:
  assumes ok: "batches_ok n B" and z: "batch_total B = 0"
  shows "batched A n B = {#}"
proof -
  have "b_ids B ! t = []" if "t < n" for t
  proof -
    have "length (b_ids B ! t) \<in> set (map length (b_ids B))" using ok that by (simp add: batches_ok_def)
    then have "length (b_ids B ! t) \<le> batch_total B" unfolding batch_total_def by (rule member_le_sum_list) simp
    with z show ?thesis by simp
  qed
  then have "b_transactions B ! t = []" if "t < n" for t using ok that by (simp add: batches_ok_def)
  then show ?thesis by (simp add: batched_def)
qed

lemma schedule_safe:
  assumes hist: "channel_history (rt_channels rt) sent got"
    and inv: "sched_safe (rt_messages rt) sent got K S"
    and ids: "MAX_TRANSACTIONS_PER_SCHEDULING_PASS < unat (next_batch_id S)"
    and run: "schedule rt fuel gf f C S = Inr (r, C', S')"
  shows "case r of Inr summary \<Rightarrow> sched_safe (rt_messages rt) sent got K S'
    | Inl e \<Rightarrow> \<exists>K'. sched_safe (rt_messages rt) sent got K' S'"
proof -
  from run consider (idle) "S' = S" "\<exists>s. r = Inr s"
    | (ran) m ts e P where "run_pass rt gf f m fuel (initial_pass rt ts C S) = Inr (e, P)"
        "r = (case e of Some err \<Rightarrow> Inl err | None \<Rightarrow> Inr (pass_summary P))" "S' = pa_scheduler P"
    by (auto simp: schedule_def Let_def res_simps split: if_splits)
  then show ?thesis
  proof cases
    case idle
    then show ?thesis using inv by auto
  next
    case ran
    note p = run_pass_safe [OF hist sched_safe_initial_pass [OF inv ids] ran(1)]
    show ?thesis
    proof (cases e)
      case None
      then have ps: "pass_safe (rt_messages rt) sent got (unat (next_batch_id S)) K P"
        and eq: "pa_num_scheduled P = pa_num_sent P" using p by auto
      then have z: "batch_total (pa_batches P) = 0"
        and acc: "locks_accounted (rt_messages rt) sent got K (pa_batches P) (pa_scheduler P)"
        by (auto simp: pass_safe_def)
      then have "sched_safe (rt_messages rt) sent got K (pa_scheduler P)"
        using batches_empty [OF _ z] by (auto simp: sched_safe_def locks_accounted_def batches_ok_new)
      then show ?thesis using ran None by simp
    next
      case (Some err)
      then show ?thesis using p ran sched_safe_forget by (auto simp: pass_aborted_def)
    qed
  qed
qed

section \<open>Receiving\<close>

lemma concat_disjoint:
  "distinct (concat xss) \<Longrightarrow> t < length xss \<Longrightarrow> u < length xss \<Longrightarrow> t \<noteq> u \<Longrightarrow> set (xss ! t) \<inter> set (xss ! u) = {}"
proof (induction xss arbitrary: t u)
  case (Cons xs xss)
  then show ?case by (cases t; cases u) force+
qed simp

lemma sent_ids_distinct:
  assumes "history_inv sent got S" "t < length (consume_work_senders S)"
  shows "distinct (map sb_batch_id (sent (consume_work_senders S ! t)))"
    and "u < length (consume_work_senders S) \<Longrightarrow> u \<noteq> t \<Longrightarrow> b \<in> set (sent (consume_work_senders S ! t)) \<Longrightarrow>
      y \<in> set (sent (consume_work_senders S ! u)) \<Longrightarrow> sb_batch_id y \<noteq> sb_batch_id b"
proof -
  let ?xss = "map (\<lambda>s. map sb_batch_id (sent s)) (consume_work_senders S)"
  have d: "distinct (concat ?xss)" using assms(1) by (simp add: history_inv_def all_sent_def map_concat comp_def)
  have "?xss ! t \<in> set ?xss" using assms(2) by (intro nth_mem) simp
  then show "distinct (map sb_batch_id (sent (consume_work_senders S ! t)))"
    using d assms(2) by (auto simp: distinct_concat_iff)
  show "sb_batch_id y \<noteq> sb_batch_id b" if "u < length (consume_work_senders S)" "u \<noteq> t"
      "b \<in> set (sent (consume_work_senders S ! t))" "y \<in> set (sent (consume_work_senders S ! u))"
    using concat_disjoint [OF d, of u t] that assms(2) by (auto dest!: set_eq_subset [THEN iffD1])
qed

lemma tx_holdings_concat:
  "tx_holdings A t (concat (map sb_transactions bs)) = (\<Sum>b \<in># mset bs. tx_holdings A t (sb_transactions b))"
  by (induction bs) (simp_all add: tx_holdings_append)

lemma mset_filter_id:
  "distinct (map sb_batch_id bs) \<Longrightarrow> b \<in> set bs \<Longrightarrow>
     mset bs = add_mset b (mset (filter (\<lambda>y. sb_batch_id y \<noteq> sb_batch_id b) bs))"
proof (induction bs)
  case (Cons y bs)
  show ?case
  proof (cases "y = b")
    case True
    then have "sb_batch_id b \<notin> sb_batch_id ` set bs" using Cons.prems(1) by simp
    then have "filter (\<lambda>y. sb_batch_id y \<noteq> sb_batch_id b) bs = bs"
      by (metis (mono_tags, lifting) filter_True imageI)
    then show ?thesis using True by simp
  next
    case False
    then have "b \<in> set bs" "sb_batch_id y \<noteq> sb_batch_id b" using Cons.prems by auto
    then show ?thesis using Cons by (simp add: add_mset_commute)
  qed
qed simp

lemma completed_ids_snoc [simp]: "completed_ids (rs @ [x]) = insert (sb_batch_id (sr_batch x)) (completed_ids rs)"
  by (simp add: completed_ids_def)

lemma outstanding_receive:
  "outstanding sent got S' u = filter (\<lambda>y. sb_batch_id y \<noteq> sb_batch_id (sr_batch x)) (outstanding sent got S u)"
  if "consume_work_senders S' = consume_work_senders S"
    "got (finished_consume_work_receiver S') = got (finished_consume_work_receiver S) @ [x]"
  using that by (simp add: outstanding_def conj_commute)

lemma flight_complete:
  assumes h: "history_inv sent got S" and t: "t < length (consume_work_senders S)"
    and b: "sr_batch x \<in> set (outstanding sent got S t)"
    and S': "consume_work_senders S' = consume_work_senders S"
      "got (finished_consume_work_receiver S') = got (finished_consume_work_receiver S) @ [x]"
  shows "flight A sent got S = tx_holdings A t (sb_transactions (sr_batch x)) + flight A sent got S'"
proof -
  let ?n = "length (consume_work_senders S)"
  have d: "distinct (map sb_batch_id (outstanding sent got S t))"
    using sent_ids_distinct(1) [OF h t] by (simp add: outstanding_def distinct_map_filter)
  have "(\<Sum>u < ?n. thread_flight A sent got S u) =
      tx_holdings A t (sb_transactions (sr_batch x)) + (\<Sum>u < ?n. thread_flight A sent got S' u)"
  proof (rule sum_thread_update [OF t])
    show "thread_flight A sent got S t = tx_holdings A t (sb_transactions (sr_batch x)) + thread_flight A sent got S' t"
      unfolding thread_flight_def tx_holdings_concat outstanding_receive [OF S']
      by (subst mset_filter_id [OF d b]) simp
  next
    fix u
    assume u: "u < ?n" "u \<noteq> t"
    have "sb_batch_id y \<noteq> sb_batch_id (sr_batch x)" if "y \<in> set (outstanding sent got S u)" for y
      using sent_ids_distinct(2) [OF h t u] b that by (auto simp: outstanding_def)
    then show "thread_flight A sent got S u = thread_flight A sent got S' u"
      by (simp add: thread_flight_def outstanding_receive [OF S'] filter_True)
  qed
  then show ?thesis using S'(1) by (simp add: flight_def)
qed

lemma rfold_unlock:
  "locks_inv L \<Longrightarrow> table_holds L (tx_holdings A t txs + M) \<Longrightarrow>
   \<exists>L'. rfold (\<lambda>tx. unlock_accounts (write_account_locks A tx) (read_account_locks A tx) t) txs L = Inr L' \<and>
     locks_inv L' \<and> num_threads L' = num_threads L \<and> table_holds L' M"
proof (induction txs arbitrary: L)
  case (Cons tx txs)
  let ?h = "(write_account_locks A tx, read_account_locks A tx, t)"
  have "?h \<in># tx_holdings A t (tx # txs) + M" by (simp add: tx_holdings_def)
  from unlock_accounts_holds [OF Cons.prems this] obtain L1 where
    L1: "unlock_accounts (write_account_locks A tx) (read_account_locks A tx) t L = Inr L1" "locks_inv L1"
      "num_threads L1 = num_threads L" "table_holds L1 (tx_holdings A t (tx # txs) + M - {#?h#})" by blast
  then have "table_holds L1 (tx_holdings A t txs + M)" by (simp add: tx_holdings_def)
  from Cons.IH [OF L1(2) this] L1 show ?case by auto
qed simp

lemma tracker_complete_batch_Inr:
  assumes "tracker_complete_batch b T = Inr (t, T')" "batches T b = Some e"
  shows "t = be_thread_id e" "batches T' = (batches T)(b := None)"
    and "batch_id_generator T' = batch_id_generator T"
  using assms by (auto simp: tracker_complete_batch_def res_simps)

text \<open>A result the workers may return: the batch was sent and has not come back yet.\<close>

lemma complete_batch_safe:
  assumes inv: "sched_safe A sent got K S"
    and got: "got r = got (finished_consume_work_receiver S) @ [x]"
    and b: "sr_batch x \<in> set (all_sent sent S)"
      "sb_batch_id (sr_batch x) \<notin> completed_ids (got (finished_consume_work_receiver S))"
    and run: "complete_batch A (sb_batch_id (sr_batch x)) (sb_transactions (sr_batch x))
      (S\<lparr>finished_consume_work_receiver := r\<rparr>) = Inr S'"
  shows "sched_safe A sent got K S' \<and> consume_work_senders S' = consume_work_senders S \<and>
    finished_consume_work_receiver S' = r"
proof -
  let ?b = "sr_batch x" and ?n = "length (consume_work_senders S)"
  have h: "history_inv sent got S" and L: "locks_inv (account_locks_table S)"
    "table_holds (account_locks_table S) (flight A sent got S + K)"
    using inv by (auto simp: sched_safe_def locks_accounted_def)
  obtain t where t: "t < ?n" "?b \<in> set (sent (consume_work_senders S ! t))"
    using b(1) by (auto simp: all_sent_def) (metis in_set_conv_nth)
  then have out: "?b \<in> set (outstanding sent got S t)" using b(2) by (simp add: outstanding_def)
  then obtain e where e: "batches (in_flight S) (sb_batch_id ?b) = Some e" "be_thread_id e = t"
    using h t(1) unfolding history_inv_def by blast
  from run obtain t' T L' where complete: "tracker_complete_batch (sb_batch_id ?b) (in_flight S) = Inr (t', T)"
    and unlock': "rfold (\<lambda>tx. unlock_accounts (write_account_locks A tx) (read_account_locks A tx) t')
      (sb_transactions ?b) (account_locks_table S) = Inr L'"
    and S': "S' = S\<lparr>finished_consume_work_receiver := r, in_flight := T, account_locks_table := L'\<rparr>"
    by (auto simp: complete_batch_def res_simps)
  note T = tracker_complete_batch_Inr [OF complete e(1)]
  have unlock: "rfold (\<lambda>tx. unlock_accounts (write_account_locks A tx) (read_account_locks A tx) t)
      (sb_transactions ?b) (account_locks_table S) = Inr L'" using unlock' T(1) e(2) by simp
  have recv: "consume_work_senders S' = consume_work_senders S"
    "got (finished_consume_work_receiver S') = got (finished_consume_work_receiver S) @ [x]"
    using got S' by simp_all
  note fc = flight_complete [OF h t(1) out recv, of A]
  have "table_holds (account_locks_table S) (tx_holdings A t (sb_transactions ?b) + (flight A sent got S' + K))"
    using L(2) unfolding fc by (simp only: add.assoc)
  from rfold_unlock [OF L(1) this] unlock
  have L': "locks_inv L'" "num_threads L' = num_threads (account_locks_table S)"
    "table_holds L' (flight A sent got S' + K)" by auto
  have fl: "in_flight S' = T" by (simp add: S')
  have "history_inv sent got S'"
    unfolding history_inv_def outstanding_receive [OF recv] all_sent_def recv fl
    using h b(1) T by (auto simp: history_inv_def all_sent_def)
  then show ?thesis using L' inv S' by (auto simp: sched_safe_def locks_accounted_def)
qed

text \<open>
  What the workers may return: every result is for a batch that was sent, and none comes twice.
\<close>

definition workers_honest ::
  "('s \<Rightarrow> 'tx scheduling_batch list) \<Rightarrow> ('r \<Rightarrow> 'tx scheduling_batch_result list)
     \<Rightarrow> ('s, 'r) prio_scheduler \<Rightarrow> bool" where
  "workers_honest sent got S \<longleftrightarrow>
     (\<forall>x \<in> set (got (finished_consume_work_receiver S)). sr_batch x \<in> set (all_sent sent S)) \<and>
     distinct (map (\<lambda>x. sb_batch_id (sr_batch x)) (got (finished_consume_work_receiver S)))"

lemma sched_safe_receiver:
  "sched_safe A sent got K S \<Longrightarrow> got r = got (finished_consume_work_receiver S) \<Longrightarrow>
     sched_safe A sent got K (S\<lparr>finished_consume_work_receiver := r\<rparr>)"
  by (simp add: sched_safe_def locks_accounted_def flight_def thread_flight_def outstanding_def
      history_inv_def all_sent_def)

lemma try_receive_completed_Inr:
  assumes "try_receive_completed rt C S = Inr (r, C', S')"
  obtains (result) x rr where "ch_try_recv (rt_channels rt) (finished_consume_work_receiver S) = (Inr x, rr)"
      "complete_batch (rt_messages rt) (sb_batch_id (sr_batch x)) (sb_transactions (sr_batch x))
         (S\<lparr>finished_consume_work_receiver := rr\<rparr>) = Inr S'"
      "retry_or_remove (rt_heap rt) 0 (zip (sb_ids (sr_batch x)) (zip (sb_transactions (sr_batch x))
         (sb_max_ages (sr_batch x)))) (sr_retryable_indexes x) C = Inr C'"
      "r = Inr (length (sb_ids (sr_batch x)), length (sr_retryable_indexes x))"
  | (none) e rr where "ch_try_recv (rt_channels rt) (finished_consume_work_receiver S) = (Inl e, rr)"
      "S' = S\<lparr>finished_consume_work_receiver := rr\<rparr>" "C' = C"
      "r = (case e of RecvEmpty \<Rightarrow> Inr (0, 0) | RecvDisconnected \<Rightarrow> Inl (DisconnectedRecvChannel ''finished consume work''))"
proof -
  obtain y rr where y: "ch_try_recv (rt_channels rt) (finished_consume_work_receiver S) = (y, rr)" by fastforce
  show ?thesis
  proof (cases y)
    case (Inl e)
    then have "S' = S\<lparr>finished_consume_work_receiver := rr\<rparr>" "C' = C"
      "r = (case e of RecvEmpty \<Rightarrow> Inr (0, 0) | RecvDisconnected \<Rightarrow> Inl (DisconnectedRecvChannel ''finished consume work''))"
      using assms y by (cases e; simp add: try_receive_completed_def)+
    with y Inl none show ?thesis by blast
  next
    case (Inr x)
    with assms y have "complete_batch (rt_messages rt) (sb_batch_id (sr_batch x)) (sb_transactions (sr_batch x))
         (S\<lparr>finished_consume_work_receiver := rr\<rparr>) = Inr S'"
      "retry_or_remove (rt_heap rt) 0 (zip (sb_ids (sr_batch x)) (zip (sb_transactions (sr_batch x))
         (sb_max_ages (sr_batch x)))) (sr_retryable_indexes x) C = Inr C'"
      "r = Inr (length (sb_ids (sr_batch x)), length (sr_retryable_indexes x))"
      by (auto simp: try_receive_completed_def Let_def res_simps)
    with y Inr result show ?thesis by blast
  qed
qed

lemma try_receive_completed_frame:
  assumes hist: "channel_history (rt_channels rt) sent got"
    and "try_receive_completed rt C S = Inr (r, C', S')"
  shows "consume_work_senders S' = consume_work_senders S \<and>
    (\<exists>xs. got (finished_consume_work_receiver S') = got (finished_consume_work_receiver S) @ xs)"
  using assms(2)
proof (rule try_receive_completed_Inr)
  fix x rr
  assume "ch_try_recv (rt_channels rt) (finished_consume_work_receiver S) = (Inr x, rr)"
    "complete_batch (rt_messages rt) (sb_batch_id (sr_batch x)) (sb_transactions (sr_batch x))
         (S\<lparr>finished_consume_work_receiver := rr\<rparr>) = Inr S'"
  then show ?thesis using channel_historyD(2) [OF hist] by (auto simp: complete_batch_def res_simps)
next
  fix e rr
  assume "ch_try_recv (rt_channels rt) (finished_consume_work_receiver S) = (Inl e, rr)"
    "S' = S\<lparr>finished_consume_work_receiver := rr\<rparr>"
  then show ?thesis using channel_historyD(3) [OF hist] by auto
qed

lemma workers_honest_prefix:
  assumes "workers_honest sent got S'" "consume_work_senders S' = consume_work_senders S"
    "got (finished_consume_work_receiver S') = got (finished_consume_work_receiver S) @ xs"
  shows "workers_honest sent got S"
  using assms by (auto simp: workers_honest_def all_sent_def)

lemma try_receive_completed_safe:
  assumes hist: "channel_history (rt_channels rt) sent got" and inv: "sched_safe (rt_messages rt) sent got K S"
    and honest: "workers_honest sent got S'" and run: "try_receive_completed rt C S = Inr (r, C', S')"
  shows "sched_safe (rt_messages rt) sent got K S'"
  using run
proof (rule try_receive_completed_Inr)
  fix x rr
  assume recv: "ch_try_recv (rt_channels rt) (finished_consume_work_receiver S) = (Inr x, rr)"
    and c: "complete_batch (rt_messages rt) (sb_batch_id (sr_batch x)) (sb_transactions (sr_batch x))
         (S\<lparr>finished_consume_work_receiver := rr\<rparr>) = Inr S'"
  have got: "got rr = got (finished_consume_work_receiver S) @ [x]" using channel_historyD(2) [OF hist recv] .
  have S': "finished_consume_work_receiver S' = rr" "consume_work_senders S' = consume_work_senders S"
    using c by (auto simp: complete_batch_def res_simps)
  have "sr_batch x \<in> set (all_sent sent S)"
      "sb_batch_id (sr_batch x) \<notin> completed_ids (got (finished_consume_work_receiver S))"
    using honest S' got by (auto simp: workers_honest_def all_sent_def completed_ids_def)
  from complete_batch_safe [OF inv got this c] show ?thesis by blast
next
  fix e rr
  assume "ch_try_recv (rt_channels rt) (finished_consume_work_receiver S) = (Inl e, rr)"
    "S' = S\<lparr>finished_consume_work_receiver := rr\<rparr>"
  then show ?thesis using channel_historyD(3) [OF hist] sched_safe_receiver [OF inv] by auto
qed

lemma receive_completed_frame:
  assumes hist: "channel_history (rt_channels rt) sent got"
    and "receive_completed rt fuel n k C S = Inr (r, C', S')"
  shows "consume_work_senders S' = consume_work_senders S \<and>
    (\<exists>xs. got (finished_consume_work_receiver S') = got (finished_consume_work_receiver S) @ xs)"
  using assms(2)
proof (induction fuel arbitrary: n k C S)
  case (Suc fuel)
  then obtain r1 C1 S1 where one: "try_receive_completed rt C S = Inr (r1, C1, S1)"
    and rest: "(case r1 of Inl e \<Rightarrow> Inr (Inl e, C1, S1)
       | Inr (n', k') \<Rightarrow> if n' = 0 then Inr (Inr (n, k), C1, S1)
           else receive_completed rt fuel (sat_add 64 n n') (sat_add 64 k k') C1 S1) = Inr (r, C', S')"
    by (auto simp: res_simps)
  have "S' = S1 \<or> (\<exists>n k. receive_completed rt fuel n k C1 S1 = Inr (r, C', S'))"
    using rest by (auto split: sum.splits if_splits)
  then show ?case
    using try_receive_completed_frame [OF hist one] Suc.IH by (auto, metis append_assoc)
qed simp

lemma receive_completed_safe:
  assumes hist: "channel_history (rt_channels rt) sent got"
    and "sched_safe (rt_messages rt) sent got K S" "workers_honest sent got S'"
    and "receive_completed rt fuel n k C S = Inr (r, C', S')"
  shows "sched_safe (rt_messages rt) sent got K S'"
  using assms(2,4)
proof (induction fuel arbitrary: n k C S)
  case (Suc fuel)
  then obtain r1 C1 S1 where one: "try_receive_completed rt C S = Inr (r1, C1, S1)"
    and rest: "(case r1 of Inl e \<Rightarrow> Inr (Inl e, C1, S1)
       | Inr (n', k') \<Rightarrow> if n' = 0 then Inr (Inr (n, k), C1, S1)
           else receive_completed rt fuel (sat_add 64 n n') (sat_add 64 k k') C1 S1) = Inr (r, C', S')"
    by (auto simp: res_simps)
  have next1: "S' = S1 \<or> (\<exists>n k. receive_completed rt fuel n k C1 S1 = Inr (r, C', S'))"
    using rest by (auto split: sum.splits if_splits)
  have "workers_honest sent got S1"
    using next1 assms(3) receive_completed_frame [OF hist] workers_honest_prefix by (metis (no_types, lifting))
  from try_receive_completed_safe [OF hist Suc.prems(1) this one] next1 Suc.IH show ?case by auto
qed simp

section \<open>The scheduler and its workers\<close>

text \<open>
  The states the scheduler can be in: from a new one, calls of \<^verbatim>\<open>schedule_batch\<close> and
  \<^verbatim>\<open>receive_complete\<close> in any order and with any fuel, and between them any change of the channels
  that keeps their history (a worker takes a batch, posts a result, or goes away).  The flag tells
  whether every scheduling pass so far has ended without an error.  A pass starts only while the
  generator has ids for a whole pass left.
\<close>

inductive scheduler_run ::
  "('tx, 'h, 'g, 's, 'r) runtime \<Rightarrow> ('s \<Rightarrow> 'tx scheduling_batch list)
     \<Rightarrow> ('r \<Rightarrow> 'tx scheduling_batch_result list) \<Rightarrow> bool \<Rightarrow> ('h, 'tx, 's, 'r) wrapper \<Rightarrow> bool"
  for rt sent got where
  run_new: "new_wrapper rt senders receiver = Inr w \<Longrightarrow> \<forall>s \<in> set senders. sent s = [] \<Longrightarrow>
     got receiver = [] \<Longrightarrow> scheduler_run rt sent got True w"
| run_schedule: "scheduler_run rt sent got clean w \<Longrightarrow>
     MAX_TRANSACTIONS_PER_SCHEDULING_PASS < unat (next_batch_id (inner w)) \<Longrightarrow>
     schedule_batch rt fuel batch w = Inr (r, w') \<Longrightarrow>
     scheduler_run rt sent got (clean \<and> (\<exists>u. r = Inr u)) w'"
| run_receive: "scheduler_run rt sent got clean w \<Longrightarrow> receive_complete rt fuel w = Inr (r, w') \<Longrightarrow>
     workers_honest sent got (inner w') \<Longrightarrow> scheduler_run rt sent got clean w'"
| run_channels: "scheduler_run rt sent got clean w \<Longrightarrow>
     map sent senders = map sent (consume_work_senders (inner w)) \<Longrightarrow>
     got receiver = got (finished_consume_work_receiver (inner w)) \<Longrightarrow>
     scheduler_run rt sent got clean (w\<lparr>inner := (inner w)\<lparr>consume_work_senders := senders,
       finished_consume_work_receiver := receiver\<rparr>\<rparr>)"

lemma new_wrapper_safe:
  assumes "new_wrapper rt senders receiver = Inr w" "\<forall>s \<in> set senders. sent s = []" "got receiver = []"
  shows "sched_safe A sent got {#} (inner w)"
proof -
  from assms(1) obtain L where L: "new_lock_table (length senders) = Inr L"
    and w: "inner w = \<lparr>in_flight = new_in_flight_tracker (length senders), account_locks_table = L,
      consume_work_senders = senders, finished_consume_work_receiver = receiver, look_ahead_window_size = 2048\<rparr>"
    by (auto simp: new_wrapper_def new_prio_scheduler_def res_simps)
  have none: "concat (map sent senders) = []" using assms(2) by simp
  have "outstanding sent got (inner w) t = []" if "t < length senders" for t
    using assms(2) that by (simp add: outstanding_def w)
  then have "flight A sent got (inner w) = {#}" "history_inv sent got (inner w)"
    using none assms(3) by (auto simp: flight_def thread_flight_def history_inv_def all_sent_def w
        simp del: concat_eq_Nil_conv)
  then show ?thesis
    using new_lock_table_holds [OF L] by (simp add: sched_safe_def locks_accounted_def w batches_ok_new)
qed

lemma map_sent_length: "map sent senders = map sent senders' \<Longrightarrow> length senders = length senders'"
  by (metis length_map)

lemma channels_safe:
  assumes inv: "sched_safe A sent got K S"
    and sent: "map sent senders = map sent (consume_work_senders S)"
    and got: "got receiver = got (finished_consume_work_receiver S)"
  shows "sched_safe A sent got K (S\<lparr>consume_work_senders := senders, finished_consume_work_receiver := receiver\<rparr>)"
proof -
  let ?S = "S\<lparr>consume_work_senders := senders, finished_consume_work_receiver := receiver\<rparr>"
  note len = map_sent_length [OF sent]
  have nth: "sent (senders ! t) = sent (consume_work_senders S ! t)" if "t < length senders" for t
    using sent that len by (metis nth_map)
  have out: "outstanding sent got ?S t = outstanding sent got S t" if "t < length senders" for t
    using nth [OF that] got by (simp add: outstanding_def)
  have "flight A sent got ?S = flight A sent got S"
    using out len by (simp add: flight_def thread_flight_def)
  moreover have "all_sent sent ?S = all_sent sent S" using sent by (simp add: all_sent_def)
  then have "history_inv sent got ?S" using inv out len got
    by (simp add: history_inv_def sched_safe_def locks_accounted_def)
  ultimately show ?thesis using inv len by (simp add: sched_safe_def locks_accounted_def)
qed

lemma scheduler_run_safe:
  assumes hist: "channel_history (rt_channels rt) sent got" and "scheduler_run rt sent got clean w"
  shows "\<exists>K. sched_safe (rt_messages rt) sent got K (inner w) \<and> (clean \<longrightarrow> K = {#})"
  using assms(2)
proof (induction rule: scheduler_run.induct)
  case (run_new senders receiver w)
  then show ?case using new_wrapper_safe [of rt senders receiver w sent got "rt_messages rt"] by auto
next
  case (run_schedule clean w fuel batch r w')
  then obtain K where K: "sched_safe (rt_messages rt) sent got K (inner w)" "clean \<longrightarrow> K = {#}" by blast
  from run_schedule(3) obtain C r0 C' S where "schedule rt fuel (\<lambda>_ flags. replicate (length flags) True) (\<lambda>_. True)
      C (inner w) = Inr (r0, C', S)" and r: "r = map_sum id (\<lambda>_. ()) r0" "inner w' = S"
    by (auto simp: schedule_batch_def res_simps)
  from schedule_safe [OF hist K(1) run_schedule(2) this(1)] K(2) show ?case
    by (cases r0) (auto simp: r)
next
  case (run_receive clean w fuel r w')
  then obtain K where K: "sched_safe (rt_messages rt) sent got K (inner w)" "clean \<longrightarrow> K = {#}" by blast
  from run_receive(2) obtain r0 C where "receive_completed rt fuel 0 0 (wrapped_container w) (inner w) = Inr (r0, C, inner w')"
    by (auto simp: receive_complete_def res_simps)
  from receive_completed_safe [OF hist K(1) run_receive(3) this] K(2) show ?case by blast
next
  case (run_channels clean w senders receiver)
  then show ?case using channels_safe by fastforce
qed

lemma outstanding_holding:
  assumes "t < length (consume_work_senders S)" "b \<in> set (outstanding sent got S t)" "x \<in> set (sb_transactions b)"
  shows "(write_account_locks A x, read_account_locks A x, t) \<in># flight A sent got S"
proof -
  have "(write_account_locks A x, read_account_locks A x, t) \<in># thread_flight A sent got S t"
    using assms(2,3) by (auto simp: thread_flight_def tx_holdings_def)
  then show ?thesis
    using assms(1) by (auto simp: flight_def sum.remove [of "{..<length (consume_work_senders S)}" t])
qed

section \<open>Properties\<close>

text \<open>
  C1.  Mutual exclusion.  However the scheduler, its workers and the channels interleave, and
  whatever the heap and the priority graph answer, two transactions that are in flight on
  different threads never conflict: neither writes an account the other reads or writes.
\<close>

theorem in_flight_exclusive:
  assumes "channel_history (rt_channels rt) sent got" "scheduler_run rt sent got clean w"
    and "t < length (consume_work_senders (inner w))" "u < length (consume_work_senders (inner w))" "t \<noteq> u"
    and "b \<in> set (outstanding sent got (inner w) t)" "x \<in> set (sb_transactions b)"
    and "b' \<in> set (outstanding sent got (inner w) u)" "y \<in> set (sb_transactions b')"
  shows "\<not> tx_conflict (rt_messages rt) x y"
proof -
  obtain K where K: "sched_safe (rt_messages rt) sent got K (inner w)" using scheduler_run_safe assms(1,2) by blast
  let ?A = "rt_messages rt"
  let ?x = "(write_account_locks ?A x, read_account_locks ?A x, t)"
  let ?y = "(write_account_locks ?A y, read_account_locks ?A y, u)"
  have "?x \<in># flight ?A sent got (inner w) + K" "?y \<in># flight ?A sent got (inner w) + K"
    using outstanding_holding [OF assms(3,6,7)] outstanding_holding [OF assms(4,8,9)] by auto
  moreover have "locks_inv (account_locks_table (inner w))"
    "table_holds (account_locks_table (inner w)) (flight ?A sent got (inner w) + K)"
    using K by (auto simp: sched_safe_def locks_accounted_def)
  ultimately have "\<not> conflict (holding_accounts ?x) (holding_accounts ?y)"
    using lt.no_conflict [of _ _ ?x ?y] assms(5) by (auto simp: holding_thread_def)
  then show ?thesis by (simp add: tx_conflict_def tx_accounts_def holding_accounts_def)
qed

text \<open>
  C2.  No lock is leaked: in a run in which no pass ended with an error, once every batch that was
  sent has come back the lock table is empty.
\<close>

theorem quiescent_lock_table_empty:
  assumes "channel_history (rt_channels rt) sent got" "scheduler_run rt sent got True w"
    and "\<forall>t < length (consume_work_senders (inner w)). outstanding sent got (inner w) t = []"
  shows "locks (account_locks_table (inner w)) = Map.empty"
proof -
  have safe: "sched_safe (rt_messages rt) sent got {#} (inner w)" using scheduler_run_safe [OF assms(1,2)] by auto
  let ?L = "account_locks_table (inner w)"
  have L: "locks_inv ?L" "table_holds ?L {#}"
    using safe assms(3) by (auto simp: sched_safe_def locks_accounted_def flight_def thread_flight_def)
  have "?L = \<lparr>num_threads = num_threads ?L, locks = Map.empty\<rparr>"
    by (rule lock_table_canonical)
      (use L in \<open>auto simp: locks_inv_def accounts_for_def wcount_def rcount_def fun_eq_iff\<close>)
  then show ?thesis by (metis lock_table.select_convs(2))
qed

text \<open>
  C3.  Every batch a worker has ever been sent is well-formed and not empty (as many ids,
  transactions and ages, at least one), and no two batches ever sent share an id.
\<close>

theorem sent_batches_valid:
  assumes "channel_history (rt_channels rt) sent got" "scheduler_run rt sent got clean w"
  shows "distinct (map sb_batch_id (all_sent sent (inner w))) \<and>
    (\<forall>b \<in> set (all_sent sent (inner w)). valid b \<and> sb_ids b \<noteq> [])"
  using scheduler_run_safe [OF assms] by (auto simp: sched_safe_def locks_accounted_def history_inv_def)

text \<open>
  While a batch is with its worker, the tracker has it under the thread it was sent to.
\<close>

lemma outstanding_batches_tracked:
  assumes "channel_history (rt_channels rt) sent got" "scheduler_run rt sent got clean w"
    and "t < length (consume_work_senders (inner w))" "b \<in> set (outstanding sent got (inner w) t)"
  shows "\<exists>e. batches (in_flight (inner w)) (sb_batch_id b) = Some e \<and> be_thread_id e = t"
  using scheduler_run_safe [OF assms(1,2)] assms(3,4)
  unfolding sched_safe_def locks_accounted_def history_inv_def by blast

section \<open>Witnesses\<close>

lemma list_channels_history: "channel_history (rt_channels example_runtime) id fst"
  by (auto simp: channel_history_def example_runtime_def list_channels_def split: list.splits)

lemma example_run:
  obtains w w' where "scheduler_run example_runtime id fst True w" "scheduler_run example_runtime id fst True w'"
    "consume_work_senders (inner w) = [[example_sent0], [example_sent1]]"
    "finished_consume_work_receiver (inner w) = ([], [])"
    "consume_work_senders (inner w') = [[example_sent0], [example_sent1]]"
    "finished_consume_work_receiver (inner w') = (example_results, [])"
proof -
  have start: "scheduler_run example_runtime id fst True example_new"
    by (rule run_new [OF example_new_run]) simp_all
  have ids: "MAX_TRANSACTIONS_PER_SCHEDULING_PASS < unat (next_batch_id (inner example_new))"
    by (simp add: MAX_TRANSACTIONS_PER_SCHEDULING_PASS_def example_new_def new_in_flight_tracker_def
        id_generator_default_def unsigned_minus_1_eq_mask mask_eq_exp_minus_1)
  obtain w w' where w: "schedule_batch example_runtime 10 example_batch example_new = Inr (Inr (), w)"
    "consume_work_senders (inner w) = [[example_sent0], [example_sent1]]"
    "finished_consume_work_receiver (inner w) = ([], [])"
    and w': "receive_complete example_runtime 5 (w\<lparr>inner := (inner w)\<lparr>consume_work_senders := [[example_sent0], [example_sent1]],
       finished_consume_work_receiver := ([], example_results)\<rparr>\<rparr>) = Inr (Inr (), w')"
    "consume_work_senders (inner w') = [[example_sent0], [example_sent1]]"
    "finished_consume_work_receiver (inner w') = (example_results, [])" by (rule example_scheduled)
  have run: "scheduler_run example_runtime id fst True w"
    using run_schedule [OF start ids w(1)] by simp
  have "scheduler_run example_runtime id fst True
      (w\<lparr>inner := (inner w)\<lparr>consume_work_senders := [[example_sent0], [example_sent1]],
         finished_consume_work_receiver := ([], example_results)\<rparr>\<rparr>)"
    by (rule run_channels [OF run]) (simp_all add: w)
  moreover have "workers_honest id fst (inner w')"
    by (simp add: workers_honest_def all_sent_def w' example_results_def example_sent0_def example_sent1_def)
  ultimately have "scheduler_run example_runtime id fst True w'" by (rule run_receive [OF _ w'(1)])
  with run w w' that show ?thesis by blast
qed

theorem in_flight_exclusive_witness:
  "\<exists>w. scheduler_run example_runtime id fst True w \<and>
     example_sent0 \<in> set (outstanding id fst (inner w) 0) \<and> example_sent1 \<in> set (outstanding id fst (inner w) 1) \<and>
     \<not> tx_conflict example_messages ([20, 30], 1) ([10, 30], 1)"
proof -
  obtain w w' where w: "scheduler_run example_runtime id fst True w"
    "consume_work_senders (inner w) = [[example_sent0], [example_sent1]]"
    "finished_consume_work_receiver (inner w) = ([], [])" by (rule example_run)
  have out: "example_sent0 \<in> set (outstanding id fst (inner w) 0)"
    "example_sent1 \<in> set (outstanding id fst (inner w) 1)"
    by (simp_all add: outstanding_def w completed_ids_def)
  have "\<not> tx_conflict (rt_messages example_runtime) ([20, 30], 1) ([10, 30], 1)"
    by (rule in_flight_exclusive [OF list_channels_history w(1) _ _ _ out(1) _ out(2)])
      (simp_all add: w example_sent0_def example_sent1_def)
  with w(1) out show ?thesis by (auto simp: example_runtime_def)
qed

theorem quiescent_lock_table_empty_witness:
  "\<exists>w. scheduler_run example_runtime id fst True w \<and> all_sent id (inner w) = [example_sent0, example_sent1] \<and>
     locks (account_locks_table (inner w)) = Map.empty"
proof -
  obtain w0 w where w: "scheduler_run example_runtime id fst True w"
    "consume_work_senders (inner w) = [[example_sent0], [example_sent1]]"
    "finished_consume_work_receiver (inner w) = (example_results, [])" by (rule example_run)
  have "\<forall>t < length (consume_work_senders (inner w)). outstanding id fst (inner w) t = []"
    by (simp add: outstanding_def w completed_ids_def example_results_def less_Suc_eq)
  from quiescent_lock_table_empty [OF list_channels_history w(1) this] w show ?thesis
    by (auto simp: all_sent_def)
qed

theorem sent_batches_valid_witness: "valid example_sent0 \<and> valid example_sent1"
proof -
  obtain w w' where w: "scheduler_run example_runtime id fst True w"
    "consume_work_senders (inner w) = [[example_sent0], [example_sent1]]" by (rule example_run)
  from sent_batches_valid [OF list_channels_history w(1)] show ?thesis by (auto simp: all_sent_def w)
qed

end
