(* ===== verification/Thread_Selection.thy ===== *)
theory Thread_Selection
  imports Prio_Scheduler
begin

text \<open>
  What \<^verbatim>\<open>select_thread\<close> of \<^verbatim>\<open>impls/prio_graph_scheduler/scheduler.rs\<close> chooses: the thread with the
  fewest compute units, the fewest transactions among those, and the smallest number among those;
  and when it answers.
\<close>

section \<open>The first of the least\<close>

definition load_le :: "thread_load \<Rightarrow> thread_load \<Rightarrow> bool" where
  "load_le a b \<longleftrightarrow> load_less a b \<or> snd a = snd b \<and> fst a \<le> fst b"

lemma load_le_refl [simp]: "load_le a a"
  by (simp add: load_le_def)

lemma load_le_trans: "load_le a b \<Longrightarrow> load_le b c \<Longrightarrow> load_le a c"
  by (auto simp: load_le_def load_less_def)

lemma fold_min_least:
  assumes "\<forall>y \<in> set xs. fst x < fst y" "sorted_wrt (<) (map fst xs)"
  shows "fold (\<lambda>y m. if load_less y m then y else m) xs x \<in> set (x # xs) \<and>
    (\<forall>y \<in> set (x # xs). load_le (fold (\<lambda>y m. if load_less y m then y else m) xs x) y)"
  using assms
proof (induction xs arbitrary: x)
  case Nil
  then show ?case by simp
next
  case (Cons z xs)
  let ?m = "if load_less z x then z else x"
  have m: "load_le ?m x" "load_le ?m z" using Cons.prems(1)
    by (auto simp: load_le_def load_less_def prod_eq_iff)
  have "\<forall>y \<in> set xs. fst ?m < fst y" "sorted_wrt (<) (map fst xs)" using Cons.prems by auto
  from Cons.IH [OF this] m show ?case by (auto intro: load_le_trans)
qed

lemma min_by_load_least:
  assumes "sorted_wrt (<) (map fst xs)" "xs \<noteq> []"
  shows "\<exists>m \<in> set xs. min_by_load xs = Some m \<and> (\<forall>y \<in> set xs. load_le m y)"
proof (cases xs)
  case (Cons x ys)
  then show ?thesis using fold_min_least [of ys x] assms(1) by auto
qed (use assms in simp)

section \<open>The choice\<close>

definition loads :: "nat list \<Rightarrow> nat list \<Rightarrow> 'tx list list \<Rightarrow> nat list \<Rightarrow> thread_id \<Rightarrow> thread_load" where
  "loads bc fc bt ft t = (t, bc ! t + fc ! t, length (bt ! t) + ft ! t)"

definition load_room :: "nat list \<Rightarrow> nat list \<Rightarrow> 'tx list list \<Rightarrow> nat list \<Rightarrow> thread_id \<Rightarrow> bool" where
  "load_room bc fc bt ft t \<longleftrightarrow>
     t < length bc \<and> t < length fc \<and> t < length bt \<and> t < length ft \<and>
     bc ! t + fc ! t \<le> umax 64 \<and> length (bt ! t) + ft ! t \<le> umax 64"

lemma thread_load_of_Inr_iff:
  "thread_load_of bc fc bt ft t = Inr l \<longleftrightarrow> load_room bc fc bt ft t \<and> l = loads bc fc bt ft t"
  by (auto simp: thread_load_of_def res_simps load_room_def loads_def)

lemma select_thread_cases:
  shows "(\<exists>t. select_thread ts bc fc bt ft = Inr t) \<longleftrightarrow>
      threads ts \<noteq> {} \<and> (\<forall>t \<in> threads ts. load_room bc fc bt ft t)"
    and "select_thread ts bc fc bt ft = Inr t \<Longrightarrow>
      t \<in> threads ts \<and> (\<forall>u \<in> threads ts. load_le (loads bc fc bt ft t) (loads bc fc bt ft u))"
proof -
  define ids where "ids = filter (\<lambda>t. t \<in> threads ts) [0..<64]"
  have ids: "set ids = threads ts" "sorted_wrt (<) ids"
    by (auto simp: ids_def threads_lt sorted_wrt_filter)
  have sel: "select_thread ts bc fc bt ft = rbind (rmap (thread_load_of bc fc bt ft) ids) (\<lambda>ls.
      runwrap ''called Option::unwrap() on a None value'' (map_option fst (min_by_load ls)))"
    by (simp add: select_thread_def contained_threads_iter_ok ids_def)
  have room: "rmap (thread_load_of bc fc bt ft) ids = Inr ls \<longleftrightarrow>
      (\<forall>t \<in> threads ts. load_room bc fc bt ft t) \<and> ls = map (loads bc fc bt ft) ids" for ls
    by (auto simp: rmap_Inr_iff thread_load_of_Inr_iff list_all2_conv_all_nth ids(1) [symmetric] all_set_conv_all_nth
        intro!: nth_equalityI)
  have sorted: "sorted_wrt (<) (map fst (map (loads bc fc bt ft) ids))"
    using ids(2) by (simp add: loads_def comp_def)
  have min: "\<exists>t \<in> threads ts. min_by_load (map (loads bc fc bt ft) ids) = Some (loads bc fc bt ft t) \<and>
      (\<forall>u \<in> threads ts. load_le (loads bc fc bt ft t) (loads bc fc bt ft u))" if "threads ts \<noteq> {}"
  proof -
    have "map (loads bc fc bt ft) ids \<noteq> []" using that ids(1) by auto
    from min_by_load_least [OF sorted this] ids(1) show ?thesis by auto
  qed
  have none: "min_by_load (map (loads bc fc bt ft) ids) = None" if "threads ts = {}"
    using that ids(1) by simp
  show "(\<exists>t. select_thread ts bc fc bt ft = Inr t) \<longleftrightarrow>
      threads ts \<noteq> {} \<and> (\<forall>t \<in> threads ts. load_room bc fc bt ft t)"
    using min none by (fastforce simp: sel rbind_Inr_iff room runwrap_def)
  assume "select_thread ts bc fc bt ft = Inr t"
  then have "map_option fst (min_by_load (map (loads bc fc bt ft) ids)) = Some t"
    by (auto simp: sel rbind_Inr_iff room runwrap_Inr_iff)
  moreover from this have "threads ts \<noteq> {}" using none by auto
  ultimately show "t \<in> threads ts \<and> (\<forall>u \<in> threads ts. load_le (loads bc fc bt ft t) (loads bc fc bt ft u))"
    using min by (auto simp: loads_def)
qed

section \<open>Properties\<close>


section \<open>Witnesses\<close>

lemma example_selection:
  "select_thread 7 [5, 2, 2] [1, 3, 3] [[()], [], []] [0, 4, 4] = Inr 1"
  by (simp add: select_thread_def contained_threads_iter_def MAX_THREADS_def ts_contains_def as_flag_def
      upt_rec thread_load_of_def rindex_def checked_add_def umax_def load_less_def runwrap_def)


end
