(* ===== verification/Scheduler_Progress.thy ===== *)
theory Scheduler_Progress
  imports Scheduler_Safety Thread_Selection
begin

text \<open>
  A scheduling pass does not panic, ends, and loses no transaction.

  \<open>graph_laws\<close> states what the pass relies on of the priority graph: it hands out the ids it was
  given, each once, and as long as nothing it handed out is still blocking, it has one to hand
  out.  \<open>pass_ok\<close> is the invariant of a pass: the ids in the queue, in the graph and set aside are
  distinct and unprocessed; and the counters have room for everything that is still unprocessed.
\<close>

section \<open>The graph\<close>

definition graph_laws ::
  "'g graph_api \<Rightarrow> ('g \<Rightarrow> transaction_priority_id set) \<Rightarrow> ('g \<Rightarrow> transaction_priority_id set) \<Rightarrow> bool" where
  "graph_laws G waiting popped \<longleftrightarrow>
     waiting (pg_new G) = {} \<and> popped (pg_new G) = {} \<and>
     (\<forall>g. finite (waiting g)) \<and>
     (\<forall>x acc g. x \<notin> waiting g \<longrightarrow> x \<notin> popped g \<longrightarrow>
        (\<exists>g'. pg_insert G x acc g = Inr g' \<and> waiting g' = insert x (waiting g) \<and> popped g' = popped g)) \<and>
     (\<forall>g. pg_is_empty G g \<longleftrightarrow> pg_pop G g = None) \<and>
     (\<forall>g x g'. pg_pop G g = Some (x, g') \<longrightarrow>
        x \<in> waiting g \<and> waiting g' = waiting g - {x} \<and> popped g' = insert x (popped g)) \<and>
     (\<forall>x g. x \<in> popped g \<longrightarrow>
        (\<exists>g'. pg_unblock G x g = Inr g' \<and> waiting g' = waiting g \<and> popped g' = popped g - {x})) \<and>
     (\<forall>g x g'. pg_pop_and_unblock G g = Some (x, g') \<longrightarrow>
        x \<in> waiting g \<and> waiting g' = waiting g - {x} \<and> popped g' = popped g) \<and>
     (\<forall>g. pg_pop_and_unblock G g = None \<longrightarrow> popped g = {} \<longrightarrow> waiting g = {})"

lemma graph_lawsD:
  assumes "graph_laws G waiting popped"
  shows "waiting (pg_new G) = {}" "popped (pg_new G) = {}" "finite (waiting g)"
    and "x \<notin> waiting g \<Longrightarrow> x \<notin> popped g \<Longrightarrow>
      \<exists>g'. pg_insert G x acc g = Inr g' \<and> waiting g' = insert x (waiting g) \<and> popped g' = popped g"
    and "pg_is_empty G g \<longleftrightarrow> pg_pop G g = None"
    and "pg_pop G g = Some (x, g') \<Longrightarrow>
      x \<in> waiting g \<and> waiting g' = waiting g - {x} \<and> popped g' = insert x (popped g)"
    and "x \<in> popped g \<Longrightarrow>
      \<exists>g'. pg_unblock G x g = Inr g' \<and> waiting g' = waiting g \<and> popped g' = popped g - {x}"
    and "pg_pop_and_unblock G g = Some (x, g') \<Longrightarrow>
      x \<in> waiting g \<and> waiting g' = waiting g - {x} \<and> popped g' = popped g"
    and "pg_pop_and_unblock G g = None \<Longrightarrow> popped g = {} \<Longrightarrow> waiting g = {}"
  using assms unfolding graph_laws_def by (elim conjE, simp)+

section \<open>What is still unprocessed\<close>

definition usum ::
  "('tx ttl \<Rightarrow> nat \<Rightarrow> nat) \<Rightarrow> (transaction_id \<rightharpoonup> 'tx transaction_state) \<Rightarrow> nat" where
  "usum f S = (\<Sum>i \<in> dom S. case S i of Some (Unprocessed ttl p c) \<Rightarrow> f ttl c | _ \<Rightarrow> 0)"

definition unprocessed :: "(transaction_id \<rightharpoonup> 'tx transaction_state) \<Rightarrow> transaction_id \<Rightarrow> bool" where
  "unprocessed S i \<longleftrightarrow> (\<exists>ttl p c. S i = Some (Unprocessed ttl p c))"

lemma usum_remove:
  assumes "finite (dom S)" "S i = Some s"
  shows "usum f S = (case s of Unprocessed ttl p c \<Rightarrow> f ttl c | _ \<Rightarrow> 0) + usum f (S(i := None))"
proof -
  have "usum f S = (case S i of Some (Unprocessed ttl p c) \<Rightarrow> f ttl c | _ \<Rightarrow> 0) +
      (\<Sum>j \<in> dom S - {i}. case S j of Some (Unprocessed ttl p c) \<Rightarrow> f ttl c | _ \<Rightarrow> 0)"
    unfolding usum_def using assms by (intro sum.remove) auto
  also have "(\<Sum>j \<in> dom S - {i}. case S j of Some (Unprocessed ttl p c) \<Rightarrow> f ttl c | _ \<Rightarrow> 0) = usum f (S(i := None))"
    unfolding usum_def by (rule sum.cong) auto
  finally show ?thesis using assms(2) by (simp split: transaction_state.splits)
qed

lemma usum_pending:
  assumes "finite (dom S)" "S i = Some (Unprocessed ttl p c)"
  shows "usum f S = f ttl c + usum f (S(i \<mapsto> Pending ttl p c))"
  using usum_remove [OF assms, of f] usum_remove [of "S(i \<mapsto> Pending ttl p c)" i "Pending ttl p c" f] assms
  by simp

lemma usum_remove_le: "finite (dom S) \<Longrightarrow> usum f (S(i := None)) \<le> usum f S"
  by (cases "S i") (auto simp: fun_upd_idem usum_remove)

abbreviation cost_of :: "'tx ttl \<Rightarrow> nat \<Rightarrow> nat" where
  "cost_of ttl c \<equiv> c"

abbreviation one_of :: "'tx ttl \<Rightarrow> nat \<Rightarrow> nat" where
  "one_of ttl c \<equiv> 1"

abbreviation keys_of :: "'tx message_api \<Rightarrow> 'tx ttl \<Rightarrow> nat \<Rightarrow> nat" where
  "keys_of A ttl c \<equiv> length (account_keys A (ttl_transaction ttl))"

text \<open>The counters have room for the unprocessed transactions of the map.\<close>

definition room_for ::
  "'tx message_api \<Rightarrow> 'tx pass_batches \<Rightarrow> (transaction_id \<rightharpoonup> 'tx transaction_state)
     \<Rightarrow> ('s, 'r) prio_scheduler \<Rightarrow> bool" where
  "room_for A B St S \<longleftrightarrow>
     (let n = length (consume_work_senders S); T = in_flight S; L = account_locks_table S in
      length (num_in_flight_per_thread T) = n \<and> length (cus_in_flight_per_thread T) = n \<and>
      (\<forall>t < n. cus_in_flight_per_thread T ! t + b_total_cus B ! t + usum cost_of St \<le> umax 64 \<and>
               num_in_flight_per_thread T ! t + length (b_ids B ! t) + usum one_of St \<le> umax 64 \<and>
               (\<forall>a. wcount L a t + usum (keys_of A) St \<le> umax 32 \<and>
                    rcount L a t + usum (keys_of A) St \<le> umax 32)))"

section \<open>Popping a chunk\<close>

lemma pop_chunk_ok:
  assumes H: "heap_laws H elems" and "pop_chunk H n C = (ids, C')"
  shows "elems (priority_queue C) = mset ids + elems (priority_queue C') \<and>
    id_to_transaction_state C' = id_to_transaction_state C \<and>
    hp_capacity H (priority_queue C') = hp_capacity H (priority_queue C) \<and> length ids \<le> n"
  using assms(2)
proof (induction n arbitrary: C ids)
  case 0
  then show ?case by simp
next
  case (Suc n)
  show ?case
  proof (cases "container_pop H C")
    case None
    then show ?thesis using Suc.prems by auto
  next
    case (Some xc)
    then obtain x h where xc: "xc = (x, C\<lparr>priority_queue := h\<rparr>)" "hp_pop_max H (priority_queue C) = Some (x, h)"
      by (auto simp: container_pop_def)
    obtain xs C2 where rest: "pop_chunk H n (C\<lparr>priority_queue := h\<rparr>) = (xs, C2)" by fastforce
    then have ids: "ids = x # xs" "C' = C2" using Suc.prems Some xc by auto
    show ?thesis using Suc.IH [OF rest [folded ids(2)]] heap_lawsD(9) [OF H xc(2)] ids(1) by auto
  qed
qed

lemma ttl_of_id_ok:
  "id_to_transaction_state C (tp_id x) = Some (Unprocessed ttl p c) \<Longrightarrow> ttl_of_id x C = Inr ttl"
  by (simp add: ttl_of_id_def get_transaction_ttl_ok runwrap_def)

lemma rmap_returns: "(\<And>x. x \<in> set xs \<Longrightarrow> \<exists>y. f x = Inr y) \<Longrightarrow> \<exists>ys. rmap f xs = Inr ys"
proof (induction xs)
  case (Cons x xs)
  obtain y where "f x = Inr y" using Cons.prems by auto
  moreover obtain ys where "rmap f xs = Inr ys" using Cons by auto
  ultimately show ?case by simp
qed simp

section \<open>The invariant\<close>

text \<open>
  The ids in the queue, the ids still in the hands of the loop, those of the graph and those set
  aside.
\<close>

definition live_ids ::
  "('h \<Rightarrow> transaction_priority_id multiset) \<Rightarrow> ('g \<Rightarrow> transaction_priority_id set)
     \<Rightarrow> ('tx, 'h, 'g, 's, 'r) pass \<Rightarrow> transaction_priority_id multiset" where
  "live_ids elems waiting P =
     elems (priority_queue (pa_container P)) + mset_set (waiting (pa_graph P)) +
     mset (pa_unschedulable_ids P)"

text \<open>Every unprocessed transaction outside \<open>Z\<close> is among them.\<close>

definition accounted ::
  "transaction_id set \<Rightarrow> transaction_priority_id multiset \<Rightarrow> (transaction_id \<rightharpoonup> 'tx transaction_state) \<Rightarrow> bool" where
  "accounted Z E S \<longleftrightarrow> (\<forall>i. unprocessed S i \<longrightarrow> i \<in> Z \<or> i \<in> tp_id ` set_mset E)"

lemma accounted_settled:
  "accounted Z (add_mset x E) S \<Longrightarrow> \<forall>ttl p c. s \<noteq> Some (Unprocessed ttl p c) \<Longrightarrow> accounted Z E (S(tp_id x := s))"
  by (auto simp: accounted_def unprocessed_def)

definition pass_ok ::
  "('tx, 'h, 'g, 's, 'r) runtime \<Rightarrow> ('h \<Rightarrow> transaction_priority_id multiset)
     \<Rightarrow> ('g \<Rightarrow> transaction_priority_id set) \<Rightarrow> ('g \<Rightarrow> transaction_priority_id set)
     \<Rightarrow> transaction_id set \<Rightarrow> transaction_priority_id list \<Rightarrow> ('tx, 'h, 'g, 's, 'r) pass \<Rightarrow> bool" where
  "pass_ok rt elems waiting popped Z xs P \<longleftrightarrow>
     queued_ok (mset xs + live_ids elems waiting P) (id_to_transaction_state (pa_container P)) \<and>
     accounted Z (mset xs + live_ids elems waiting P) (id_to_transaction_state (pa_container P)) \<and>
     size (live_ids elems waiting P) + length xs \<le> hp_capacity (rt_heap rt) (priority_queue (pa_container P)) \<and>
     popped (pa_graph P) = set (pa_unblock_this_batch P) \<and> distinct (pa_unblock_this_batch P) \<and>
     (\<forall>x \<in> set (pa_unblock_this_batch P). x \<in> set (pa_unschedulable_ids P) \<or>
        \<not> unprocessed (id_to_transaction_state (pa_container P)) (tp_id x)) \<and>
     room_for (rt_messages rt) (pa_batches P) (id_to_transaction_state (pa_container P)) (pa_scheduler P)"

text \<open>How many ids the pass may still look at.\<close>

definition pass_measure ::
  "('h \<Rightarrow> transaction_priority_id multiset) \<Rightarrow> ('g \<Rightarrow> transaction_priority_id set)
     \<Rightarrow> ('tx, 'h, 'g, 's, 'r) pass \<Rightarrow> nat" where
  "pass_measure elems waiting P =
     size (elems (priority_queue (pa_container P))) + card (waiting (pa_graph P))"

lemma queued_ok_mono: "queued_ok E S \<Longrightarrow> E' \<subseteq># E \<Longrightarrow> queued_ok E' S"
  unfolding queued_ok_def
  by (meson image_mset_subseteq_mono le_trans mset_subset_eqD mset_subset_eq_count)

lemma queued_ok_disjoint:
  assumes "queued_ok (E + F) S" "x \<in># E"
  shows "x \<notin># F"
proof
  assume "x \<in># F"
  then have "1 \<le> count (image_mset tp_id E) (tp_id x)" "1 \<le> count (image_mset tp_id F) (tp_id x)"
    using assms(2) by (simp_all add: Suc_le_eq)
  moreover have "count (image_mset tp_id (E + F)) (tp_id x) \<le> 1" using assms(1) by (simp add: queued_ok_def)
  ultimately show False by (simp del: count_greater_eq_one_iff One_nat_def)
qed

lemma queued_ok_state:
  "queued_ok E S \<Longrightarrow> x \<in># E \<Longrightarrow> \<exists>ttl c. S (tp_id x) = Some (Unprocessed ttl (tp_priority x) c)"
  by (simp add: queued_ok_def)

lemma room_forD:
  assumes "room_for A B St S"
  shows "length (num_in_flight_per_thread (in_flight S)) = length (consume_work_senders S)"
    and "length (cus_in_flight_per_thread (in_flight S)) = length (consume_work_senders S)"
    and "t < length (consume_work_senders S) \<Longrightarrow>
      cus_in_flight_per_thread (in_flight S) ! t + b_total_cus B ! t + usum cost_of St \<le> umax 64"
    and "t < length (consume_work_senders S) \<Longrightarrow>
      num_in_flight_per_thread (in_flight S) ! t + length (b_ids B ! t) + usum one_of St \<le> umax 64"
    and "t < length (consume_work_senders S) \<Longrightarrow>
      wcount (account_locks_table S) a t + usum (keys_of A) St \<le> umax 32"
    and "t < length (consume_work_senders S) \<Longrightarrow>
      rcount (account_locks_table S) a t + usum (keys_of A) St \<le> umax 32"
  using assms unfolding room_for_def Let_def by blast+

lemma room_for_mono:
  assumes "room_for A B St S" "\<And>f. usum f St' \<le> usum f St"
  shows "room_for A B St' S"
  unfolding room_for_def Let_def
proof (intro conjI allI impI)
  fix t a
  assume t: "t < length (consume_work_senders S)"
  note r = room_forD(3-) [OF assms(1) t]
  show "cus_in_flight_per_thread (in_flight S) ! t + b_total_cus B ! t + usum cost_of St' \<le> umax 64"
    "num_in_flight_per_thread (in_flight S) ! t + length (b_ids B ! t) + usum one_of St' \<le> umax 64"
    "wcount (account_locks_table S) a t + usum (keys_of A) St' \<le> umax 32"
    "rcount (account_locks_table S) a t + usum (keys_of A) St' \<le> umax 32"
    using r(1,2) r(3,4) [of a] assms(2) [of cost_of] assms(2) [of one_of] assms(2) [of "keys_of A"]
    by linarith+
qed (use room_forD(1,2) [OF assms(1)] in simp_all)

section \<open>Filling the window\<close>

lemma insert_or_drop_ok:
  assumes G: "graph_laws (rt_graph rt) waiting popped"
    and ok: "pass_ok rt elems waiting popped Z (x # xs) P"
  shows "\<exists>P'. insert_or_drop rt (x, keep) P = Inr P' \<and> pass_ok rt elems waiting popped Z xs P' \<and>
    pass_measure elems waiting P' \<le> Suc (pass_measure elems waiting P) \<and> pass_frame P P'"
proof -
  let ?C = "pa_container P" and ?g = "pa_graph P"
  let ?S = "id_to_transaction_state ?C"
  have q: "queued_ok ({#x#} + (mset xs + live_ids elems waiting P)) ?S" using ok by (simp add: pass_ok_def)
  have qx: "queued_ok (mset xs + live_ids elems waiting P) ?S" "tp_id x \<notin># image_mset tp_id (mset xs + live_ids elems waiting P)"
    using q by (simp_all add: queued_ok_add)
  obtain ttl c where s: "?S (tp_id x) = Some (Unprocessed ttl (tp_priority x) c)"
    using queued_ok_state [OF q, of x] by auto
  show ?thesis
  proof (cases keep)
    case True
    have fin: "finite (waiting ?g)" using graph_lawsD(3) [OF G] .
    have nw: "x \<notin> waiting ?g"
      using queued_ok_disjoint [OF q, of x] fin by (auto simp: live_ids_def)
    have "x \<notin># mset (pa_unschedulable_ids P)" using queued_ok_disjoint [OF q, of x] by (auto simp: live_ids_def)
    moreover have "unprocessed ?S (tp_id x)" using s by (auto simp: unprocessed_def)
    ultimately have np: "x \<notin> popped ?g" using ok by (auto simp: pass_ok_def)
    obtain g where g: "pg_insert (rt_graph rt) x (get_transaction_account_access (rt_messages rt) ttl) ?g = Inr g"
      "waiting g = insert x (waiting ?g)" "popped g = popped ?g"
      using graph_lawsD(4) [OF G nw np] by blast
    have run: "insert_or_drop rt (x, keep) P = Inr (P\<lparr>pa_graph := g\<rparr>)"
      using True g(1) ttl_of_id_ok [OF s] by (simp add: insert_or_drop_def)
    have live: "live_ids elems waiting (P\<lparr>pa_graph := g\<rparr>) = add_mset x (live_ids elems waiting P)"
      using g(2) nw fin by (simp add: live_ids_def)
    have "pass_ok rt elems waiting popped Z xs (P\<lparr>pa_graph := g\<rparr>)"
      using ok g(3) by (simp add: pass_ok_def live)
    moreover have "pass_measure elems waiting (P\<lparr>pa_graph := g\<rparr>) \<le> Suc (pass_measure elems waiting P)"
      using g(2) nw fin by (simp add: pass_measure_def)
    ultimately show ?thesis using run by (auto simp: pass_frame_def)
  next
    case False
    let ?C' = "?C\<lparr>id_to_transaction_state := ?S(tp_id x := None)\<rparr>"
    let ?P' = "P\<lparr>pa_container := ?C', pa_num_filtered_out := sat_add 64 (pa_num_filtered_out P) 1\<rparr>"
    have run: "insert_or_drop rt (x, keep) P = Inr ?P'"
      using False s by (simp add: insert_or_drop_def remove_by_id_def)
    have "room_for (rt_messages rt) (pa_batches P) (?S(tp_id x := None)) (pa_scheduler P)"
      by (rule room_for_mono [where St = ?S])
        (use ok usum_remove_le queued_ok_finite [OF q] in \<open>auto simp: pass_ok_def\<close>)
    moreover have live: "live_ids elems waiting ?P' = live_ids elems waiting P" by (simp add: live_ids_def)
    ultimately have "pass_ok rt elems waiting popped Z xs ?P'"
      using ok queued_ok_upd [OF qx] by (auto simp: pass_ok_def live unprocessed_def intro: accounted_settled)
    then show ?thesis using run by (auto simp: pass_frame_def pass_measure_def)
  qed
qed

lemma insert_all_ok:
  assumes G: "graph_laws (rt_graph rt) waiting popped"
  shows "pass_ok rt elems waiting popped Z (map fst zs) P \<Longrightarrow>
    \<exists>P'. rfold (insert_or_drop rt) zs P = Inr P' \<and> pass_ok rt elems waiting popped Z [] P' \<and>
      pass_measure elems waiting P' \<le> length zs + pass_measure elems waiting P \<and> pass_frame P P'"
proof (induction zs arbitrary: P)
  case Nil
  then show ?case by simp
next
  case (Cons z zs)
  obtain x keep where z: "z = (x, keep)" by fastforce
  from insert_or_drop_ok [OF G, of elems Z x "map fst zs" P keep] Cons.prems obtain P1 where
    P1: "insert_or_drop rt z P = Inr P1" "pass_ok rt elems waiting popped Z (map fst zs) P1"
      "pass_measure elems waiting P1 \<le> Suc (pass_measure elems waiting P)" "pass_frame P P1"
    by (auto simp: z)
  from Cons.IH [OF P1(2)] P1 show ?case by (auto dest: pass_frame_trans)
qed

text \<open>The filter leaves a flag in every place of the slice it is given.\<close>

definition filter_in_place :: "('tx list \<Rightarrow> bool list \<Rightarrow> bool list) \<Rightarrow> bool" where
  "filter_in_place gf \<longleftrightarrow> (\<forall>txs n. length (gf txs (replicate n True)) = n)"

lemma pop_filter_insert_ok:
  assumes H: "heap_laws (rt_heap rt) elems" and G: "graph_laws (rt_graph rt) waiting popped"
    and gf: "filter_in_place gf" and ok: "pass_ok rt elems waiting popped Z [] P"
  shows "\<exists>full P'. pop_filter_insert rt gf chunk P = Inr (full, P') \<and> pass_ok rt elems waiting popped Z [] P' \<and>
    pass_measure elems waiting P' \<le> pass_measure elems waiting P \<and> pass_frame P P'"
proof -
  obtain ids C where pc: "pop_chunk (rt_heap rt) chunk (pa_container P) = (ids, C)" by fastforce
  note c = pop_chunk_ok [OF H pc]
  have qp: "queued_ok (live_ids elems waiting P) (id_to_transaction_state (pa_container P))"
    using ok by (simp add: pass_ok_def)
  have sub: "mset ids \<subseteq># live_ids elems waiting P" using c by (simp add: live_ids_def)
  have "\<exists>ttl. ttl_of_id x C = Inr ttl" if "x \<in> set ids" for x
    using queued_ok_state [OF queued_ok_mono [OF qp sub], of x] that c ttl_of_id_ok [of C x] by auto
  then obtain ttls where ttls: "rmap (\<lambda>x. ttl_of_id x C) ids = Inr ttls" using rmap_returns by metis
  let ?txs = "map ttl_transaction ttls"
  let ?flags = "gf ?txs (replicate chunk True)"
  let ?P1 = "P\<lparr>pa_container := C, pa_filter_time_us := sat_add 64 (pa_filter_time_us P) (rt_filter_us rt ?txs)\<rparr>"
  have len: "length ids \<le> length ?flags" using c gf by (simp add: filter_in_place_def)
  then have fst: "map fst (zip ids ?flags) = ids" by (simp add: map_fst_zip_take)
  have live: "live_ids elems waiting P = mset ids + live_ids elems waiting ?P1"
    using c by (simp add: live_ids_def ac_simps)
  have "pass_ok rt elems waiting popped Z ids ?P1"
    using ok c by (auto simp: pass_ok_def live ac_simps)
  from insert_all_ok [OF G, of elems Z "zip ids ?flags" ?P1, unfolded fst, OF this] obtain P2 where
    P2: "rfold (insert_or_drop rt) (zip ids ?flags) ?P1 = Inr P2" "pass_ok rt elems waiting popped Z [] P2"
      "pass_measure elems waiting P2 \<le> length (zip ids ?flags) + pass_measure elems waiting ?P1" "pass_frame ?P1 P2"
    by blast
  have "pop_filter_insert rt gf chunk P = Inr (length ids = chunk, P2)"
    using pc ttls P2(1) by (simp add: pop_filter_insert_def Let_def)
  moreover have "pass_measure elems waiting P2 \<le> pass_measure elems waiting P"
    using P2(3) c len by (simp add: pass_measure_def)
  moreover have "pass_frame P P2" using P2(4) by (simp add: pass_frame_def)
  ultimately show ?thesis using P2(2) by blast
qed

lemma chunked_pops_loop_ok:
  assumes H: "heap_laws (rt_heap rt) elems" and G: "graph_laws (rt_graph rt) waiting popped"
    and gf: "filter_in_place gf"
  shows "pass_ok rt elems waiting popped Z [] P \<Longrightarrow>
    \<exists>b P'. chunked_pops_loop rt gf budget P = Inr (b, P') \<and> pass_ok rt elems waiting popped Z [] P' \<and>
      pass_measure elems waiting P' \<le> pass_measure elems waiting P \<and> pass_frame P P'"
proof (induction budget arbitrary: P rule: less_induct)
  case (less budget)
  let ?chunk = "min budget MAX_FILTER_CHUNK_SIZE"
  show ?case
  proof (cases "budget = 0")
    case True
    then show ?thesis using less.prems by (subst chunked_pops_loop.simps) auto
  next
    case False
    obtain full P1 where P1: "pop_filter_insert rt gf ?chunk P = Inr (full, P1)"
      "pass_ok rt elems waiting popped Z [] P1" "pass_measure elems waiting P1 \<le> pass_measure elems waiting P"
      "pass_frame P P1" using pop_filter_insert_ok [OF H G gf less.prems] by blast
    have lt: "sat_sub budget ?chunk < budget" using False by (simp add: sat_sub_def MAX_FILTER_CHUNK_SIZE_def)
    have run: "chunked_pops_loop rt gf budget P =
        (if full then chunked_pops_loop rt gf (sat_sub budget ?chunk) P1 else Inr (sat_sub budget ?chunk, P1))"
      using False P1(1) by (subst chunked_pops_loop.simps) (simp add: Let_def)
    show ?thesis
    proof (cases full)
      case True
      from less.IH [OF lt P1(2)] obtain b P2 where "chunked_pops_loop rt gf (sat_sub budget ?chunk) P1 = Inr (b, P2)"
        "pass_ok rt elems waiting popped Z [] P2" "pass_measure elems waiting P2 \<le> pass_measure elems waiting P1"
        "pass_frame P1 P2" by blast
      with run True P1 show ?thesis by (auto dest: pass_frame_trans)
    next
      case False
      with run P1 show ?thesis by auto
    qed
  qed
qed

lemma chunked_pops_ok:
  assumes "heap_laws (rt_heap rt) elems" "graph_laws (rt_graph rt) waiting popped" "filter_in_place gf"
    and "pass_ok rt elems waiting popped Z [] P"
  shows "\<exists>P'. chunked_pops rt gf P = Inr P' \<and> pass_ok rt elems waiting popped Z [] P' \<and>
    pass_measure elems waiting P' \<le> pass_measure elems waiting P \<and> pass_frame P P'"
proof -
  obtain b P1 where P1: "chunked_pops_loop rt gf (pa_window_budget P) P = Inr (b, P1)" "pass_ok rt elems waiting popped Z [] P1"
    "pass_measure elems waiting P1 \<le> pass_measure elems waiting P" "pass_frame P P1"
    using chunked_pops_loop_ok [OF assms] by blast
  let ?P = "P1\<lparr>pa_window_budget := b\<rparr>"
  have "pass_ok rt elems waiting popped Z [] ?P" using P1(2) by (simp add: pass_ok_def live_ids_def)
  moreover have "pass_measure elems waiting ?P \<le> pass_measure elems waiting P" using P1(3) by (simp add: pass_measure_def)
  moreover have "pass_frame P ?P" using P1(4) by (simp add: pass_frame_def)
  ultimately show ?thesis using P1(1) by (simp add: chunked_pops_def)
qed

section \<open>Sending\<close>

text \<open>A batch that is sent moves its totals from the batch to the counters of its thread.\<close>

lemma track_batch_ok:
  assumes "t < length (num_in_flight_per_thread T)" "t < length (cus_in_flight_per_thread T)"
    "num_in_flight_per_thread T ! t + k \<le> umax 64" "cus_in_flight_per_thread T ! t + cus \<le> umax 64"
  obtains bid T' where "track_batch k cus t T = Inr (bid, T')"
    "num_in_flight_per_thread T' = (num_in_flight_per_thread T)[t := num_in_flight_per_thread T ! t + k]"
    "cus_in_flight_per_thread T' = (cus_in_flight_per_thread T)[t := cus_in_flight_per_thread T ! t + cus]"
  using assms by (auto simp: track_batch_def gen_def rmodify_def rindex_ok checked_add_ok)

lemma take_batch_ok:
  assumes "batches_ok n B" "t < n"
  shows "take_batch t B = Inr ((b_ids B ! t, b_transactions B ! t, b_max_ages B ! t, b_total_cus B ! t),
    \<lparr>b_ids = (b_ids B)[t := []], b_transactions = (b_transactions B)[t := []],
     b_max_ages = (b_max_ages B)[t := []], b_total_cus = (b_total_cus B)[t := 0]\<rparr>)"
  using assms by (simp add: take_batch_def batches_ok_def rindex_ok)

lemma send_batch_room:
  assumes ok: "batches_ok (length (consume_work_senders S)) B" and t: "t < length (consume_work_senders S)"
    and room: "room_for A B St S"
  shows "\<exists>r B' S'. send_batch rt t B S = Inr (r, B', S') \<and> room_for A B' St S' \<and>
    length (consume_work_senders S') = length (consume_work_senders S) \<and>
    batches_ok (length (consume_work_senders S)) B'"
proof (cases "b_ids B ! t = []")
  case True
  then show ?thesis using ok t room by (simp add: send_batch_def rindex_ok batches_ok_def)
next
  case ne: False
  let ?B = "\<lparr>b_ids = (b_ids B)[t := []], b_transactions = (b_transactions B)[t := []],
     b_max_ages = (b_max_ages B)[t := []], b_total_cus = (b_total_cus B)[t := 0]\<rparr>"
  note r = room_forD [OF room]
  obtain bid T where T: "track_batch (length (b_ids B ! t)) (b_total_cus B ! t) t (in_flight S) = Inr (bid, T)"
    "num_in_flight_per_thread T = (num_in_flight_per_thread (in_flight S))[t := num_in_flight_per_thread (in_flight S) ! t + length (b_ids B ! t)]"
    "cus_in_flight_per_thread T = (cus_in_flight_per_thread (in_flight S))[t := cus_in_flight_per_thread (in_flight S) ! t + b_total_cus B ! t]"
    by (rule track_batch_ok [of t "in_flight S" "length (b_ids B ! t)" "b_total_cus B ! t"])
      (use r(1,2) r(3,4) [OF t] t in simp_all)
  have len: "length (b_ids B) = length (consume_work_senders S)" "length (b_total_cus B) = length (consume_work_senders S)"
    using ok by (simp_all add: batches_ok_def)
  have room': "room_for A ?B St S1" if "in_flight S1 = T" "account_locks_table S1 = account_locks_table S"
    "length (consume_work_senders S1) = length (consume_work_senders S)" for S1 :: "('b, 'c) prio_scheduler"
    unfolding room_for_def Let_def that
    using r t len by (auto simp: T(2,3) nth_list_update)
  let ?b = "\<lparr>sb_batch_id = bid, sb_ids = b_ids B ! t, sb_transactions = b_transactions B ! t, sb_max_ages = b_max_ages B ! t\<rparr>"
  have run: "send_batch rt t B S = (case ch_send (rt_channels rt) ?b (consume_work_senders S ! t) of
      None \<Rightarrow> Inr (Inl (DisconnectedSendChannel ''consume work sender''), ?B, S\<lparr>in_flight := T\<rparr>)
    | Some s' \<Rightarrow> Inr (Inr (length (b_ids B ! t)), ?B,
        S\<lparr>in_flight := T, consume_work_senders := (consume_work_senders S)[t := s']\<rparr>))"
    using ne t len(1) T(1) take_batch_ok [OF ok t] by (simp add: send_batch_def rindex_ok)
  show ?thesis
  proof (cases "ch_send (rt_channels rt) ?b (consume_work_senders S ! t)")
    case None
    then show ?thesis using run room' [of "S\<lparr>in_flight := T\<rparr>"] batches_ok_take(1) [OF ok t] by simp
  next
    case (Some s')
    then show ?thesis
      using run room' [of "S\<lparr>in_flight := T, consume_work_senders := (consume_work_senders S)[t := s']\<rparr>"]
        batches_ok_take(1) [OF ok t] by simp
  qed
qed

lemma send_batches_from_room:
  assumes hist: "channel_history (rt_channels rt) sent got"
    and "locks_accounted A sent got K B S" "\<forall>t \<in> set ts. t < length (consume_work_senders S)"
    and "batch_total B < unat (next_batch_id S)" "room_for A B St S" "n + batch_total B \<le> umax 64"
  shows "\<exists>r B' S'. send_batches_from rt ts n B S = Inr (r, B', S') \<and> room_for A B' St S'"
  using assms(2-)
proof (induction ts arbitrary: n B S)
  case Nil
  then show ?case by simp
next
  case (Cons t ts)
  have t: "t < length (consume_work_senders S)" using Cons.prems(2) by simp
  obtain r B1 S1 where one: "send_batch rt t B S = Inr (r, B1, S1)" "room_for A B1 St S1"
    using send_batch_room [OF _ t Cons.prems(4), of rt] Cons.prems(1) by (auto simp: locks_accounted_def)
  note safe = send_batch_safe [OF hist Cons.prems(1) t Cons.prems(3) one(1)]
  show ?case
  proof (cases r)
    case (Inl e)
    then show ?thesis using one by simp
  next
    case (Inr k)
    then have k: "k = length (b_ids B ! t)" "locks_accounted A sent got K B1 S1" using safe by auto
    have n: "n + k \<le> umax 64" "n + k + batch_total B1 \<le> umax 64" "batch_total B1 < unat (next_batch_id S1)"
      using safe Cons.prems(3,5) k(1) by linarith+
    have "\<forall>u \<in> set ts. u < length (consume_work_senders S1)" using Cons.prems(2) safe by simp
    from Cons.IH [OF k(2) this n(3) one(2) n(2)] show ?thesis using one Inr n(1) by (simp add: checked_add_ok)
  qed
qed

lemma send_all_ok:
  assumes hist: "channel_history (rt_channels rt) sent got"
    and safe: "pass_safe (rt_messages rt) sent got id0 K P" and ok: "pass_ok rt elems waiting popped Z [] P"
  shows "\<exists>e P'. send_all rt P = Inr (e, P') \<and> pass_ok rt elems waiting popped Z [] P' \<and>
    pass_measure elems waiting P' = pass_measure elems waiting P \<and> pa_num_scheduled P' = pa_num_scheduled P \<and>
    pa_container P' = pa_container P \<and> pa_graph P' = pa_graph P \<and> pa_unschedulable_ids P' = pa_unschedulable_ids P \<and>
    pa_unblock_this_batch P' = pa_unblock_this_batch P"
proof -
  have acc: "locks_accounted (rt_messages rt) sent got K (pa_batches P) (pa_scheduler P)"
    using safe by (simp add: pass_safe_def)
  have bound: "0 + batch_total (pa_batches P) \<le> umax 64" using safe by (intro umax_pass) (simp add: pass_safe_def)
  have room: "room_for (rt_messages rt) (pa_batches P) (id_to_transaction_state (pa_container P)) (pa_scheduler P)"
    using ok by (simp add: pass_ok_def)
  have "\<forall>t \<in> set [0..<length (consume_work_senders (pa_scheduler P))].
      t < length (consume_work_senders (pa_scheduler P))" by simp
  from send_batches_from_room [OF hist acc this pass_safe_ids [OF safe] room bound] obtain r B S where
    s: "send_batches rt (pa_batches P) (pa_scheduler P) = Inr (r, B, S)"
    "room_for (rt_messages rt) B (id_to_transaction_state (pa_container P)) S" by (auto simp: send_batches_def)
  define Q where "Q = (if \<exists>n. r = Inr n then P\<lparr>pa_batches := B, pa_scheduler := S,
    pa_num_sent := sat_add 64 (pa_num_sent P) (projr r)\<rparr> else P\<lparr>pa_batches := B, pa_scheduler := S\<rparr>)"
  have "\<exists>e. send_all rt P = Inr (e, Q)" using s(1) by (cases r) (auto simp: send_all_def Q_def)
  moreover have "pass_ok rt elems waiting popped Z [] Q"
    using ok s(2) by (auto simp: pass_ok_def Q_def live_ids_def)
  ultimately show ?thesis by (auto simp: Q_def pass_measure_def)
qed

section \<open>One transaction\<close>

lemma lock_lists_le:
  "count_list (write_account_locks A tx) a \<le> length (account_keys A tx)"
  "count_list (read_account_locks A tx) a \<le> length (account_keys A tx)"
proof -
  have "length (filter f (enumerate 0 xs)) \<le> length xs" for f and xs :: "pubkey list"
    using length_filter_le [of f "enumerate 0 xs"] by simp
  then show "count_list (write_account_locks A tx) a \<le> length (account_keys A tx)"
    "count_list (read_account_locks A tx) a \<le> length (account_keys A tx)"
    unfolding write_account_locks_def read_account_locks_def
    by (metis (no_types, lifting) count_le_length le_trans length_map)+
qed

lemma room_for_locks:
  assumes room: "room_for A B St S" and St: "finite (dom St)" "St i = Some (Unprocessed ttl p c)"
    and t: "t < length (consume_work_senders S)"
  shows "count_room (write_account_locks A (ttl_transaction ttl)) (read_account_locks A (ttl_transaction ttl)) t
    (account_locks_table S)"
proof -
  have "keys_of A ttl c \<le> usum (keys_of A) St" using usum_pending [OF St, of "keys_of A"] by simp
  then show ?thesis
    using room_forD(5,6) [OF room t] lock_lists_le [of A "ttl_transaction ttl"] unfolding count_room_def
    by (meson add_left_mono le_trans)
qed

lemma pass_selector_ok:
  assumes ok: "batches_ok (length (consume_work_senders (pa_scheduler P))) (pa_batches P)"
    and room: "room_for A (pa_batches P) St (pa_scheduler P)"
    and ts: "threads ts \<noteq> {}" "threads ts \<subseteq> {..<length (consume_work_senders (pa_scheduler P))}"
  shows "\<exists>t \<in> threads ts. pass_selector P ts = Inr t"
proof -
  let ?S = "pa_scheduler P" and ?B = "pa_batches P"
  have "load_room (b_total_cus ?B) (cus_in_flight_per_thread (in_flight ?S)) (b_transactions ?B)
      (num_in_flight_per_thread (in_flight ?S)) t" if "t \<in> threads ts" for t
  proof -
    have "t < length (consume_work_senders ?S)" using ts(2) that by auto
    then show ?thesis using room_forD(1-4) [OF room] ok by (fastforce simp: load_room_def batches_ok_def)
  qed
  then obtain t where "pass_selector P ts = Inr t"
    using select_thread_cases(1) ts(1) unfolding pass_selector_def by blast
  then show ?thesis using select_thread_cases(2) unfolding pass_selector_def by blast
qed

lemma try_schedule_transaction_returns:
  assumes L: "locks_inv L" "num_threads L = n"
    and sel: "\<And>ts. threads ts \<noteq> {} \<Longrightarrow> threads ts \<subseteq> {..<n} \<Longrightarrow> \<exists>t \<in> threads ts. sel ts = Inr t"
    and room: "\<And>t. t < n \<Longrightarrow> count_room (write_account_locks A (ttl_transaction ttl)) (read_account_locks A (ttl_transaction ttl)) t L"
  shows "\<exists>r s blocking' L'. try_schedule_transaction A f n sel (Unprocessed ttl p c) blocking L = Inr (r, s, blocking', L')"
proof -
  let ?tx = "ttl_transaction ttl"
  let ?W = "write_account_locks A ?tx" and ?R = "read_account_locks A ?tx"
  obtain any where any: "ts_any n = Inr any" "threads any = {..<n}"
    using ts_any_ok [of n] L by (auto simp: locks_inv_def)
  have "\<exists>chosen L'. try_lock_accounts ?W ?R any sel L = Inr (chosen, L')"
    using L(1)
  proof (cases rule: try_lock_accounts_cases [of L ?W ?R any sel, consumes 1, case_names none some])
    case (some T)
    then obtain t where t: "t \<in> threads T" "sel T = Inr t" using sel [of T] any(2) by auto
    then have "t \<in> lockable_threads ?W ?R L" "t < n" using some(1) any(2) by auto
    then obtain L' where "lock_accounts ?W ?R t L = Inr L'" using lock_accounts_returns [OF L(1)] room by blast
    with some(3) t(2) show ?thesis by simp
  qed simp
  then show ?thesis
    using any(1)
    by (auto simp: try_schedule_transaction_def Let_def transition_to_pending_def take_state_def split: option.split)
qed

text \<open>The room after the transaction of a state has become pending, is locked and in its batch.\<close>

lemma push_to_batch_ok:
  assumes "batches_ok n B" "t < n" "b_total_cus B ! t + cost \<le> umax 64"
  obtains B' where "push_to_batch t i tx age cost B = Inr B'"
    "b_total_cus B' = (b_total_cus B)[t := b_total_cus B ! t + cost]" "b_ids B' = (b_ids B)[t := b_ids B ! t @ [i]]"
  using assms by (auto simp: push_to_batch_def rmodify_def rindex_ok batches_ok_def sat_add_exact)

lemma room_for_scheduled:
  assumes room: "room_for A B St S" and St: "finite (dom St)" "St i = Some (Unprocessed ttl p c)"
    and ok: "batches_ok (length (consume_work_senders S)) B" and t: "t < length (consume_work_senders S)"
    and L: "table_holds (account_locks_table S) M"
      "table_holds L (tx_holdings A t [ttl_transaction ttl] + M)"
    and B': "b_total_cus B' = (b_total_cus B)[t := b_total_cus B ! t + c]" "b_ids B' = (b_ids B)[t := b_ids B ! t @ [i]]"
  shows "room_for A B' (St(i \<mapsto> Pending ttl p c)) (S\<lparr>account_locks_table := L\<rparr>)"
  unfolding room_for_def Let_def
proof (intro conjI allI impI)
  let ?n = "length (consume_work_senders S)" and ?St = "St(i \<mapsto> Pending ttl p c)" and ?tx = "ttl_transaction ttl"
  note r = room_forD [OF room]
  have u: "usum cost_of St = c + usum cost_of ?St" "usum one_of St = 1 + usum one_of ?St"
    "usum (keys_of A) St = length (account_keys A ?tx) + usum (keys_of A) ?St"
    using usum_pending [OF St] by simp_all
  have len: "length (b_ids B) = ?n" "length (b_total_cus B) = ?n" using ok by (simp_all add: batches_ok_def)
  fix u a
  assume "u < length (consume_work_senders (S\<lparr>account_locks_table := L\<rparr>))"
  then have u': "u < ?n" by simp
  show "cus_in_flight_per_thread (in_flight (S\<lparr>account_locks_table := L\<rparr>)) ! u + b_total_cus B' ! u + usum cost_of ?St \<le> umax 64"
    using r(3) [OF u'] u(1) len t u' by (simp add: B' nth_list_update)
  show "num_in_flight_per_thread (in_flight (S\<lparr>account_locks_table := L\<rparr>)) ! u + length (b_ids B' ! u) + usum one_of ?St \<le> umax 64"
    using r(4) [OF u'] u(2) len t u' by (simp add: B' nth_list_update)
  have "wcount L a u \<le> wcount (account_locks_table S) a u + count_list (write_account_locks A ?tx) a"
    "rcount L a u \<le> rcount (account_locks_table S) a u + count_list (read_account_locks A ?tx) a"
    using L by (auto simp: accounts_for_def tx_holdings_def)
  then show "wcount (account_locks_table (S\<lparr>account_locks_table := L\<rparr>)) a u + usum (keys_of A) ?St \<le> umax 32"
    "rcount (account_locks_table (S\<lparr>account_locks_table := L\<rparr>)) a u + usum (keys_of A) ?St \<le> umax 32"
    using r(5,6) [OF u', of a] u(3) lock_lists_le [of A ?tx a] by simp_all
qed (use room_forD(1,2) [OF room] in simp_all)

lemma schedule_scheduled_ok:
  fixes Q :: "('tx, 'h, 'g, 's, 'r) pass"
  assumes push: "push_to_batch (si_thread_id info) (tp_id x) (si_transaction info) (si_max_age info) (si_cost info) (pa_batches Q) = Inr B"
    and ok: "batches_ok (length (consume_work_senders (pa_scheduler Q))) B"
    and room: "room_for A B St (pa_scheduler Q)"
    and t: "si_thread_id info < length (consume_work_senders (pa_scheduler Q))" "length (consume_work_senders (pa_scheduler Q)) \<le> 64"
  shows "\<exists>exit Q'. schedule_scheduled rt m x info Q = Inr (exit, Q') \<and> room_for A (pa_batches Q') St (pa_scheduler Q') \<and>
    pa_container Q' = pa_container Q \<and> pa_graph Q' = pa_graph Q \<and> pa_unschedulable_ids Q' = pa_unschedulable_ids Q \<and>
    pa_unblock_this_batch Q' = pa_unblock_this_batch Q"
proof -
  let ?t = "si_thread_id info" and ?S = "pa_scheduler Q"
  have ids: "rindex (b_ids B) ?t = Inr (b_ids B ! ?t)" using ok t by (simp add: rindex_ok batches_ok_def)
  obtain r B' S' where send: "send_if_full rt ?t (b_ids B ! ?t) B ?S = Inr (r, B', S')" "room_for A B' St S'"
    "length (consume_work_senders S') = length (consume_work_senders ?S)" "batches_ok (length (consume_work_senders ?S)) B'"
    using send_batch_room [OF ok t(1) room, of rt] ok room
    by (cases "TARGET_NUM_TRANSACTIONS_PER_BATCH \<le> length (b_ids B ! ?t)") (auto simp: send_if_full_def)
  show ?thesis
  proof (cases r)
    case (Inl e)
    then show ?thesis using push ids send by (simp add: schedule_scheduled_def)
  next
    case (Inr k)
    let ?c = "cus_in_flight_per_thread (in_flight S') ! ?t + b_total_cus B' ! ?t"
    have c: "rindex (cus_in_flight_per_thread (in_flight S')) ?t = Inr (cus_in_flight_per_thread (in_flight S') ! ?t)"
      "rindex (b_total_cus B') ?t = Inr (b_total_cus B' ! ?t)"
      "checked_add 64 (cus_in_flight_per_thread (in_flight S') ! ?t) (b_total_cus B' ! ?t) = Inr ?c"
      using room_forD(1-3) [OF send(2)] send(3,4) t
      by (auto simp: rindex_ok batches_ok_def intro!: checked_add_ok intro: add_leD1)
    show ?thesis
    proof (cases "m \<le> ?c")
      case True
      obtain ts where "ts_remove ?t (pa_schedulable_threads Q) = Inr ts"
        using ts_remove_ok [of ?t "pa_schedulable_threads Q"] t by auto
      then show ?thesis using push ids send Inr c True by (simp add: schedule_scheduled_def Let_def)
    next
      case False
      then show ?thesis using push ids send Inr c by (simp add: schedule_scheduled_def Let_def)
    qed
  qed
qed

text \<open>
  The transaction the graph hands out is dropped, set aside, or scheduled; the graph has one id
  less and the queue is as it was.
\<close>

lemma pass_ok_popped:
  assumes G: "graph_laws (rt_graph rt) waiting popped" and ok: "pass_ok rt elems waiting popped Z [] P"
    and pop: "pg_pop (rt_graph rt) (pa_graph P) = Some (x, g)"
  shows "live_ids elems waiting P = add_mset x (live_ids elems waiting (P\<lparr>pa_graph := g\<rparr>))"
    and "popped g = insert x (set (pa_unblock_this_batch P))" "x \<notin> set (pa_unblock_this_batch P)"
    and "queued_ok (live_ids elems waiting (P\<lparr>pa_graph := g\<rparr>)) (id_to_transaction_state (pa_container P))"
    and "tp_id x \<notin># image_mset tp_id (live_ids elems waiting (P\<lparr>pa_graph := g\<rparr>))"
    and "\<exists>ttl p c. id_to_transaction_state (pa_container P) (tp_id x) = Some (Unprocessed ttl p c)"
    and "Suc (pass_measure elems waiting (P\<lparr>pa_graph := g\<rparr>)) = pass_measure elems waiting P"
proof -
  note g = graph_lawsD(6) [OF G pop] and fin = graph_lawsD(3) [OF G]
  show live: "live_ids elems waiting P = add_mset x (live_ids elems waiting (P\<lparr>pa_graph := g\<rparr>))"
    using g fin by (simp add: live_ids_def mset_set.remove)
  have q: "queued_ok (live_ids elems waiting P) (id_to_transaction_state (pa_container P))"
    using ok by (simp add: pass_ok_def)
  then show "queued_ok (live_ids elems waiting (P\<lparr>pa_graph := g\<rparr>)) (id_to_transaction_state (pa_container P))"
    "tp_id x \<notin># image_mset tp_id (live_ids elems waiting (P\<lparr>pa_graph := g\<rparr>))"
    "\<exists>ttl p c. id_to_transaction_state (pa_container P) (tp_id x) = Some (Unprocessed ttl p c)"
    unfolding live queued_ok_add by auto
  show "popped g = insert x (set (pa_unblock_this_batch P))" using g ok by (simp add: pass_ok_def)
  show "Suc (pass_measure elems waiting (P\<lparr>pa_graph := g\<rparr>)) = pass_measure elems waiting P"
    using g fin card_Suc_Diff1 [of "waiting (pa_graph P)" x] by (simp add: pass_measure_def)
  have "queued_ok (add_mset x (live_ids elems waiting (P\<lparr>pa_graph := g\<rparr>))) (id_to_transaction_state (pa_container P))"
    using q live by simp
  then have "x \<notin> set (pa_unschedulable_ids P)" "unprocessed (id_to_transaction_state (pa_container P)) (tp_id x)"
    by (auto simp: queued_ok_add live_ids_def unprocessed_def)
  then show "x \<notin> set (pa_unblock_this_batch P)" using ok by (auto simp: pass_ok_def)
qed

lemma pass_safeD:
  assumes "pass_safe A sent got id0 K P"
  shows "locks_inv (account_locks_table (pa_scheduler P))"
    "num_threads (account_locks_table (pa_scheduler P)) = length (consume_work_senders (pa_scheduler P))"
    "batches_ok (length (consume_work_senders (pa_scheduler P))) (pa_batches P)"
    "length (consume_work_senders (pa_scheduler P)) \<le> 64"
    "\<exists>M. table_holds (account_locks_table (pa_scheduler P)) M"
  using assms by (auto simp: pass_safe_def locks_accounted_def locks_inv_def)

lemma pass_okD:
  assumes "pass_ok rt elems waiting popped Z xs P"
  shows "room_for (rt_messages rt) (pa_batches P) (id_to_transaction_state (pa_container P)) (pa_scheduler P)"
    and "finite (dom (id_to_transaction_state (pa_container P)))"
  using assms queued_ok_finite by (auto simp: pass_ok_def)

lemma pass_ok_settled:
  assumes G: "graph_laws (rt_graph rt) waiting popped" and ok: "pass_ok rt elems waiting popped Z [] P"
    and pop: "pg_pop (rt_graph rt) (pa_graph P) = Some (x, g)"
    and Q: "pa_graph Q = g" "pa_unblock_this_batch Q = pa_unblock_this_batch P @ [x]"
      "pa_unschedulable_ids Q = pa_unschedulable_ids P"
      "priority_queue (pa_container Q) = priority_queue (pa_container P)"
      "id_to_transaction_state (pa_container Q) = (id_to_transaction_state (pa_container P))(tp_id x := s)"
      "\<forall>ttl p c. s \<noteq> Some (Unprocessed ttl p c)"
      "room_for (rt_messages rt) (pa_batches Q) (id_to_transaction_state (pa_container Q)) (pa_scheduler Q)"
  shows "pass_ok rt elems waiting popped Z [] Q \<and> pass_measure elems waiting Q < pass_measure elems waiting P"
proof -
  let ?Pg = "P\<lparr>pa_graph := g\<rparr>"
  note popped = pass_ok_popped [OF G ok pop]
  have live: "live_ids elems waiting Q = live_ids elems waiting ?Pg" using Q by (simp add: live_ids_def)
  have "queued_ok (live_ids elems waiting Q) (id_to_transaction_state (pa_container Q))"
    unfolding live Q(5) by (rule queued_ok_upd [OF popped(4,5)])
  moreover have "Suc (size (live_ids elems waiting ?Pg)) \<le> hp_capacity (rt_heap rt) (priority_queue (pa_container P))"
    "\<forall>y \<in> set (pa_unblock_this_batch P). y \<in> set (pa_unschedulable_ids P) \<or>
       \<not> unprocessed (id_to_transaction_state (pa_container P)) (tp_id y)" "distinct (pa_unblock_this_batch P)"
    using ok popped(1) by (auto simp: pass_ok_def)
  ultimately have "pass_ok rt elems waiting popped Z [] Q"
    using Q popped(1-3) ok by (auto simp: pass_ok_def live unprocessed_def intro!: accounted_settled)
  then show ?thesis using popped(7) Q by (simp add: pass_measure_def)
qed

lemma pass_ok_set_aside:
  assumes G: "graph_laws (rt_graph rt) waiting popped" and ok: "pass_ok rt elems waiting popped Z [] P"
    and pop: "pg_pop (rt_graph rt) (pa_graph P) = Some (x, g)"
    and Q: "pa_graph Q = g" "pa_unblock_this_batch Q = pa_unblock_this_batch P @ [x]"
      "pa_unschedulable_ids Q = pa_unschedulable_ids P @ [x]"
      "pa_container Q = pa_container P" "pa_batches Q = pa_batches P" "pa_scheduler Q = pa_scheduler P"
  shows "pass_ok rt elems waiting popped Z [] Q \<and> pass_measure elems waiting Q < pass_measure elems waiting P"
proof -
  note popped = pass_ok_popped [OF G ok pop]
  have live: "live_ids elems waiting Q = live_ids elems waiting P"
    using Q popped(1) by (simp add: live_ids_def)
  have "pass_ok rt elems waiting popped Z [] Q"
    using ok popped(2,3) Q unfolding pass_ok_def live by auto
  then show ?thesis using popped(7) Q by (simp add: pass_measure_def)
qed

text \<open>The scheduler is asked for a transaction it can answer for.\<close>

lemma pass_try_schedule:
  assumes ok: "pass_ok rt elems waiting popped Z xs P" and safe: "pass_safe (rt_messages rt) sent got id0 K P"
    and s: "id_to_transaction_state (pa_container P) (tp_id x) = Some (Unprocessed ttl p c)"
  shows "\<exists>r s' blocking L. try_schedule_transaction (rt_messages rt) f (length (consume_work_senders (pa_scheduler P)))
    (pass_selector P) (Unprocessed ttl p c) (pa_blocking_locks P) (account_locks_table (pa_scheduler P)) = Inr (r, s', blocking, L)"
proof -
  note sf = pass_safeD [OF safe]
  note room = pass_okD(1) [OF ok] and fin = pass_okD(2) [OF ok]
  show ?thesis
    by (rule try_schedule_transaction_returns [OF sf(1,2)])
      (use pass_selector_ok [OF sf(3) room] room_for_locks [OF room fin s] in blast)+
qed

lemma pass_selector_graph [simp]: "pass_selector (P\<lparr>pa_graph := g\<rparr>) = pass_selector P"
  "pass_selector (P\<lparr>pa_unblock_this_batch := u\<rparr>) = pass_selector P"
  by (simp_all add: pass_selector_def fun_eq_iff)

text \<open>A scheduled transaction: it is pushed onto the batch of its thread, which may be sent.\<close>

lemma schedule_scheduled_locked:
  assumes ok: "pass_ok rt elems waiting popped Z xs P" and safe: "pass_safe (rt_messages rt) sent got id0 K P"
    and s: "id_to_transaction_state (pa_container P) (tp_id x) = Some (Unprocessed ttl p c)"
    and t: "t < length (consume_work_senders (pa_scheduler P))"
    and L: "table_holds (account_locks_table (pa_scheduler P)) M"
      "table_holds L (tx_holdings (rt_messages rt) t [ttl_transaction ttl] + M)"
    and Q: "pa_scheduler Q = (pa_scheduler P)\<lparr>account_locks_table := L\<rparr>" "pa_batches Q = pa_batches P"
  shows "\<exists>exit Q'. schedule_scheduled rt m x
      \<lparr>si_thread_id = t, si_transaction = ttl_transaction ttl, si_max_age = ttl_max_age ttl, si_cost = c\<rparr> Q = Inr (exit, Q') \<and>
    room_for (rt_messages rt) (pa_batches Q') ((id_to_transaction_state (pa_container P))(tp_id x \<mapsto> Pending ttl p c)) (pa_scheduler Q') \<and>
    pa_container Q' = pa_container Q \<and> pa_graph Q' = pa_graph Q \<and> pa_unschedulable_ids Q' = pa_unschedulable_ids Q \<and>
    pa_unblock_this_batch Q' = pa_unblock_this_batch Q"
proof -
  let ?St = "id_to_transaction_state (pa_container P)"
  note sf = pass_safeD [OF safe]
  note room = pass_okD(1) [OF ok] and fin = pass_okD(2) [OF ok]
  have "b_total_cus (pa_batches P) ! t + c \<le> umax 64"
    using room_forD(3) [OF room t] usum_pending [OF fin s, of cost_of] by linarith
  then obtain B where B: "push_to_batch t (tp_id x) (ttl_transaction ttl) (ttl_max_age ttl) c (pa_batches P) = Inr B"
    "b_total_cus B = (b_total_cus (pa_batches P))[t := b_total_cus (pa_batches P) ! t + c]"
    "b_ids B = (b_ids (pa_batches P))[t := b_ids (pa_batches P) ! t @ [tp_id x]]"
    by (rule push_to_batch_ok [OF sf(3) t])
  have "room_for (rt_messages rt) B (?St(tp_id x \<mapsto> Pending ttl p c)) ((pa_scheduler P)\<lparr>account_locks_table := L\<rparr>)"
    by (rule room_for_scheduled [OF room fin s sf(3) t L B(2,3)])
  moreover have "batches_ok (length (consume_work_senders (pa_scheduler P))) B"
    using push_to_batch_safe [OF sf(3) B(1)] by blast
  ultimately show ?thesis
    using B(1) t sf(4) by (intro schedule_scheduled_ok) (simp_all add: Q)
qed

lemma schedule_one_ok:
  assumes G: "graph_laws (rt_graph rt) waiting popped" and ok: "pass_ok rt elems waiting popped Z [] P"
    and safe: "pass_safe (rt_messages rt) sent got id0 K P"
    and pop: "pg_pop (rt_graph rt) (pa_graph P) = Some (x, g)"
  shows "\<exists>exit P'. schedule_one rt f m x (P\<lparr>pa_graph := g\<rparr>) = Inr (exit, P') \<and> pass_ok rt elems waiting popped Z [] P' \<and>
    pass_measure elems waiting P' < pass_measure elems waiting P"
proof -
  let ?S = "pa_scheduler P" and ?St = "id_to_transaction_state (pa_container P)"
  let ?P0 = "P\<lparr>pa_graph := g, pa_unblock_this_batch := pa_unblock_this_batch P @ [x]\<rparr>"
  note sf = pass_safeD [OF safe]
  obtain ttl p c where s: "?St (tp_id x) = Some (Unprocessed ttl p c)" using pass_ok_popped(6) [OF G ok pop] by blast
  obtain r s' blocking L where ts: "try_schedule_transaction (rt_messages rt) f (length (consume_work_senders ?S)) (pass_selector P)
      (Unprocessed ttl p c) (pa_blocking_locks P) (account_locks_table ?S) = Inr (r, s', blocking, L)"
    using pass_try_schedule [OF ok safe s] by blast
  obtain M where M: "table_holds (account_locks_table ?S) M" using sf(5) by blast
  note safe' = try_schedule_transaction_safe [OF sf(1) M ts]
  let ?Q = "write_back (tp_id x) s' blocking L ?P0"
  have run: "schedule_one rt f m x (P\<lparr>pa_graph := g\<rparr>) = handle_schedule_result rt m x r ?Q"
    using s ts by (simp add: schedule_one_def get_mut_transaction_state_def Let_def)
  note wb = write_back_def put_transaction_state_def
  have aside: ?thesis if r: "r = Inl UnschedulableConflicts"
  proof -
    have "L = account_locks_table ?S" "s' = Unprocessed ttl p c" using safe' r by simp_all
    then show ?thesis
      unfolding run using r s
      by (auto simp: handle_schedule_result_def wb fun_upd_idem intro!: pass_ok_set_aside [OF G ok pop, THEN conjunct1] pass_ok_set_aside [OF G ok pop, THEN conjunct2])
  qed
  show ?thesis
    using ts
  proof (cases rule: try_schedule_transaction_cases)
    case filtered
    note settled = pass_ok_settled [where s = None, OF G ok pop]
    have "room_for (rt_messages rt) (pa_batches P) (?St(tp_id x := None)) ?S"
      by (rule room_for_mono [OF pass_okD(1) [OF ok] usum_remove_le [OF pass_okD(2) [OF ok]]])
    then show ?thesis
      unfolding run using filtered s
      by (auto simp: handle_schedule_result_def remove_by_id_def wb
          intro!: conjunct1 [OF settled] conjunct2 [OF settled])
  next
    case (scheduled ttl' p' c' any t)
    then have eq: "ttl' = ttl" "p' = p" "c' = c" by auto
    note settled = pass_ok_settled [where s = "Some (Pending ttl p c)", OF G ok pop]
    have t: "t < length (consume_work_senders ?S)" "table_holds L (tx_holdings (rt_messages rt) t [ttl_transaction ttl] + M)"
      using safe' scheduled(6) sf(2) eq by auto
    from schedule_scheduled_locked [OF ok safe s t(1) M t(2), of ?Q m] show ?thesis
      unfolding run using scheduled(6,7) eq
      by (fastforce simp: handle_schedule_result_def wb
          intro!: conjunct1 [OF settled] conjunct2 [OF settled])
  qed (rule aside, assumption)+
qed

section \<open>The loops\<close>

lemma inner_loop_ok:
  assumes hist: "channel_history (rt_channels rt) sent got" and G: "graph_laws (rt_graph rt) waiting popped"
    and "pass_ok rt elems waiting popped Z [] P" "pass_safe (rt_messages rt) sent got id0 K P"
    and "pa_num_scheduled P < MAX_TRANSACTIONS_PER_SCHEDULING_PASS" "pass_measure elems waiting P < fuel"
  shows "\<exists>e P'. inner_loop rt f m fuel P = Inr (e, P') \<and> pass_ok rt elems waiting popped Z [] P' \<and>
    pass_measure elems waiting P' \<le> pass_measure elems waiting P \<and>
    (pg_pop (rt_graph rt) (pa_graph P) \<noteq> None \<longrightarrow> pass_measure elems waiting P' < pass_measure elems waiting P)"
  using assms(3-)
proof (induction fuel arbitrary: P)
  case 0
  then show ?case by simp
next
  case (Suc fuel)
  show ?case
  proof (cases "pg_pop (rt_graph rt) (pa_graph P)")
    case None
    then show ?thesis using Suc.prems(1) by simp
  next
    case (Some xg)
    then obtain x g where pop: "pg_pop (rt_graph rt) (pa_graph P) = Some (x, g)" by (cases xg) auto
    obtain exit P1 where one: "schedule_one rt f m x (P\<lparr>pa_graph := g\<rparr>) = Inr (exit, P1)"
      "pass_ok rt elems waiting popped Z [] P1" "pass_measure elems waiting P1 < pass_measure elems waiting P"
      using schedule_one_ok [OF G Suc.prems(1,2) pop] by blast
    have "pass_safe (rt_messages rt) sent got id0 K (P\<lparr>pa_graph := g\<rparr>)" using Suc.prems(2) by (simp add: pass_safe_def)
    note safe = schedule_one_safe [OF hist this _ one(1)]
    show ?thesis
    proof (cases exit)
      case Proceed
      then have s1: "pass_safe (rt_messages rt) sent got id0 K P1"
        "pa_num_scheduled P1 < MAX_TRANSACTIONS_PER_SCHEDULING_PASS" using safe Suc.prems(3) by auto
      have "pass_measure elems waiting P1 < fuel" using one(3) Suc.prems(4) by linarith
      from Suc.IH [OF one(2) s1 this] obtain e P2 where "inner_loop rt f m fuel P1 = Inr (e, P2)"
        "pass_ok rt elems waiting popped Z [] P2" "pass_measure elems waiting P2 \<le> pass_measure elems waiting P1" by blast
      then show ?thesis using pop one Proceed by auto
    qed (use pop one in auto)
  qed
qed

lemma unblock_all_ok:
  assumes G: "graph_laws (rt_graph rt) waiting popped"
  shows "distinct xs \<Longrightarrow> set xs \<subseteq> popped g \<Longrightarrow>
    \<exists>g'. rfold (pg_unblock (rt_graph rt)) xs g = Inr g' \<and> waiting g' = waiting g \<and> popped g' = popped g - set xs"
proof (induction xs arbitrary: g)
  case Nil
  then show ?case by simp
next
  case (Cons x xs)
  then obtain g1 where g1: "pg_unblock (rt_graph rt) x g = Inr g1" "waiting g1 = waiting g" "popped g1 = popped g - {x}"
    using graph_lawsD(7) [OF G, of x g] by auto
  have "set xs \<subseteq> popped g1" using Cons.prems g1(3) by auto
  with Cons.IH [of g1] Cons.prems obtain g' where "rfold (pg_unblock (rt_graph rt)) xs g1 = Inr g'"
    "waiting g' = waiting g1" "popped g' = popped g1 - set xs" by auto
  with g1 show ?case by auto
qed

lemma refill_and_unblock_ok:
  assumes H: "heap_laws (rt_heap rt) elems" and G: "graph_laws (rt_graph rt) waiting popped"
    and gf: "filter_in_place gf" and ok: "pass_ok rt elems waiting popped Z [] P"
  shows "\<exists>P'. refill_and_unblock rt gf P = Inr P' \<and> pass_ok rt elems waiting popped Z [] P' \<and>
    pass_measure elems waiting P' \<le> pass_measure elems waiting P \<and> pa_unblock_this_batch P' = []"
proof -
  let ?P = "P\<lparr>pa_window_budget := sat_add 64 (pa_window_budget P) (length (pa_unblock_this_batch P))\<rparr>"
  have "pass_ok rt elems waiting popped Z [] ?P" using ok by (simp add: pass_ok_def live_ids_def)
  from chunked_pops_ok [OF H G gf this] obtain P1 where P1: "chunked_pops rt gf ?P = Inr P1"
    "pass_ok rt elems waiting popped Z [] P1" "pass_measure elems waiting P1 \<le> pass_measure elems waiting ?P" by blast
  obtain g where g: "rfold (pg_unblock (rt_graph rt)) (pa_unblock_this_batch P1) (pa_graph P1) = Inr g"
    "waiting g = waiting (pa_graph P1)" "popped g = {}"
    using unblock_all_ok [OF G, of "pa_unblock_this_batch P1" "pa_graph P1"] P1(2) by (auto simp: pass_ok_def)
  let ?P2 = "P1\<lparr>pa_graph := g, pa_unblock_this_batch := []\<rparr>"
  have "pass_ok rt elems waiting popped Z [] ?P2" using P1(2) g by (simp add: pass_ok_def live_ids_def)
  moreover have "pass_measure elems waiting ?P2 \<le> pass_measure elems waiting P" using P1(3) g by (simp add: pass_measure_def)
  ultimately show ?thesis using P1(1) g(1) by (simp add: refill_and_unblock_def)
qed

lemma outer_loop_ok:
  assumes hist: "channel_history (rt_channels rt) sent got" and H: "heap_laws (rt_heap rt) elems"
    and G: "graph_laws (rt_graph rt) waiting popped" and gf: "filter_in_place gf"
    and "pass_ok rt elems waiting popped Z [] P" "pass_safe (rt_messages rt) sent got id0 K P"
    and "pass_measure elems waiting P < inn" "pass_measure elems waiting P < fuel" "pa_unblock_this_batch P = []"
  shows "\<exists>e P'. outer_loop rt gf f m inn fuel P = Inr (e, P') \<and> pass_ok rt elems waiting popped Z [] P' \<and>
    pass_measure elems waiting P' \<le> pass_measure elems waiting P \<and> (e = None \<longrightarrow> pa_unblock_this_batch P' = [])"
  using assms(5-)
proof (induction fuel arbitrary: P)
  case 0
  then show ?case by simp
next
  case (Suc fuel)
  show ?case
  proof (cases "pa_num_scheduled P < MAX_TRANSACTIONS_PER_SCHEDULING_PASS \<and> \<not> pg_is_empty (rt_graph rt) (pa_graph P)")
    case False
    then show ?thesis using Suc.prems by auto
  next
    case True
    from inner_loop_ok [OF hist G Suc.prems(1,2) conjunct1 [OF True] Suc.prems(3)] obtain e1 P1 where
      P1: "inner_loop rt f m inn P = Inr (e1, P1)" "pass_ok rt elems waiting popped Z [] P1"
        "pass_measure elems waiting P1 < pass_measure elems waiting P"
      using True graph_lawsD(5) [OF G] by blast
    note s1 = inner_loop_safe [OF hist Suc.prems(2) conjunct1 [OF True] P1(1)]
    show ?thesis
    proof (cases e1)
      case (Some err)
      then show ?thesis using True P1 by auto
    next
      case e1: None
      then have s1': "pass_safe (rt_messages rt) sent got id0 K P1" using s1 by simp
      from send_all_ok [OF hist s1' P1(2)] obtain e2 P2 where
        P2: "send_all rt P1 = Inr (e2, P2)" "pass_ok rt elems waiting popped Z [] P2"
          "pass_measure elems waiting P2 = pass_measure elems waiting P1" by blast
      show ?thesis
      proof (cases e2)
        case (Some err)
        then show ?thesis using True P1 P2 e1 by auto
      next
        case e2: None
        then have s2: "pass_safe (rt_messages rt) sent got id0 K P2" using send_all_safe [OF hist s1' P2(1)] by simp
        from refill_and_unblock_ok [OF H G gf P2(2)] obtain P3 where
          P3: "refill_and_unblock rt gf P2 = Inr P3" "pass_ok rt elems waiting popped Z [] P3"
            "pass_measure elems waiting P3 \<le> pass_measure elems waiting P2" "pa_unblock_this_batch P3 = []" by blast
        have "pass_measure elems waiting P3 < inn" "pass_measure elems waiting P3 < fuel"
          using Suc.prems(3,4) P1(3) P2(3) P3(3) by linarith+
        from Suc.IH [OF P3(2) conjunct1 [OF refill_and_unblock_safe [OF s2 P3(1)]] this P3(4)] obtain e P' where
          "outer_loop rt gf f m inn fuel P3 = Inr (e, P')" "pass_ok rt elems waiting popped Z [] P'"
          "pass_measure elems waiting P' \<le> pass_measure elems waiting P3" "e = None \<longrightarrow> pa_unblock_this_batch P' = []" by blast
        then show ?thesis using True P1 P2 P3 e1 e2 by auto
      qed
    qed
  qed
qed

section \<open>The end of a pass\<close>

text \<open>What was set aside and what is left in the graph goes back into the queue, which has room.\<close>

definition returnable ::
  "'h heap_api \<Rightarrow> ('h \<Rightarrow> transaction_priority_id multiset) \<Rightarrow> ('g \<Rightarrow> transaction_priority_id set)
     \<Rightarrow> transaction_priority_id list \<Rightarrow> ('tx, 'h, 'g, 's, 'r) pass \<Rightarrow> bool" where
  "returnable H elems waiting xs P \<longleftrightarrow>
     (let E = elems (priority_queue (pa_container P)) + mset xs + mset_set (waiting (pa_graph P)) in
      queued_ok E (id_to_transaction_state (pa_container P)) \<and>
      size E \<le> hp_capacity H (priority_queue (pa_container P)))"

lemma push_back_ok:
  assumes H: "heap_laws (rt_heap rt) elems" and ok: "returnable (rt_heap rt) elems waiting (x # xs) P"
  shows "\<exists>P'. push_back rt x P = Inr P' \<and> returnable (rt_heap rt) elems waiting xs P' \<and>
    elems (priority_queue (pa_container P')) = add_mset x (elems (priority_queue (pa_container P))) \<and>
    id_to_transaction_state (pa_container P') = id_to_transaction_state (pa_container P) \<and> pa_graph P' = pa_graph P"
proof -
  let ?C = "pa_container P"
  have q: "queued_ok (add_mset x (elems (priority_queue ?C))) (id_to_transaction_state ?C)"
    using ok unfolding returnable_def Let_def by (elim conjE) (erule queued_ok_mono, simp)
  have size: "size (elems (priority_queue ?C)) < hp_capacity (rt_heap rt) (priority_queue ?C)"
    using ok by (simp add: returnable_def Let_def)
  show ?thesis
    using H q
  proof (cases rule: push_id_into_queue_ok [consumes 2, case_names room full])
    case (room C')
    then show ?thesis using ok by (simp add: push_back_def returnable_def Let_def)
  next
    case (full y C')
    then show ?thesis using size by simp
  qed
qed

lemma push_all_back_ok:
  assumes H: "heap_laws (rt_heap rt) elems"
  shows "returnable (rt_heap rt) elems waiting xs P \<Longrightarrow>
    \<exists>P'. rfold (push_back rt) xs P = Inr P' \<and> returnable (rt_heap rt) elems waiting [] P' \<and>
    elems (priority_queue (pa_container P')) = elems (priority_queue (pa_container P)) + mset xs \<and>
    id_to_transaction_state (pa_container P') = id_to_transaction_state (pa_container P) \<and> pa_graph P' = pa_graph P"
proof (induction xs arbitrary: P)
  case Nil
  then show ?case by simp
next
  case (Cons x xs)
  from push_back_ok [OF H Cons.prems] obtain P1 where P1: "push_back rt x P = Inr P1"
    "returnable (rt_heap rt) elems waiting xs P1"
    "elems (priority_queue (pa_container P1)) = add_mset x (elems (priority_queue (pa_container P)))"
    "id_to_transaction_state (pa_container P1) = id_to_transaction_state (pa_container P)" "pa_graph P1 = pa_graph P" by blast
  from Cons.IH [OF P1(2)] P1 show ?case by auto
qed

lemma drain_graph_ok:
  assumes H: "heap_laws (rt_heap rt) elems" and G: "graph_laws (rt_graph rt) waiting popped"
  shows "returnable (rt_heap rt) elems waiting [] P \<Longrightarrow> popped (pa_graph P) = {} \<Longrightarrow> card (waiting (pa_graph P)) < fuel \<Longrightarrow>
    \<exists>P'. drain_graph rt fuel P = Inr P' \<and>
    elems (priority_queue (pa_container P')) = elems (priority_queue (pa_container P)) + mset_set (waiting (pa_graph P)) \<and>
    id_to_transaction_state (pa_container P') = id_to_transaction_state (pa_container P)"
proof (induction fuel arbitrary: P)
  case 0
  then show ?case by simp
next
  case (Suc fuel)
  show ?case
  proof (cases "pg_pop_and_unblock (rt_graph rt) (pa_graph P)")
    case None
    then show ?thesis using graph_lawsD(9) [OF G None Suc.prems(2)] by simp
  next
    case (Some xg)
    then obtain x g where pop: "pg_pop_and_unblock (rt_graph rt) (pa_graph P) = Some (x, g)" by (cases xg) auto
    note g = graph_lawsD(8) [OF G pop] and fin = graph_lawsD(3) [OF G]
    have ms: "mset_set (waiting (pa_graph P)) = add_mset x (mset_set (waiting g))"
      using g fin by (simp add: mset_set.remove)
    have "returnable (rt_heap rt) elems waiting [x] (P\<lparr>pa_graph := g\<rparr>)"
      using Suc.prems(1) ms by (simp add: returnable_def Let_def)
    from push_back_ok [OF H this] obtain P1 where P1: "push_back rt x (P\<lparr>pa_graph := g\<rparr>) = Inr P1"
      "returnable (rt_heap rt) elems waiting [] P1"
      "elems (priority_queue (pa_container P1)) = add_mset x (elems (priority_queue (pa_container P)))"
      "id_to_transaction_state (pa_container P1) = id_to_transaction_state (pa_container P)" "pa_graph P1 = g" by auto
    have "card (waiting (pa_graph P)) = Suc (card (waiting g))" using arg_cong [OF ms, of size] by simp
    then have "popped (pa_graph P1) = {}" "card (waiting (pa_graph P1)) < fuel" using Suc.prems(2,3) g P1(5) by simp_all
    from Suc.IH [OF P1(2) this] show ?thesis using pop P1 ms by auto
  qed
qed

text \<open>After all batches have been sent without an error none is left.\<close>

lemma send_batch_ids:
  assumes "send_batch rt t B S = Inr (Inr k, B', S')"
  shows "b_ids B' = (b_ids B)[t := []]"
proof (cases "b_ids B ! t = []")
  case True
  then have "B' = B" using assms by (auto simp: send_batch_def res_simps)
  then show ?thesis using True by (metis list_update_id)
next
  case False
  then show ?thesis
    using assms by (auto simp: send_batch_def res_simps take_batch_def split: option.splits if_splits)
qed

lemma send_batches_from_ids:
  "send_batches_from rt ts n B S = Inr (Inr m, B', S') \<Longrightarrow> length (b_ids B') = length (b_ids B) \<and>
     (\<forall>u < length (b_ids B). b_ids B' ! u = (if u \<in> set ts then [] else b_ids B ! u))"
proof (induction ts arbitrary: n B S)
  case Nil
  then show ?case by simp
next
  case (Cons t ts)
  from Cons.prems obtain r B1 S1 where r: "send_batch rt t B S = Inr (r, B1, S1)" by (auto simp: res_simps)
  then obtain k n1 where "r = Inr k" and rest: "send_batches_from rt ts n1 B1 S1 = Inr (Inr m, B', S')"
    using Cons.prems by (cases r) (auto simp: res_simps)
  then have one: "send_batch rt t B S = Inr (Inr k, B1, S1)" using r by simp
  from Cons.IH [OF rest] send_batch_ids [OF one] show ?case by (auto simp: nth_list_update)
qed

lemma send_all_empties:
  assumes safe: "pass_safe A sent got id0 K P" and run: "send_all rt P = Inr (None, P')"
  shows "batch_total (pa_batches P') = 0"
proof -
  let ?n = "length (consume_work_senders (pa_scheduler P))"
  obtain r B S where r: "send_batches_from rt [0..<?n] 0 (pa_batches P) (pa_scheduler P) = Inr (r, B, S)"
    using run by (auto simp: send_all_def send_batches_def res_simps simp del: upt_Suc)
  then obtain m where "r = Inr m" and B: "pa_batches P' = B"
    using run by (cases r) (auto simp: send_all_def send_batches_def Let_def simp del: upt_Suc)
  then have s: "send_batches_from rt [0..<?n] 0 (pa_batches P) (pa_scheduler P) = Inr (Inr m, B, S)" using r by simp
  have "length (b_ids (pa_batches P)) = ?n" using pass_safeD(3) [OF safe] by (simp add: batches_ok_def)
  then have "\<forall>b \<in> set (b_ids B). b = []" using send_batches_from_ids [OF s] by (auto simp: in_set_conv_nth)
  then show ?thesis by (auto simp: batch_total_def B)
qed

lemma finish_pass_ok:
  assumes hist: "channel_history (rt_channels rt) sent got" and H: "heap_laws (rt_heap rt) elems"
    and G: "graph_laws (rt_graph rt) waiting popped"
    and ok: "pass_ok rt elems waiting popped Z [] P" and safe: "pass_safe (rt_messages rt) sent got id0 K P"
    and fuel: "pass_measure elems waiting P < fuel" and unb: "pa_unblock_this_batch P = []"
  shows "\<exists>e P'. finish_pass rt fuel P = Inr (e, P') \<and>
    id_to_transaction_state (pa_container P') = id_to_transaction_state (pa_container P) \<and>
    elems (priority_queue (pa_container P')) \<subseteq># live_ids elems waiting P \<and>
    (e = None \<longrightarrow> elems (priority_queue (pa_container P')) = live_ids elems waiting P)"
proof -
  obtain e P1 where P1: "send_all rt P = Inr (e, P1)" "pass_ok rt elems waiting popped Z [] P1"
    "pa_container P1 = pa_container P" "pa_graph P1 = pa_graph P" "pa_unschedulable_ids P1 = pa_unschedulable_ids P"
    "pass_measure elems waiting P1 = pass_measure elems waiting P" "pa_unblock_this_batch P1 = []"
    using send_all_ok [OF hist safe ok] unb by auto
  show ?thesis
  proof (cases e)
    case (Some err)
    then show ?thesis using P1 by (simp add: finish_pass_def live_ids_def)
  next
    case None
    have "returnable (rt_heap rt) elems waiting (pa_unschedulable_ids P1) P1"
      using P1(2) by (simp add: returnable_def Let_def pass_ok_def live_ids_def ac_simps)
    from push_all_back_ok [OF H this] obtain P2 where P2: "rfold (push_back rt) (pa_unschedulable_ids P1) P1 = Inr P2"
      "returnable (rt_heap rt) elems waiting [] P2"
      "elems (priority_queue (pa_container P2)) = elems (priority_queue (pa_container P1)) + mset (pa_unschedulable_ids P1)"
      "id_to_transaction_state (pa_container P2) = id_to_transaction_state (pa_container P1)" "pa_graph P2 = pa_graph P1" by blast
    have "popped (pa_graph P2) = {}" "card (waiting (pa_graph P2)) < fuel"
      using P1(2,6,7) P2(5) fuel by (auto simp: pass_ok_def pass_measure_def)
    from drain_graph_ok [OF H G P2(2) this] obtain P3 where P3: "drain_graph rt fuel P2 = Inr P3"
      "elems (priority_queue (pa_container P3)) = elems (priority_queue (pa_container P2)) + mset_set (waiting (pa_graph P2))"
      "id_to_transaction_state (pa_container P3) = id_to_transaction_state (pa_container P2)" by blast
    have "pass_frame P1 P2" by (rule rfold_invariant [OF P2(1)]) (auto dest: push_back_frame pass_frame_trans)
    then have "pass_frame P1 P3" using drain_graph_frame [OF P3(1)] pass_frame_trans by blast
    moreover have "pa_num_scheduled P1 = pa_num_sent P1"
      using send_all_safe [OF hist safe P1(1)] send_all_empties [OF safe P1(1) [unfolded None]] None by (simp add: pass_safe_def)
    ultimately have "pa_num_scheduled P3 = pa_num_sent P3" by (simp add: pass_frame_def)
    then show ?thesis using P1 P2 P3 None by (simp add: finish_pass_def rassert_def live_ids_def ac_simps)
  qed
qed

section \<open>The pass\<close>

lemma run_pass_ok:
  assumes hist: "channel_history (rt_channels rt) sent got" and H: "heap_laws (rt_heap rt) elems"
    and G: "graph_laws (rt_graph rt) waiting popped" and gf: "filter_in_place gf"
    and ok: "pass_ok rt elems waiting popped Z [] P" and safe: "pass_safe (rt_messages rt) sent got id0 K P"
    and fuel: "pass_measure elems waiting P < fuel" and unb: "pa_unblock_this_batch P = []"
  shows "\<exists>e P'. run_pass rt gf f m fuel P = Inr (e, P') \<and> container_inv elems (pa_container P') \<and>
    (e = None \<longrightarrow> accounted Z (elems (priority_queue (pa_container P'))) (id_to_transaction_state (pa_container P')))"
proof -
  obtain P1 where P1: "chunked_pops rt gf P = Inr P1" "pass_ok rt elems waiting popped Z [] P1"
    "pass_measure elems waiting P1 \<le> pass_measure elems waiting P" "pass_frame P P1"
    using chunked_pops_ok [OF H G gf ok] by blast
  have P1': "pass_safe (rt_messages rt) sent got id0 K P1" "pa_unblock_this_batch P1 = []" "pass_measure elems waiting P1 < fuel"
    using pass_safe_frame [OF P1(4) safe] P1 fuel unb by (auto simp: pass_frame_def)
  obtain e P2 where P2: "outer_loop rt gf f m fuel fuel P1 = Inr (e, P2)" "pass_ok rt elems waiting popped Z [] P2"
    "pass_measure elems waiting P2 \<le> pass_measure elems waiting P1" "e = None \<longrightarrow> pa_unblock_this_batch P2 = []"
    using outer_loop_ok [OF hist H G gf P1(2) P1'(1,3,3,2)] by blast
  have q: "queued_ok (live_ids elems waiting P2) (id_to_transaction_state (pa_container P2))"
    using P2(2) by (simp add: pass_ok_def)
  show ?thesis
  proof (cases e)
    case (Some err)
    have "container_inv elems (pa_container P2)"
      unfolding container_inv_def by (rule queued_ok_mono [OF q]) (simp add: live_ids_def)
    then show ?thesis using P1 P2 Some by (simp add: run_pass_def)
  next
    case None
    then have s2: "pass_safe (rt_messages rt) sent got id0 K P2" using outer_loop_safe [OF hist P1'(1) P2(1)] by simp
    have "pass_measure elems waiting P2 < fuel" using P2(3) P1'(3) by simp
    from finish_pass_ok [OF hist H G P2(2) s2 this] P2(4) None obtain e' P3 where P3: "finish_pass rt fuel P2 = Inr (e', P3)"
      "id_to_transaction_state (pa_container P3) = id_to_transaction_state (pa_container P2)"
      "elems (priority_queue (pa_container P3)) \<subseteq># live_ids elems waiting P2"
      "e' = None \<longrightarrow> elems (priority_queue (pa_container P3)) = live_ids elems waiting P2" by blast
    have "container_inv elems (pa_container P3)"
      unfolding container_inv_def P3(2) by (rule queued_ok_mono [OF q P3(3)])
    then show ?thesis using P1 P2 P3 None by (auto simp: run_pass_def pass_ok_def)
  qed
qed

lemma threads_with_room_ok:
  assumes "n \<le> 64" "length (cus_in_flight_per_thread T) = n"
  shows "\<exists>ts. threads_with_room n m T = Inr ts"
proof -
  obtain any where any: "ts_any n = Inr any" using ts_any_ok [OF assms(1)] by blast
  have "\<exists>ts. rfold (\<lambda>t ts. rbind (rindex (cus_in_flight_per_thread T) t) (\<lambda>c.
       if c \<ge> m then ts_remove t ts else Inr ts)) [0..<n] any = Inr ts \<and> True"
  proof (rule rfold_returns)
    fix t ts
    assume "t \<in> set [0..<n]"
    then have "t < n" "t < 64" using assms(1) by auto
    then show "\<exists>s'. rbind (rindex (cus_in_flight_per_thread T) t) (\<lambda>c. if c \<ge> m then ts_remove t ts else Inr ts) = Inr s' \<and> True"
      using ts_remove_ok [of t ts] assms(2) by (auto simp: rindex_ok)
  qed simp
  with any show ?thesis by (auto simp: threads_with_room_def)
qed

lemma initial_pass_ok:
  assumes H: "heap_laws (rt_heap rt) elems" and G: "graph_laws (rt_graph rt) waiting popped"
    and C: "container_inv elems C"
    and room: "room_for (rt_messages rt) (new_batches (length (consume_work_senders S))) (id_to_transaction_state C) S"
    and acc: "accounted Z (elems (priority_queue C)) (id_to_transaction_state C)"
  shows "pass_ok rt elems waiting popped Z [] (initial_pass rt ts C S)"
    and "pass_measure elems waiting (initial_pass rt ts C S) = size (elems (priority_queue C))"
    and "pa_unblock_this_batch (initial_pass rt ts C S) = []"
proof -
  have live: "live_ids elems waiting (initial_pass rt ts C S) = elems (priority_queue C)"
    using graph_lawsD(1) [OF G] by (simp add: live_ids_def initial_pass_def)
  show "pass_ok rt elems waiting popped Z [] (initial_pass rt ts C S)"
    using C room acc graph_lawsD(2) [OF G] heap_lawsD(4) [OF H]
    by (simp add: pass_ok_def live) (simp add: initial_pass_def container_inv_def)
qed (use graph_lawsD(1) [OF G] in \<open>simp_all add: pass_measure_def initial_pass_def\<close>)

lemma schedule_ok:
  assumes hist: "channel_history (rt_channels rt) sent got" and H: "heap_laws (rt_heap rt) elems"
    and G: "graph_laws (rt_graph rt) waiting popped" and gf: "filter_in_place gf"
    and C: "container_inv elems C" and S: "sched_safe (rt_messages rt) sent got K S"
    and ids: "MAX_TRANSACTIONS_PER_SCHEDULING_PASS < unat (next_batch_id S)"
    and room: "room_for (rt_messages rt) (new_batches (length (consume_work_senders S))) (id_to_transaction_state C) S"
    and fuel: "size (elems (priority_queue C)) < fuel"
    and acc: "accounted Z (elems (priority_queue C)) (id_to_transaction_state C)"
  shows "\<exists>r C' S'. schedule rt fuel gf f C S = Inr (r, C', S') \<and> container_inv elems C' \<and>
    ((\<exists>summary. r = Inr summary) \<longrightarrow> accounted Z (elems (priority_queue C')) (id_to_transaction_state C'))"
proof -
  let ?n = "length (consume_work_senders S)" and ?m = "rt_max_block_units rt div length (consume_work_senders S)"
  have n: "0 < ?n" "?n \<le> 64" using S by (auto simp: sched_safe_def locks_accounted_def locks_inv_def)
  obtain ts where ts: "threads_with_room ?n ?m (in_flight S) = Inr ts"
    using threads_with_room_ok [OF n(2) room_forD(2) [OF room]] by blast
  have div: "checked_div (rt_max_block_units rt) ?n = Inr ?m" using n(1) by (simp add: checked_div_def)
  show ?thesis
  proof (cases "ts_is_empty ts")
    case True
    then show ?thesis using div ts C acc by (simp add: schedule_def Let_def)
  next
    case False
    let ?P = "initial_pass rt ts C S"
    note ok = initial_pass_ok [OF H G C room acc, of ts]
    have "pass_measure elems waiting ?P < fuel" using ok(2) fuel by simp
    from run_pass_ok [OF hist H G gf ok(1) sched_safe_initial_pass [OF S ids] this ok(3)] obtain e P where
      "run_pass rt gf f ?m fuel ?P = Inr (e, P)" "container_inv elems (pa_container P)"
      "e = None \<longrightarrow> accounted Z (elems (priority_queue (pa_container P))) (id_to_transaction_state (pa_container P))"
      by blast
    then show ?thesis using False div ts by (auto simp: schedule_def Let_def split: option.split)
  qed
qed

end
