(* ===== verification/Scheduler_Conservation.thy ===== *)
theory Scheduler_Conservation
  imports Scheduler_Progress
begin

text \<open>
  What a scheduling pass does with the transactions it is given.  \<open>kept\<close> compares the states of
  the transactions with those at the beginning of the pass: a transaction is as it was, or it is
  pending and in a batch, or the filter before the locks has refused it.
\<close>

section \<open>The ids that have left\<close>

definition ids_out ::
  "('s \<Rightarrow> 'tx scheduling_batch list) \<Rightarrow> 'tx pass_batches \<Rightarrow> ('s, 'r) prio_scheduler \<Rightarrow> transaction_id set" where
  "ids_out sent B S = (\<Union>b \<in> set (all_sent sent S). set (sb_ids b)) \<union> (\<Union>ids \<in> set (b_ids B). set ids)"

lemma set_update_superset: "set xs \<subseteq> insert (xs ! t) (set (xs[t := y]))"
proof
  fix z
  assume "z \<in> set xs"
  then obtain u where "u < length xs" "z = xs ! u" by (auto simp: in_set_conv_nth)
  then show "z \<in> insert (xs ! t) (set (xs[t := y]))"
    by (cases "u = t") (auto simp: in_set_conv_nth nth_list_update intro!: exI [of _ u])
qed

lemma send_batch_ids_out:
  assumes hist: "channel_history (rt_channels rt) sent got"
    and run: "send_batch rt t B S = Inr (Inr k, B', S')"
  shows "ids_out sent B S \<subseteq> ids_out sent B' S'"
proof (cases "b_ids B ! t = []")
  case True
  then show ?thesis using run by (auto simp: send_batch_def res_simps)
next
  case False
  then obtain bid s' T where t: "t < length (consume_work_senders S)"
    and sent: "ch_send (rt_channels rt) \<lparr>sb_batch_id = bid, sb_ids = b_ids B ! t, sb_transactions = b_transactions B ! t,
      sb_max_ages = b_max_ages B ! t\<rparr> (consume_work_senders S ! t) = Some s'"
    and S': "S' = S\<lparr>in_flight := T, consume_work_senders := (consume_work_senders S)[t := s']\<rparr>"
    using run by (auto simp: send_batch_def res_simps take_batch_def split: option.splits if_splits)
  define b where "b = \<lparr>sb_batch_id = bid, sb_ids = b_ids B ! t, sb_transactions = b_transactions B ! t,
      sb_max_ages = b_max_ages B ! t\<rparr>"
  have b: "sb_ids b = b_ids B ! t" and s': "ch_send (rt_channels rt) b (consume_work_senders S ! t) = Some s'"
    using sent by (simp_all add: b_def)
  have "set (all_sent sent S') = set (b # all_sent sent S)"
    using mset_eq_setD [OF mset_concat_update [OF t channel_historyD(1) [OF hist s']]] by (simp add: all_sent_def S')
  moreover have "set (b_ids B) \<subseteq> insert (b_ids B ! t) (set (b_ids B'))"
    using set_update_superset send_batch_ids [OF run] by metis
  ultimately show ?thesis using b unfolding ids_out_def by auto
qed

lemma send_batches_from_ids_out:
  assumes hist: "channel_history (rt_channels rt) sent got"
  shows "send_batches_from rt ts n B S = Inr (Inr m, B', S') \<Longrightarrow> ids_out sent B S \<subseteq> ids_out sent B' S'"
proof (induction ts arbitrary: n B S)
  case Nil
  then show ?case by simp
next
  case (Cons t ts)
  from Cons.prems obtain r B1 S1 where r: "send_batch rt t B S = Inr (r, B1, S1)" by (auto simp: res_simps)
  then obtain k n1 where "r = Inr k" and rest: "send_batches_from rt ts n1 B1 S1 = Inr (Inr m, B', S')"
    using Cons.prems by (cases r) (auto simp: res_simps)
  then show ?case using Cons.IH [OF rest] send_batch_ids_out [OF hist] r by blast
qed

section \<open>What is kept\<close>

definition kept ::
  "('tx \<Rightarrow> bool) \<Rightarrow> (transaction_id \<rightharpoonup> 'tx transaction_state) \<Rightarrow> transaction_id set
     \<Rightarrow> (transaction_id \<rightharpoonup> 'tx transaction_state) \<Rightarrow> bool" where
  "kept f st0 out st \<longleftrightarrow> (\<forall>i. st i = st0 i \<or>
     (\<exists>ttl p c. st0 i = Some (Unprocessed ttl p c) \<and>
        (st i = Some (Pending ttl p c) \<and> i \<in> out \<or> st i = None \<and> \<not> f (ttl_transaction ttl))))"

abbreviation pass_kept where
  "pass_kept f st0 sent P \<equiv>
     kept f st0 (ids_out sent (pa_batches P) (pa_scheduler P)) (id_to_transaction_state (pa_container P))"

lemma kept_refl: "kept f st out st"
  by (simp add: kept_def)

lemma kept_mono: "kept f st0 out st \<Longrightarrow> out \<subseteq> out' \<Longrightarrow> kept f st0 out' st"
  unfolding kept_def by blast

lemma kept_drop:
  assumes "kept f st0 out st" "st i = Some (Unprocessed ttl p c)" "\<not> f (ttl_transaction ttl)"
  shows "kept f st0 out (st(i := None))"
  using assms unfolding kept_def by (metis fun_upd_apply option.distinct(1) option.inject transaction_state.distinct(1))

lemma kept_pending:
  assumes "kept f st0 out st" "st i = Some (Unprocessed ttl p c)" "out \<subseteq> out'" "i \<in> out'"
  shows "kept f st0 out' (st(i \<mapsto> Pending ttl p c))"
  using kept_mono [OF assms(1,3)] assms(2,4) unfolding kept_def
  by (metis fun_upd_apply option.distinct(1) option.inject transaction_state.distinct(1))

text \<open>The filter of the graph lets everything pass.\<close>

definition passes_all :: "('tx list \<Rightarrow> bool list \<Rightarrow> bool list) \<Rightarrow> bool" where
  "passes_all gf \<longleftrightarrow> (\<forall>txs n. gf txs (replicate n True) = replicate n True)"

lemma insert_or_drop_states:
  "insert_or_drop rt (x, True) P = Inr P' \<Longrightarrow> pa_container P' = pa_container P"
  by (auto simp: insert_or_drop_def res_simps)

lemma pop_chunk_states:
  "pop_chunk H n C = (ids, C') \<Longrightarrow> id_to_transaction_state C' = id_to_transaction_state C"
proof (induction n arbitrary: C ids)
  case (Suc n)
  then show ?case
    by (fastforce simp: container_pop_def split: option.splits prod.splits)
qed simp

lemma pop_filter_insert_states:
  assumes gf: "passes_all gf" and run: "pop_filter_insert rt gf chunk P = Inr (full, P')"
  shows "id_to_transaction_state (pa_container P') = id_to_transaction_state (pa_container P)"
proof -
  obtain ids C where pc: "pop_chunk (rt_heap rt) chunk (pa_container P) = (ids, C)" by fastforce
  from run pc obtain ttls P1 where
    fold: "rfold (insert_or_drop rt) (zip ids (replicate chunk True)) P1 = Inr P'" and P1: "pa_container P1 = C"
    using gf by (auto simp: pop_filter_insert_def Let_def res_simps passes_all_def)
  have "pa_container P' = C"
  proof (rule rfold_invariant [OF fold, where I = "\<lambda>P. pa_container P = C"])
    fix xk Q Q'
    assume xk: "xk \<in> set (zip ids (replicate chunk True))" and Q: "pa_container Q = C" "insert_or_drop rt xk Q = Inr Q'"
    have "snd xk \<in> set (replicate chunk True)" using xk by (metis prod.collapse set_zip_rightD)
    then have "snd xk = True" by simp
    then show "pa_container Q' = C" using Q insert_or_drop_states [of rt "fst xk"] by (metis prod.collapse)
  qed (rule P1)
  then show ?thesis using pop_chunk_states [OF pc] by simp
qed

lemma chunked_pops_loop_states:
  assumes gf: "passes_all gf"
  shows "chunked_pops_loop rt gf budget P = Inr (b, P') \<Longrightarrow>
    id_to_transaction_state (pa_container P') = id_to_transaction_state (pa_container P)"
proof (induction budget arbitrary: P rule: less_induct)
  case (less budget)
  let ?chunk = "min budget MAX_FILTER_CHUNK_SIZE"
  show ?case
  proof (cases "budget = 0")
    case True
    then show ?thesis using less.prems by (subst (asm) chunked_pops_loop.simps) simp
  next
    case False
    have lt: "sat_sub budget ?chunk < budget" using False by (simp add: sat_sub_def MAX_FILTER_CHUNK_SIZE_def)
    from less.prems False obtain full P1 where P1: "pop_filter_insert rt gf ?chunk P = Inr (full, P1)"
      "(if full then chunked_pops_loop rt gf (sat_sub budget ?chunk) P1 else Inr (sat_sub budget ?chunk, P1)) = Inr (b, P')"
      by (subst (asm) chunked_pops_loop.simps) (auto simp: Let_def res_simps)
    then show ?thesis using less.IH [OF lt] pop_filter_insert_states [OF gf P1(1)] by (auto split: if_splits)
  qed
qed

lemma refill_and_unblock_states:
  assumes "passes_all gf" "refill_and_unblock rt gf P = Inr P'"
  shows "id_to_transaction_state (pa_container P') = id_to_transaction_state (pa_container P) \<and>
    pa_batches P' = pa_batches P \<and> pa_scheduler P' = pa_scheduler P"
  using assms chunked_pops_loop_states [OF assms(1)]
  by (fastforce simp: refill_and_unblock_def chunked_pops_def res_simps pass_frame_def
      dest: chunked_pops_loop_frame)

section \<open>The pass keeps\<close>

lemma push_to_batch_ids_out:
  assumes "push_to_batch t i tx age cost B = Inr B'"
  shows "insert i (ids_out sent B S) \<subseteq> ids_out sent B' S"
proof -
  have B': "t < length (b_ids B)" "b_ids B' = (b_ids B)[t := b_ids B ! t @ [i]]"
    using assms by (auto simp: push_to_batch_def res_simps)
  then have "b_ids B ! t @ [i] \<in> set (b_ids B')" by (simp add: set_update_memI)
  moreover have "set (b_ids B) \<subseteq> insert (b_ids B ! t) (set (b_ids B'))" using set_update_superset B'(2) by metis
  ultimately show ?thesis unfolding ids_out_def by fastforce
qed

lemma ids_out_locks [simp]: "ids_out sent B (S\<lparr>account_locks_table := L\<rparr>) = ids_out sent B S"
  by (simp add: ids_out_def all_sent_def)

lemma schedule_scheduled_kept:
  assumes hist: "channel_history (rt_channels rt) sent got"
    and run: "schedule_scheduled rt m x info P = Inr (exit, P')" and exit: "\<forall>e. exit \<noteq> RaiseError e"
  shows "pa_container P' = pa_container P \<and>
    insert (tp_id x) (ids_out sent (pa_batches P) (pa_scheduler P)) \<subseteq> ids_out sent (pa_batches P') (pa_scheduler P')"
  using run
proof (rule schedule_scheduled_cases)
  fix B ids r B' S'
  assume push: "push_to_batch (si_thread_id info) (tp_id x) (si_transaction info) (si_max_age info) (si_cost info) (pa_batches P) = Inr B"
    and send: "send_if_full rt (si_thread_id info) ids B (pa_scheduler P) = Inr (r, B', S')"
    and rest: "case r of Inl e \<Rightarrow> exit = RaiseError e \<and>
        P' = P\<lparr>pa_num_scheduled := sat_add 64 (pa_num_scheduled P) 1, pa_batches := B', pa_scheduler := S'\<rparr>
     | Inr k \<Rightarrow> P' = P\<lparr>pa_num_scheduled := sat_add 64 (pa_num_scheduled P) 1, pa_batches := B', pa_scheduler := S',
          pa_num_sent := sat_add 64 (pa_num_sent P) k, pa_schedulable_threads := pa_schedulable_threads P'\<rparr> \<and>
        (exit = BreakLoop \<or> exit = Proceed \<and> pa_num_scheduled P' < MAX_TRANSACTIONS_PER_SCHEDULING_PASS)"
  obtain k where r: "r = Inr k" using rest exit by (cases r) auto
  have "ids_out sent B (pa_scheduler P) \<subseteq> ids_out sent B' S'"
    using send send_batch_ids_out [OF hist] r by (auto simp: send_if_full_def split: if_splits)
  moreover have "pa_container P' = pa_container P" "pa_batches P' = B'" "pa_scheduler P' = S'"
    using rest unfolding r sum.case
    by (auto dest: arg_cong [where f = pa_container] arg_cong [where f = pa_batches] arg_cong [where f = pa_scheduler])
  ultimately show ?thesis using push_to_batch_ids_out [OF push, of sent "pa_scheduler P"] by auto
qed

lemma schedule_one_kept:
  assumes hist: "channel_history (rt_channels rt) sent got" and kept: "pass_kept f st0 sent P"
    and run: "schedule_one rt f m x P = Inr (exit, P')" and exit: "\<forall>e. exit \<noteq> RaiseError e"
  shows "pass_kept f st0 sent P'"
  using run
proof (rule schedule_one_Inr)
  fix s result s' blocking L
  let ?st = "id_to_transaction_state (pa_container P)"
  let ?P1 = "write_back (tp_id x) s' blocking L (P\<lparr>pa_unblock_this_batch := pa_unblock_this_batch P @ [x]\<rparr>)"
  assume s: "?st (tp_id x) = Some s"
    and sched: "try_schedule_transaction (rt_messages rt) f (length (consume_work_senders (pa_scheduler P)))
       (pass_selector P) s (pa_blocking_locks P) (account_locks_table (pa_scheduler P)) = Inr (result, s', blocking, L)"
    and rest: "handle_schedule_result rt m x result ?P1 = Inr (exit, P')"
  note wb = write_back_def put_transaction_state_def
  have aside: ?thesis if "result = Inl UnschedulableConflicts" "s' = s"
    using rest kept s that by (auto simp: handle_schedule_result_def wb fun_upd_idem)
  show ?thesis
    using sched
  proof (cases rule: try_schedule_transaction_cases)
    case (filtered ttl p c)
    have st: "?st (tp_id x) = Some (Unprocessed ttl p c)" using s filtered(1) by simp
    show ?thesis
      using rest filtered kept_drop [OF kept st filtered(2)]
      by (auto simp: handle_schedule_result_def remove_by_id_def res_simps wb split: option.splits)
  next
    case (scheduled ttl p c any t)
    have st: "?st (tp_id x) = Some (Unprocessed ttl p c)" using s scheduled(1) by simp
    note sk = schedule_scheduled_kept [OF hist rest [unfolded handle_schedule_result_def scheduled(6) sum.case] exit]
    then have "id_to_transaction_state (pa_container P') = ?st(tp_id x \<mapsto> Pending ttl p c)"
      using scheduled(7) by (simp add: wb)
    then show ?thesis using kept_pending [OF kept st] sk by (simp add: wb)
  qed (use aside in simp_all)
qed

lemma inner_loop_kept:
  assumes hist: "channel_history (rt_channels rt) sent got"
  shows "pass_kept f st0 sent P \<Longrightarrow> inner_loop rt f m fuel P = Inr (None, P') \<Longrightarrow> pass_kept f st0 sent P'"
proof (induction fuel arbitrary: P)
  case (Suc fuel)
  show ?case
  proof (cases "pg_pop (rt_graph rt) (pa_graph P)")
    case None
    then show ?thesis using Suc.prems by simp
  next
    case (Some xg)
    then obtain exit P1 where one: "schedule_one rt f m (fst xg) (P\<lparr>pa_graph := snd xg\<rparr>) = Inr (exit, P1)"
      and rest: "(case exit of Proceed \<Rightarrow> inner_loop rt f m fuel P1 | BreakLoop \<Rightarrow> Inr (None, P1)
        | RaiseError e \<Rightarrow> Inr (Some e, P1)) = Inr (None, P')"
      using Suc.prems(2) by (auto simp: res_simps split: prod.splits)
    have "pass_kept f st0 sent (P\<lparr>pa_graph := snd xg\<rparr>)" using Suc.prems(1) by simp
    note k = schedule_one_kept [OF hist this one]
    show ?thesis using rest k Suc.IH by (cases exit) auto
  qed
qed simp

lemma send_all_kept:
  assumes hist: "channel_history (rt_channels rt) sent got" and kept: "pass_kept f st0 sent P"
    and run: "send_all rt P = Inr (None, P')"
  shows "pass_kept f st0 sent P'"
proof -
  obtain r B S where r: "send_batches rt (pa_batches P) (pa_scheduler P) = Inr (r, B, S)"
    using run by (auto simp: send_all_def res_simps)
  then obtain n where n: "r = Inr n" "pa_batches P' = B" "pa_scheduler P' = S" "pa_container P' = pa_container P"
    using run by (cases r) (auto simp: send_all_def Let_def)
  show ?thesis
    using kept_mono [OF kept] send_batches_from_ids_out [OF hist] r n by (simp add: send_batches_def)
qed

lemma outer_loop_kept:
  assumes hist: "channel_history (rt_channels rt) sent got" and gf: "passes_all gf"
  shows "pass_kept f st0 sent P \<Longrightarrow> outer_loop rt gf f m inn fuel P = Inr (None, P') \<Longrightarrow> pass_kept f st0 sent P'"
proof (induction fuel arbitrary: P)
  case (Suc fuel)
  show ?case
  proof (cases "pa_num_scheduled P < MAX_TRANSACTIONS_PER_SCHEDULING_PASS \<and> \<not> pg_is_empty (rt_graph rt) (pa_graph P)")
    case False
    then show ?thesis using Suc.prems by (auto split: if_splits)
  next
    case True
    then obtain P1 P2 P3 where P1: "inner_loop rt f m inn P = Inr (None, P1)" and P2: "send_all rt P1 = Inr (None, P2)"
      and P3: "refill_and_unblock rt gf P2 = Inr P3" "outer_loop rt gf f m inn fuel P3 = Inr (None, P')"
      using Suc.prems(2) by (auto simp: res_simps split: if_splits)
    have "pass_kept f st0 sent P2"
      using send_all_kept [OF hist inner_loop_kept [OF hist Suc.prems(1) P1] P2] .
    then show ?thesis using Suc.IH [OF _ P3(2)] refill_and_unblock_states [OF gf P3(1)] by simp
  qed
qed simp

lemma finish_pass_frame:
  assumes "finish_pass rt fuel P = Inr (None, P')"
  shows "\<exists>P1. send_all rt P = Inr (None, P1) \<and> pass_frame P1 P'"
proof -
  from assms obtain P1 P2 where P1: "send_all rt P = Inr (None, P1)"
    and P2: "rfold (push_back rt) (pa_unschedulable_ids P1) P1 = Inr P2" and P3: "drain_graph rt fuel P2 = Inr P'"
    by (auto simp: finish_pass_def res_simps split: if_splits)
  have "pass_frame P1 P2" by (rule rfold_invariant [OF P2]) (auto dest: push_back_frame pass_frame_trans)
  then show ?thesis using P1 drain_graph_frame [OF P3] pass_frame_trans by blast
qed

lemma ids_out_empty: "batch_total B = 0 \<Longrightarrow> ids_out sent B S = (\<Union>b \<in> set (all_sent sent S). set (sb_ids b))"
  by (auto simp: ids_out_def batch_total_def)

lemma run_pass_kept:
  assumes hist: "channel_history (rt_channels rt) sent got" and H: "heap_laws (rt_heap rt) elems"
    and G: "graph_laws (rt_graph rt) waiting popped" and gf: "passes_all gf"
    and ok: "pass_ok rt elems waiting popped Z [] P" and safe: "pass_safe (rt_messages rt) sent got id0 K P"
    and fuel: "pass_measure elems waiting P < fuel" and unb: "pa_unblock_this_batch P = []"
    and run: "run_pass rt gf f m fuel P = Inr (None, P')"
  shows "kept f (id_to_transaction_state (pa_container P)) (\<Union>b \<in> set (all_sent sent (pa_scheduler P')). set (sb_ids b))
    (id_to_transaction_state (pa_container P'))"
proof -
  have gf': "filter_in_place gf" using gf by (simp add: filter_in_place_def passes_all_def)
  from run obtain P1 P2 where P1: "chunked_pops rt gf P = Inr P1" and P2: "outer_loop rt gf f m fuel fuel P1 = Inr (None, P2)"
    and P3: "finish_pass rt fuel P2 = Inr (None, P')"
    by (auto simp: run_pass_def res_simps split: if_splits)
  have ok1: "pass_ok rt elems waiting popped Z [] P1" "pass_measure elems waiting P1 < fuel"
    using chunked_pops_ok [OF H G gf' ok] P1 fuel by auto
  have safe1: "pass_safe (rt_messages rt) sent got id0 K P1" "pa_unblock_this_batch P1 = []"
    using pass_safe_frame [OF chunked_pops_frame [OF P1] safe] chunked_pops_frame [OF P1] unb by (auto simp: pass_frame_def)
  have ok2: "pass_ok rt elems waiting popped Z [] P2" "pass_measure elems waiting P2 < fuel" "pa_unblock_this_batch P2 = []"
    using outer_loop_ok [OF hist H G gf' ok1(1) safe1(1) ok1(2,2) safe1(2), of f m] P2 ok1(2) by auto
  have safe2: "pass_safe (rt_messages rt) sent got id0 K P2" using outer_loop_safe [OF hist safe1(1) P2] by simp
  have "id_to_transaction_state (pa_container P1) = id_to_transaction_state (pa_container P)"
    using P1 chunked_pops_loop_states [OF gf] by (auto simp: chunked_pops_def res_simps)
  then have "pass_kept f (id_to_transaction_state (pa_container P)) sent P1" by (simp add: kept_refl)
  note k2 = outer_loop_kept [OF hist gf this P2]
  obtain P4 where P4: "send_all rt P2 = Inr (None, P4)" "pass_frame P4 P'" using finish_pass_frame [OF P3] by blast
  have k4: "pass_kept f (id_to_transaction_state (pa_container P)) sent P4" using send_all_kept [OF hist k2 P4(1)] .
  have "id_to_transaction_state (pa_container P') = id_to_transaction_state (pa_container P2)"
    using finish_pass_ok [OF hist H G ok2(1) safe2 ok2(2,3)] P3 by auto
  moreover have "pa_container P4 = pa_container P2" using send_all_ok [OF hist safe2 ok2(1)] P4(1) by auto
  moreover have "ids_out sent (pa_batches P4) (pa_scheduler P4) = (\<Union>b \<in> set (all_sent sent (pa_scheduler P')). set (sb_ids b))"
    using ids_out_empty [OF send_all_empties [OF safe2 P4(1)]] P4(2) by (simp add: pass_frame_def)
  ultimately show ?thesis using k4 by simp
qed

lemma schedule_kept:
  assumes hist: "channel_history (rt_channels rt) sent got" and H: "heap_laws (rt_heap rt) elems"
    and G: "graph_laws (rt_graph rt) waiting popped" and gf: "passes_all gf"
    and C: "container_inv elems C" and S: "sched_safe (rt_messages rt) sent got K S"
    and ids: "MAX_TRANSACTIONS_PER_SCHEDULING_PASS < unat (next_batch_id S)"
    and room: "room_for (rt_messages rt) (new_batches (length (consume_work_senders S))) (id_to_transaction_state C) S"
    and fuel: "size (elems (priority_queue C)) < fuel"
    and run: "schedule rt fuel gf f C S = Inr (Inr summary, C', S')"
  shows "kept f (id_to_transaction_state C) (\<Union>b \<in> set (all_sent sent S'). set (sb_ids b)) (id_to_transaction_state C')"
proof -
  from run consider (idle) "C' = C"
    | (ran) m ts P where "run_pass rt gf f m fuel (initial_pass rt ts C S) = Inr (None, P)"
        "C' = pa_container P" "S' = pa_scheduler P"
    by (auto simp: schedule_def Let_def res_simps split: if_splits option.splits)
  then show ?thesis
  proof cases
    case idle
    then show ?thesis by (simp add: kept_refl)
  next
    case (ran m ts P)
    have "accounted UNIV (elems (priority_queue C)) (id_to_transaction_state C)" by (simp add: accounted_def)
    note ok = initial_pass_ok [OF H G C room this, of ts]
    have "pass_measure elems waiting (initial_pass rt ts C S) < fuel" using ok(2) fuel by simp
    from run_pass_kept [OF hist H G gf ok(1) sched_safe_initial_pass [OF S ids] this ok(3) ran(1)] ran(2,3)
    show ?thesis by (simp add: initial_pass_def)
  qed
qed

section \<open>Properties\<close>

text \<open>
  C4.  A scheduling pass returns.  Whatever the filters answer and whichever conflicts there are,
  \<^verbatim>\<open>schedule\<close> does not panic, its loops end within as many rounds as there are ids in the queue, and
  it leaves the container well-formed; the only error it can report is that of a worker whose
  channel is gone.  This holds as long as the counters of the tracker and of the locks have room
  for the queued transactions and the batch ids do not run out.
\<close>

theorem schedule_returns:
  assumes "channel_history (rt_channels rt) sent got" "heap_laws (rt_heap rt) elems"
    and "graph_laws (rt_graph rt) waiting popped" "filter_in_place gf"
    and "container_inv elems C" "sched_safe (rt_messages rt) sent got K S"
    and "MAX_TRANSACTIONS_PER_SCHEDULING_PASS < unat (next_batch_id S)"
    and "room_for (rt_messages rt) (new_batches (length (consume_work_senders S))) (id_to_transaction_state C) S"
    and "size (elems (priority_queue C)) < fuel"
  shows "\<exists>r C' S'. schedule rt fuel gf f C S = Inr (r, C', S') \<and> container_inv elems C'"
  using schedule_ok [OF assms, of UNIV f] by (auto simp: accounted_def)


section \<open>Witnesses\<close>

lemma list_graph_laws: "graph_laws (rt_graph example_runtime) (set \<circ> fst) (set \<circ> snd)"
  by (auto simp: graph_laws_def example_runtime_def list_graph_api_def split: list.splits)

lemma example_container_ok: "container_inv list_heap_elems example_queued"
  by (auto simp: container_inv_def queued_ok_def example_queued_def list_heap_elems_def)

lemma example_room_for: "room_for (rt_messages example_runtime) (new_batches (length (consume_work_senders (inner example_new))))
    (id_to_transaction_state example_queued) (inner example_new)"
  by (simp add: room_for_def Let_def usum_def example_new_def example_queued_def new_in_flight_tracker_def
      new_batches_def example_runtime_def example_messages_def umax_def less_Suc_eq wcount_def rcount_def)

lemma example_sched_safe: "sched_safe (rt_messages example_runtime) id fst {#} (inner example_new)"
  by (rule new_wrapper_safe [OF example_new_run]) simp_all

lemma example_ids: "MAX_TRANSACTIONS_PER_SCHEDULING_PASS < unat (next_batch_id (inner example_new))"
  by (simp add: MAX_TRANSACTIONS_PER_SCHEDULING_PASS_def example_new_def new_in_flight_tracker_def
      id_generator_default_def unsigned_minus_1_eq_mask mask_eq_exp_minus_1)

lemma example_heap_laws: "heap_laws (rt_heap example_runtime) list_heap_elems"
  by (simp add: example_runtime_def list_heap_laws)

lemma example_fuel: "size (list_heap_elems (priority_queue example_queued)) < 10"
  by (simp add: list_heap_elems_def example_queued_def)

lemma example_schedule:
  obtains summary C' S' where "schedule example_runtime 10 (\<lambda>_ flags. replicate (length flags) True) (\<lambda>_. True)
    example_queued (inner example_new) = Inr (Inr summary, C', S')"
    "consume_work_senders S' = [[example_sent0], [example_sent1]]"
proof -
  obtain P where P: "run_pass example_runtime (\<lambda>_ flags. replicate (length flags) True) (\<lambda>_. True)
      24000000 10 (initial_pass example_runtime 3 example_queued (inner example_new)) = Inr (None, P)"
    "consume_work_senders (pa_scheduler P) = [[example_sent0], [example_sent1]]"
    using example_pass by blast
  have new: "length (consume_work_senders (inner example_new)) = 2"
    "in_flight (inner example_new) = new_in_flight_tracker 2"
    "rt_max_block_units example_runtime = 48000000"
    by (simp_all add: example_new_def example_runtime_def)
  have "schedule example_runtime 10 (\<lambda>_ flags. replicate (length flags) True) (\<lambda>_. True)
    example_queued (inner example_new) = Inr (Inr (pass_summary P), pa_container P, pa_scheduler P)"
    by (simp add: schedule_def new checked_div_def example_room ts_is_empty_def ts_none_def P(1))
  with P(2) that show ?thesis by blast
qed

theorem schedule_returns_witness:
  "\<exists>r C' S'. schedule example_runtime 10 (\<lambda>txs flags. map Not flags) (\<lambda>tx. snd tx = 1) example_queued (inner example_new) =
     Inr (r, C', S') \<and> container_inv list_heap_elems C'"
proof -
  have "filter_in_place (\<lambda>txs flags. map Not flags)" by (simp add: filter_in_place_def)
  from schedule_returns [OF list_channels_history example_heap_laws list_graph_laws this example_container_ok
      example_sched_safe example_ids example_room_for example_fuel, of "\<lambda>tx. snd tx = 1"]
  show ?thesis .
qed


end
