(* ===== verification/Status_Slicing.thy ===== *)
theory Status_Slicing
  imports Igloo_Prelude Complex_Main
begin

text \<open>
  The load statistics of the workers, \<^verbatim>\<open>scheduler/src/status_slicing.rs\<close>: the periods in which a
  worker was active or idle, the windows of time they cover, and how much of a window the workers
  were active.

  A time is a number of milliseconds; a subtraction below zero and a sum above \<open>2^64 - 1\<close> panic.
  What the code does with floating-point numbers is expressed with the operations of \<open>float_api\<close>,
  an argument of the definitions that use them.  The statuses of a thread are kept in the order of
  the first update of each thread: the code visits the values of a hash map, and in whichever order
  it does, it adds up the same numbers.
\<close>

section \<open>Statuses\<close>

datatype slicing_status = Active nat nat | Idle nat nat

fun status_start :: "slicing_status \<Rightarrow> nat" where
  "status_start (Active s e) = s"
| "status_start (Idle s e) = s"

fun status_end :: "slicing_status \<Rightarrow> nat" where
  "status_end (Active s e) = e"
| "status_end (Idle s e) = e"

fun status_is_active :: "slicing_status \<Rightarrow> bool" where
  "status_is_active (Active s e) = True"
| "status_is_active (Idle s e) = False"

fun status_is_idle :: "slicing_status \<Rightarrow> bool" where
  "status_is_idle (Idle s e) = True"
| "status_is_idle (Active s e) = False"

definition new_active :: "nat \<Rightarrow> nat \<Rightarrow> slicing_status" where
  "new_active s e = Active s e"

definition new_idle :: "nat \<Rightarrow> nat \<Rightarrow> slicing_status" where
  "new_idle s e = Idle s e"

fun duration_ms :: "slicing_status \<Rightarrow> nat" where
  "duration_ms (Active s e) = sat_sub e s"
| "duration_ms (Idle s e) = sat_sub e s"

record worker_status_update =
  wu_thread_id :: nat
  wu_status :: slicing_status

section \<open>Windows\<close>

type_synonym window = "nat \<times> nat"

definition merge_window :: "window list \<Rightarrow> window \<Rightarrow> window list" where
  "merge_window merged w =
     (let l = last merged in
      if fst w \<le> snd l then butlast merged @ [(fst l, max (snd l) (snd w))] else merged @ [w])"

fun merge_time_windows :: "window list \<Rightarrow> window list" where
  "merge_time_windows [] = []"
| "merge_time_windows (w # ws) = foldl merge_window [w] ws"

section \<open>Load\<close>

record 'f float_api =
  f_zero :: 'f
  f_of_nat :: "nat \<Rightarrow> 'f"
  f_add :: "'f \<Rightarrow> 'f \<Rightarrow> 'f"
  f_mul :: "'f \<Rightarrow> 'f \<Rightarrow> 'f"
  f_div :: "'f \<Rightarrow> 'f \<Rightarrow> 'f"

record 'f thread_load_summary =
  total_duration :: nat
  weighted_load :: 'f
  average_load :: 'f
  merged_windows :: nat

fun push_status :: "nat \<Rightarrow> slicing_status \<Rightarrow> (nat \<times> slicing_status list) list \<Rightarrow> (nat \<times> slicing_status list) list" where
  "push_status t s [] = [(t, [s])]"
| "push_status t s ((u, ss) # rest) = (if u = t then (u, ss @ [s]) # rest else (u, ss) # push_status t s rest)"

definition group_statuses :: "worker_status_update list \<Rightarrow> (nat \<times> slicing_status list) list" where
  "group_statuses updates = fold (\<lambda>u. push_status (wu_thread_id u) (wu_status u)) updates []"

text \<open>The part of an active period that lies in a window.\<close>

fun add_overlap :: "window \<Rightarrow> slicing_status \<Rightarrow> nat \<Rightarrow> nat res" where
  "add_overlap w (Active s e) acc =
     (if s < snd w \<and> e > fst w
      then rbind (checked_sub (min e (snd w)) (max s (fst w))) (checked_add 64 acc)
      else Inr acc)"
| "add_overlap w (Idle s e) acc = Inr acc"

definition active_thread_time :: "window \<Rightarrow> (nat \<times> slicing_status list) list \<Rightarrow> nat res" where
  "active_thread_time w groups = rfold (\<lambda>(t, ss). rfold (add_overlap w) ss) groups 0"

definition add_window ::
  "'f float_api \<Rightarrow> (nat \<times> slicing_status list) list \<Rightarrow> window \<Rightarrow> 'f thread_load_summary
     \<Rightarrow> 'f thread_load_summary res" where
  "add_window F groups w summary =
     rbind (checked_sub (snd w) (fst w)) (\<lambda>duration.
     rbind (active_thread_time w groups) (\<lambda>active.
     let load = f_div F (f_of_nat F active) (f_mul F (f_of_nat F duration) (f_of_nat F (length groups))) in
     rbind (checked_add 64 (total_duration summary) duration) (\<lambda>d.
     Inr (summary\<lparr>total_duration := d,
       weighted_load := f_add F (weighted_load summary) (f_mul F load (f_of_nat F duration))\<rparr>))))"

definition calculate_thread_load_summary ::
  "'f float_api \<Rightarrow> worker_status_update list \<Rightarrow> 'f thread_load_summary res" where
  "calculate_thread_load_summary F updates =
     (let windows = map (\<lambda>u. (status_start (wu_status u), status_end (wu_status u))) updates;
          groups = group_statuses updates;
          merged = merge_time_windows (sort_key fst windows)
      in rbind (rfold (add_window F groups) merged
                  \<lparr>total_duration = 0, weighted_load = f_zero F, average_load = f_zero F,
                   merged_windows = length merged\<rparr>) (\<lambda>summary.
         Inr (summary\<lparr>average_load := f_div F (weighted_load summary) (f_of_nat F (total_duration summary))\<rparr>)))"

section \<open>Merging\<close>

definition covered :: "window list \<Rightarrow> nat set" where
  "covered ws = (\<Union>w \<in> set ws. {fst w..<snd w})"

text \<open>Windows in order, none empty before its start, with a gap between any two.\<close>

definition separated :: "window list \<Rightarrow> bool" where
  "separated ws \<longleftrightarrow> (\<forall>w \<in> set ws. fst w \<le> snd w) \<and> sorted_wrt (\<lambda>v w. snd v < fst w) ws"

lemma covered_simps [simp]: "covered [] = {}" "covered (w # ws) = {fst w..<snd w} \<union> covered ws"
  "covered (vs @ ws) = covered vs \<union> covered ws"
  by (auto simp: covered_def)

lemma merge_window_step:
  assumes sep: "separated ms" "ms \<noteq> []" and w: "fst w \<le> snd w" "fst (last ms) \<le> fst w"
  shows "separated (merge_window ms w) \<and> merge_window ms w \<noteq> [] \<and>
    covered (merge_window ms w) = covered ms \<union> {fst w..<snd w} \<and> fst (last (merge_window ms w)) \<le> fst w"
proof -
  obtain vs l where ms: "ms = vs @ [l]" using sep(2) by (metis append_butlast_last_id)
  show ?thesis
  proof (cases "fst w \<le> snd l")
    case True
    have "{fst l..<max (snd l) (snd w)} = {fst l..<snd l} \<union> {fst w..<snd w}" using True w ms by auto
    then show ?thesis
      using True sep w by (auto simp: ms merge_window_def separated_def sorted_wrt_append)
  next
    case False
    then show ?thesis
      using sep w by (fastforce simp: ms merge_window_def separated_def sorted_wrt_append)
  qed
qed

lemma merge_fold:
  assumes "separated ms" "ms \<noteq> []" "sorted (map fst ws)" "\<forall>w \<in> set ws. fst w \<le> snd w \<and> fst (last ms) \<le> fst w"
  shows "separated (foldl merge_window ms ws) \<and> covered (foldl merge_window ms ws) = covered ms \<union> covered ws"
  using assms
proof (induction ws arbitrary: ms)
  case Nil
  then show ?case by simp
next
  case (Cons w ws)
  have w: "fst w \<le> snd w" "fst (last ms) \<le> fst w" using Cons.prems(4) by auto
  note step = merge_window_step [OF Cons.prems(1,2) w]
  have "\<forall>v \<in> set ws. fst v \<le> snd v \<and> fst (last (merge_window ms w)) \<le> fst v"
    using Cons.prems(3,4) step by fastforce
  with Cons.IH [of "merge_window ms w"] step Cons.prems(3) show ?case by auto
qed

lemma merge_time_windows_ok:
  assumes "sorted (map fst ws)" "\<forall>w \<in> set ws. fst w \<le> snd w"
  shows "separated (merge_time_windows ws) \<and> covered (merge_time_windows ws) = covered ws"
proof (cases ws)
  case (Cons w vs)
  have "separated [w]" using assms Cons by (simp add: separated_def)
  then show ?thesis using merge_fold [of "[w]" vs] assms by (simp add: Cons)
qed (simp add: separated_def)

lemma separated_Cons: "separated (w # ws) \<longleftrightarrow> fst w \<le> snd w \<and> (\<forall>v \<in> set ws. snd w < fst v) \<and> separated ws"
  by (auto simp: separated_def)

lemma separated_length: "separated ws \<Longrightarrow> (\<Sum>w \<leftarrow> ws. snd w - fst w) = card (covered ws)"
proof (induction ws)
  case (Cons w ws)
  have "{fst w..<snd w} \<inter> covered ws = {}" using Cons.prems by (fastforce simp: separated_Cons covered_def)
  then have "card ({fst w..<snd w} \<union> covered ws) = (snd w - fst w) + card (covered ws)"
    by (subst card_Un_disjoint) (auto simp: covered_def)
  then show ?case using Cons by (simp add: separated_Cons)
qed simp

section \<open>Active time\<close>

fun active_slice :: "slicing_status \<Rightarrow> nat set" where
  "active_slice (Active s e) = {s..<e}"
| "active_slice (Idle s e) = {}"

definition overlap :: "window \<Rightarrow> slicing_status \<Rightarrow> nat" where
  "overlap w s = card (active_slice s \<inter> {fst w..<snd w})"

lemma add_overlap_ok:
  assumes "status_start s \<le> status_end s" "fst w \<le> snd w" "acc + overlap w s \<le> umax 64"
  shows "add_overlap w s acc = Inr (acc + overlap w s)"
proof (cases s)
  case (Active a b)
  have eq: "{a..<b} \<inter> {fst w..<snd w} = {max a (fst w)..<min b (snd w)}" by auto
  show ?thesis
  proof (cases "a < snd w \<and> b > fst w")
    case True
    then have "max a (fst w) \<le> min b (snd w)" using assms by (simp add: Active)
    with True assms(3) show ?thesis by (simp add: Active overlap_def eq checked_sub_ok checked_add_ok)
  next
    case False
    then have "{max a (fst w)..<min b (snd w)} = {}" by auto
    with False show ?thesis by (auto simp: Active overlap_def eq)
  qed
qed (simp add: overlap_def)

lemma add_overlaps_ok:
  assumes "\<forall>s \<in> set ss. status_start s \<le> status_end s" "fst w \<le> snd w" "acc + sum_list (map (overlap w) ss) \<le> umax 64"
  shows "rfold (add_overlap w) ss acc = Inr (acc + sum_list (map (overlap w) ss))"
  using assms
proof (induction ss arbitrary: acc)
  case (Cons s ss)
  have "add_overlap w s acc = Inr (acc + overlap w s)" using Cons.prems by (intro add_overlap_ok) auto
  then show ?case using Cons.IH [of "acc + overlap w s"] Cons.prems by (simp add: add.assoc)
qed simp

lemma rfold_concat: "rfold (\<lambda>(t, ss). rfold g ss) groups a = rfold g (concat (map snd groups)) a"
proof (induction groups arbitrary: a)
  case (Cons x groups)
  then show ?case by (cases x; cases "rfold g (snd x) a") (simp_all add: rfold_append)
qed simp

lemma push_status_mset: "mset (concat (map snd (push_status t s g))) = add_mset s (mset (concat (map snd g)))"
  by (induction t s g rule: push_status.induct) auto

lemma group_statuses_mset: "mset (concat (map snd (group_statuses us))) = mset (map wu_status us)"
proof -
  have "mset (concat (map snd (fold (\<lambda>u. push_status (wu_thread_id u) (wu_status u)) us g))) =
      mset (map wu_status us) + mset (concat (map snd g))" for g
    by (induction us arbitrary: g) (simp_all add: push_status_mset)
  from this [of "[]"] show ?thesis by (simp add: group_statuses_def)
qed

lemma group_overlap_sum:
  "sum_list (map (overlap w) (concat (map snd (group_statuses us)))) = (\<Sum>u \<leftarrow> us. overlap w (wu_status u))"
  using arg_cong [OF group_statuses_mset [of us], of "\<lambda>M. sum_mset (image_mset (overlap w) M)"]
  by (simp flip: mset_map sum_mset_sum_list add: comp_def)

lemma active_thread_time_ok:
  assumes "\<forall>u \<in> set us. status_start (wu_status u) \<le> status_end (wu_status u)" "fst w \<le> snd w"
    "(\<Sum>u \<leftarrow> us. overlap w (wu_status u)) \<le> umax 64"
  shows "active_thread_time w (group_statuses us) = Inr (\<Sum>u \<leftarrow> us. overlap w (wu_status u))"
proof -
  let ?ss = "concat (map snd (group_statuses us))"
  note sum = group_overlap_sum [of w us]
  have "set ?ss = wu_status ` set us" using arg_cong [OF group_statuses_mset [of us], of set_mset] by simp
  then have "\<forall>s \<in> set ?ss. status_start s \<le> status_end s" using assms(1) by auto
  from add_overlaps_ok [OF this assms(2), of 0] sum assms(3) show ?thesis
    unfolding active_thread_time_def rfold_concat by (simp del: set_concat)
qed

section \<open>The summary\<close>

lemma overlap_le: "overlap w s \<le> duration_ms s"
proof (cases s)
  case (Active a b)
  have "card ({a..<b} \<inter> {fst w..<snd w}) \<le> card {a..<b}" by (intro card_mono) auto
  then show ?thesis by (simp add: Active overlap_def sat_sub_def)
qed (simp add: overlap_def)

lemma add_windows_ok:
  assumes us: "\<forall>u \<in> set us. status_start (wu_status u) \<le> status_end (wu_status u)"
    "(\<Sum>u \<leftarrow> us. duration_ms (wu_status u)) \<le> umax 64"
    and "\<forall>w \<in> set ws. fst w \<le> snd w" "total_duration s + (\<Sum>w \<leftarrow> ws. snd w - fst w) \<le> umax 64"
  shows "\<exists>s'. rfold (add_window F (group_statuses us)) ws s = Inr s' \<and>
    total_duration s' = total_duration s + (\<Sum>w \<leftarrow> ws. snd w - fst w) \<and> merged_windows s' = merged_windows s"
  using assms(3,4)
proof (induction ws arbitrary: s)
  case (Cons w ws)
  have "(\<Sum>u \<leftarrow> us. overlap w (wu_status u)) \<le> umax 64"
    using us(2) sum_list_mono [of us "\<lambda>u. overlap w (wu_status u)" "\<lambda>u. duration_ms (wu_status u)"] overlap_le
    by (meson le_trans)
  from active_thread_time_ok [OF us(1) _ this] Cons.prems(1)
  obtain s1 where "add_window F (group_statuses us) w s = Inr s1"
    "total_duration s1 = total_duration s + (snd w - fst w)" "merged_windows s1 = merged_windows s"
    using Cons.prems by (simp add: add_window_def checked_sub_ok checked_add_ok)
  with Cons.IH [of s1] Cons.prems show ?case by (auto simp: add.assoc)
qed simp

lemma covered_sort: "covered (sort_key f ws) = covered ws"
  by (simp add: covered_def)

lemma card_covered_le: "card (covered ws) \<le> (\<Sum>w \<leftarrow> ws. snd w - fst w)"
proof (induction ws)
  case (Cons w ws)
  have "card ({fst w..<snd w} \<union> covered ws) \<le> (snd w - fst w) + card (covered ws)"
    using card_Un_le [of "{fst w..<snd w}" "covered ws"] by simp
  then show ?case using Cons by simp
qed simp

section \<open>Threads\<close>

lemma push_status_map_of:
  "distinct (map fst g) \<Longrightarrow> distinct (map fst (push_status t s g)) \<and> fst ` set (push_status t s g) = insert t (fst ` set g) \<and>
     map_of (push_status t s g) u =
       (if u = t then Some ((case map_of g t of None \<Rightarrow> [] | Some ss \<Rightarrow> ss) @ [s]) else map_of g u)"
  by (induction t s g rule: push_status.induct) (auto split: option.splits)

definition statuses_of :: "nat \<Rightarrow> worker_status_update list \<Rightarrow> slicing_status list" where
  "statuses_of t us = map wu_status (filter (\<lambda>u. wu_thread_id u = t) us)"

lemma group_statuses_map_of:
  "distinct (map fst (group_statuses us)) \<and>
   map_of (group_statuses us) t = (if statuses_of t us = [] then None else Some (statuses_of t us))"
proof (induction us arbitrary: t rule: rev_induct)
  case Nil
  then show ?case by (simp add: group_statuses_def statuses_of_def)
next
  case (snoc u us)
  have eq: "group_statuses (us @ [u]) = push_status (wu_thread_id u) (wu_status u) (group_statuses us)"
    by (simp add: group_statuses_def)
  note ih = snoc.IH [of t] snoc.IH [of "wu_thread_id u"]
  note ps = push_status_map_of [of "group_statuses us" "wu_thread_id u" "wu_status u" t]
  show ?case using ih ps unfolding eq by (auto simp: statuses_of_def split: if_splits)
qed

text \<open>No worker is active twice at the same time.\<close>

definition one_at_a_time :: "worker_status_update list \<Rightarrow> bool" where
  "one_at_a_time us \<longleftrightarrow> (\<forall>t. sorted_wrt (\<lambda>a b. active_slice a \<inter> active_slice b = {}) (statuses_of t us))"

lemma finite_active_slice [simp]: "finite (active_slice s)"
  by (cases s) auto

lemma disjoint_overlap_le:
  assumes "sorted_wrt (\<lambda>a b. active_slice a \<inter> active_slice b = {}) ss"
  shows "sum_list (map (overlap w) ss) = card ((\<Union>s \<in> set ss. active_slice s) \<inter> {fst w..<snd w})"
  using assms
proof (induction ss)
  case (Cons s ss)
  let ?U = "\<Union>s \<in> set ss. active_slice s" and ?W = "{fst w..<snd w}"
  have "(active_slice s \<inter> ?W) \<inter> (?U \<inter> ?W) = {}" using Cons.prems by auto
  then have "card ((active_slice s \<inter> ?W) \<union> (?U \<inter> ?W)) = overlap w s + card (?U \<inter> ?W)"
    unfolding overlap_def by (intro card_Un_disjoint) auto
  moreover have "(active_slice s \<inter> ?W) \<union> (?U \<inter> ?W) = (\<Union>s \<in> set (s # ss). active_slice s) \<inter> ?W" by auto
  ultimately show ?case using Cons by simp
qed simp

lemma group_overlap_le:
  assumes "one_at_a_time us"
  shows "sum_list (map (overlap w) (concat (map snd (group_statuses us)))) \<le> length (group_statuses us) * (snd w - fst w)"
proof -
  have "sum_list (map (overlap w) ss) \<le> snd w - fst w" if "(t, ss) \<in> set (group_statuses us)" for t ss
  proof -
    have "ss = statuses_of t us"
      using that group_statuses_map_of [of us t] by (auto dest: map_of_is_SomeI split: if_splits)
    then have "sum_list (map (overlap w) ss) = card ((\<Union>s \<in> set ss. active_slice s) \<inter> {fst w..<snd w})"
      using assms disjoint_overlap_le by (auto simp: one_at_a_time_def)
    also have "\<dots> \<le> card {fst w..<snd w}" by (intro card_mono) auto
    finally show ?thesis by simp
  qed
  then have "sum_list (map (overlap w) (concat (map snd g))) \<le> length g * (snd w - fst w)"
    if "set g \<subseteq> set (group_statuses us)" for g
    using that by (induction g) (fastforce simp: add_le_mono)+
  then show ?thesis by blast
qed

section \<open>Properties\<close>

text \<open>
  \<^verbatim>\<open>merge_time_windows\<close>, given windows in the order of their starts, returns windows that
  cover exactly the same moments, are in order, and have a gap between any two of them.
\<close>

lemma merge_time_windows_covers:
  assumes "sorted (map fst ws)" "\<forall>w \<in> set ws. fst w \<le> snd w"
  shows "(\<Union>w \<in> set (merge_time_windows ws). {fst w..<snd w}) = (\<Union>w \<in> set ws. {fst w..<snd w}) \<and>
    sorted_wrt (\<lambda>v w. snd v < fst w) (merge_time_windows ws)"
  using merge_time_windows_ok [OF assms] by (simp add: covered_def separated_def)

text \<open>
  The load summary of well-formed updates is computed without a panic, its total duration is
  the number of milliseconds that lie in some reported period, and in every window the active time
  is at most the length of the window for each thread, provided no worker reports two active
  periods that overlap: the load never exceeds one.
\<close>

lemma thread_load_summary_bounds:
  assumes "\<forall>u \<in> set us. status_start (wu_status u) \<le> status_end (wu_status u)"
    and "(\<Sum>u \<leftarrow> us. duration_ms (wu_status u)) \<le> umax 64" and "one_at_a_time us"
  shows "\<exists>s. calculate_thread_load_summary F us = Inr s \<and>
    total_duration s = card (\<Union>u \<in> set us. {status_start (wu_status u)..<status_end (wu_status u)}) \<and>
    (\<forall>w. fst w \<le> snd w \<longrightarrow> (\<exists>a. active_thread_time w (group_statuses us) = Inr a \<and>
       a \<le> length (group_statuses us) * (snd w - fst w)))"
proof -
  let ?ws = "map (\<lambda>u. (status_start (wu_status u), status_end (wu_status u))) us"
  let ?ms = "merge_time_windows (sort_key fst ?ws)"
  have dur: "duration_ms s = status_end s - status_start s" for s by (cases s) (simp_all add: sat_sub_def)
  have ms: "separated ?ms" "covered ?ms = covered ?ws"
    using merge_time_windows_ok [of "sort_key fst ?ws"] assms(1) by (auto simp: covered_sort)
  have sum: "(\<Sum>w \<leftarrow> ?ms. snd w - fst w) = card (covered ?ws)" using separated_length [OF ms(1)] ms(2) by simp
  have "card (covered ?ws) \<le> umax 64"
    using card_covered_le [of ?ws] assms(2) by (simp add: comp_def dur)
  then obtain s where "rfold (add_window F (group_statuses us)) ?ms \<lparr>total_duration = 0, weighted_load = f_zero F,
      average_load = f_zero F, merged_windows = length ?ms\<rparr> = Inr s" "total_duration s = card (covered ?ws)"
    using add_windows_ok [OF assms(1,2), of ?ms "\<lparr>total_duration = 0, weighted_load = f_zero F,
      average_load = f_zero F, merged_windows = length ?ms\<rparr>" F] ms(1) sum by (auto simp: separated_def)
  then have "\<exists>s. calculate_thread_load_summary F us = Inr s \<and> total_duration s = card (covered ?ws)"
    by (simp add: calculate_thread_load_summary_def Let_def)
  moreover have "covered ?ws = (\<Union>u \<in> set us. {status_start (wu_status u)..<status_end (wu_status u)})"
    by (simp add: covered_def)
  moreover have "\<exists>a. active_thread_time w (group_statuses us) = Inr a \<and> a \<le> length (group_statuses us) * (snd w - fst w)"
    if w: "fst w \<le> snd w" for w
  proof -
    have "(\<Sum>u \<leftarrow> us. overlap w (wu_status u)) \<le> umax 64"
      using assms(2) sum_list_mono [of us "\<lambda>u. overlap w (wu_status u)" "\<lambda>u. duration_ms (wu_status u)"] overlap_le
      by (meson le_trans)
    from active_thread_time_ok [OF assms(1) w this] group_overlap_le [OF assms(3), of w] show ?thesis
      unfolding group_overlap_sum by simp
  qed
  ultimately show ?thesis by simp
qed

end
