(* ===== verification/No_Lock_Scheduler.thy ===== *)
theory No_Lock_Scheduler
  imports Prio_Scheduler
begin

text \<open>
  \<^verbatim>\<open>NoLockScheduler\<close> of \<^verbatim>\<open>impls/no_lock_scheduler/mod.rs\<close>: the scheduler that deals a batch out to
  the workers in chunks of 64 transactions, without looking at their accounts.
\<close>

section \<open>The scheduler\<close>

record 's no_lock_scheduler =
  thread_num :: nat
  task_senders :: "'s list"

definition new_no_lock :: "'s list \<Rightarrow> 's no_lock_scheduler" where
  "new_no_lock senders = \<lparr>thread_num = length senders, task_senders = senders\<rparr>"

definition exec_batch :: nat where
  "exec_batch = 64"

text \<open>The closure of \<^verbatim>\<open>for_each\<close>.\<close>

definition deal_chunk ::
  "('tx, 's, 'r) channel_api \<Rightarrow> 'tx scheduling_batch \<Rightarrow> nat \<times> 'tx list \<Rightarrow> 's no_lock_scheduler
     \<Rightarrow> 's no_lock_scheduler res" where
  "deal_chunk Ch txs = (\<lambda>(i, chunk) S.
     rbind (checked_mod (unat (batch_id_value (sb_batch_id txs))) (thread_num S)) (\<lambda>first.
     rbind (checked_add 64 first i) (\<lambda>k.
     rbind (checked_mod k (thread_num S)) (\<lambda>worker_id.
     rbind (rslice (i * exec_batch) ((i + 1) * exec_batch) (sb_ids txs)) (\<lambda>ids.
     rbind (rindex (task_senders S) worker_id) (\<lambda>s.
       case ch_send Ch \<lparr>sb_batch_id = sb_batch_id txs, sb_ids = ids, sb_transactions = chunk, sb_max_ages = []\<rparr> s of
         None \<Rightarrow> Inl (UnwrapOnNone ''called Result::unwrap() on an Err value'')
       | Some s' \<Rightarrow> Inr (S\<lparr>task_senders := (task_senders S)[worker_id := s']\<rparr>)))))))"

definition no_lock_schedule_batch ::
  "('tx, 's, 'r) channel_api \<Rightarrow> 'tx scheduling_batch \<Rightarrow> 's no_lock_scheduler
     \<Rightarrow> ((scheduler_error + unit) \<times> 's no_lock_scheduler) res" where
  "no_lock_schedule_batch Ch txs S =
     rbind (rfold (deal_chunk Ch txs) (enumerate 0 (chunks exec_batch (sb_transactions txs))) S) (\<lambda>S'.
     Inr (Inr (), S'))"

definition no_lock_receive_complete ::
  "'s no_lock_scheduler \<Rightarrow> ((scheduler_error + unit) \<times> 's no_lock_scheduler) res" where
  "no_lock_receive_complete S = Inr (Inr (), S)"

section \<open>Dealing\<close>

definition dealt_to :: "'tx scheduling_batch \<Rightarrow> nat \<Rightarrow> nat \<Rightarrow> nat" where
  "dealt_to txs n i = (unat (batch_id_value (sb_batch_id txs)) mod n + i) mod n"

definition dealt_batch :: "'tx scheduling_batch \<Rightarrow> nat \<Rightarrow> 'tx scheduling_batch" where
  "dealt_batch txs i = \<lparr>sb_batch_id = sb_batch_id txs, sb_ids = take 64 (drop (i * 64) (sb_ids txs)),
     sb_transactions = take 64 (drop (i * 64) (sb_transactions txs)), sb_max_ages = []\<rparr>"

text \<open>All channels are connected, and a sender remembers what it was given.\<close>

definition connected :: "('tx, 's, 'r) channel_api \<Rightarrow> ('s \<Rightarrow> 'tx scheduling_batch list) \<Rightarrow> bool" where
  "connected Ch sent \<longleftrightarrow> (\<forall>b s. \<exists>s'. ch_send Ch b s = Some s' \<and> sent s' = sent s @ [b])"

abbreviation dealt :: "'tx scheduling_batch \<Rightarrow> nat \<Rightarrow> nat \<Rightarrow> nat \<Rightarrow> 'tx scheduling_batch list" where
  "dealt txs n k w \<equiv> map (dealt_batch txs) (filter (\<lambda>i. dealt_to txs n i = w) [0..<k])"

lemma deal_chunk_ok:
  assumes ch: "connected Ch sent" and n: "thread_num S = n" "length (task_senders S) = n" "0 < n" "n + i \<le> umax 64"
    and ids: "(i + 1) * 64 \<le> length (sb_ids txs)"
  shows "\<exists>S'. deal_chunk Ch txs (i, take 64 (drop (i * 64) (sb_transactions txs))) S = Inr S' \<and>
    thread_num S' = n \<and> length (task_senders S') = n \<and>
    (\<forall>w < n. sent (task_senders S' ! w) =
       sent (task_senders S ! w) @ (if dealt_to txs n i = w then [dealt_batch txs i] else []))"
proof -
  let ?w = "dealt_to txs n i" and ?first = "unat (batch_id_value (sb_batch_id txs)) mod n"
  have w: "?w < n" using n(3) by (simp add: dealt_to_def)
  have "?first < n" using n(3) by simp
  then have sum: "?first + i \<le> umax 64" using n(4) by linarith
  obtain s' where s': "ch_send Ch (dealt_batch txs i) (task_senders S ! ?w) = Some s'"
    "sent s' = sent (task_senders S ! ?w) @ [dealt_batch txs i]"
    using ch unfolding connected_def by blast
  have "deal_chunk Ch txs (i, take 64 (drop (i * 64) (sb_transactions txs))) S =
      Inr (S\<lparr>task_senders := (task_senders S)[?w := s']\<rparr>)"
    using n sum w ids s'(1)
    by (simp add: deal_chunk_def checked_mod_def checked_add_ok rslice_def rindex_ok exec_batch_def
        dealt_to_def dealt_batch_def)
  then show ?thesis using n s'(2) w by (auto simp: nth_list_update)
qed

lemma deal_chunks_ok:
  assumes ch: "connected Ch sent" and n: "thread_num S = n" "length (task_senders S) = n" "0 < n"
  shows "n + k \<le> umax 64 \<Longrightarrow> k * 64 \<le> length (sb_ids txs) \<Longrightarrow>
    \<exists>S'. rfold (deal_chunk Ch txs) (map (\<lambda>i. (i, take 64 (drop (i * 64) (sb_transactions txs)))) [0..<k]) S = Inr S' \<and>
      thread_num S' = n \<and> length (task_senders S') = n \<and>
      (\<forall>w < n. sent (task_senders S' ! w) = sent (task_senders S ! w) @ dealt txs n k w)"
proof (induction k)
  case 0
  then show ?case using n by simp
next
  case (Suc k)
  then obtain S1 where S1: "rfold (deal_chunk Ch txs) (map (\<lambda>i. (i, take 64 (drop (i * 64) (sb_transactions txs)))) [0..<k]) S = Inr S1"
    "thread_num S1 = n" "length (task_senders S1) = n"
    "\<forall>w < n. sent (task_senders S1 ! w) = sent (task_senders S ! w) @ dealt txs n k w" by auto
  obtain S2 where S2: "deal_chunk Ch txs (k, take 64 (drop (k * 64) (sb_transactions txs))) S1 = Inr S2"
    "thread_num S2 = n" "length (task_senders S2) = n"
    "\<forall>w < n. sent (task_senders S2 ! w) = sent (task_senders S1 ! w) @ (if dealt_to txs n k = w then [dealt_batch txs k] else [])"
    using deal_chunk_ok [OF ch S1(2,3) n(3), of k txs] Suc.prems by auto
  show ?case using S1 S2 by (simp add: rfold_append)
qed

lemma enumerate_chunks:
  "enumerate 0 (chunks exec_batch xs) = map (\<lambda>i. (i, take 64 (drop (i * 64) xs))) [0..<(length xs + 63) div 64]"
  by (simp add: exec_batch_def chunks_nth enumerate_eq_zip zip_map2 zip_same_conv_map comp_def add.commute)

lemma div_round_up: "0 < n \<Longrightarrow> m mod n \<noteq> 0 \<Longrightarrow> (m + (n - 1)) div n = Suc (m div n)" for m n :: nat
proof -
  assume n: "0 < n" "m mod n \<noteq> 0"
  have "m + (n - 1) = m mod n - 1 + (m div n + 1) * n" 
  proof -
    have "m = m div n * n + m mod n" by simp
    moreover have "1 \<le> m mod n" using n(2) by simp
    ultimately show ?thesis using n(1) unfolding add_mult_distrib by linarith
  qed
  moreover have "(m mod n - 1) div n = 0" using n mod_less_divisor [of n m] by (intro div_less) linarith
  ultimately show ?thesis using div_mult_self1 [of n "m mod n - 1" "m div n + 1"] n(1) by (simp only:)
qed

section \<open>Properties\<close>

text \<open>
  C37.  A batch whose length is a multiple of 64 is dealt out completely: chunk \<open>i\<close> goes to the
  worker that follows \<open>i\<close> places after the one its batch id selects, with the ids that belong to its
  transactions, and every worker gets its chunks in order after what it had.
\<close>

theorem no_lock_deals:
  assumes "connected Ch sent" "senders \<noteq> []" "length (sb_transactions txs) = 64 * k"
    "length (sb_ids txs) = 64 * k" "length senders + k \<le> umax 64"
  shows "\<exists>S'. no_lock_schedule_batch Ch txs (new_no_lock senders) = Inr (Inr (), S') \<and>
    (\<forall>w < length senders. sent (task_senders S' ! w) = sent (senders ! w) @
       map (dealt_batch txs) (filter (\<lambda>i. dealt_to txs (length senders) i = w) [0..<k]))"
proof -
  have k: "(length (sb_transactions txs) + 63) div 64 = k" using assms(3) by simp
  from deal_chunks_ok [OF assms(1), of "new_no_lock senders" "length senders" k txs] assms(2,4,5) show ?thesis
    unfolding no_lock_schedule_batch_def enumerate_chunks k by (auto simp: new_no_lock_def)
qed

text \<open>
  A batch whose length is not a multiple of 64 makes the scheduler panic: the last chunk of
  transactions is shorter than 64, but the slice of the ids is not.
\<close>

lemma no_lock_partial_chunk_panics:
  assumes "connected Ch sent" "senders \<noteq> []" "length (sb_transactions txs) = length (sb_ids txs)"
    "length (sb_ids txs) mod 64 \<noteq> 0" "length senders + length (sb_ids txs) \<le> umax 64"
  shows "no_lock_schedule_batch Ch txs (new_no_lock senders) = Inl IndexOutOfBounds"
proof -
  let ?len = "length (sb_ids txs)" and ?n = "length senders"
  let ?k = "?len div 64"
  have k: "(length (sb_transactions txs) + 63) div 64 = Suc ?k" using assms(3) div_round_up [OF _ assms(4)] by simp
  have "?n + ?k \<le> umax 64" "?k * 64 \<le> ?len" using assms(5) by linarith+
  from deal_chunks_ok [OF assms(1), of "new_no_lock senders" ?n, OF _ _ _ this] assms(2) obtain S1 where
    S1: "rfold (deal_chunk Ch txs) (map (\<lambda>i. (i, take 64 (drop (i * 64) (sb_transactions txs)))) [0..<?k])
      (new_no_lock senders) = Inr S1" "thread_num S1 = ?n" by (auto simp: new_no_lock_def)
  have short: "\<not> (?k + 1) * 64 \<le> ?len" using div_mult_mod_eq [of ?len 64] mod_less_divisor [of 64 ?len] by (simp add: algebra_simps)
  have "unat (batch_id_value (sb_batch_id txs)) mod ?n < ?n" using assms(2) by simp
  then have "unat (batch_id_value (sb_batch_id txs)) mod ?n + ?k \<le> umax 64" using assms(5) by linarith
  then have "deal_chunk Ch txs (?k, take 64 (drop (?k * 64) (sb_transactions txs))) S1 = Inl IndexOutOfBounds"
    using S1(2) assms(2) short
    by (simp add: deal_chunk_def checked_mod_def checked_add_ok rslice_def exec_batch_def)
  then show ?thesis
    unfolding no_lock_schedule_batch_def enumerate_chunks k by (simp add: rfold_append S1(1))
qed

section \<open>Witnesses\<close>

definition example_wires :: "(nat, nat scheduling_batch list, unit) channel_api" where
  "example_wires = \<lparr>ch_send = (\<lambda>b s. Some (s @ [b])), ch_try_recv = (\<lambda>r. (Inl RecvEmpty, r))\<rparr>"

lemma example_wires_connected: "connected example_wires id"
  by (simp add: connected_def example_wires_def)

definition example_deal :: "nat \<Rightarrow> nat scheduling_batch" where
  "example_deal n = \<lparr>sb_batch_id = TransactionBatchId 1, sb_ids = map (\<lambda>i. TransactionId (of_nat i)) [0..<n],
     sb_transactions = [0..<n], sb_max_ages = []\<rparr>"

lemma example_deal_fields: "length (sb_ids (example_deal n)) = n" "length (sb_transactions (example_deal n)) = n"
  "sb_batch_id (example_deal n) = TransactionBatchId 1"
  by (simp_all add: example_deal_def)

theorem no_lock_deals_witness:
  "\<exists>S'. no_lock_schedule_batch example_wires (example_deal 128) (new_no_lock [[], []]) = Inr (Inr (), S') \<and>
     task_senders S' ! 0 = [dealt_batch (example_deal 128) 1] \<and> task_senders S' ! 1 = [dealt_batch (example_deal 128) 0]"
proof -
  have "\<exists>S'. no_lock_schedule_batch example_wires (example_deal 128) (new_no_lock [[], []]) = Inr (Inr (), S') \<and>
    (\<forall>w < length [[], []]. id (task_senders S' ! w) = id ([[], []] ! w) @
       map (dealt_batch (example_deal 128)) (filter (\<lambda>i. dealt_to (example_deal 128) (length [[], []]) i = w) [0..<2]))"
    using no_lock_deals [OF example_wires_connected, of "[[], []]" "example_deal 128" 2]
    by (simp add: example_deal_fields umax_def)
  then show ?thesis
    by (auto simp: less_Suc_eq dealt_to_def upt_rec numeral_2_eq_2 example_deal_fields simp del: upt_Suc)
qed

end
