(* ===== verification/Scheduler_Metrics.thy ===== *)
theory Scheduler_Metrics
  imports Igloo_Prelude
begin

text \<open>
  The counters and timers of \<^verbatim>\<open>impls/prio_graph_scheduler/scheduler_metrics.rs\<close> and the stop watch
  of \<^verbatim>\<open>scheduler/src/stopwatch.rs\<close>.

  A data point is what the code hands to the metrics crate: a name, the fields in order, and the
  slot where one is added.  An operation that reports returns the data points it submits along with
  the new state.  When an interval is over is decided by \<^verbatim>\<open>AtomicInterval\<close> of the Solana SDK, which
  is the argument \<open>should_update\<close>; the clock is an argument as well.
\<close>

section \<open>Data points\<close>

record datapoint =
  dp_name :: string
  dp_fields :: "(string \<times> nat) list"
  dp_slot :: "slot option"

text \<open>Metrics of one kind: how they are reported and how they are reset.\<close>

record 'm metrics_kind =
  mk_fields :: "'m \<Rightarrow> (string \<times> nat) list"
  mk_reset :: "'m \<Rightarrow> 'm"
  mk_interval_name :: string
  mk_slot_name :: string

definition report_metrics :: "'m metrics_kind \<Rightarrow> string \<Rightarrow> slot option \<Rightarrow> 'm \<Rightarrow> datapoint" where
  "report_metrics k name slot m = \<lparr>dp_name = name, dp_fields = mk_fields k m, dp_slot = slot\<rparr>"

record ('i, 'm) interval_metrics =
  im_interval :: 'i
  im_metrics :: 'm

record 'm slot_metrics =
  sm_slot :: "slot option"
  sm_metrics :: 'm

definition REPORT_INTERVAL_MS :: nat where
  "REPORT_INTERVAL_MS = 1000"

definition interval_maybe_report_and_reset ::
  "('i \<Rightarrow> nat \<Rightarrow> bool \<times> 'i) \<Rightarrow> 'm metrics_kind \<Rightarrow> bool \<Rightarrow> ('i, 'm) interval_metrics
     \<Rightarrow> datapoint list \<times> ('i, 'm) interval_metrics" where
  "interval_maybe_report_and_reset should_update k should_report M =
     (let (due, i) = should_update (im_interval M) REPORT_INTERVAL_MS in
      if due
      then (if should_report then [report_metrics k (mk_interval_name k) None (im_metrics M)] else [],
            M\<lparr>im_interval := i, im_metrics := mk_reset k (im_metrics M)\<rparr>)
      else ([], M\<lparr>im_interval := i\<rparr>))"

definition slot_maybe_report_and_reset ::
  "'m metrics_kind \<Rightarrow> slot option \<Rightarrow> 'm slot_metrics \<Rightarrow> datapoint list \<times> 'm slot_metrics" where
  "slot_maybe_report_and_reset k slot M =
     (if sm_slot M \<noteq> slot
      then (if sm_slot M \<noteq> None then [report_metrics k (mk_slot_name k) (sm_slot M) (sm_metrics M)] else [],
            \<lparr>sm_slot = slot, sm_metrics = mk_reset k (sm_metrics M)\<rparr>)
      else ([], M))"

text \<open>The counters of an interval and those of a slot, updated together.\<close>

record ('i, 'm) scheduler_metrics =
  sc_interval :: "('i, 'm) interval_metrics"
  sc_slot :: "'m slot_metrics"

definition metrics_update :: "('m \<Rightarrow> 'm) \<Rightarrow> ('i, 'm) scheduler_metrics \<Rightarrow> ('i, 'm) scheduler_metrics" where
  "metrics_update f M =
     M\<lparr>sc_interval := (sc_interval M)\<lparr>im_metrics := f (im_metrics (sc_interval M))\<rparr>,
       sc_slot := (sc_slot M)\<lparr>sm_metrics := f (sm_metrics (sc_slot M))\<rparr>\<rparr>"

definition maybe_report_and_reset_slot ::
  "'m metrics_kind \<Rightarrow> slot option \<Rightarrow> ('i, 'm) scheduler_metrics \<Rightarrow> datapoint list \<times> ('i, 'm) scheduler_metrics" where
  "maybe_report_and_reset_slot k slot M =
     (let (out, s) = slot_maybe_report_and_reset k slot (sc_slot M) in (out, M\<lparr>sc_slot := s\<rparr>))"

definition maybe_report_and_reset_interval ::
  "('i \<Rightarrow> nat \<Rightarrow> bool \<times> 'i) \<Rightarrow> 'm metrics_kind \<Rightarrow> bool \<Rightarrow> ('i, 'm) scheduler_metrics
     \<Rightarrow> datapoint list \<times> ('i, 'm) scheduler_metrics" where
  "maybe_report_and_reset_interval should_update k should_report M =
     (let (out, i) = interval_maybe_report_and_reset should_update k should_report (sc_interval M)
      in (out, M\<lparr>sc_interval := i\<rparr>))"

section \<open>Counters\<close>

record count_metrics =
  num_received :: nat
  num_buffered :: nat
  num_scheduled :: nat
  num_unschedulable :: nat
  num_schedule_filtered_out :: nat
  num_finished :: nat
  num_retryable :: nat
  num_forwarded :: nat
  num_dropped_on_receive :: nat
  num_dropped_on_sanitization :: nat
  num_dropped_on_validate_locks :: nat
  num_dropped_on_receive_transaction_checks :: nat
  num_dropped_on_clear :: nat
  num_dropped_on_age_and_status :: nat
  num_dropped_on_capacity :: nat
  min_prioritization_fees :: nat
  max_prioritization_fees :: nat

definition count_metrics_default :: count_metrics where
  "count_metrics_default =
     \<lparr>num_received = 0, num_buffered = 0, num_scheduled = 0, num_unschedulable = 0,
      num_schedule_filtered_out = 0, num_finished = 0, num_retryable = 0, num_forwarded = 0,
      num_dropped_on_receive = 0, num_dropped_on_sanitization = 0, num_dropped_on_validate_locks = 0,
      num_dropped_on_receive_transaction_checks = 0, num_dropped_on_clear = 0,
      num_dropped_on_age_and_status = 0, num_dropped_on_capacity = 0,
      min_prioritization_fees = 0, max_prioritization_fees = 0\<rparr>"

definition get_min_priority :: "count_metrics \<Rightarrow> nat" where
  "get_min_priority m = (if min_prioritization_fees m \<noteq> umax 64 then min_prioritization_fees m else 0)"

definition get_max_priority :: "count_metrics \<Rightarrow> nat" where
  "get_max_priority m = max_prioritization_fees m"

definition count_report_fields :: "count_metrics \<Rightarrow> (string \<times> nat) list" where
  "count_report_fields m =
     [(''num_received'', num_received m),
      (''num_buffered'', num_buffered m),
      (''num_scheduled'', num_scheduled m),
      (''num_unschedulable'', num_unschedulable m),
      (''num_schedule_filtered_out'', num_schedule_filtered_out m),
      (''num_finished'', num_finished m),
      (''num_retryable'', num_retryable m),
      (''num_forwarded'', num_forwarded m),
      (''num_dropped_on_receive'', num_dropped_on_receive m),
      (''num_dropped_on_sanitization'', num_dropped_on_sanitization m),
      (''num_dropped_on_validate_locks'', num_dropped_on_validate_locks m),
      (''num_dropped_on_receive_transaction_checks'', num_dropped_on_receive_transaction_checks m),
      (''num_dropped_on_clear'', num_dropped_on_clear m),
      (''num_dropped_on_age_and_status'', num_dropped_on_age_and_status m),
      (''num_dropped_on_capacity'', num_dropped_on_capacity m),
      (''min_priority'', get_min_priority m),
      (''max_priority'', get_max_priority m)]"

definition has_data :: "count_metrics \<Rightarrow> bool" where
  "has_data m \<longleftrightarrow>
     num_received m \<noteq> 0 \<or> num_buffered m \<noteq> 0 \<or> num_scheduled m \<noteq> 0 \<or> num_unschedulable m \<noteq> 0 \<or>
     num_schedule_filtered_out m \<noteq> 0 \<or> num_finished m \<noteq> 0 \<or> num_retryable m \<noteq> 0 \<or>
     num_forwarded m \<noteq> 0 \<or> num_dropped_on_receive m \<noteq> 0 \<or> num_dropped_on_sanitization m \<noteq> 0 \<or>
     num_dropped_on_validate_locks m \<noteq> 0 \<or> num_dropped_on_receive_transaction_checks m \<noteq> 0 \<or>
     num_dropped_on_clear m \<noteq> 0 \<or> num_dropped_on_age_and_status m \<noteq> 0 \<or> num_dropped_on_capacity m \<noteq> 0"

definition count_reset :: "count_metrics \<Rightarrow> count_metrics" where
  "count_reset m =
     m\<lparr>num_received := 0, num_buffered := 0, num_scheduled := 0, num_unschedulable := 0,
       num_schedule_filtered_out := 0, num_finished := 0, num_retryable := 0, num_forwarded := 0,
       num_dropped_on_receive := 0, num_dropped_on_sanitization := 0,
       num_dropped_on_validate_locks := 0, num_dropped_on_receive_transaction_checks := 0,
       num_dropped_on_clear := 0, num_dropped_on_age_and_status := 0, num_dropped_on_capacity := 0,
       min_prioritization_fees := umax 64, max_prioritization_fees := 0\<rparr>"

datatype 'a min_max = NoElements | OneElement 'a | MinMax 'a 'a

fun update_priority_stats :: "nat min_max \<Rightarrow> count_metrics \<Rightarrow> count_metrics" where
  "update_priority_stats NoElements m = m"
| "update_priority_stats (OneElement e) m = m\<lparr>min_prioritization_fees := e, max_prioritization_fees := e\<rparr>"
| "update_priority_stats (MinMax lo hi) m = m\<lparr>min_prioritization_fees := lo, max_prioritization_fees := hi\<rparr>"

definition count_kind :: "count_metrics metrics_kind" where
  "count_kind = \<lparr>mk_fields = count_report_fields, mk_reset = count_reset,
     mk_interval_name = ''banking_stage_scheduler_counts'',
     mk_slot_name = ''banking_stage_scheduler_slot_counts''\<rparr>"

type_synonym 'i scheduler_count_metrics = "('i, count_metrics) scheduler_metrics"
type_synonym 'i interval_count_metrics = "('i, count_metrics) interval_metrics"
type_synonym slot_count_metrics = "count_metrics slot_metrics"

definition count_report :: "string \<Rightarrow> slot option \<Rightarrow> count_metrics \<Rightarrow> datapoint" where
  "count_report = report_metrics count_kind"

definition count_interval_report ::
  "('i \<Rightarrow> nat \<Rightarrow> bool \<times> 'i) \<Rightarrow> bool \<Rightarrow> 'i interval_count_metrics \<Rightarrow> datapoint list \<times> 'i interval_count_metrics" where
  "count_interval_report should_update = interval_maybe_report_and_reset should_update count_kind"

definition count_slot_report :: "slot option \<Rightarrow> slot_count_metrics \<Rightarrow> datapoint list \<times> slot_count_metrics" where
  "count_slot_report = slot_maybe_report_and_reset count_kind"

definition interval_has_data :: "('i, count_metrics) scheduler_metrics \<Rightarrow> bool" where
  "interval_has_data M = has_data (im_metrics (sc_interval M))"

section \<open>Timers\<close>

record timing_metrics =
  decision_time_us :: nat
  receive_time_us :: nat
  buffer_time_us :: nat
  schedule_filter_time_us :: nat
  schedule_time_us :: nat
  clear_time_us :: nat
  clean_time_us :: nat
  forward_time_us :: nat
  receive_completed_time_us :: nat

definition timing_report_fields :: "timing_metrics \<Rightarrow> (string \<times> nat) list" where
  "timing_report_fields m =
     [(''decision_time_us'', decision_time_us m), (''receive_time_us'', receive_time_us m),
      (''buffer_time_us'', buffer_time_us m), (''schedule_filter_time_us'', schedule_filter_time_us m),
      (''schedule_time_us'', schedule_time_us m), (''clear_time_us'', clear_time_us m),
      (''clean_time_us'', clean_time_us m), (''forward_time_us'', forward_time_us m),
      (''receive_completed_time_us'', receive_completed_time_us m)]"

definition timing_reset :: "timing_metrics \<Rightarrow> timing_metrics" where
  "timing_reset m =
     m\<lparr>decision_time_us := 0, receive_time_us := 0, buffer_time_us := 0, schedule_filter_time_us := 0,
       schedule_time_us := 0, clear_time_us := 0, clean_time_us := 0, forward_time_us := 0,
       receive_completed_time_us := 0\<rparr>"

definition timing_kind :: "timing_metrics metrics_kind" where
  "timing_kind = \<lparr>mk_fields = timing_report_fields, mk_reset = timing_reset,
     mk_interval_name = ''banking_stage_scheduler_timing'',
     mk_slot_name = ''banking_stage_scheduler_slot_timing''\<rparr>"

type_synonym 'i scheduler_timing_metrics = "('i, timing_metrics) scheduler_metrics"
type_synonym 'i interval_timing_metrics = "('i, timing_metrics) interval_metrics"
type_synonym slot_timing_metrics = "timing_metrics slot_metrics"

definition timing_report :: "string \<Rightarrow> slot option \<Rightarrow> timing_metrics \<Rightarrow> datapoint" where
  "timing_report = report_metrics timing_kind"

definition timing_interval_report ::
  "('i \<Rightarrow> nat \<Rightarrow> bool \<times> 'i) \<Rightarrow> bool \<Rightarrow> 'i interval_timing_metrics \<Rightarrow> datapoint list \<times> 'i interval_timing_metrics" where
  "timing_interval_report should_update = interval_maybe_report_and_reset should_update timing_kind"

definition timing_slot_report :: "slot option \<Rightarrow> slot_timing_metrics \<Rightarrow> datapoint list \<times> slot_timing_metrics" where
  "timing_slot_report = slot_maybe_report_and_reset timing_kind"

section \<open>Leader detection\<close>

record leader_detection =
  ld_slot :: slot
  ld_bank_creation_time :: nat
  ld_bank_detected_time :: nat

record bank_start =
  bs_slot :: slot
  bs_creation_time :: nat

text \<open>An instant is its distance in microseconds from a fixed one; \<open>now\<close> is the current one.\<close>

definition clamp_i64 :: "nat \<Rightarrow> nat" where
  "clamp_i64 n = (if n \<le> umax 63 then n else umax 63)"

definition initialize_inner :: "nat \<Rightarrow> bank_start \<Rightarrow> leader_detection" where
  "initialize_inner now b = \<lparr>ld_slot = bs_slot b, ld_bank_creation_time = bs_creation_time b, ld_bank_detected_time = now\<rparr>"

definition report_and_reset :: "nat \<Rightarrow> leader_detection option \<Rightarrow> (datapoint list \<times> leader_detection option) res" where
  "report_and_reset now L =
     rbind (runwrap ''inner must be present'' L) (\<lambda>d.
     Inr ([\<lparr>dp_name = ''banking_stage_scheduler_leader_detection'',
            dp_fields = [(''slot'', ld_slot d),
              (''bank_detected_delay_us'', clamp_i64 (sat_sub (ld_bank_detected_time d) (ld_bank_creation_time d))),
              (''bank_detected_to_slot_end_detected_us'', clamp_i64 (sat_sub now (ld_bank_detected_time d)))],
            dp_slot = None\<rparr>], None))"

definition update_and_maybe_report ::
  "nat \<Rightarrow> bank_start option \<Rightarrow> leader_detection option \<Rightarrow> (datapoint list \<times> leader_detection option) res" where
  "update_and_maybe_report now bank_start L =
     (case (L, bank_start) of
        (None, Some b) \<Rightarrow> Inr ([], Some (initialize_inner now b))
      | (Some d, None) \<Rightarrow> report_and_reset now L
      | (Some d, Some b) \<Rightarrow>
          if ld_slot d \<noteq> bs_slot b
          then rbind (report_and_reset now L) (\<lambda>(out, _). Inr (out, Some (initialize_inner now b)))
          else Inr ([], L)
      | (None, None) \<Rightarrow> Inr ([], L))"

section \<open>Stop watch\<close>

record stop_watch =
  sw_name :: string
  sw_start_time :: nat
  sw_clicks :: "(nat \<times> string) list"

definition new_stop_watch :: "nat \<Rightarrow> string \<Rightarrow> stop_watch" where
  "new_stop_watch now name = \<lparr>sw_name = name, sw_start_time = now, sw_clicks = []\<rparr>"

definition click :: "nat \<Rightarrow> string \<Rightarrow> stop_watch \<Rightarrow> stop_watch" where
  "click now note w = w\<lparr>sw_clicks := sw_clicks w @ [(sat_sub now (sw_start_time w), note)]\<rparr>"

text \<open>
  The summary, with \<open>show_duration\<close> the format of a duration: a line for every click with the time
  since the one before, and the total.  The difference of two durations panics below zero.
\<close>

fun summary_lines :: "(nat \<Rightarrow> string) \<Rightarrow> nat \<Rightarrow> (nat \<times> string) list \<Rightarrow> string res" where
  "summary_lines show_duration before [] = Inr []"
| "summary_lines show_duration before ((time, note) # clicks) =
     rbind (checked_sub time before) (\<lambda>d.
     rbind (summary_lines show_duration time clicks) (\<lambda>rest.
     Inr (''['' @ note @ ''] - duration: '' @ show_duration d @ ''\<newline>'' @ rest)))"

definition stop_watch_summary :: "(nat \<Rightarrow> string) \<Rightarrow> stop_watch \<Rightarrow> string res" where
  "stop_watch_summary show_duration w =
     (if sw_clicks w = [] then Inr (sw_name w @ '' Summary:\<newline>'' @ ''No clicks recorded.\<newline>'')
      else
        rbind (summary_lines show_duration 0 (sw_clicks w)) (\<lambda>body.
        Inr (sw_name w @ '' Summary:\<newline>'' @ body @ ''Total time: '' @
             show_duration (fst (last (sw_clicks w))) @ ''\<newline>'')))"

section \<open>What is reported\<close>

lemma count_reset_const: "count_reset m = count_reset m'"
  by (simp add: count_reset_def)

lemma count_reset_empty: "\<not> has_data (count_reset m) \<and> get_min_priority (count_reset m) = 0 \<and> get_max_priority (count_reset m) = 0"
  by (simp add: count_reset_def has_data_def get_min_priority_def get_max_priority_def)

text \<open>
  The metrics over a sequence of slots: for each the call that announces it, then the updates made
  while it lasts.
\<close>

fun slot_epochs ::
  "'m metrics_kind \<Rightarrow> (slot option \<times> ('m \<Rightarrow> 'm) list) list \<Rightarrow> 'm slot_metrics \<Rightarrow> datapoint list \<times> 'm slot_metrics" where
  "slot_epochs k [] M = ([], M)"
| "slot_epochs k ((slot, fs) # epochs) M =
     (let (out, M1) = slot_maybe_report_and_reset k slot M;
          (rest, M2) = slot_epochs k epochs (M1\<lparr>sm_metrics := fold (\<lambda>f. f) fs (sm_metrics M1)\<rparr>)
      in (out @ rest, M2))"

text \<open>What should be reported of a slot that is over.\<close>

definition slot_due :: "'m metrics_kind \<Rightarrow> slot option \<Rightarrow> 'm \<Rightarrow> datapoint list" where
  "slot_due k slot m = (case slot of None \<Rightarrow> [] | Some s \<Rightarrow> [report_metrics k (mk_slot_name k) (Some s) m])"

definition epoch_due :: "'m metrics_kind \<Rightarrow> 'm \<Rightarrow> slot option \<times> ('m \<Rightarrow> 'm) list \<Rightarrow> datapoint list" where
  "epoch_due k z e = slot_due k (fst e) (fold (\<lambda>f. f) (snd e) z)"

lemma slot_epochs_reports:
  assumes "\<And>m. mk_reset k m = z" "successively (\<noteq>) (sm_slot M # map fst epochs)" "epochs \<noteq> []"
  shows "fst (slot_epochs k epochs M) =
    slot_due k (sm_slot M) (sm_metrics M) @ concat (map (epoch_due k z) (butlast epochs))"
  using assms(2,3)
proof (induction epochs arbitrary: M)
  case (Cons e epochs)
  obtain slot fs where e: "e = (slot, fs)" by fastforce
  let ?M = "\<lparr>sm_slot = slot, sm_metrics = fold (\<lambda>f. f) fs z\<rparr>"
  have "fst (slot_epochs k (e # epochs) M) = slot_due k (sm_slot M) (sm_metrics M) @ fst (slot_epochs k epochs ?M)"
    using Cons.prems assms(1)
    by (auto simp: e slot_maybe_report_and_reset_def slot_due_def split: prod.split option.split)
  then show ?case using Cons.IH [of ?M] Cons.prems by (cases "epochs = []") (simp_all add: e epoch_due_def)
qed simp

lemma summary_lines_returns:
  "sorted (before # map fst clicks) \<Longrightarrow> \<exists>s. summary_lines show_duration before clicks = Inr s"
proof (induction clicks arbitrary: before)
  case (Cons c clicks)
  obtain time note' where c: "c = (time, note')" by fastforce
  obtain rest where "summary_lines show_duration time clicks = Inr rest" using Cons.IH [of time] Cons.prems by (auto simp: c)
  then show ?case using Cons.prems by (simp add: c checked_sub_ok)
qed simp

lemma clicks_sorted:
  "sorted nows \<Longrightarrow> sorted (map fst (sw_clicks (fold (\<lambda>(now, note). click now note) (zip nows remarks) (new_stop_watch t0 name))))"
proof -
  have "map fst (sw_clicks (fold (\<lambda>(now, note). click now note) cs w)) =
      map fst (sw_clicks w) @ map (\<lambda>(now, note). now - sw_start_time w) cs" for cs w
    by (induction cs arbitrary: w) (auto simp: click_def sat_sub_def)
  moreover assume "sorted nows"
  then have "sorted (map (\<lambda>(now, note). now - t0) (zip nows remarks))"
    by (auto simp: sorted_iff_nth_mono diff_le_mono)
  ultimately show ?thesis by (simp add: new_stop_watch_def)
qed

text \<open>Whatever is clicked on a clock that does not go back, the summary is printed.\<close>

lemma stop_watch_summary_returns:
  assumes "sorted nows"
  shows "\<exists>s. stop_watch_summary show_duration
    (fold (\<lambda>(now, note). click now note) (zip nows remarks) (new_stop_watch t0 name)) = Inr s"
proof -
  define w where "w = fold (\<lambda>(now, note). click now note) (zip nows remarks) (new_stop_watch t0 name)"
  have "sorted (0 # map fst (sw_clicks w))" using clicks_sorted [OF assms, of remarks t0 name] by (simp add: w_def)
  then obtain s where "summary_lines show_duration 0 (sw_clicks w) = Inr s" using summary_lines_returns by blast
  then show ?thesis by (simp add: stop_watch_summary_def flip: w_def)
qed

section \<open>Properties\<close>

text \<open>
  Over any sequence of slots, announced with their updates in between, the counters are
  reported exactly once for every slot that is over, under its number, and a report holds the
  updates made in its slot and no others; nothing is reported for the time without a slot.
\<close>

lemma slot_counts_reported_once:
  assumes "successively (\<noteq>) (map fst epochs)"
  shows "fst (slot_epochs count_kind epochs \<lparr>sm_slot = None, sm_metrics = m\<rparr>) =
    concat (map (\<lambda>e. case fst e of None \<Rightarrow> [] | Some s \<Rightarrow>
      [count_report ''banking_stage_scheduler_slot_counts'' (Some s) (fold (\<lambda>f. f) (snd e) (count_reset count_metrics_default))])
      (butlast epochs))"
proof -
  let ?z = "count_reset count_metrics_default"
  have z: "mk_reset count_kind m = ?z" for m using count_reset_const by (simp add: count_kind_def)
  have due: "epoch_due count_kind ?z = (\<lambda>e. case fst e of None \<Rightarrow> [] | Some s \<Rightarrow>
      [count_report ''banking_stage_scheduler_slot_counts'' (Some s) (fold (\<lambda>f. f) (snd e) ?z)])"
    by (auto simp: fun_eq_iff epoch_due_def slot_due_def count_report_def count_kind_def split: option.split)
  have "fst (slot_epochs count_kind epochs \<lparr>sm_slot = None, sm_metrics = m\<rparr>) =
      concat (map (epoch_due count_kind ?z) (butlast epochs))"
  proof (cases epochs)
    case (Cons e es)
    show ?thesis
    proof (cases "fst e")
      case None
      then obtain fs where e: "e = (None, fs)" by (cases e) auto
      let ?M = "\<lparr>sm_slot = None, sm_metrics = fold (\<lambda>f. f) fs m\<rparr>"
      have "fst (slot_epochs count_kind epochs \<lparr>sm_slot = None, sm_metrics = m\<rparr>) = fst (slot_epochs count_kind es ?M)"
        by (simp add: Cons e slot_maybe_report_and_reset_def split: prod.split)
      then show ?thesis
        using slot_epochs_reports [OF z, of ?M es] assms
        by (cases "es = []") (simp_all add: Cons e slot_due_def epoch_due_def)
    next
      case (Some s)
      then show ?thesis
        using slot_epochs_reports [OF z, of "\<lparr>sm_slot = None, sm_metrics = m\<rparr>" epochs] assms
        by (simp add: Cons slot_due_def)
    qed
  qed simp
  then show ?thesis unfolding due .
qed

text \<open>
  The detection of leader slots never panics: after every call the slot that is tracked is
  that of the current bank, and a report is made exactly when a slot was tracked before and the
  bank has gone or belongs to another slot.
\<close>

lemma leader_detection_tracks:
  "\<exists>out L'. update_and_maybe_report now bank L = Inr (out, L') \<and>
     map_option ld_slot L' = map_option bs_slot bank \<and>
     length out = (if L \<noteq> None \<and> map_option ld_slot L \<noteq> map_option bs_slot bank then 1 else 0)"
  by (cases L; cases bank)
    (auto simp: update_and_maybe_report_def report_and_reset_def runwrap_def initialize_inner_def)

section \<open>Witnesses\<close>

definition example_epochs :: "(slot option \<times> (count_metrics \<Rightarrow> count_metrics) list) list" where
  "example_epochs = [(None, []), (Some 7, [\<lambda>m. m\<lparr>num_received := num_received m + 3\<rparr>]), (Some 8, [])]"

end
