(* ===== verification/Actions.thy ===== *)
theory Actions
  imports Igloo_Prelude
begin

text \<open>
  Methods that change an object and return a Rust \<open>Result\<close>.

  An action takes the state of the object and gives a panic (\<open>Inl\<close>), or a result together with the
  state it leaves: \<open>Inl e\<close> for \<open>Err(e)\<close>, \<open>Inr x\<close> for \<open>Ok(x)\<close>.  The state after an error is the one
  the method had reached, as in the code, where nothing is rolled back.  \<open>abind\<close> is the sequencing of
  the \<^verbatim>\<open>?\<close> operator, \<open>amap_err\<close> is \<^verbatim>\<open>map_err\<close>, \<open>afor\<close> a loop whose body may fail.
  The collection \<open>act_simps\<close> turns a run that returns \<open>Ok\<close> into the runs of its parts.
\<close>

named_theorems act_simps

type_synonym ('s, 'e, 'a) act = "'s \<Rightarrow> (('e + 'a) \<times> 's) res"

definition aret :: "'a \<Rightarrow> ('s, 'e, 'a) act" where
  "aret x s = Inr (Inr x, s)"

definition athrow :: "'e \<Rightarrow> ('s, 'e, 'a) act" where
  "athrow e s = Inr (Inl e, s)"

definition abind :: "('s, 'e, 'a) act \<Rightarrow> ('a \<Rightarrow> ('s, 'e, 'b) act) \<Rightarrow> ('s, 'e, 'b) act" where
  "abind m f s = rbind (m s) (\<lambda>(r, s'). case r of Inl e \<Rightarrow> Inr (Inl e, s') | Inr x \<Rightarrow> f x s')"

text \<open>Reading the state, replacing it, a computation that may panic, and a \<open>Result\<close> as a value.\<close>

definition aread :: "('s \<Rightarrow> 'a) \<Rightarrow> ('s, 'e, 'a) act" where
  "aread f s = Inr (Inr (f s), s)"

definition amodify :: "('s \<Rightarrow> 's) \<Rightarrow> ('s, 'e, unit) act" where
  "amodify f s = Inr (Inr (), f s)"

definition apanic :: "'a res \<Rightarrow> ('s, 'e, 'a) act" where
  "apanic m s = rbind m (\<lambda>x. Inr (Inr x, s))"

definition alift :: "('e + 'a) \<Rightarrow> ('s, 'e, 'a) act" where
  "alift r s = Inr (r, s)"

definition amap_err :: "('d \<Rightarrow> 'e) \<Rightarrow> ('s, 'd, 'a) act \<Rightarrow> ('s, 'e, 'a) act" where
  "amap_err g m s = rbind (m s) (\<lambda>(r, s'). Inr (map_sum g id r, s'))"

fun afor :: "('a \<Rightarrow> ('s, 'e, 'b) act) \<Rightarrow> 'a list \<Rightarrow> ('s, 'e, 'b list) act" where
  "afor f [] s = Inr (Inr [], s)"
| "afor f (x # xs) s = abind (f x) (\<lambda>y. abind (afor f xs) (\<lambda>ys. aret (y # ys))) s"

text \<open>\<^verbatim>\<open>collect\<close> of results into a \<open>Result\<close>, and \<^verbatim>\<open>ok_or\<close>.\<close>

fun collect_results :: "('e + 'a) list \<Rightarrow> 'e + 'a list" where
  "collect_results [] = Inr []"
| "collect_results (Inl e # rs) = Inl e"
| "collect_results (Inr x # rs) = map_sum id ((#) x) (collect_results rs)"

definition ok_or :: "'e \<Rightarrow> 'a option \<Rightarrow> 'e + 'a" where
  "ok_or e x = (case x of None \<Rightarrow> Inl e | Some y \<Rightarrow> Inr y)"

section \<open>Runs that return \<open>Ok\<close>\<close>

lemma abind_cong [fundef_cong]:
  "m s = m' s' \<Longrightarrow> (\<And>x t. m' s' = Inr (Inr x, t) \<Longrightarrow> f x t = f' x t) \<Longrightarrow> abind m f s = abind m' f' s'"
  by (cases "m' s'") (auto simp: abind_def split: sum.splits)

lemma aret_ok [act_simps]: "aret x s = Inr (Inr y, t) \<longleftrightarrow> y = x \<and> t = s"
  by (auto simp: aret_def)

lemma athrow_ok [act_simps]: "athrow e s = Inr (Inr y, t) \<longleftrightarrow> False"
  by (simp add: athrow_def)

lemma abind_ok [act_simps]:
  "abind m f s = Inr (Inr y, u) \<longleftrightarrow> (\<exists>x t. m s = Inr (Inr x, t) \<and> f x t = Inr (Inr y, u))"
  by (cases "m s") (auto simp: abind_def split: sum.splits)

lemma aread_ok [act_simps]: "aread f s = Inr (Inr y, t) \<longleftrightarrow> y = f s \<and> t = s"
  by (auto simp: aread_def)

lemma amodify_ok [act_simps]: "amodify f s = Inr (Inr y, t) \<longleftrightarrow> t = f s"
  by (auto simp: amodify_def)

lemma apanic_ok [act_simps]: "apanic m s = Inr (Inr y, t) \<longleftrightarrow> m = Inr y \<and> t = s"
  by (cases m) (auto simp: apanic_def)

lemma alift_ok [act_simps]: "alift r s = Inr (Inr y, t) \<longleftrightarrow> r = Inr y \<and> t = s"
  by (auto simp: alift_def)

lemma amap_err_ok [act_simps]: "amap_err g m s = Inr (Inr y, t) \<longleftrightarrow> m s = Inr (Inr y, t)"
proof (cases "m s")
  case (Inr p)
  then show ?thesis by (cases p; cases "fst p") (auto simp: amap_err_def)
qed (simp add: amap_err_def)

lemma ok_or_ok [act_simps]: "ok_or e x = Inr y \<longleftrightarrow> x = Some y"
  by (simp add: ok_or_def split: option.splits)

text \<open>The parts of an action are run one after the other, also when it does not return \<open>Ok\<close>.\<close>

lemma abind_step: "m s = Inr (Inr x, t) \<Longrightarrow> abind m f s = f x t"
  by (simp add: abind_def)

lemma abindE:
  assumes "abind m f s = Inr (r, t)"
  obtains e where "m s = Inr (Inl e, t)" "r = Inl e" | x s' where "m s = Inr (Inr x, s')" "f x s' = Inr (r, t)"
proof -
  from assms obtain y s' where y: "m s = Inr (y, s')" by (auto simp: abind_def res_simps)
  then show thesis using assms that by (cases y) (auto simp: abind_def)
qed

lemma abind_simps [simp]:
  "abind (aret x) f s = f x s" "abind (athrow e) f s = Inr (Inl e, s)"
  "abind (aread g) h s = h (g s) s" "abind (amodify k) l s = l () (k s)"
  "abind (alift (Inr y)) n s = n y s" "abind (alift (Inl e)) n s = Inr (Inl e, s)"
  "abind (apanic (Inr z)) w s = w z s" "abind (apanic (Inl p)) w s = Inl p"
  by (simp_all add: abind_def aret_def athrow_def aread_def amodify_def alift_def apanic_def)

lemma collect_results_Inr: "collect_results rs = Inr xs \<longleftrightarrow> rs = map Inr xs"
proof (induction rs arbitrary: xs rule: collect_results.induct)
  case (3 x rs)
  show ?case
  proof (cases xs)
    case Nil
    then show ?thesis by (cases "collect_results rs") auto
  next
    case (Cons y ys)
    have "collect_results (Inr x # rs) = Inr xs \<longleftrightarrow> collect_results rs = Inr ys \<and> x = y"
      by (cases "collect_results rs") (auto simp: Cons)
    then show ?thesis unfolding "3.IH" by (auto simp: Cons)
  qed
qed auto

section \<open>Invariants\<close>

text \<open>
  An action preserves a predicate of the state when the state it leaves satisfies it, whether it
  returns \<open>Ok\<close> or \<open>Err\<close>.  The rules of \<open>preserves_intros\<close> follow the structure of an action.
\<close>

named_theorems preserves_intros

definition preserves :: "('s \<Rightarrow> bool) \<Rightarrow> ('s, 'e, 'a) act \<Rightarrow> bool" where
  "preserves I m \<longleftrightarrow> (\<forall>s r t. I s \<longrightarrow> m s = Inr (r, t) \<longrightarrow> I t)"

lemma preservesD: "preserves I m \<Longrightarrow> I s \<Longrightarrow> m s = Inr (r, t) \<Longrightarrow> I t"
  unfolding preserves_def by blast

lemma preservesI: "(\<And>s r t. I s \<Longrightarrow> m s = Inr (r, t) \<Longrightarrow> I t) \<Longrightarrow> preserves I m"
  unfolding preserves_def by blast

lemma preserves_pure [preserves_intros]:
  "preserves I (aret x)" "preserves I (athrow e)" "preserves I (aread f)" "preserves I (alift r)" "preserves I (apanic p)"
  by (auto simp: preserves_def aret_def athrow_def aread_def alift_def apanic_def res_simps)

lemma preserves_amodify [preserves_intros]: "(\<And>s. I s \<Longrightarrow> I (f s)) \<Longrightarrow> preserves I (amodify f)"
  by (auto simp: preserves_def amodify_def)

lemma preserves_abind [preserves_intros]:
  assumes "preserves I m" "\<And>x. preserves I (f x)"
  shows "preserves I (abind m f)"
  unfolding preserves_def
proof (intro allI impI)
  fix s r t
  assume I: "I s" and run: "abind m f s = Inr (r, t)"
  then obtain r1 s1 where m: "m s = Inr (r1, s1)" by (cases "m s") (auto simp: abind_def)
  have "I s1" using preservesD [OF assms(1) I m] .
  show "I t"
  proof (cases r1)
    case (Inl e)
    then show ?thesis using run m \<open>I s1\<close> by (simp add: abind_def)
  next
    case (Inr x)
    then have "f x s1 = Inr (r, t)" using run m by (simp add: abind_def)
    from preservesD [OF assms(2) \<open>I s1\<close> this] show ?thesis .
  qed
qed

lemma preserves_amap_err [preserves_intros]: "preserves I m \<Longrightarrow> preserves I (amap_err g m)"
  by (rule preservesI) (auto simp: amap_err_def res_simps elim: preservesD)

lemma preserves_rbind [preserves_intros]:
  "(\<And>x. preserves I (f x)) \<Longrightarrow> preserves I (\<lambda>s. rbind (m s) (\<lambda>x. f x s))"
  by (rule preservesI) (auto simp: res_simps dest: preservesD [rotated 2])

lemma preserves_if [preserves_intros]: "preserves I m \<Longrightarrow> preserves I n \<Longrightarrow> preserves I (if b then m else n)"
  by simp

lemma preserves_if_state [preserves_intros]:
  "preserves I m \<Longrightarrow> preserves I n \<Longrightarrow> preserves I (\<lambda>s. if P s then m s else n s)"
  by (rule preservesI) (auto split: if_splits elim: preservesD)

lemma preserves_afor [preserves_intros]:
  assumes "\<And>x. preserves I (f x)"
  shows "preserves I (afor f xs)"
proof (induction xs)
  case Nil
  then show ?case by (simp add: preserves_def)
next
  case (Cons x xs)
  have "preserves I (abind (f x) (\<lambda>y. abind (afor f xs) (\<lambda>ys. aret (y # ys))))"
    by (intro preserves_intros assms Cons.IH)
  then show ?case by (simp add: preserves_def)
qed

lemma afor_total:
  assumes "\<And>y s. \<exists>r t. f y s = Inr (r, t)"
  shows "\<exists>r t. afor f xs s = Inr (r, t)"
proof (induction xs arbitrary: s)
  case (Cons x xs)
  obtain r t where x: "f x s = Inr (r, t)" using assms by blast
  show ?case
  proof (cases r)
    case (Inr z)
    obtain r' t' where "afor f xs t = Inr (r', t')" using Cons.IH by blast
    then show ?thesis using x Inr by (cases r') (simp_all add: abind_def aret_def)
  qed (use x in \<open>simp add: abind_def\<close>)
qed (simp add: aret_def)

text \<open>A loop returns an error when one of its steps fails whenever it is reached.\<close>

lemma afor_fails:
  assumes "\<And>y. preserves I (f y)" "\<And>y s. I s \<Longrightarrow> \<exists>r t. f y s = Inr (r, t)"
    and "x \<in> set xs" "\<And>s. I s \<Longrightarrow> \<exists>e t. f x s = Inr (Inl e, t)" and "I s"
  shows "\<exists>e t. afor f xs s = Inr (Inl e, t)"
  using assms(3,5)
proof (induction xs arbitrary: s)
  case (Cons y ys)
  obtain r t where y: "f y s = Inr (r, t)" using assms(2) [OF Cons.prems(2)] by blast
  show ?case
  proof (cases r)
    case (Inl e)
    then show ?thesis using y by (simp add: abind_def)
  next
    case (Inr z)
    then have "x \<in> set ys" using Cons.prems y assms(4) [of s] by auto
    from Cons.IH [OF this preservesD [OF assms(1) Cons.prems(2) y]] show ?thesis using y Inr by (auto simp: abind_def)
  qed
qed simp

end
