(* ===== verification/Storage_Types.thy ===== *)
theory Storage_Types
  imports Actions
begin

text \<open>
  The data of the storage layer (\<^verbatim>\<open>storage/src\<close>): its errors (\<^verbatim>\<open>error.rs\<close>), its configuration
  (\<^verbatim>\<open>config.rs\<close>), the state of \<^verbatim>\<open>RollupStorage\<close> (\<^verbatim>\<open>impls.rs\<close>), and the operations it calls of the
  Solana crates, which are arguments of the model.

  Banks are shared: the current bank of the storage, the bank forks and the parents of a bank all
  point to the same objects, which change in place.  So the contents of the banks are kept in a
  store indexed by addresses, and a \<open>bank_ref\<close> is what an \<^verbatim>\<open>Arc<Bank>\<close> is: the address, together with
  the slot and the slot of the parent, which a bank never changes.

  The errors of other crates are represented by their text, which is all the code uses of them.  A
  path is the list of its components.
\<close>

section \<open>Errors\<close>

datatype storage_error =
    TooManyShreds
  | ShredNotFound slot nat
  | UnknownSlotMeta slot
  | UnknownLastIndex slot
  | InvalidMerkleRoot slot nat
  | EmptyEntriesHashes
  | SetRootFailed string
  | AccountNotFound

datatype bank_error =
    BankCommon string
  | BankSetRootFailed string
  | BankNotExists slot
  | InvalidOperation string

datatype account_db_error =
    FailedToScanAccounts string
  | ConvertTxError string

datatype rollup_error =
    InitCommon string
  | LoadBlockstoreFailed string
  | InitBankForksFailed string
  | InitConfigFailed string
  | KeypairsConfigMissingValidatorKeypair
  | CommitBachAndResultsNotMatch
  | NoEntries
  | SolanaBlockstoreError string
  | StorageError storage_error
  | BankError bank_error
  | AccountDbError account_db_error

section \<open>Configuration\<close>

type_synonym path = "string list"

record 'kp keypairs_config =
  validator_key_path :: "path option"
  validator_keypair :: "'kp option"
  mint_key_path :: "path option"
  mint_keypair :: "'kp option"
  voting_key_path :: "path option"
  voting_keypair :: "'kp option"

text \<open>The fields of \<^verbatim>\<open>SnapshotConfig\<close> that the storage sets or reads.\<close>

record snapshot_config =
  full_snapshot_archive_interval_slots :: nat
  incremental_snapshot_archive_interval_slots :: nat
  full_snapshot_archives_dir :: path
  incremental_snapshot_archives_dir :: path
  bank_snapshots_dir :: path

record history_config =
  enable_transaction_history :: bool
  enable_extended_tx_metadata_storage :: bool

definition history_config_default :: history_config where
  "history_config_default = \<lparr>enable_transaction_history = True, enable_extended_tx_metadata_storage = False\<rparr>"

text \<open>
  The fields whose types belong to other crates and that are only handed on to them are left out.
\<close>

record storage_config =
  halt_at_slot :: "slot option"
  expected_genesis_hash :: "hash option"
  account_paths :: "path list"
  sc_snapshot_config :: snapshot_config
  wait_snapshot_complete :: bool
  wait_timeout_secs :: nat
  enforce_ulimit_nofile :: bool
  new_hard_forks :: "slot list option"
  accounts_hash_interval_slots :: nat
  max_genesis_archive_unpacked_size :: nat
  run_verification :: bool
  accounts_db_working_path :: "path option"
  accounts_db_test_hash_calculation :: bool
  accounts_db_skip_shrink :: bool
  accounts_db_force_initial_clean :: bool
  sc_history_config :: history_config

definition MAX_GENESIS_ARCHIVE_UNPACKED_SIZE :: nat where
  "MAX_GENESIS_ARCHIVE_UNPACKED_SIZE = 10 * 1024 * 1024"

definition storage_config_default :: "snapshot_config \<Rightarrow> storage_config" where
  "storage_config_default load_only = \<lparr>
     halt_at_slot = None,
     expected_genesis_hash = None,
     account_paths = [],
     sc_snapshot_config = load_only,
     wait_snapshot_complete = False,
     wait_timeout_secs = 10,
     enforce_ulimit_nofile = True,
     new_hard_forks = None,
     accounts_hash_interval_slots = umax 64,
     max_genesis_archive_unpacked_size = MAX_GENESIS_ARCHIVE_UNPACKED_SIZE,
     run_verification = True,
     accounts_db_working_path = None,
     accounts_db_test_hash_calculation = False,
     accounts_db_skip_shrink = False,
     accounts_db_force_initial_clean = False,
     sc_history_config = history_config_default\<rparr>"

text \<open>Of the genesis configuration the storage reads the number of ticks in a slot and the hash.\<close>

record genesis_config =
  ticks_per_slot :: nat
  genesis_hash :: hash

record 'kp global_config =
  ledger_path :: path
  allow_default_genesis :: bool
  dev_mode :: bool
  keypairs :: "'kp keypairs_config"
  gc_storage :: storage_config
  genesis :: genesis_config

section \<open>Banks\<close>

record bank_ref =
  ref_addr :: nat
  ref_slot :: slot
  ref_parent_slot :: slot

text \<open>
  What the storage calls of \<^verbatim>\<open>Bank\<close>.  \<open>'b\<close> is the contents of a bank, \<open>'a\<close> an account, \<open>'tx\<close> a
  sanitized transaction, \<open>'o\<close> what the execution of a batch loaded and measured, \<open>'ex\<close> the result of
  executing one transaction and \<open>'tr\<close> the result of committing a batch.
\<close>

record executed_transaction_counts =
  executed_transactions_count :: nat
  executed_non_vote_transactions_count :: nat
  executed_with_failure_result_count :: nat
  signature_count :: nat

record ('b, 'a, 'tx, 'o, 'ex, 'tr) bank_api =
  b_get_account :: "'b \<Rightarrow> pubkey \<Rightarrow> 'a option"
  b_hash :: "'b \<Rightarrow> hash"
  b_last_blockhash :: "'b \<Rightarrow> hash"
  b_lamports_per_signature :: "'b \<Rightarrow> nat"
  b_parent :: "'b \<Rightarrow> bank_ref option"
  b_freeze :: "'b \<Rightarrow> 'b"
  b_store_account :: "pubkey \<Rightarrow> 'a \<Rightarrow> 'b \<Rightarrow> 'b"
  b_new_from_parent :: "bank_ref \<Rightarrow> pubkey \<Rightarrow> slot \<Rightarrow> 'b \<Rightarrow> ('b \<times> 'b) res"
  b_register_tick :: "hash \<Rightarrow> 'b \<Rightarrow> 'b"
  b_tick_height :: "'b \<Rightarrow> nat"
  b_max_tick_height :: "'b \<Rightarrow> nat"
  b_ticks_per_slot :: "'b \<Rightarrow> nat"
  b_commit_transactions :: "'tx list \<Rightarrow> 'o \<Rightarrow> 'ex list \<Rightarrow> hash \<Rightarrow> nat \<Rightarrow> executed_transaction_counts \<Rightarrow> 'b \<Rightarrow> 'tr \<times> 'b"

text \<open>
  \<^verbatim>\<open>BankForks\<close>, with state \<open>'f\<close>.  Setting the root also merges the root with its ancestors, so it
  changes the store of banks.
\<close>

record ('b, 'f) forks_api =
  bf_get :: "'f \<Rightarrow> slot \<Rightarrow> bank_ref option"
  bf_insert :: "bank_ref \<Rightarrow> 'f \<Rightarrow> 'f res"
  bf_root :: "'f \<Rightarrow> slot"
  bf_highest_slot :: "'f \<Rightarrow> slot"
  bf_working_bank :: "'f \<Rightarrow> bank_ref"
  bf_set_root :: "slot \<Rightarrow> slot option \<Rightarrow> 'f \<Rightarrow> (nat \<Rightarrow> 'b) \<Rightarrow> ((string + bank_ref list) \<times> 'f \<times> (nat \<Rightarrow> 'b)) res"

text \<open>\<^verbatim>\<open>Blockstore\<close>, with state \<open>'s\<close>; \<open>'sh\<close> is a shred and \<open>'m\<close> a transaction with its metadata.\<close>

record ('s, 'sh, 'm) blockstore_api =
  bs_highest_slot :: "'s \<Rightarrow> string + slot option"
  bs_rooted_block_time :: "'s \<Rightarrow> slot \<Rightarrow> string + int"
  bs_max_root :: "'s \<Rightarrow> slot"
  bs_set_roots :: "slot list \<Rightarrow> 's \<Rightarrow> (string + unit) \<times> 's"
  bs_set_dead_slot :: "slot \<Rightarrow> 's \<Rightarrow> (string + unit) \<times> 's"
  bs_insert_shreds :: "'sh list \<Rightarrow> 's \<Rightarrow> (string + unit) \<times> 's"
  bs_last_index :: "'s \<Rightarrow> slot \<Rightarrow> string + nat option option"
  bs_data_shred_root :: "'s \<Rightarrow> slot \<Rightarrow> nat \<Rightarrow> string + hash option option"
  bs_complete_transaction :: "'s \<Rightarrow> nat \<Rightarrow> slot \<Rightarrow> string + 'm option"
  bs_rooted_transaction :: "'s \<Rightarrow> nat \<Rightarrow> string + 'm option"

section \<open>The storage\<close>

text \<open>
  The history services: the batches sent to the transaction status service and the banks whose block
  metadata was cached, where the services are on.
\<close>

record ('i) history_services =
  transaction_status_sender :: "(bank_ref \<times> 'i) list option"
  cache_block_meta_sender :: "bank_ref list option"

record ('b, 'f, 's, 'i, 'kp) rollup_storage =
  bank :: bank_ref
  bank_forks :: 'f
  banks :: "nat \<Rightarrow> 'b"
  next_bank :: nat
  config :: "'kp global_config"
  blockstore :: 's
  rs_history :: "'i history_services"
  exit_flag :: bool

definition bank_at :: "('b, 'f, 's, 'i, 'kp) rollup_storage \<Rightarrow> bank_ref \<Rightarrow> 'b" where
  "bank_at S r = banks S (ref_addr r)"

definition update_bank :: "bank_ref \<Rightarrow> ('b \<Rightarrow> 'b) \<Rightarrow> ('b, 'f, 's, 'i, 'kp) rollup_storage \<Rightarrow> ('b, 'f, 's, 'i, 'kp) rollup_storage" where
  "update_bank r g S = S\<lparr>banks := (banks S)(ref_addr r := g (banks S (ref_addr r)))\<rparr>"

lemma update_bank_fields [simp]:
  "bank (update_bank r g S) = bank S" "bank_forks (update_bank r g S) = bank_forks S"
  "config (update_bank r g S) = config S" "blockstore (update_bank r g S) = blockstore S"
  "rs_history (update_bank r g S) = rs_history S" "next_bank (update_bank r g S) = next_bank S"
  by (simp_all add: update_bank_def)

text \<open>An operation of the block store as an action of the storage.\<close>

definition with_blockstore ::
  "('s \<Rightarrow> (string + 'x) \<times> 's) \<Rightarrow> (('b, 'f, 's, 'i, 'kp) rollup_storage, string, 'x) act" where
  "with_blockstore op S = (let (r, s) = op (blockstore S) in Inr (r, S\<lparr>blockstore := s\<rparr>))"

end
