(* ===== verification/Storage_Ledger.thy ===== *)
theory Storage_Ledger
  imports Storage_Types
begin

text \<open>
  The ledger side of the storage: \<^verbatim>\<open>storage/src/ledger/mod.rs\<close> (slots, roots, reorganisations), the
  slot operations of \<^verbatim>\<open>accounts/mod.rs\<close> and \<^verbatim>\<open>impls.rs\<close>.

  A reorganisation sets a new root and marks the blocks of the abandoned forks as dead in the block
  store.  The banks removed with them are not all abandoned: those below the last finalized slot
  are ancestors of the new root and must stay alive.  \<open>find_ancestors\<close> recovers them from the parent
  links; its first loop does not return when the chain reaches the genesis bank and slot 0 is
  finalized, so the loop is a partial function, whose value is \<open>None\<close> where the code loops forever.
\<close>

section \<open>Operations\<close>

record slot_head =
  sh_slot :: slot
  sh_hash :: "hash option"
  sh_timestamp :: "int option"

definition slot_head_default :: slot_head where
  "slot_head_default = \<lparr>sh_slot = 0, sh_hash = None, sh_timestamp = None\<rparr>"

record slot_info =
  si_head :: slot_head
  si_parent :: slot_head
  si_store_height :: "slot option"

definition get_slot_head ::
  "('b, 'a, 'tx, 'o, 'ex, 'tr) bank_api \<Rightarrow> ('b, 'f) forks_api \<Rightarrow> ('s, 'sh, 'm) blockstore_api \<Rightarrow> slot
     \<Rightarrow> ('b, 'f, 's, 'i, 'kp) rollup_storage \<Rightarrow> slot_head" where
  "get_slot_head B F K s S =
     (let timestamp = (case bs_rooted_block_time K (blockstore S) s of Inl e \<Rightarrow> None | Inr t \<Rightarrow> Some t) in
      case bf_get F (bank_forks S) s of
        None \<Rightarrow> slot_head_default\<lparr>sh_slot := s, sh_timestamp := timestamp\<rparr>
      | Some b \<Rightarrow> \<lparr>sh_slot = s, sh_hash = Some (b_hash B (bank_at S b)), sh_timestamp = timestamp\<rparr>)"

definition get_slot_info ::
  "('b, 'a, 'tx, 'o, 'ex, 'tr) bank_api \<Rightarrow> ('b, 'f) forks_api \<Rightarrow> ('s, 'sh, 'm) blockstore_api \<Rightarrow> slot
     \<Rightarrow> ('b, 'f, 's, 'i, 'kp) rollup_storage \<Rightarrow> rollup_error + slot_info" where
  "get_slot_info B F K s S =
     (let head = get_slot_head B F K s S;
          parent = (if sh_slot head > 0 then get_slot_head B F K (sh_slot head - 1) S else slot_head_default) in
      case bs_highest_slot K (blockstore S) of
        Inl e \<Rightarrow> Inl (SolanaBlockstoreError e)
      | Inr store_height \<Rightarrow> Inr \<lparr>si_head = head, si_parent = parent, si_store_height = store_height\<rparr>)"

definition get_root :: "('b, 'f) forks_api \<Rightarrow> ('b, 'f, 's, 'i, 'kp) rollup_storage \<Rightarrow> slot" where
  "get_root F S = bf_root F (bank_forks S)"

definition get_mixed_heights ::
  "('b, 'f) forks_api \<Rightarrow> ('s, 'sh, 'm) blockstore_api \<Rightarrow> ('b, 'f, 's, 'i, 'kp) rollup_storage
     \<Rightarrow> rollup_error + slot \<times> slot option" where
  "get_mixed_heights F K S =
     (case bs_highest_slot K (blockstore S) of
        Inl e \<Rightarrow> Inl (SolanaBlockstoreError e)
      | Inr h \<Rightarrow> Inr (bf_highest_slot F (bank_forks S), h))"

definition current_height :: "('b, 'f, 's, 'i, 'kp) rollup_storage \<Rightarrow> slot" where
  "current_height S = ref_slot (bank S)"

definition balance ::
  "('b, 'a, 'tx, 'o, 'ex, 'tr) bank_api \<Rightarrow> ('a \<Rightarrow> nat) \<Rightarrow> pubkey \<Rightarrow> ('b, 'f, 's, 'i, 'kp) rollup_storage \<Rightarrow> nat" where
  "balance B lamports k S = (case b_get_account B (bank_at S (bank S)) k of None \<Rightarrow> 0 | Some d \<Rightarrow> lamports d)"

definition has_account ::
  "('b, 'a, 'tx, 'o, 'ex, 'tr) bank_api \<Rightarrow> pubkey \<Rightarrow> ('b, 'f, 's, 'i, 'kp) rollup_storage \<Rightarrow> bool" where
  "has_account B k S = (b_get_account B (bank_at S (bank S)) k \<noteq> None)"

definition get_account ::
  "('b, 'a, 'tx, 'o, 'ex, 'tr) bank_api \<Rightarrow> pubkey \<Rightarrow> ('b, 'f, 's, 'i, 'kp) rollup_storage \<Rightarrow> rollup_error + 'a" where
  "get_account B k S = ok_or (StorageError AccountNotFound) (b_get_account B (bank_at S (bank S)) k)"

definition get_account_by_slot ::
  "('b, 'a, 'tx, 'o, 'ex, 'tr) bank_api \<Rightarrow> ('b, 'f) forks_api \<Rightarrow> slot \<Rightarrow> pubkey
     \<Rightarrow> ('b, 'f, 's, 'i, 'kp) rollup_storage \<Rightarrow> rollup_error + 'a" where
  "get_account_by_slot B F s k S =
     (case bf_get F (bank_forks S) s of
        None \<Rightarrow> Inl (BankError (BankNotExists s))
      | Some b \<Rightarrow> ok_or (StorageError AccountNotFound) (b_get_account B (bank_at S b) k))"

definition set_root ::
  "('b, 'f) forks_api \<Rightarrow> ('s, 'sh, 'm) blockstore_api \<Rightarrow> slot \<Rightarrow> slot option
     \<Rightarrow> (('b, 'f, 's, 'i, 'kp) rollup_storage, rollup_error, bank_ref list) act" where
  "set_root F K s finalized =
     abind (amap_err (\<lambda>e. StorageError (SetRootFailed e)) (with_blockstore (bs_set_roots K [s]))) (\<lambda>_ S.
     rbind (bf_set_root F s finalized (bank_forks S) (banks S)) (\<lambda>(r, f, bs).
     Inr (map_sum (\<lambda>e. BankError (BankSetRootFailed e)) id r, S\<lparr>bank_forks := f, banks := bs\<rparr>)))"

definition confirm ::
  "('b, 'a, 'tx, 'o, 'ex, 'tr) bank_api \<Rightarrow> ('s, 'sh, 'm) blockstore_api \<Rightarrow> slot
     \<Rightarrow> (('b, 'f, 's, 'i, 'kp) rollup_storage, rollup_error, unit) act" where
  "confirm B K s =
     abind (amodify (\<lambda>S. update_bank (bank S) (b_freeze B) S)) (\<lambda>_.
     amap_err (\<lambda>e. StorageError (SetRootFailed e)) (with_blockstore (bs_set_roots K [s])))"

text \<open>The two loops of \<^verbatim>\<open>find_ancestors\<close>.\<close>

partial_function (option) climb :: "(slot \<Rightarrow> bank_ref option) \<Rightarrow> slot \<Rightarrow> slot \<Rightarrow> slot option" where
  "climb get stop_at root_slot =
     (case get root_slot of
        None \<Rightarrow> Some root_slot
      | Some b \<Rightarrow> if stop_at \<le> ref_parent_slot b then climb get stop_at (ref_parent_slot b) else Some root_slot)"

declare climb.simps [code]

lemma fewer_left:
  assumes "b \<in> set removed" "ref_slot b \<notin> A"
  shows "length (filter (\<lambda>c. ref_slot c \<noteq> ref_slot b \<and> ref_slot c \<notin> A) removed) < length (filter (\<lambda>c. ref_slot c \<notin> A) removed)"
  using assms
proof (induction removed)
  case (Cons c cs)
  have le: "length (filter (\<lambda>c. ref_slot c \<noteq> ref_slot b \<and> ref_slot c \<notin> A) cs) \<le> length (filter (\<lambda>c. ref_slot c \<notin> A) cs)"
    by (induction cs) auto
  show ?case
  proof (cases "c = b")
    case True
    then show ?thesis using le Cons.prems(2) by simp
  next
    case False
    then show ?thesis using Cons by simp
  qed
qed simp

function collect_ancestors :: "bank_ref list \<Rightarrow> slot \<Rightarrow> slot set \<Rightarrow> slot set" where
  "collect_ancestors removed root_parent ancestors =
     (case find (\<lambda>b. ref_slot b \<notin> ancestors \<and> ref_slot b = root_parent) removed of
        None \<Rightarrow> ancestors
      | Some b \<Rightarrow> collect_ancestors removed (ref_parent_slot b) (insert (ref_slot b) ancestors))"
  by pat_completeness auto

termination
proof (relation "measure (\<lambda>(removed, p, A). length (filter (\<lambda>b. ref_slot b \<notin> A) removed))")
  fix removed p A b
  assume "find (\<lambda>b. ref_slot b \<notin> A \<and> ref_slot b = p) removed = Some b"
  then have "b \<in> set removed" "ref_slot b \<notin> A" by (auto simp: find_Some_iff)
  from fewer_left [OF this] show "((removed, ref_parent_slot b, insert (ref_slot b) A), removed, p, A)
      \<in> measure (\<lambda>(removed, p, A). length (filter (\<lambda>b. ref_slot b \<notin> A) removed))" by simp
qed simp

declare collect_ancestors.simps [simp del]

definition find_ancestors ::
  "slot \<Rightarrow> slot option \<Rightarrow> (slot \<Rightarrow> bank_ref option) \<Rightarrow> bank_ref list \<Rightarrow> slot set option" where
  "find_ancestors root_slot finalized get removed =
     (let stop_at = (case finalized of None \<Rightarrow> root_slot | Some f \<Rightarrow> f) in
      case climb get stop_at root_slot of
        None \<Rightarrow> None
      | Some r \<Rightarrow> (case get r of
           None \<Rightarrow> Some {}
         | Some b \<Rightarrow> Some (collect_ancestors removed (ref_parent_slot b) {})))"

text \<open>An error of \<^verbatim>\<open>set_dead_slot\<close> is logged and otherwise ignored.\<close>

definition set_dead_slots :: "('s, 'sh, 'm) blockstore_api \<Rightarrow> slot list \<Rightarrow> 's \<Rightarrow> 's" where
  "set_dead_slots K ss s = fold (\<lambda>n s. snd (bs_set_dead_slot K n s)) ss s"

definition reorg ::
  "('b, 'f) forks_api \<Rightarrow> ('s, 'sh, 'm) blockstore_api \<Rightarrow> slot \<Rightarrow> slot option
     \<Rightarrow> (('b, 'f, 's, 'i, 'kp) rollup_storage, rollup_error, bank_ref list) act" where
  "reorg F K s finalized =
     abind (set_root F K s finalized) (\<lambda>removed.
     abind (aread (\<lambda>S. find_ancestors s finalized (bf_get F (bank_forks S)) removed)) (\<lambda>found.
     abind (apanic (case found of None \<Rightarrow> Inl OutOfFuel | Some a \<Rightarrow> Inr a)) (\<lambda>ancestors.
     abind (amodify (\<lambda>S. S\<lparr>blockstore :=
       set_dead_slots K (map ref_slot (filter (\<lambda>b. ref_slot b \<notin> ancestors) removed)) (blockstore S)\<rparr>)) (\<lambda>_.
     abind (amodify (\<lambda>S. S\<lparr>bank := bf_working_bank F (bank_forks S)\<rparr>)) (\<lambda>_.
     aret removed)))))"

text \<open>New slots: \<^verbatim>\<open>accounts/mod.rs\<close> and \<^verbatim>\<open>impls.rs\<close>.\<close>

definition collector_id :: "('kp \<Rightarrow> pubkey) \<Rightarrow> ('b, 'f, 's, 'i, 'kp) rollup_storage \<Rightarrow> rollup_error + pubkey" where
  "collector_id pubkey_of S =
     map_sum id pubkey_of (ok_or KeypairsConfigMissingValidatorKeypair (validator_keypair (keypairs (config S))))"

definition new_slot_with_parent ::
  "('kp \<Rightarrow> pubkey) \<Rightarrow> ('b, 'a, 'tx, 'o, 'ex, 'tr) bank_api \<Rightarrow> ('b, 'f) forks_api \<Rightarrow> bank_ref \<Rightarrow> slot
     \<Rightarrow> (('b, 'f, 's, 'i, 'kp) rollup_storage, rollup_error, bank_ref) act" where
  "new_slot_with_parent pubkey_of B F parent s =
     abind (\<lambda>S. alift (collector_id pubkey_of S) S) (\<lambda>collector S.
     rbind (b_new_from_parent B parent collector s (bank_at S parent)) (\<lambda>(parent', new).
     let r = \<lparr>ref_addr = next_bank S, ref_slot = s, ref_parent_slot = ref_slot parent\<rparr> in
     rbind (bf_insert F r (bank_forks S)) (\<lambda>f.
     Inr (Inr r, S\<lparr>banks := (banks S)(ref_addr parent := parent', next_bank S := new),
       next_bank := next_bank S + 1, bank_forks := f, bank := r\<rparr>))))"

definition bump_slot ::
  "('kp \<Rightarrow> pubkey) \<Rightarrow> ('b, 'a, 'tx, 'o, 'ex, 'tr) bank_api \<Rightarrow> ('b, 'f) forks_api \<Rightarrow> slot
     \<Rightarrow> (('b, 'f, 's, 'i, 'kp) rollup_storage, rollup_error, bank_ref) act" where
  "bump_slot pubkey_of B F s = abind (aread bank) (\<lambda>b. new_slot_with_parent pubkey_of B F b s)"

definition bump ::
  "('kp \<Rightarrow> pubkey) \<Rightarrow> ('b, 'a, 'tx, 'o, 'ex, 'tr) bank_api \<Rightarrow> ('b, 'f) forks_api
     \<Rightarrow> (('b, 'f, 's, 'i, 'kp) rollup_storage, rollup_error, unit) act" where
  "bump pubkey_of B F =
     abind (aread (\<lambda>S. bf_highest_slot F (bank_forks S))) (\<lambda>s.
     abind (apanic (checked_add 64 s 1)) (\<lambda>s'.
     abind (bump_slot pubkey_of B F s') (\<lambda>_. aret ())))"

definition force_save ::
  "('b, 'a, 'tx, 'o, 'ex, 'tr) bank_api \<Rightarrow> ('b, 'f) forks_api \<Rightarrow> ('s, 'sh, 'm) blockstore_api
     \<Rightarrow> (('b, 'f, 's, 'i, 'kp) rollup_storage, rollup_error, unit) act" where
  "force_save B F K =
     abind (amodify (\<lambda>S. update_bank (bank S) (b_freeze B) S)) (\<lambda>_.
     abind (aread (\<lambda>S. ref_slot (bank S))) (\<lambda>s.
     abind (set_root F K s None) (\<lambda>_. aret ())))"

definition insert_account ::
  "('b, 'a, 'tx, 'o, 'ex, 'tr) bank_api \<Rightarrow> pubkey \<Rightarrow> 'a
     \<Rightarrow> (('b, 'f, 's, 'i, 'kp) rollup_storage, rollup_error, unit) act" where
  "insert_account B k d S =
     (if dev_mode (config S) then Inr (Inr (), update_bank (bank S) (b_store_account B k d) S)
      else Inr (Inl (BankError (InvalidOperation ''Capitalization check not passed'')), S))"

definition get_bank :: "('b, 'f) forks_api \<Rightarrow> slot \<Rightarrow> ('b, 'f, 's, 'i, 'kp) rollup_storage \<Rightarrow> rollup_error + bank_ref" where
  "get_bank F s S = ok_or (BankError (BankNotExists s)) (bf_get F (bank_forks S) s)"

definition last_blockhash ::
  "('b, 'a, 'tx, 'o, 'ex, 'tr) bank_api \<Rightarrow> ('b, 'f) forks_api \<Rightarrow> slot option
     \<Rightarrow> ('b, 'f, 's, 'i, 'kp) rollup_storage \<Rightarrow> rollup_error + hash" where
  "last_blockhash B F so S =
     (case so of
        Some s \<Rightarrow> (case bf_get F (bank_forks S) s of
            None \<Rightarrow> Inl (BankError (BankNotExists s))
          | Some b \<Rightarrow> Inr (b_last_blockhash B (bank_at S b)))
      | None \<Rightarrow> Inr (b_last_blockhash B (bank_at S (bank S))))"

definition execution_slot :: "('b, 'f, 's, 'i, 'kp) rollup_storage \<Rightarrow> slot" where
  "execution_slot S = ref_slot (bank S)"

end
