(* ===== verification/Storage_Reorg.thy ===== *)
theory Storage_Reorg
  imports Storage_Ledger
begin

text \<open>
  Reorganisations: which blocks survive a change of the root, and which are marked dead.

  \<open>lineage\<close> is a slot followed by its ancestors, as far as the bank forks hold them.  \<open>forks_laws\<close> is
  the documented behaviour of \<^verbatim>\<open>BankForks\<close>: it maps slots to banks whose parents are older, its
  working bank is the one of the highest slot, and setting a root keeps the root, its descendants and
  those of its ancestors that are not older than the highest confirmed root, and returns the others.
  \<open>dead_laws\<close> says that the block store marks a slot as dead when it is told to.
\<close>

section \<open>The tree of banks\<close>

function lineage :: "(slot \<Rightarrow> bank_ref option) \<Rightarrow> slot \<Rightarrow> slot list" where
  "lineage g s = (case g s of
     None \<Rightarrow> []
   | Some b \<Rightarrow> s # (if ref_parent_slot b < s then lineage g (ref_parent_slot b) else []))"
  by pat_completeness auto

termination
  by (relation "measure snd") auto

declare lineage.simps [simp del]

definition survives :: "(slot \<Rightarrow> bank_ref option) \<Rightarrow> slot \<Rightarrow> slot \<Rightarrow> slot \<Rightarrow> bool" where
  "survives g root confirmed n \<longleftrightarrow>
     root \<in> set (lineage g n) \<or> n \<in> set (lineage g root) \<and> confirmed \<le> n"

definition tree_ok :: "(slot \<Rightarrow> bank_ref option) \<Rightarrow> bool" where
  "tree_ok g \<longleftrightarrow> (\<forall>s b. g s = Some b \<longrightarrow>
     ref_slot b = s \<and> (ref_parent_slot b < s \<or> s = 0 \<and> ref_parent_slot b = 0))"

definition stop_slot :: "slot \<Rightarrow> slot option \<Rightarrow> slot" where
  "stop_slot s finalized = (case finalized of None \<Rightarrow> s | Some f \<Rightarrow> f)"

definition forks_laws :: "('b, 'f) forks_api \<Rightarrow> ('f \<Rightarrow> bool) \<Rightarrow> bool" where
  "forks_laws F ok \<longleftrightarrow>
     (\<forall>f. ok f \<longrightarrow> tree_ok (bf_get F f) \<and> finite (dom (bf_get F f)) \<and>
        (\<forall>n \<in> dom (bf_get F f). n \<le> bf_highest_slot F f) \<and>
        bf_get F f (bf_highest_slot F f) = Some (bf_working_bank F f)) \<and>
     (\<forall>f b f'. ok f \<and> bf_insert F b f = Inr f' \<and> ref_parent_slot b < ref_slot b \<longrightarrow>
        ok f' \<and> bf_get F f' = (bf_get F f)(ref_slot b \<mapsto> b) \<and> bf_root F f' = bf_root F f) \<and>
     (\<forall>f s h bs removed f' bs'. ok f \<and> bf_set_root F s h f bs = Inr (Inr removed, f', bs') \<longrightarrow>
        ok f' \<and> bf_root F f' = s \<and> bf_get F f s \<noteq> None \<and>
        (\<forall>n. bf_get F f' n = (if survives (bf_get F f) s (stop_slot s h) n then bf_get F f n else None)) \<and>
        set removed = {b. \<exists>n. bf_get F f n = Some b \<and> \<not> survives (bf_get F f) s (stop_slot s h) n})"

definition dead_laws :: "('s, 'sh, 'm) blockstore_api \<Rightarrow> ('s \<Rightarrow> slot set) \<Rightarrow> bool" where
  "dead_laws K dead \<longleftrightarrow>
     (\<forall>n s. \<exists>s'. bs_set_dead_slot K n s = (Inr (), s') \<and> dead s' = insert n (dead s)) \<and>
     (\<forall>ns s. dead (snd (bs_set_roots K ns s)) = dead s)"

lemma forks_lawsD:
  assumes "forks_laws F ok" "ok f"
  shows "tree_ok (bf_get F f)" "finite (dom (bf_get F f))" "bf_get F f n = Some b \<Longrightarrow> n \<le> bf_highest_slot F f"
    "bf_get F f (bf_highest_slot F f) = Some (bf_working_bank F f)"
  using assms unfolding forks_laws_def by blast+

lemma forks_laws_insert:
  assumes "forks_laws F ok" "ok f" "bf_insert F b f = Inr f'" "ref_parent_slot b < ref_slot b"
  shows "ok f'" "bf_get F f' = (bf_get F f)(ref_slot b \<mapsto> b)" "bf_root F f' = bf_root F f"
  using assms unfolding forks_laws_def by blast+

lemma forks_laws_set_root:
  assumes "forks_laws F ok" "ok f" "bf_set_root F s h f bs = Inr (Inr removed, f', bs')"
  shows "ok f'" "bf_root F f' = s" "bf_get F f s \<noteq> None"
    "\<And>n. bf_get F f' n = (if survives (bf_get F f) s (stop_slot s h) n then bf_get F f n else None)"
    "set removed = {b. \<exists>n. bf_get F f n = Some b \<and> \<not> survives (bf_get F f) s (stop_slot s h) n}"
  using assms unfolding forks_laws_def by blast+

section \<open>Lineages\<close>

lemma lineage_None [simp]: "g s = None \<Longrightarrow> lineage g s = []"
  by (simp add: lineage.simps)

lemma lineage_Some: "g s = Some b \<Longrightarrow> ref_parent_slot b < s \<Longrightarrow> lineage g s = s # lineage g (ref_parent_slot b)"
  by (subst lineage.simps) simp

lemma lineage_self: "g s = Some b \<Longrightarrow> s \<in> set (lineage g s)"
  by (subst lineage.simps) simp

lemma lineage_le: "n \<in> set (lineage g s) \<Longrightarrow> n \<le> s \<and> g n \<noteq> None"
proof (induction s rule: less_induct)
  case (less s)
  show ?case
  proof (cases "g s")
    case (Some b)
    then show ?thesis
      using less.prems less.IH [of "ref_parent_slot b"] by (auto simp: lineage.simps [of g s] split: if_splits)
  qed (use less.prems in simp)
qed

lemma tree_parent: "tree_ok g \<Longrightarrow> g s = Some b \<Longrightarrow> 0 < s \<Longrightarrow> ref_parent_slot b < s"
  unfolding tree_ok_def by (metis less_numeral_extra(3))

lemma tree_slot: "tree_ok g \<Longrightarrow> g s = Some b \<Longrightarrow> ref_slot b = s"
  unfolding tree_ok_def by blast

section \<open>The loops of \<open>find_ancestors\<close>\<close>

lemma climb_ok:
  assumes tree: "tree_ok g" and "g s \<noteq> None" "stop \<le> s" "0 < stop \<or> 0 \<notin> set (lineage g s)"
    and keep: "\<And>n. n \<in> set (lineage g s) \<Longrightarrow> stop \<le> n \<Longrightarrow> g' n = g n" and gone: "\<And>n. g n = None \<Longrightarrow> g' n = None"
  shows "\<exists>r. climb g' stop s = Some r \<and>
    (g' r = None \<and> {n \<in> set (lineage g s). n < stop} = {} \<or>
     (\<exists>b. g' r = Some b \<and> {n \<in> set (lineage g s). n < stop} = set (lineage g (ref_parent_slot b)) \<and> ref_parent_slot b < stop))"
  using assms(2-4) keep
proof (induction s rule: less_induct)
  case (less s)
  from less.prems(1) obtain b where b: "g s = Some b" by auto
  let ?p = "ref_parent_slot b"
  have s: "s \<in> set (lineage g s)" using lineage_self [of g s, OF b] .
  then have g's: "g' s = Some b" using less.prems b by simp
  have p: "?p < s" using tree_parent [OF tree b] s less.prems(2,3) by (cases "s = 0") auto
  have lin: "lineage g s = s # lineage g ?p" using lineage_Some [of g s, OF b p] .
  have below: "{n \<in> set (lineage g s). n < stop} = {n \<in> set (lineage g ?p). n < stop}" using lin less.prems(2) by auto
  show ?case
  proof (cases "stop \<le> ?p")
    case False
    then have "{n \<in> set (lineage g s). n < stop} = set (lineage g ?p)" unfolding below using lineage_le by fastforce
    then show ?thesis using False g's by (subst climb.simps) auto
  next
    case True
    have step: "climb g' stop s = climb g' stop ?p" using g's True by (subst climb.simps) simp
    show ?thesis
    proof (cases "g ?p")
      case None
      then show ?thesis unfolding step below using gone by (subst climb.simps) auto
    next
      case (Some c)
      have "0 < stop \<or> 0 \<notin> set (lineage g ?p)" using less.prems(3) lin by auto
      from less.IH [OF p _ True this] Some less.prems(4) lin show ?thesis unfolding step below by auto
    qed
  qed
qed

lemma collect_ancestors_ok:
  assumes tree: "tree_ok g" and removed: "\<And>b. b \<in> set removed \<Longrightarrow> g (ref_slot b) = Some b"
    and "\<And>n. n \<in> set (lineage g p) \<Longrightarrow> \<exists>b \<in> set removed. ref_slot b = n" "\<And>n. n \<in> A \<Longrightarrow> p < n"
  shows "collect_ancestors removed p A = A \<union> set (lineage g p)"
  using assms(3,4)
proof (induction p arbitrary: A rule: less_induct)
  case (less p)
  let ?find = "\<lambda>p A. find (\<lambda>b. ref_slot b \<notin> A \<and> ref_slot b = p) removed"
  have pA: "p \<notin> A" using less.prems(2) by blast
  show ?case
  proof (cases "g p")
    case None
    then have "?find p A = None" using removed unfolding find_None_iff by fastforce
    then show ?thesis using None by (subst collect_ancestors.simps) simp
  next
    case (Some b)
    have "?find p A \<noteq> None" using less.prems(1) [OF lineage_self [of g p, OF Some]] pA by (auto simp: find_None_iff)
    then obtain c where c: "?find p A = Some c" by blast
    then have "c = b" using removed [of c] Some by (auto simp: find_Some_iff)
    then have step: "collect_ancestors removed p A = collect_ancestors removed (ref_parent_slot b) (insert p A)"
      using c tree_slot [OF tree Some] by (subst collect_ancestors.simps) simp
    show ?thesis
    proof (cases "ref_parent_slot b < p")
      case True
      have lin: "lineage g p = p # lineage g (ref_parent_slot b)" using lineage_Some [of g p, OF Some True] .
      have "collect_ancestors removed (ref_parent_slot b) (insert p A) = insert p A \<union> set (lineage g (ref_parent_slot b))"
        using less.IH [OF True, of "insert p A"] less.prems lin True by fastforce
      then show ?thesis unfolding step lin by simp
    next
      case False
      then have p0: "p = 0" "ref_parent_slot b = 0" using tree Some by (auto simp: tree_ok_def)
      then have "lineage g p = [p]" using Some by (subst lineage.simps) simp
      moreover have "?find 0 (insert p A) = None" using p0 by (auto simp: find_None_iff)
      ultimately show ?thesis unfolding step p0(2) by (subst collect_ancestors.simps) simp
    qed
  qed
qed

text \<open>Where the chain of the root reaches the genesis bank and slot 0 is finalized, the first loop never ends.\<close>

lemma climb_diverges:
  assumes tree: "tree_ok g" and "0 \<in> set (lineage g s)" and "\<And>n. n \<in> set (lineage g s) \<Longrightarrow> g' n = g n"
  shows "climb g' 0 s = None"
proof -
  let ?stuck = "\<lambda>h (st :: slot) r. h = g' \<and> st = 0 \<and> 0 \<in> set (lineage g r) \<and> (\<forall>n \<in> set (lineage g r). g' n = g n)"
  have "\<not> ?stuck h st r" if "climb h st r = Some y" for h st r y
  proof (rule climb.raw_induct [where P = "\<lambda>h st r y. \<not> ?stuck h st r", OF _ that])
    fix loop h and st r :: slot and y
    assume 1: "\<And>h st r y. loop h st r = Some y \<Longrightarrow> \<not> ?stuck h st r"
      "(case h r of None \<Rightarrow> Some r | Some b \<Rightarrow> if st \<le> ref_parent_slot b then loop h st (ref_parent_slot b) else Some r) = Some y"
    show "\<not> ?stuck h st r"
    proof
      assume stuck: "?stuck h st r"
      then obtain b where b: "g r = Some b" using lineage_le [of 0 g r] by (cases "g r") auto
      then have "g' r = Some b" using stuck lineage_self [of g r] by auto
      then have next1: "loop g' 0 (ref_parent_slot b) = Some y" using 1(2) stuck by simp
      have "?stuck g' 0 (ref_parent_slot b)"
      proof (cases "ref_parent_slot b < r")
        case True
        then show ?thesis using stuck lineage_Some [of g r, OF b True] by auto
      next
        case False
        then have "r = 0" "ref_parent_slot b = 0" using tree b unfolding tree_ok_def by blast+
        then show ?thesis using stuck by simp
      qed
      then show False using 1(1) [OF next1] by blast
    qed
  qed
  then show ?thesis using assms(2,3) by (cases "climb g' 0 s") blast+
qed

section \<open>Reorganisations\<close>

text \<open>Of the chain of the new root, exactly the slots older than the finalized one are removed.\<close>

lemma survives_lineage:
  assumes "tree_ok g" "stop \<le> s" "n \<in> set (lineage g s)"
  shows "survives g s stop n \<longleftrightarrow> stop \<le> n"
proof -
  have "n = s" if "s \<in> set (lineage g n)" using that lineage_le [of s g n] lineage_le [OF assms(3)] by simp
  then show ?thesis using assms(2,3) by (auto simp: survives_def)
qed

lemma find_ancestors_exact:
  assumes laws: "forks_laws F ok" "ok f" and root: "bf_set_root F s h f bs = Inr (Inr removed, f', bs')"
    and stop: "stop_slot s h \<le> s" "0 < stop_slot s h \<or> 0 \<notin> set (lineage (bf_get F f) s)"
  shows "find_ancestors s h (bf_get F f') removed = Some {n \<in> set (lineage (bf_get F f) s). n < stop_slot s h}"
proof -
  let ?g = "bf_get F f" and ?g' = "bf_get F f'" and ?st = "stop_slot s h"
  note tree = forks_lawsD(1) [OF laws] and sr = forks_laws_set_root [OF laws root]
  have removed: "b \<in> set removed \<longleftrightarrow> ?g (ref_slot b) = Some b \<and> \<not> survives ?g s ?st (ref_slot b)" for b
    unfolding sr(5) using tree_slot [OF tree] by blast
  have "\<exists>r. climb ?g' ?st s = Some r \<and>
    (?g' r = None \<and> {n \<in> set (lineage ?g s). n < ?st} = {} \<or>
     (\<exists>b. ?g' r = Some b \<and> {n \<in> set (lineage ?g s). n < ?st} = set (lineage ?g (ref_parent_slot b)) \<and> ref_parent_slot b < ?st))"
    by (rule climb_ok [OF tree sr(3) stop]) (simp_all add: sr(4) survives_lineage [OF tree stop(1)])
  then obtain r where r: "climb ?g' ?st s = Some r"
    "?g' r = None \<and> {n \<in> set (lineage ?g s). n < ?st} = {} \<or>
     (\<exists>b. ?g' r = Some b \<and> {n \<in> set (lineage ?g s). n < ?st} = set (lineage ?g (ref_parent_slot b)))" by blast
  have collect: "collect_ancestors removed p {} = {n \<in> set (lineage ?g s). n < ?st}"
    if p: "{n \<in> set (lineage ?g s). n < ?st} = set (lineage ?g p)" for p
  proof -
    have "\<exists>b \<in> set removed. ref_slot b = n" if n: "n \<in> set (lineage ?g p)" for n
    proof -
      have n': "n \<in> set (lineage ?g s)" "n < ?st" using n p by blast+
      then obtain b where b: "?g n = Some b" using lineage_le by blast
      then show ?thesis using removed [of b] tree_slot [OF tree b] survives_lineage [OF tree stop(1) n'(1)] n'(2) by auto
    qed
    then show ?thesis using collect_ancestors_ok [OF tree, of removed p "{}"] removed p by auto
  qed
  show ?thesis using r collect by (auto simp: find_ancestors_def stop_slot_def)
qed

lemma set_dead_slots_ok:
  "dead_laws K dead \<Longrightarrow> dead (set_dead_slots K ns s) = dead s \<union> set ns"
proof (induction ns arbitrary: s)
  case (Cons n ns)
  from Cons.prems obtain s' where "bs_set_dead_slot K n s = (Inr (), s')" "dead s' = insert n (dead s)"
    unfolding dead_laws_def by blast
  then show ?case using Cons.IH [OF Cons.prems, of s'] by (simp add: set_dead_slots_def)
qed (simp add: set_dead_slots_def)

lemma set_root_ok:
  assumes "set_root F K s h S = Inr (Inr removed, S1)"
  obtains bl f' bs' where "bs_set_roots K [s] (blockstore S) = (Inr (), bl)"
    "bf_set_root F s h (bank_forks S) (banks S) = Inr (Inr removed, f', bs')"
    "S1 = S\<lparr>blockstore := bl, bank_forks := f', banks := bs'\<rparr>"
proof -
  from assms obtain u S0 where S0: "with_blockstore (bs_set_roots K [s]) S = Inr (Inr u, S0)"
    and rest: "rbind (bf_set_root F s h (bank_forks S0) (banks S0)) (\<lambda>(r, f, bs).
     Inr (map_sum (\<lambda>e. BankError (BankSetRootFailed e)) id r, S0\<lparr>bank_forks := f, banks := bs\<rparr>)) = Inr (Inr removed, S1)"
    unfolding set_root_def by (auto simp: act_simps)
  obtain bl where bl: "bs_set_roots K [s] (blockstore S) = (Inr (), bl)" "S0 = S\<lparr>blockstore := bl\<rparr>"
    using S0 by (cases "bs_set_roots K [s] (blockstore S)") (auto simp: with_blockstore_def)
  from rest obtain r f bs where r: "bf_set_root F s h (bank_forks S0) (banks S0) = Inr (r, f, bs)"
    "map_sum (\<lambda>e. BankError (BankSetRootFailed e)) id r = Inr removed" "S1 = S0\<lparr>bank_forks := f, banks := bs\<rparr>"
    by (auto simp: res_simps)
  then have "r = Inr removed" by (cases r) auto
  then show thesis using that [OF bl(1), of f bs] r bl(2) by simp
qed

lemma reorg_diverges:
  assumes laws: "forks_laws F ok" "ok (bank_forks S)"
    and root: "set_root F K s (Some 0) S = Inr (Inr removed, S1)"
    and genesis: "0 \<in> set (lineage (bf_get F (bank_forks S)) s)"
  shows "reorg F K s (Some 0) S = Inl OutOfFuel"
proof -
  from set_root_ok [OF root] obtain bl f' bs' where
    sr: "bf_set_root F s (Some 0) (bank_forks S) (banks S) = Inr (Inr removed, f', bs')"
    and S1: "S1 = S\<lparr>blockstore := bl, bank_forks := f', banks := bs'\<rparr>" .
  have "climb (bf_get F f') 0 s = None"
    by (rule climb_diverges [OF forks_lawsD(1) [OF laws] genesis])
      (simp add: forks_laws_set_root(4) [OF laws sr] survives_def stop_slot_def)
  then have "find_ancestors s (Some 0) (bf_get F f') removed = None" by (simp add: find_ancestors_def)
  then show ?thesis
    unfolding reorg_def abind_step [where m = "set_root F K s (Some 0)", OF root] by (simp add: S1)
qed

section \<open>Properties\<close>


text \<open>
  On a chain that goes back to the genesis bank, a reorganisation with slot 0 as the finalized
  slot never returns: the genesis bank is its own parent, and the loop that looks for the oldest
  bank that was kept stays there.
\<close>

lemma reorg_to_genesis_diverges:
  assumes laws: "forks_laws F ok" "ok (bank_forks S)"
    and root: "set_root F K s (Some 0) S = Inr (Inr removed, S1)"
    and genesis: "0 \<in> set (lineage (bf_get F (bank_forks S)) s)"
  shows "reorg F K s (Some 0) S = Inl OutOfFuel"
  by (rule reorg_diverges [OF assms])

section \<open>An example\<close>

text \<open>Bank forks kept as a list of banks with the root.\<close>

definition list_get :: "bank_ref list \<times> slot \<Rightarrow> slot \<Rightarrow> bank_ref option" where
  "list_get f n = find (\<lambda>b. ref_slot b = n) (fst f)"

definition list_highest :: "bank_ref list \<times> slot \<Rightarrow> slot" where
  "list_highest f = fold max (map ref_slot (fst f)) 0"

definition list_forks :: "('b, bank_ref list \<times> slot) forks_api" where
  "list_forks = \<lparr>bf_get = list_get,
     bf_insert = (\<lambda>b f. if list_get f (ref_slot b) = None then Inr (b # fst f, snd f) else Inl (AssertionFailed ''prev.is_none()'')),
     bf_root = snd,
     bf_highest_slot = list_highest,
     bf_working_bank = (\<lambda>f. case list_get f (list_highest f) of Some b \<Rightarrow> b | None \<Rightarrow> hd (fst f)),
     bf_set_root = (\<lambda>s h f bs.
       if list_get f s = None then Inl (UnwrapOnNone ''root bank did not exist in bank_forks'')
       else Inr (Inr (filter (\<lambda>b. \<not> survives (list_get f) s (stop_slot s h) (ref_slot b)) (fst f)),
              (filter (\<lambda>b. survives (list_get f) s (stop_slot s h) (ref_slot b)) (fst f), s), bs))\<rparr>"

definition list_forks_ok :: "bank_ref list \<times> slot \<Rightarrow> bool" where
  "list_forks_ok f \<longleftrightarrow> fst f \<noteq> [] \<and> distinct (map ref_slot (fst f)) \<and>
     (\<forall>b \<in> set (fst f). ref_parent_slot b < ref_slot b \<or> ref_slot b = 0 \<and> ref_parent_slot b = 0)"

lemma option_eqI: "(\<And>c. x = Some c \<longleftrightarrow> y = Some c) \<Longrightarrow> x = y"
  by (cases x; cases y) auto

lemma find_slot: "distinct (map ref_slot l) \<Longrightarrow> find (\<lambda>b. ref_slot b = n) l = Some b \<longleftrightarrow> b \<in> set l \<and> ref_slot b = n"
  by (induction l) (auto split: if_splits)

lemma fold_max_ge: "m \<le> fold max ns m \<and> (\<forall>n \<in> set ns. n \<le> fold max ns (m :: nat))"
proof (induction ns arbitrary: m)
  case (Cons k ns)
  from Cons.IH [of "max k m"] show ?case by auto
qed simp

lemma fold_max_in: "fold max ns (m :: nat) \<in> insert m (set ns)"
  by (induction ns arbitrary: m) (fastforce simp: max_def)+

lemma list_highest_in:
  assumes "fst f \<noteq> []"
  shows "\<exists>b \<in> set (fst f). ref_slot b = list_highest f"
proof -
  obtain b bs where f: "fst f = b # bs" using assms by (cases "fst f") auto
  have "list_highest f = fold max (map ref_slot bs) (ref_slot b)" by (simp add: list_highest_def f)
  then show ?thesis using fold_max_in [of "map ref_slot bs" "ref_slot b"] unfolding f by auto
qed

lemma list_get_iff: "list_forks_ok f \<Longrightarrow> list_get f n = Some b \<longleftrightarrow> b \<in> set (fst f) \<and> ref_slot b = n"
  by (simp add: list_forks_ok_def list_get_def find_slot)

lemma list_forks_observe:
  assumes ok: "list_forks_ok f"
  shows "tree_ok (list_get f)" "finite (dom (list_get f))" "\<forall>n \<in> dom (list_get f). n \<le> list_highest f"
    "list_get f (list_highest f) = Some (bf_working_bank list_forks f)"
proof -
  note get = list_get_iff [OF ok]
  show "tree_ok (list_get f)" using ok get by (auto simp: tree_ok_def list_forks_ok_def)
  show "finite (dom (list_get f))"
    by (rule finite_subset [of _ "ref_slot ` set (fst f)"]) (auto simp: dom_def get)
  show "\<forall>n \<in> dom (list_get f). n \<le> list_highest f"
    using fold_max_ge [of 0 "map ref_slot (fst f)"] by (auto simp: list_highest_def dom_def get)
  have "fst f \<noteq> []" using ok by (simp add: list_forks_ok_def)
  then obtain b where "list_get f (list_highest f) = Some b" using list_highest_in [of f] get by blast
  then show "list_get f (list_highest f) = Some (bf_working_bank list_forks f)" by (simp add: list_forks_def)
qed

lemma list_forks_insert:
  "list_forks_ok f \<Longrightarrow> list_get f (ref_slot b) = None \<Longrightarrow> ref_parent_slot b < ref_slot b \<Longrightarrow>
    list_forks_ok (b # fst f, snd f) \<and> list_get (b # fst f, snd f) = (list_get f)(ref_slot b \<mapsto> b)"
  by (auto simp: list_forks_ok_def list_get_def find_None_iff fun_eq_iff)

lemma list_forks_set_root:
  assumes ok: "list_forks_ok f" and s: "list_get f s \<noteq> None"
    and f'_def: "f' = (filter (\<lambda>b. survives (list_get f) s k (ref_slot b)) (fst f), s)"
  shows "list_forks_ok f'" "list_get f' n = (if survives (list_get f) s k n then list_get f n else None)"
    "set (filter (\<lambda>b. \<not> survives (list_get f) s k (ref_slot b)) (fst f)) = {b. \<exists>n. list_get f n = Some b \<and> \<not> survives (list_get f) s k n}"
proof -
  note get = list_get_iff [OF ok]
  obtain b where b: "list_get f s = Some b" using s by blast
  have "survives (list_get f) s k s" using lineage_self [of "list_get f" s, OF b] by (simp add: survives_def)
  then have "b \<in> set (fst f')" using b get by (auto simp: f'_def)
  then show ok': "list_forks_ok f'"
    using ok by (auto simp: f'_def list_forks_ok_def distinct_map_filter filter_empty_conv)
  have "list_get f' n = Some c \<longleftrightarrow> survives (list_get f) s k n \<and> list_get f n = Some c" for c
    unfolding get list_get_iff [OF ok'] by (auto simp: f'_def)
  then have "list_get f' n = Some c \<longleftrightarrow> (if survives (list_get f) s k n then list_get f n else None) = Some c" for c
    by simp
  then show "list_get f' n = (if survives (list_get f) s k n then list_get f n else None)"
    by (rule option_eqI)
  show "set (filter (\<lambda>b. \<not> survives (list_get f) s k (ref_slot b)) (fst f)) = {b. \<exists>n. list_get f n = Some b \<and> \<not> survives (list_get f) s k n}"
    using get by auto
qed

lemma list_forks_laws: "forks_laws list_forks list_forks_ok"
  unfolding forks_laws_def
proof (intro conjI allI impI)
  fix f :: "bank_ref list \<times> slot" and b f'
  assume "list_forks_ok f \<and> bf_insert list_forks b f = Inr f' \<and> ref_parent_slot b < ref_slot b"
  then show "list_forks_ok f'" "bf_get list_forks f' = (bf_get list_forks f)(ref_slot b \<mapsto> b)"
    "bf_root list_forks f' = bf_root list_forks f"
    using list_forks_insert [of f b] by (auto simp: list_forks_def split: if_splits)
next
  fix f :: "bank_ref list \<times> slot" and s h bs removed f' and bs' :: "nat \<Rightarrow> 'b" and n
  assume "list_forks_ok f \<and> bf_set_root list_forks s h f bs = Inr (Inr removed, f', bs')"
  then have a: "list_forks_ok f" "list_get f s \<noteq> None"
    "removed = filter (\<lambda>b. \<not> survives (list_get f) s (stop_slot s h) (ref_slot b)) (fst f)"
    "f' = (filter (\<lambda>b. survives (list_get f) s (stop_slot s h) (ref_slot b)) (fst f), s)"
    by (auto simp: list_forks_def split: if_splits)
  note l = list_forks_set_root [OF a(1,2,4), folded a(3)]
  show "list_forks_ok f'" "bf_root list_forks f' = s" "bf_get list_forks f s \<noteq> None"
    "bf_get list_forks f' n = (if survives (bf_get list_forks f) s (stop_slot s h) n then bf_get list_forks f n else None)"
    "set removed = {b. \<exists>n. bf_get list_forks f n = Some b \<and> \<not> survives (bf_get list_forks f) s (stop_slot s h) n}"
    using l a(2,4) by (simp_all add: list_forks_def)
qed (use list_forks_observe in \<open>simp_all add: list_forks_def\<close>)

text \<open>
  The fork graph of the reorganisation test of the storage: slots 1 and 2 on top of 0, slot 3 on top
  of 1 and slot 4 on top of 2.  The block store remembers the slots that are dead.
\<close>

definition example_config :: "unit global_config" where
  "example_config = \<lparr>ledger_path = [], allow_default_genesis = True, dev_mode = False,
     keypairs = \<lparr>validator_key_path = None, validator_keypair = Some (), mint_key_path = None, mint_keypair = None,
       voting_key_path = None, voting_keypair = None\<rparr>,
     gc_storage = storage_config_default \<lparr>full_snapshot_archive_interval_slots = 100,
       incremental_snapshot_archive_interval_slots = 10, full_snapshot_archives_dir = [],
       incremental_snapshot_archives_dir = [], bank_snapshots_dir = []\<rparr>,
     genesis = \<lparr>ticks_per_slot = 2, genesis_hash = 0\<rparr>\<rparr>"

definition example_blockstore :: "(slot list, nat, unit) blockstore_api" where
  "example_blockstore = \<lparr>bs_highest_slot = (\<lambda>_. Inr None), bs_rooted_block_time = (\<lambda>_ _. Inl []), bs_max_root = (\<lambda>_. 0),
     bs_set_roots = (\<lambda>_ s. (Inr (), s)), bs_set_dead_slot = (\<lambda>n s. (Inr (), n # s)),
     bs_insert_shreds = (\<lambda>_ s. (Inr (), s)), bs_last_index = (\<lambda>_ _. Inr None), bs_data_shred_root = (\<lambda>_ _ _. Inr None),
     bs_complete_transaction = (\<lambda>_ _ _. Inr None), bs_rooted_transaction = (\<lambda>_ _. Inr None)\<rparr>"

definition example_storage :: "bank_ref list \<Rightarrow> (unit, bank_ref list \<times> slot, slot list, unit, unit) rollup_storage" where
  "example_storage l = \<lparr>bank = hd l, bank_forks = (l, 0), banks = (\<lambda>_. ()), next_bank = length l,
     config = example_config, blockstore = [],
     rs_history = \<lparr>transaction_status_sender = None, cache_block_meta_sender = None\<rparr>, exit_flag = False\<rparr>"

definition example_banks :: "bank_ref list" where
  "example_banks = map (\<lambda>(s, p). \<lparr>ref_addr = s, ref_slot = s, ref_parent_slot = p\<rparr>) [(4, 2), (3, 1), (2, 0), (1, 0), (0, 0)]"

lemma list_forks_sel [simp]: "bf_get list_forks = list_get" "bf_root list_forks = snd" "bf_highest_slot list_forks = list_highest"
  by (simp_all add: list_forks_def)

lemma example_storage_sel [simp]: "bank_forks (example_storage l) = (l, 0)" "blockstore (example_storage l) = []"
  "bank (example_storage l) = hd l" "config (example_storage l) = example_config"
  by (simp_all add: example_storage_def)

lemma example_dead_laws: "dead_laws example_blockstore set"
  by (simp add: dead_laws_def example_blockstore_def)

lemma example_banks_ok: "list_forks_ok (example_banks, 0)"
  by (simp add: list_forks_ok_def example_banks_def)

lemma example_get: "list_get (example_banks, 0) n =
  (if n \<le> 4 then Some \<lparr>ref_addr = n, ref_slot = n, ref_parent_slot = n - (if n < 2 then 1 else 2)\<rparr> else None)"
  by (auto simp: list_get_def example_banks_def)

lemma example_lineage: "lineage (list_get (example_banks, 0)) 0 = [0]" "lineage (list_get (example_banks, 0)) 1 = [1, 0]"
  "lineage (list_get (example_banks, 0)) 2 = [2, 0]" "lineage (list_get (example_banks, 0)) 3 = [3, 1, 0]"
  "lineage (list_get (example_banks, 0)) 4 = [4, 2, 0]"
  by (simp_all add: lineage.simps example_get)

lemma example_set_root:
  "\<exists>removed S1. set_root list_forks example_blockstore 3 h (example_storage example_banks) = Inr (Inr removed, S1)"
  by (simp add: set_root_def abind_def amap_err_def with_blockstore_def example_blockstore_def list_forks_def
      example_storage_def example_get)


end
