(* ===== verification/Shred_Processor.thy ===== *)
theory Shred_Processor
  imports Storage_Types
begin

text \<open>
  \<^verbatim>\<open>EntriesProcessor\<close> of \<^verbatim>\<open>storage/src/blockstore/process.rs\<close>: the entries of a slot are cut into
  shreds, numbered through the slot.

  The shredder is an argument: it says whether the slot and its parent are admissible, and how a
  list of entries is cut into data and coding shreds that start at given numbers.  The measured
  time is an argument too.  The debug assertions of the code are part of the model.
\<close>

section \<open>The shredder\<close>

record ('e, 'sh, 'kp) shredder_api =
  sh_new_ok :: "slot \<Rightarrow> slot \<Rightarrow> nat \<Rightarrow> nat \<Rightarrow> bool"
  sh_entries_to_shreds :: "slot \<times> slot \<times> nat \<times> nat \<Rightarrow> 'kp \<Rightarrow> 'e list \<Rightarrow> bool \<Rightarrow> nat \<Rightarrow> nat \<Rightarrow> 'sh list \<times> 'sh list"
  sh_index :: "'sh \<Rightarrow> nat"
  sh_merkle_root :: "'sh \<Rightarrow> string + hash"
  MAX_DATA_SHREDS_PER_SLOT :: nat
  MAX_CODE_SHREDS_PER_SLOT :: nat

section \<open>The processor\<close>

text \<open>The fields of \<^verbatim>\<open>ProcessShredsStats\<close> that are set here.\<close>

record process_shreds_stats =
  shredding_elapsed :: nat
  num_merkle_data_shreds :: nat
  num_merkle_coding_shreds :: nat
  err_unknown_chained_merkle_root :: nat

definition process_shreds_stats_default :: process_shreds_stats where
  "process_shreds_stats_default = \<lparr>shredding_elapsed = 0, num_merkle_data_shreds = 0,
     num_merkle_coding_shreds = 0, err_unknown_chained_merkle_root = 0\<rparr>"

definition add_stats :: "process_shreds_stats \<Rightarrow> process_shreds_stats \<Rightarrow> process_shreds_stats" where
  "add_stats a b = \<lparr>shredding_elapsed = shredding_elapsed a + shredding_elapsed b,
     num_merkle_data_shreds = num_merkle_data_shreds a + num_merkle_data_shreds b,
     num_merkle_coding_shreds = num_merkle_coding_shreds a + num_merkle_coding_shreds b,
     err_unknown_chained_merkle_root = err_unknown_chained_merkle_root a + err_unknown_chained_merkle_root b\<rparr>"

record entries_processor =
  ep_slot :: slot
  ep_parent :: slot
  chained_merkle_root :: hash
  next_shred_index :: nat
  next_code_index :: nat
  completed :: bool
  ep_stats :: process_shreds_stats
  shred_version :: nat
  num_batches :: nat

definition new_entries_processor :: "nat \<Rightarrow> entries_processor" where
  "new_entries_processor version = \<lparr>ep_slot = umax 64, ep_parent = umax 64, chained_merkle_root = 0,
     next_shred_index = 0, next_code_index = 0, completed = True, ep_stats = process_shreds_stats_default,
     shred_version = version, num_batches = 0\<rparr>"

definition get_chained_merkle_root_from_parent ::
  "('s, 'sh, 'm) blockstore_api \<Rightarrow> slot \<Rightarrow> slot \<Rightarrow> 's \<Rightarrow> (rollup_error + hash) res" where
  "get_chained_merkle_root_from_parent K s parent bl =
     (if s = parent then rbind (rassert (s = 0) ''slot == 0'') (\<lambda>_. Inr (Inr 0))
      else rbind (rassert (parent < s) ''parent < slot'') (\<lambda>_. Inr (
        case bs_last_index K bl parent of
          Inl e \<Rightarrow> Inl (SolanaBlockstoreError e)
        | Inr None \<Rightarrow> Inl (StorageError (UnknownSlotMeta parent))
        | Inr (Some None) \<Rightarrow> Inl (StorageError (UnknownLastIndex parent))
        | Inr (Some (Some index)) \<Rightarrow>
           (case bs_data_shred_root K bl parent index of
              Inl e \<Rightarrow> Inl (SolanaBlockstoreError e)
            | Inr None \<Rightarrow> Inl (StorageError (ShredNotFound parent index))
            | Inr (Some None) \<Rightarrow> Inl (StorageError (InvalidMerkleRoot parent index))
            | Inr (Some (Some h)) \<Rightarrow> Inr h))))"

definition reset_processor ::
  "('s, 'sh, 'm) blockstore_api \<Rightarrow> bank_ref \<Rightarrow> 's \<Rightarrow> entries_processor \<times> process_shreds_stats
     \<Rightarrow> (entries_processor \<times> process_shreds_stats) res" where
  "reset_processor K b bl = (\<lambda>(P, st).
     rbind (if ep_slot P = ref_parent_slot b then Inr (chained_merkle_root P, st)
            else rbind (get_chained_merkle_root_from_parent K (ref_slot b) (ref_parent_slot b) bl) (\<lambda>r. Inr (
              case r of
                Inl e \<Rightarrow> (0, st\<lparr>err_unknown_chained_merkle_root := err_unknown_chained_merkle_root st + 1\<rparr>)
              | Inr h \<Rightarrow> (h, st)))) (\<lambda>(h, st').
     Inr (P\<lparr>ep_slot := ref_slot b, ep_parent := ref_parent_slot b, chained_merkle_root := h,
       next_shred_index := 0, next_code_index := 0, completed := False, num_batches := 0\<rparr>, st')))"

text \<open>\<^verbatim>\<open>max_by_key\<close> returns the last of the greatest elements.\<close>

definition max_by_key :: "('a \<Rightarrow> nat) \<Rightarrow> 'a list \<Rightarrow> 'a option" where
  "max_by_key key xs = fold (\<lambda>x acc. case acc of
     None \<Rightarrow> Some x | Some y \<Rightarrow> Some (if key y \<le> key x then x else y)) xs None"

definition advance_data :: "('e, 'sh, 'kp) shredder_api \<Rightarrow> 'sh list \<Rightarrow> entries_processor \<Rightarrow> entries_processor res" where
  "advance_data H data P = (case max_by_key (sh_index H) data of
     None \<Rightarrow> Inr P
   | Some x \<Rightarrow> (case sh_merkle_root H x of
       Inl e \<Rightarrow> Inl (UnwrapOnNone ''called Result::unwrap() on an Err value'')
     | Inr h \<Rightarrow> rbind (checked_add 32 (sh_index H x) 1) (\<lambda>i.
         Inr (P\<lparr>chained_merkle_root := h, next_shred_index := i\<rparr>))))"

definition advance_code :: "('e, 'sh, 'kp) shredder_api \<Rightarrow> 'sh list \<Rightarrow> entries_processor \<Rightarrow> entries_processor res" where
  "advance_code H code P = (case max_by_key id (map (sh_index H) code) of
     None \<Rightarrow> Inr P
   | Some j \<Rightarrow> rbind (checked_add 32 j 1) (\<lambda>i. Inr (P\<lparr>next_code_index := i\<rparr>)))"

definition entries_to_shreds ::
  "('e, 'sh, 'kp) shredder_api \<Rightarrow> 'kp \<Rightarrow> 'e list \<Rightarrow> nat \<Rightarrow> bool \<Rightarrow> nat \<Rightarrow> nat
     \<Rightarrow> (entries_processor \<times> process_shreds_stats, rollup_error, 'sh list \<times> 'sh list) act" where
  "entries_to_shreds H kp entries reference_tick is_slot_end max_data max_code = (\<lambda>(P, st).
     rbind (if sh_new_ok H (ep_slot P) (ep_parent P) reference_tick (shred_version P) then Inr ()
            else Inl (UnwrapOnNone ''called Result::unwrap() on an Err value'')) (\<lambda>_.
     let (data, code) = sh_entries_to_shreds H (ep_slot P, ep_parent P, reference_tick, shred_version P) kp entries
           is_slot_end (next_shred_index P) (next_code_index P);
         st1 = st\<lparr>num_merkle_data_shreds := num_merkle_data_shreds st + length data,
           num_merkle_coding_shreds := num_merkle_coding_shreds st + length code\<rparr> in
     rbind (advance_data H data P) (\<lambda>P1.
     if next_shred_index P1 > max_data then Inr (Inl (StorageError TooManyShreds), P1, st1)
     else rbind (advance_code H code P1) (\<lambda>P2.
     if next_code_index P2 > max_code then Inr (Inl (StorageError TooManyShreds), P2, st1)
     else Inr (Inr (data, code), P2, st1)))))"

definition process ::
  "('e, 'sh, 'kp) shredder_api \<Rightarrow> ('b, 'a, 'tx, 'o, 'ex, 'tr) bank_api \<Rightarrow> ('s, 'sh2, 'm) blockstore_api \<Rightarrow> nat
     \<Rightarrow> bank_ref \<Rightarrow> 'b \<Rightarrow> 's \<Rightarrow> nat \<Rightarrow> 'kp \<Rightarrow> 'e list \<Rightarrow> (entries_processor, rollup_error, 'sh list \<times> 'sh list) act" where
  "process H B K elapsed r b bl last_tick_height kp entries P =
     rbind (if ep_slot P \<noteq> ref_slot r then reset_processor K r bl (P, process_shreds_stats_default)
            else Inr (P, process_shreds_stats_default)) (\<lambda>(P1, st1).
     rbind (checked_mod (b_tick_height B b) (b_ticks_per_slot B b)) (\<lambda>reference_tick.
     rbind (entries_to_shreds H kp entries (reference_tick mod 256) (last_tick_height = b_max_tick_height B b)
         (MAX_DATA_SHREDS_PER_SLOT H) (MAX_CODE_SHREDS_PER_SLOT H) (P1, st1)) (\<lambda>(x, P2, st2).
     case x of
       Inl e \<Rightarrow> Inr (Inl e, P2)
     | Inr shreds \<Rightarrow>
         rbind (checked_add 64 (num_batches P2) 2) (\<lambda>n.
         let P3 = P2\<lparr>num_batches := n, ep_stats := add_stats (ep_stats P2) (st2\<lparr>shredding_elapsed := elapsed\<rparr>)\<rparr> in
         Inr (Inr shreds, if last_tick_height = b_max_tick_height B b then P3\<lparr>completed := True\<rparr> else P3)))))"

section \<open>Numbering\<close>

text \<open>
  The shredder numbers the shreds of a call one after the other, from the numbers it is given.
\<close>

definition shredder_laws :: "('e, 'sh, 'kp) shredder_api \<Rightarrow> bool" where
  "shredder_laws H \<longleftrightarrow> (\<forall>at kp es end i j data code. sh_entries_to_shreds H at kp es end i j = (data, code) \<longrightarrow>
     map (sh_index H) data = [i..<i + length data] \<and> map (sh_index H) code = [j..<j + length code])"

lemma max_by_key_upt:
  assumes "map key xs = [i..<i + length xs]" "xs \<noteq> []"
  shows "\<exists>x. max_by_key key xs = Some x \<and> key x + 1 = i + length xs"
proof -
  have "fold (\<lambda>x acc. case acc of None \<Rightarrow> Some x | Some y \<Rightarrow> Some (if key y \<le> key x then x else y)) xs acc = Some (last xs)"
    if "sorted (map key xs)" "xs \<noteq> []" "case acc of None \<Rightarrow> True | Some y \<Rightarrow> key y \<le> key (hd xs)" for acc and xs :: "'a list"
    using that
  proof (induction xs arbitrary: acc)
    case (Cons x xs)
    show ?case
    proof (cases "xs = []")
      case False
      then have "key x \<le> key (hd xs)" using Cons.prems(1) by (cases xs) auto
      then show ?thesis using Cons.IH [of "Some x"] Cons.prems False by (cases acc) auto
    qed (use Cons.prems(3) in \<open>auto split: option.splits\<close>)
  qed simp
  from this [of xs None] assms have "max_by_key key xs = Some (last xs)" by (simp add: max_by_key_def)
  moreover have "key (last xs) + 1 = i + length xs"
  proof -
    have "key (last xs) = map key xs ! (length xs - 1)" using assms(2) by (simp add: last_conv_nth)
    then show ?thesis unfolding assms(1) using assms(2) by (cases xs) (simp_all del: upt_Suc)
  qed
  ultimately show ?thesis by blast
qed

lemma upt_join: "i \<le> j \<Longrightarrow> j \<le> k \<Longrightarrow> [i..<j] @ [j..<k] = [i..<k]"
  using upt_add_eq_append [of i j "k - j"] by simp

lemma advance_data_ok:
  assumes "map (sh_index H) data = [next_shred_index P..<next_shred_index P + length data]" "advance_data H data P = Inr P'"
  shows "next_shred_index P' = next_shred_index P + length data \<and> next_code_index P' = next_code_index P \<and> ep_slot P' = ep_slot P"
proof (cases "data = []")
  case False
  then show ?thesis using max_by_key_upt [OF assms(1)] assms(2) by (auto simp: advance_data_def res_simps split: sum.splits)
qed (use assms(2) in \<open>simp add: advance_data_def max_by_key_def\<close>)

lemma advance_code_ok:
  assumes "map (sh_index H) code = [next_code_index P..<next_code_index P + length code]" "advance_code H code P = Inr P'"
  shows "next_code_index P' = next_code_index P + length code \<and> next_shred_index P' = next_shred_index P \<and> ep_slot P' = ep_slot P"
proof (cases "code = []")
  case False
  have "map id (map (sh_index H) code) = [next_code_index P..<next_code_index P + length (map (sh_index H) code)]" using assms(1) by simp
  from max_by_key_upt [OF this] False show ?thesis using assms(2) by (auto simp: advance_code_def res_simps)
qed (use assms(2) in \<open>simp add: advance_code_def max_by_key_def\<close>)

lemma entries_to_shreds_numbers:
  assumes laws: "shredder_laws H"
    and run: "entries_to_shreds H kp es tick is_end md mc (P, st) = Inr (Inr (data, code), P', st')"
  shows "map (sh_index H) data = [next_shred_index P..<next_shred_index P']"
    "map (sh_index H) code = [next_code_index P..<next_code_index P']"
    "next_shred_index P \<le> next_shred_index P'" "next_code_index P \<le> next_code_index P'"
    "next_shred_index P' \<le> md" "next_code_index P' \<le> mc" "ep_slot P' = ep_slot P"
proof -
  obtain d c where dc: "sh_entries_to_shreds H (ep_slot P, ep_parent P, tick, shred_version P) kp es
      is_end (next_shred_index P) (next_code_index P) = (d, c)" by fastforce
  then have n: "map (sh_index H) d = [next_shred_index P..<next_shred_index P + length d]"
    "map (sh_index H) c = [next_code_index P..<next_code_index P + length c]"
    using laws unfolding shredder_laws_def by blast+
  from run obtain P1 where eqs: "data = d" "code = c" and le: "next_shred_index P1 \<le> md" "next_code_index P' \<le> mc"
    and P1: "advance_data H d P = Inr P1" "advance_code H c P1 = Inr P'"
    unfolding entries_to_shreds_def by (auto simp: dc res_simps Let_def not_less split: if_splits)
  have 1: "next_shred_index P1 = next_shred_index P + length d" "next_code_index P1 = next_code_index P" "ep_slot P1 = ep_slot P"
    using advance_data_ok [OF n(1) P1(1)] by blast+
  from advance_code_ok [OF _ P1(2)] n(2) have 2: "next_code_index P' = next_code_index P1 + length c"
    "next_shred_index P' = next_shred_index P1" "ep_slot P' = ep_slot P1" unfolding 1(2) by blast+
  show "map (sh_index H) data = [next_shred_index P..<next_shred_index P']"
    "map (sh_index H) code = [next_code_index P..<next_code_index P']"
    "next_shred_index P \<le> next_shred_index P'" "next_code_index P \<le> next_code_index P'"
    "next_shred_index P' \<le> md" "next_code_index P' \<le> mc" "ep_slot P' = ep_slot P"
    using 1 2 n le eqs by simp_all
qed

text \<open>A call for the slot the processor is at goes on with the numbers; a call for another slot starts again.\<close>

lemma process_numbers:
  assumes laws: "shredder_laws H" and run: "process H B K el r b bl lt kp es P = Inr (Inr (data, code), P')"
  defines "i \<equiv> if ep_slot P = ref_slot r then next_shred_index P else 0"
    and "j \<equiv> if ep_slot P = ref_slot r then next_code_index P else 0"
  shows "map (sh_index H) data = [i..<next_shred_index P'] \<and> map (sh_index H) code = [j..<next_code_index P'] \<and>
    i \<le> next_shred_index P' \<and> j \<le> next_code_index P' \<and> next_shred_index P' \<le> MAX_DATA_SHREDS_PER_SLOT H \<and>
    next_code_index P' \<le> MAX_CODE_SHREDS_PER_SLOT H \<and> ep_slot P' = ref_slot r"
proof -
  from run obtain P1 st1 tick x P2 st2 where
    P1: "(if ep_slot P \<noteq> ref_slot r then reset_processor K r bl (P, process_shreds_stats_default)
      else Inr (P, process_shreds_stats_default)) = Inr (P1, st1)"
    and P2: "entries_to_shreds H kp es tick (lt = b_max_tick_height B b) (MAX_DATA_SHREDS_PER_SLOT H)
      (MAX_CODE_SHREDS_PER_SLOT H) (P1, st1) = Inr (x, P2, st2)"
    and rest: "(case x of Inl e \<Rightarrow> Inr (Inl e, P2) | Inr shreds \<Rightarrow>
         rbind (checked_add 64 (num_batches P2) 2) (\<lambda>n.
         let P3 = P2\<lparr>num_batches := n, ep_stats := add_stats (ep_stats P2) (st2\<lparr>shredding_elapsed := el\<rparr>)\<rparr> in
         Inr (Inr shreds, if lt = b_max_tick_height B b then P3\<lparr>completed := True\<rparr> else P3))) = Inr (Inr (data, code), P')"
    unfolding process_def by (auto simp: res_simps)
  have 1: "next_shred_index P1 = i" "next_code_index P1 = j" "ep_slot P1 = ref_slot r"
    using P1 by (auto simp: i_def j_def reset_processor_def res_simps split: if_splits)
  have x: "x = Inr (data, code)" using rest by (auto simp: res_simps Let_def split: sum.splits)
  have 2: "next_shred_index P' = next_shred_index P2" "next_code_index P' = next_code_index P2" "ep_slot P' = ep_slot P2"
    using rest unfolding x by (auto simp: res_simps Let_def)
  show ?thesis using entries_to_shreds_numbers [OF laws P2 [unfolded x]] unfolding 1 2 by blast
qed

section \<open>Property\<close>

text \<open>
  C38.  A new processor that is given the entries of a slot in any number of calls numbers the data
  shreds of the slot \<open>0, 1, 2, \<dots>\<close> without a gap and without a repetition, likewise the coding
  shreds, and never goes beyond the number of shreds a slot may have.
\<close>

theorem shreds_numbered_through_slot:
  assumes laws: "shredder_laws H"
    and run: "afor (process H B K el r b bl lt kp) ess (new_entries_processor v) = Inr (Inr outs, P')"
  shows "map (sh_index H) (concat (map fst outs)) = [0..<next_shred_index P'] \<and>
    map (sh_index H) (concat (map snd outs)) = [0..<next_code_index P'] \<and>
    (outs \<noteq> [] \<longrightarrow> next_shred_index P' \<le> MAX_DATA_SHREDS_PER_SLOT H \<and> next_code_index P' \<le> MAX_CODE_SHREDS_PER_SLOT H)"
proof -
  have gen: "map (sh_index H) (concat (map fst outs)) = [i..<next_shred_index P'] \<and>
      map (sh_index H) (concat (map snd outs)) = [j..<next_code_index P'] \<and>
      i \<le> next_shred_index P' \<and> j \<le> next_code_index P' \<and>
      (outs \<noteq> [] \<longrightarrow> next_shred_index P' \<le> MAX_DATA_SHREDS_PER_SLOT H \<and> next_code_index P' \<le> MAX_CODE_SHREDS_PER_SLOT H)"
    if "afor (process H B K el r b bl lt kp) ess P = Inr (Inr outs, P')"
      "i = (if ep_slot P = ref_slot r then next_shred_index P else 0)" "j = (if ep_slot P = ref_slot r then next_code_index P else 0)"
      "ess = [] \<longrightarrow> i = next_shred_index P \<and> j = next_code_index P"
    for ess outs P i j
    using that
  proof (induction ess arbitrary: outs P i j)
    case (Cons es ess)
    then obtain data code P1 outs1 where 1: "process H B K el r b bl lt kp es P = Inr (Inr (data, code), P1)"
      and 2: "afor (process H B K el r b bl lt kp) ess P1 = Inr (Inr outs1, P')" and outs: "outs = (data, code) # outs1"
      by (auto simp: act_simps)
    note n = process_numbers [OF laws 1]
    from Cons.IH [OF 2 refl refl] n
    have IH: "map (sh_index H) (concat (map fst outs1)) = [next_shred_index P1..<next_shred_index P'] \<and>
      map (sh_index H) (concat (map snd outs1)) = [next_code_index P1..<next_code_index P'] \<and>
      next_shred_index P1 \<le> next_shred_index P' \<and> next_code_index P1 \<le> next_code_index P' \<and>
      (outs1 \<noteq> [] \<longrightarrow> next_shred_index P' \<le> MAX_DATA_SHREDS_PER_SLOT H \<and> next_code_index P' \<le> MAX_CODE_SHREDS_PER_SLOT H)" by simp
    have "outs1 = [] \<Longrightarrow> P' = P1" using 2 by (cases ess) (auto simp: act_simps)
    with IH n Cons.prems(2,3) outs show ?case by (auto simp: upt_join)
  qed simp
  show ?thesis using gen [OF run refl refl] by (simp add: new_entries_processor_def)
qed

section \<open>Witness\<close>

text \<open>A shredder that makes two data shreds and one coding shred of every entry.\<close>

definition example_shredder :: "(nat, nat, unit) shredder_api" where
  "example_shredder = \<lparr>sh_new_ok = (\<lambda>s p t v. p < s),
     sh_entries_to_shreds = (\<lambda>_ _ es _ i j. ([i..<i + 2 * length es], [j..<j + length es])),
     sh_index = id, sh_merkle_root = (\<lambda>_. Inr 0), MAX_DATA_SHREDS_PER_SLOT = 32768, MAX_CODE_SHREDS_PER_SLOT = 32768\<rparr>"

lemma example_shredder_laws: "shredder_laws example_shredder"
  by (auto simp: shredder_laws_def example_shredder_def)

definition example_bank_api :: "(nat, unit, nat, unit, unit, unit) bank_api" where
  "example_bank_api = \<lparr>b_get_account = (\<lambda>_ _. None), b_hash = (\<lambda>_. 0), b_last_blockhash = (\<lambda>_. 7), b_lamports_per_signature = (\<lambda>_. 0),
     b_parent = (\<lambda>_. None), b_freeze = id, b_store_account = (\<lambda>_ _. id), b_new_from_parent = (\<lambda>_ _ _ b. Inr (b, 0)),
     b_register_tick = (\<lambda>_ b. b + 1), b_tick_height = id, b_max_tick_height = (\<lambda>_. 2), b_ticks_per_slot = (\<lambda>_. 2),
     b_commit_transactions = (\<lambda>_ _ _ _ _ _ b. ((), b))\<rparr>"

definition example_block_meta :: "(unit, nat, unit) blockstore_api" where
  "example_block_meta = \<lparr>bs_highest_slot = (\<lambda>_. Inr None), bs_rooted_block_time = (\<lambda>_ _. Inl []), bs_max_root = (\<lambda>_. 0),
     bs_set_roots = (\<lambda>_ s. (Inr (), s)), bs_set_dead_slot = (\<lambda>_ s. (Inr (), s)), bs_insert_shreds = (\<lambda>_ s. (Inr (), s)),
     bs_last_index = (\<lambda>_ _. Inr (Some (Some 3))), bs_data_shred_root = (\<lambda>_ _ _. Inr (Some (Some 9))),
     bs_complete_transaction = (\<lambda>_ _ _. Inr None), bs_rooted_transaction = (\<lambda>_ _. Inr None)\<rparr>"

theorem shreds_numbered_through_slot_witness:
  "\<exists>outs P'. afor (process example_shredder example_bank_api example_block_meta 0 \<lparr>ref_addr = 0, ref_slot = 5, ref_parent_slot = 4\<rparr>
      0 () 2 ()) [[10, 11], [12]] (new_entries_processor 0) = Inr (Inr outs, P') \<and>
     concat (map fst outs) = [0, 1, 2, 3, 4, 5] \<and> next_shred_index P' = 6"
proof -
  let ?run = "afor (process example_shredder example_bank_api example_block_meta 0 \<lparr>ref_addr = 0, ref_slot = 5, ref_parent_slot = 4\<rparr>
      0 () 2 ()) [[10, 11], [12]] (new_entries_processor 0)"
  have "\<exists>outs P'. ?run = Inr (Inr outs, P') \<and> next_shred_index P' = 6"
    by (simp add: process_def new_entries_processor_def example_bank_api_def example_block_meta_def example_shredder_def
        reset_processor_def get_chained_merkle_root_from_parent_def rassert_def umax_def checked_mod_def checked_add_def
        entries_to_shreds_def advance_data_def advance_code_def max_by_key_def upt_rec Let_def abind_def aret_def
        process_shreds_stats_default_def)
  then obtain outs P' where run: "?run = Inr (Inr outs, P')" and n: "next_shred_index P' = 6" by blast
  have "map id (concat (map fst outs)) = [0..<6]"
    using shreds_numbered_through_slot [OF example_shredder_laws run] n by (simp add: example_shredder_def)
  then show ?thesis using run n by (auto simp: upt_rec)
qed

end
