(* ===== verification/Cached_Lookup.thy ===== *)
theory Cached_Lookup
  imports Igloo_Prelude
begin

text \<open>
  Visiting a list with a cache.  The storage and the JSON-RPC server both look up the mints of token accounts
  and keep what they found for the accounts that follow; a client of such a cache only wants to know that it makes no
  difference.  The locale \<open>cached_look_ups\<close> is that contract: as long as the cache agrees with the look-ups,
  a step gives what the direct look-up gives, and the cache still agrees.
\<close>

fun visit :: "('a \<Rightarrow> 'c \<Rightarrow> 'v option \<times> 'c) \<Rightarrow> 'a list \<Rightarrow> 'c \<Rightarrow> 'v list \<times> 'c" where
  "visit f [] c = ([], c)"
| "visit f (x # xs) c =
     (let (v, c1) = f x c; (vs, c2) = visit f xs c1 in (case v of None \<Rightarrow> vs | Some y \<Rightarrow> y # vs, c2))"

locale cached_look_ups =
  fixes look_up :: "'a \<Rightarrow> 'c \<Rightarrow> 'v option \<times> 'c"
    and direct :: "'a \<Rightarrow> 'v option"
    and agrees :: "'c \<Rightarrow> bool"
  assumes look_up_direct: "agrees c \<Longrightarrow> fst (look_up a c) = direct a"
    and look_up_agrees: "agrees c \<Longrightarrow> agrees (snd (look_up a c))"
begin

lemma visit_direct:
  "agrees c \<Longrightarrow> fst (visit look_up xs c) = List.map_filter direct xs \<and> agrees (snd (visit look_up xs c))"
proof (induction xs arbitrary: c)
  case (Cons x xs)
  obtain v c1 where s: "look_up x c = (v, c1)" by fastforce
  with look_up_direct [OF Cons.prems, of x] look_up_agrees [OF Cons.prems, of x] have "v = direct x" "agrees c1" by auto
  with Cons.IH [of c1] s show ?case by (cases "direct x") (auto simp: map_filter_simps split: prod.splits)
qed (simp add: map_filter_simps)

end

end
