(* ===== verification/Commit_Batch.thy ===== *)
theory Commit_Batch
  imports Storage_Types Cached_Lookup
begin

text \<open>
  \<^verbatim>\<open>CommitBatch\<close> of \<^verbatim>\<open>storage/src/blockstore/txs.rs\<close>: the transactions of a batch, and the balances of
  the accounts they touch before and after the batch is committed.

  The token program is an argument: which program ids belong to it, how its accounts and mints are
  decoded, and how an amount is rendered.  The decimals of the mints that were looked up are kept
  in a cache that lives as long as the batch.
\<close>

section \<open>The token program\<close>

record token_account =
  ta_mint :: pubkey
  ta_owner :: pubkey
  ta_amount :: nat

record ('b, 'a, 'tx, 'ui) token_api =
  tk_get_account :: "'b \<Rightarrow> pubkey \<Rightarrow> 'a option"
  tk_get_balance :: "'b \<Rightarrow> pubkey \<Rightarrow> nat"
  tk_account_keys :: "'tx \<Rightarrow> pubkey list"
  tk_is_invoked :: "'tx \<Rightarrow> nat \<Rightarrow> bool"
  tk_is_known_spl_token_id :: "pubkey \<Rightarrow> bool"
  tk_owner :: "'a \<Rightarrow> pubkey"
  tk_unpack_account :: "'a \<Rightarrow> token_account option"
  tk_unpack_mint_decimals :: "'a \<Rightarrow> nat option"
  tk_native_mint :: pubkey
  tk_native_decimals :: nat
  tk_ui_amount :: "nat \<Rightarrow> nat \<Rightarrow> 'ui"
  tk_to_string :: "pubkey \<Rightarrow> string"

section \<open>Batches\<close>

record 'ui token_balance_data =
  tb_mint :: string
  tb_owner :: string
  tb_ui_token_amount :: 'ui
  tb_program_id :: string

text \<open>\<^verbatim>\<open>TransactionTokenBalance\<close>: the same data under the index of the account, which is a \<open>u8\<close>.\<close>

record 'ui transaction_token_balance = "'ui token_balance_data" +
  tb_account_index :: u8

record 'tx commit_batch =
  sanitized_txs :: "'tx list"
  mint_decimals :: "pubkey \<Rightarrow> nat option"
  transaction_indexes :: "nat list"

definition new_commit_batch :: "'tx list \<Rightarrow> 'tx commit_batch" where
  "new_commit_batch txs = \<lparr>sanitized_txs = txs, mint_decimals = Map.empty, transaction_indexes = [0..<length txs]\<rparr>"

definition new_with_indexes :: "'tx list \<Rightarrow> nat list \<Rightarrow> 'tx commit_batch" where
  "new_with_indexes txs ixs = \<lparr>sanitized_txs = txs, mint_decimals = Map.empty, transaction_indexes = ixs\<rparr>"

definition batch_transactions :: "'tx commit_batch \<Rightarrow> 'tx list" where
  "batch_transactions c = sanitized_txs c"

definition collect_balances :: "('b, 'a, 'tx, 'ui) token_api \<Rightarrow> 'b \<Rightarrow> 'tx commit_batch \<Rightarrow> nat list list" where
  "collect_balances T b c = map (\<lambda>tx. map (tk_get_balance T b) (tk_account_keys T tx)) (batch_transactions c)"

definition get_mint_decimals :: "('b, 'a, 'tx, 'ui) token_api \<Rightarrow> 'b \<Rightarrow> pubkey \<Rightarrow> nat option" where
  "get_mint_decimals T b mint =
     (if mint = tk_native_mint T then Some (tk_native_decimals T)
      else (case tk_get_account T b mint of
          None \<Rightarrow> None
        | Some a \<Rightarrow> if \<not> tk_is_known_spl_token_id T (tk_owner T a) then None else tk_unpack_mint_decimals T a))"

definition collect_token_balance_from_account ::
  "('b, 'a, 'tx, 'ui) token_api \<Rightarrow> 'b \<Rightarrow> pubkey \<Rightarrow> 'tx commit_batch \<Rightarrow> 'ui token_balance_data option \<times> 'tx commit_batch" where
  "collect_token_balance_from_account T b account_id c =
     (case tk_get_account T b account_id of
        None \<Rightarrow> (None, c)
      | Some a \<Rightarrow>
          if \<not> tk_is_known_spl_token_id T (tk_owner T a) then (None, c)
          else (case tk_unpack_account T a of
              None \<Rightarrow> (None, c)
            | Some t \<Rightarrow>
                let (decimals, c') =
                  (case mint_decimals c (ta_mint t) of
                     Some d \<Rightarrow> (Some d, c)
                   | None \<Rightarrow> (case get_mint_decimals T b (ta_mint t) of
                       None \<Rightarrow> (None, c)
                     | Some d \<Rightarrow> (Some d, c\<lparr>mint_decimals := (mint_decimals c)(ta_mint t \<mapsto> d)\<rparr>))) in
                (case decimals of
                   None \<Rightarrow> (None, c')
                 | Some d \<Rightarrow>
                     (Some \<lparr>tb_mint = tk_to_string T (ta_mint t), tb_owner = tk_to_string T (ta_owner t),
                        tb_ui_token_amount = tk_ui_amount T (ta_amount t) d,
                        tb_program_id = tk_to_string T (tk_owner T a)\<rparr>, c'))))"

text \<open>The accounts of a transaction whose token balances are recorded, with their indexes.\<close>

definition token_record :: "('b, 'a, 'tx, 'ui) token_api \<Rightarrow> 'tx \<Rightarrow> (nat \<times> pubkey) list" where
  "token_record T tx =
     (let ks = tk_account_keys T tx in
      if list_ex (tk_is_known_spl_token_id T) ks
      then filter (\<lambda>(i, k). \<not> (tk_is_invoked T tx i \<or> tk_is_known_spl_token_id T k)) (enumerate 0 ks)
      else [])"

fun collect_record ::
  "('b, 'a, 'tx, 'ui) token_api \<Rightarrow> 'b \<Rightarrow> (nat \<times> pubkey) list \<Rightarrow> 'tx commit_batch
     \<Rightarrow> 'ui transaction_token_balance list \<times> 'tx commit_batch" where
  "collect_record T b [] c = ([], c)"
| "collect_record T b ((i, k) # rs) c =
     (let (d, c1) = collect_token_balance_from_account T b k c;
          (ds, c2) = collect_record T b rs c1 in
      (case d of
         None \<Rightarrow> (ds, c2)
       | Some x \<Rightarrow> (\<lparr>tb_mint = tb_mint x, tb_owner = tb_owner x, tb_ui_token_amount = tb_ui_token_amount x,
             tb_program_id = tb_program_id x, tb_account_index = of_nat i\<rparr> # ds, c2)))"

fun collect_records ::
  "('b, 'a, 'tx, 'ui) token_api \<Rightarrow> 'b \<Rightarrow> (nat \<times> pubkey) list list \<Rightarrow> 'tx commit_batch
     \<Rightarrow> 'ui transaction_token_balance list list \<times> 'tx commit_batch" where
  "collect_records T b [] c = ([], c)"
| "collect_records T b (r # rs) c =
     (let (x, c1) = collect_record T b r c; (xs, c2) = collect_records T b rs c1 in (x # xs, c2))"

definition collect_token_balances ::
  "('b, 'a, 'tx, 'ui) token_api \<Rightarrow> 'b \<Rightarrow> 'tx commit_batch \<Rightarrow> 'ui transaction_token_balance list list \<times> 'tx commit_batch" where
  "collect_token_balances T b c = collect_records T b (map (token_record T) (sanitized_txs c)) c"

section \<open>The cache\<close>

text \<open>The balances without a cache: every mint is looked up in the bank.\<close>

definition token_balance_of :: "('b, 'a, 'tx, 'ui) token_api \<Rightarrow> 'b \<Rightarrow> pubkey \<Rightarrow> 'ui token_balance_data option" where
  "token_balance_of T b k =
     Option.bind (tk_get_account T b k) (\<lambda>a.
     if tk_is_known_spl_token_id T (tk_owner T a)
     then Option.bind (tk_unpack_account T a) (\<lambda>t.
       map_option (\<lambda>d. \<lparr>tb_mint = tk_to_string T (ta_mint t), tb_owner = tk_to_string T (ta_owner t),
         tb_ui_token_amount = tk_ui_amount T (ta_amount t) d, tb_program_id = tk_to_string T (tk_owner T a)\<rparr>)
       (get_mint_decimals T b (ta_mint t)))
     else None)"

definition indexed :: "nat \<Rightarrow> 'ui token_balance_data \<Rightarrow> 'ui transaction_token_balance" where
  "indexed i x = \<lparr>tb_mint = tb_mint x, tb_owner = tb_owner x, tb_ui_token_amount = tb_ui_token_amount x,
     tb_program_id = tb_program_id x, tb_account_index = of_nat i\<rparr>"

definition token_balances_of :: "('b, 'a, 'tx, 'ui) token_api \<Rightarrow> 'b \<Rightarrow> 'tx \<Rightarrow> 'ui transaction_token_balance list" where
  "token_balances_of T b tx =
     List.map_filter (\<lambda>(i, k). map_option (indexed i) (token_balance_of T b k)) (token_record T tx)"

definition cache_agrees :: "('b, 'a, 'tx, 'ui) token_api \<Rightarrow> 'b \<Rightarrow> 'tx commit_batch \<Rightarrow> bool" where
  "cache_agrees T b c \<longleftrightarrow> (\<forall>m d. mint_decimals c m = Some d \<longrightarrow> get_mint_decimals T b m = Some d)"

lemma collect_one_uncached:
  assumes "cache_agrees T b c" "collect_token_balance_from_account T b k c = (x, c')"
  shows "x = token_balance_of T b k \<and> cache_agrees T b c' \<and> sanitized_txs c' = sanitized_txs c \<and>
    transaction_indexes c' = transaction_indexes c"
proof (cases "tk_get_account T b k")
  case None
  then show ?thesis using assms by (simp add: collect_token_balance_from_account_def token_balance_of_def)
next
  case (Some a)
  show ?thesis
  proof (cases "tk_is_known_spl_token_id T (tk_owner T a) \<and> tk_unpack_account T a \<noteq> None")
    case False
    then show ?thesis using assms Some
      by (auto simp: collect_token_balance_from_account_def token_balance_of_def split: if_splits option.splits)
  next
    case True
    then obtain t where t: "tk_is_known_spl_token_id T (tk_owner T a)" "tk_unpack_account T a = Some t" by auto
    show ?thesis
    proof (cases "mint_decimals c (ta_mint t)")
      case (Some d)
      then have "get_mint_decimals T b (ta_mint t) = Some d" using assms(1) by (simp add: cache_agrees_def)
      then show ?thesis using assms Some \<open>tk_get_account T b k = Some a\<close> t
        by (auto simp: collect_token_balance_from_account_def token_balance_of_def)
    next
      case None
      show ?thesis
        using assms None \<open>tk_get_account T b k = Some a\<close> t
        by (cases "get_mint_decimals T b (ta_mint t)")
          (auto simp: collect_token_balance_from_account_def token_balance_of_def cache_agrees_def split: if_splits)
    qed
  qed
qed

text \<open>What the look-ups of a batch keep: a cache that agrees with the bank, and the rest of the batch.\<close>

definition batch_agrees :: "('b, 'a, 'tx, 'ui) token_api \<Rightarrow> 'b \<Rightarrow> 'tx list \<Rightarrow> nat list \<Rightarrow> 'tx commit_batch \<Rightarrow> bool" where
  "batch_agrees T b txs ixs c \<longleftrightarrow> cache_agrees T b c \<and> sanitized_txs c = txs \<and> transaction_indexes c = ixs"

definition balance_step where
  "balance_step T b = (\<lambda>(i, k) c. let (d, c1) = collect_token_balance_from_account T b k c in (map_option (indexed i) d, c1))"

definition record_step where
  "record_step T b = (\<lambda>r c. let (x, c1) = collect_record T b r c in (Some x, c1))"

lemma collect_record_visit: "collect_record T b r c = visit (balance_step T b) r c"
  by (induction r arbitrary: c) (auto simp: balance_step_def indexed_def split: prod.splits option.splits)

lemma collect_records_visit: "collect_records T b rs c = visit (record_step T b) rs c"
  by (induction rs arbitrary: c) (auto simp: record_step_def split: prod.splits)

interpretation balances: cached_look_ups "balance_step T b" "\<lambda>(i, k). map_option (indexed i) (token_balance_of T b k)"
  "batch_agrees T b txs ixs" for T b txs ixs
proof
  fix c and a :: "nat \<times> pubkey"
  assume "batch_agrees T b txs ixs c"
  moreover obtain i k where a: "a = (i, k)" by fastforce
  moreover obtain x c' where x: "collect_token_balance_from_account T b k c = (x, c')" by fastforce
  ultimately show "fst (balance_step T b a c) = (case a of (i, k) \<Rightarrow> map_option (indexed i) (token_balance_of T b k))"
    "batch_agrees T b txs ixs (snd (balance_step T b a c))"
    using collect_one_uncached [OF _ x] by (auto simp: balance_step_def batch_agrees_def)
qed

interpretation records: cached_look_ups "record_step T b"
  "\<lambda>r. Some (List.map_filter (\<lambda>(i, k). map_option (indexed i) (token_balance_of T b k)) r)" "batch_agrees T b txs ixs" for T b txs ixs
proof
  fix c and r :: "(nat \<times> pubkey) list"
  assume c: "batch_agrees T b txs ixs c"
  obtain x c' where "collect_record T b r c = (x, c')" by fastforce
  with balances.visit_direct [OF c, of r]
  show "fst (record_step T b r c) = Some (List.map_filter (\<lambda>(i, k). map_option (indexed i) (token_balance_of T b k)) r)"
    "batch_agrees T b txs ixs (snd (record_step T b r c))"
    by (simp_all add: record_step_def collect_record_visit)
qed

lemma collect_token_balances_uncached:
  assumes "cache_agrees T b c" "collect_token_balances T b c = (xss, c')"
  shows "xss = map (token_balances_of T b) (sanitized_txs c) \<and> cache_agrees T b c' \<and> sanitized_txs c' = sanitized_txs c"
proof -
  have "batch_agrees T b (sanitized_txs c) (transaction_indexes c) c" using assms(1) by (simp add: batch_agrees_def)
  from records.visit_direct [OF this, of "map (token_record T) (sanitized_txs c)"] assms(2) show ?thesis
    by (simp add: collect_token_balances_def collect_records_visit batch_agrees_def token_balances_of_def comp_def map_filter_def)
qed

section \<open>Property\<close>

text \<open>
  C39.  The cache of mint decimals does not change what is recorded: as long as the decimals of no
  mint change between the two banks, the token balances collected for a new batch before and after
  it is committed are those that looking every mint up in the respective bank gives, one list for
  each transaction.
\<close>

theorem token_balances_uncached:
  assumes "\<And>m d. get_mint_decimals T pre m = Some d \<Longrightarrow> get_mint_decimals T post m = Some d"
    and "collect_token_balances T pre (new_commit_batch txs) = (xss, c)" "collect_token_balances T post c = (yss, c')"
  shows "xss = map (token_balances_of T pre) txs \<and> yss = map (token_balances_of T post) txs"
proof -
  have "cache_agrees T pre (new_commit_batch txs)" by (simp add: cache_agrees_def new_commit_batch_def)
  from collect_token_balances_uncached [OF this assms(2)]
  have xss: "xss = map (token_balances_of T pre) txs" and c: "cache_agrees T pre c" "sanitized_txs c = txs"
    by (simp_all add: new_commit_batch_def)
  have "cache_agrees T post c" using c(1) assms(1) by (auto simp: cache_agrees_def)
  from collect_token_balances_uncached [OF this assms(3)] show ?thesis using xss c(2) by simp
qed

section \<open>Witness\<close>

text \<open>
  Account 1 is the token program, account 2 a token account of mint 9 with 500 units, and mint 9
  has 2 decimals; the bank only says how many units the account holds.
\<close>

definition example_tokens :: "(nat, nat, nat, nat \<times> nat) token_api" where
  "example_tokens = \<lparr>tk_get_account = (\<lambda>b k. if k = 2 then Some b else if k = 9 then Some 0 else None),
     tk_get_balance = (\<lambda>_ _. 1), tk_account_keys = (\<lambda>_. [2, 1]), tk_is_invoked = (\<lambda>_ _. False),
     tk_is_known_spl_token_id = (\<lambda>k. k = 1), tk_owner = (\<lambda>_. 1),
     tk_unpack_account = (\<lambda>a. Some \<lparr>ta_mint = 9, ta_owner = 5, ta_amount = a\<rparr>),
     tk_unpack_mint_decimals = (\<lambda>_. Some 2), tk_native_mint = 0, tk_native_decimals = 9,
     tk_ui_amount = (\<lambda>n d. (n, d)), tk_to_string = (\<lambda>_. [])\<rparr>"

theorem token_balances_uncached_witness:
  "map (map tb_ui_token_amount) (map (token_balances_of example_tokens 500) [7]) = [[(500, 2)]] \<and>
   (let (xss, c) = collect_token_balances example_tokens 500 (new_commit_batch [7]);
        (yss, c') = collect_token_balances example_tokens 400 c in
    xss = map (token_balances_of example_tokens 500) [7] \<and> yss = map (token_balances_of example_tokens 400) [7])"
proof -
  obtain xss c where 1: "collect_token_balances example_tokens 500 (new_commit_batch [7]) = (xss, c)" by fastforce
  obtain yss c' where 2: "collect_token_balances example_tokens 400 c = (yss, c')" by fastforce
  have "get_mint_decimals example_tokens 400 m = Some d" if "get_mint_decimals example_tokens 500 m = Some d" for m d
    using that by (auto simp: get_mint_decimals_def example_tokens_def split: if_splits)
  from token_balances_uncached [OF this 1 2] 1 2 show ?thesis
    by (simp add: token_balances_of_def token_record_def example_tokens_def token_balance_of_def get_mint_decimals_def
        map_filter_simps indexed_def)
qed

end
