(* ===== verification/Storage_Commit.thy ===== *)
theory Storage_Commit
  imports Storage_Ledger Shred_Processor Commit_Batch
begin

text \<open>
  Committing a block: \<^verbatim>\<open>execution/mod.rs\<close>, \<^verbatim>\<open>blockstore/mod.rs\<close>, the commit operations of
  \<^verbatim>\<open>accounts/mod.rs\<close>, \<^verbatim>\<open>history/mod.rs\<close> and \<^verbatim>\<open>events.rs\<close> of the storage.

  The executed transactions of every batch become an entry, ticks complete the slot, the results are
  committed to the bank batch by batch, with the balances before and after where the history is on,
  and the entries are shredded into the block store.  \<open>storage_env\<close> collects the operations of the
  other crates that these steps call.
\<close>

section \<open>The environment\<close>

text \<open>\<^verbatim>\<open>Entry\<close> of the Solana crates, and what is called of it.\<close>

record 'v entry =
  e_num_hashes :: nat
  e_hash :: hash
  e_transactions :: "'v list"

record ('b, 'f, 's, 'a, 'tx, 'v, 'o, 'ex, 'tr, 'sh, 'kp, 'm, 'ui, 'rd) storage_env =
  env_bank :: "('b, 'a, 'tx, 'o, 'ex, 'tr) bank_api"
  env_forks :: "('b, 'f) forks_api"
  env_blockstore :: "('s, 'sh, 'm) blockstore_api"
  env_shredder :: "('v entry, 'sh, 'kp) shredder_api"
  env_tokens :: "('b, 'a, 'tx, 'ui) token_api"
  env_pubkey_of :: "'kp \<Rightarrow> pubkey"
  env_elapsed :: nat
  next_hash :: "hash \<Rightarrow> nat \<Rightarrow> 'v list \<Rightarrow> hash"
  is_tick :: "'v entry \<Rightarrow> bool"
  was_executed :: "'ex \<Rightarrow> bool"
  flattened_is_err :: "'ex \<Rightarrow> bool"
  to_versioned_transaction :: "'tx \<Rightarrow> 'v"
  num_required_signatures :: "'tx \<Rightarrow> u8"
  is_simple_vote_transaction :: "'tx \<Rightarrow> bool"
  rent_debits :: "'tr \<Rightarrow> 'rd"

record ('o, 'ex) transactions_result =
  out_loaded :: 'o
  execution_results :: "'ex list"

record ('tx, 'ex, 'ui, 'rd) transaction_batch_history_info =
  hi_transactions :: "'tx list"
  hi_execution_results :: "'ex list"
  hi_balances :: "nat list list \<times> nat list list"
  hi_token_balances :: "'ui transaction_token_balance list list \<times> 'ui transaction_token_balance list list"
  hi_rent_debits :: 'rd
  hi_transaction_indexes :: "nat list"

section \<open>Entries\<close>

definition DEFAULT_NUM_HASHES :: nat where
  "DEFAULT_NUM_HASHES = 2"

definition new_entry where
  "new_entry E prev_hash num_hashes transactions =
     (let n = (if num_hashes = 0 \<and> transactions \<noteq> [] then 1 else num_hashes) in
      \<lparr>e_num_hashes = n, e_hash = next_hash E prev_hash n transactions, e_transactions = transactions\<rparr>)"

definition transactions_to_entry where
  "transactions_to_entry E transactions start_hash S =
     (case start_hash of
        Some h \<Rightarrow> Inr (new_entry E h DEFAULT_NUM_HASHES transactions)
      | None \<Rightarrow> (case b_parent (env_bank E) (bank_at S (bank S)) of
          None \<Rightarrow> Inl (BankError (BankNotExists (ref_parent_slot (bank S))))
        | Some p \<Rightarrow> Inr (new_entry E (b_last_blockhash (env_bank E) (bank_at S p)) DEFAULT_NUM_HASHES transactions)))"

fun tick_entries where
  "tick_entries E 0 h = []"
| "tick_entries E (Suc n) h =
     (let e = new_entry E h DEFAULT_NUM_HASHES [] in e # tick_entries E n (e_hash e))"

definition complete_entries where
  "complete_entries E data_entries S =
     (if data_entries = [] then Inr (Inl NoEntries)
      else rbind (checked_sub (ticks_per_slot (genesis (config S))) (length (filter (is_tick E) data_entries))) (\<lambda>tick_count.
        Inr (Inr (data_entries @ tick_entries E tick_count (e_hash (last data_entries))))))"

definition success_txs where
  "success_txs E result extras =
     map (\<lambda>(_, tx). to_versioned_transaction E tx)
       (filter (\<lambda>(execution_result, _). was_executed E execution_result) (zip (execution_results result) extras))"

fun data_entries where
  "data_entries E [] start_hash S = Inr []"
| "data_entries E ((result, origin) # rest) start_hash S =
     (case transactions_to_entry E (success_txs E result (batch_transactions origin)) start_hash S of
        Inl e \<Rightarrow> Inl e
      | Inr en \<Rightarrow> map_sum id ((#) en) (data_entries E rest (Some (e_hash en)) S))"

definition block_entries where
  "block_entries E results origins S =
     (case data_entries E (zip results origins) None S of
        Inl e \<Rightarrow> Inr (Inl e)
      | Inr es \<Rightarrow> complete_entries E es S)"

section \<open>Committing to the bank\<close>

definition count_execution where
  "count_execution E = (\<lambda>(execution_result, tx) c.
     rbind (if was_executed E execution_result
        then rbind (checked_add 64 (signature_count c) (unat (num_required_signatures E tx))) (\<lambda>sigs.
             rbind (checked_add 64 (executed_transactions_count c) 1) (\<lambda>ex.
             rbind (if \<not> is_simple_vote_transaction E tx then checked_add 64 (executed_non_vote_transactions_count c) 1
                    else Inr (executed_non_vote_transactions_count c)) (\<lambda>nv.
             Inr (c\<lparr>signature_count := sigs, executed_transactions_count := ex, executed_non_vote_transactions_count := nv\<rparr>))))
        else Inr c) (\<lambda>c1.
     if flattened_is_err E execution_result
     then rbind (checked_add 64 (executed_with_failure_result_count c1) 1) (\<lambda>f.
          Inr (c1\<lparr>executed_with_failure_result_count := f\<rparr>))
     else Inr c1))"

definition collect_execution_logs where
  "collect_execution_logs E output sanitized =
     rfold (count_execution E) (zip (execution_results output) sanitized)
       \<lparr>executed_transactions_count = 0, executed_non_vote_transactions_count = 0,
         executed_with_failure_result_count = 0, signature_count = 0\<rparr>"

definition single_batch_commit where
  "single_batch_commit E result batch S =
     (let b = bank_at S (bank S) in
      rbind (collect_execution_logs E result (batch_transactions batch)) (\<lambda>counts.
      let (r, b') = b_commit_transactions (env_bank E) (batch_transactions batch) (out_loaded result)
            (execution_results result) (b_last_blockhash (env_bank E) b) (b_lamports_per_signature (env_bank E) b) counts b in
      Inr (Inr r :: rollup_error + _, update_bank (bank S) (\<lambda>_. b') S)))"

definition enable_history where
  "enable_history S \<longleftrightarrow>
     transaction_status_sender (rs_history S) \<noteq> None \<and> cache_block_meta_sender (rs_history S) \<noteq> None"

definition notify_block_complete where
  "notify_block_complete S = S\<lparr>rs_history := (rs_history S)\<lparr>cache_block_meta_sender :=
     map_option (\<lambda>l. l @ [bank S]) (cache_block_meta_sender (rs_history S))\<rparr>\<rparr>"

definition send_transaction_history_status where
  "send_transaction_history_status info S = S\<lparr>rs_history := (rs_history S)\<lparr>transaction_status_sender :=
     map_option (\<lambda>l. l @ [(bank S, info)]) (transaction_status_sender (rs_history S))\<rparr>\<rparr>"

definition on_block_complete where
  "on_block_complete info S = send_transaction_history_status info (notify_block_complete S)"

definition single_batch_commit_with_history where
  "single_batch_commit_with_history E result origin =
     abind (aread (\<lambda>S. (collect_balances (env_tokens E) (bank_at S (bank S)) origin,
       collect_token_balances (env_tokens E) (bank_at S (bank S)) origin))) (\<lambda>(pre_balances, pre_token_balances, origin1).
     abind (single_batch_commit E result origin1) (\<lambda>batch_result.
     abind (aread (\<lambda>S. (collect_balances (env_tokens E) (bank_at S (bank S)) origin1,
       collect_token_balances (env_tokens E) (bank_at S (bank S)) origin1))) (\<lambda>(post_balances, post_token_balances, origin2).
     abind (amodify (on_block_complete
       \<lparr>hi_transactions = sanitized_txs origin2, hi_execution_results = execution_results result,
         hi_balances = (pre_balances, post_balances), hi_token_balances = (pre_token_balances, post_token_balances),
         hi_rent_debits = rent_debits E batch_result, hi_transaction_indexes = transaction_indexes origin2\<rparr>)) (\<lambda>_.
     aret batch_result))))"

definition commit_one where
  "commit_one E = (\<lambda>(result, batch) S.
     if enable_history S then single_batch_commit_with_history E result batch S else single_batch_commit E result batch S)"

definition register_ticks where
  "register_ticks E entries =
     amodify (\<lambda>S. update_bank (bf_working_bank (env_forks E) (bank_forks S))
       (fold (\<lambda>e. b_register_tick (env_bank E) (e_hash e)) (filter (is_tick E) entries)) S)"

definition bank_commit where
  "bank_commit E results batches entries =
     abind (afor (commit_one E) (zip results batches)) (\<lambda>rtn.
     abind (register_ticks E entries) (\<lambda>_. aret rtn))"

section \<open>Saving to the block store\<close>

definition transactions_to_shreds where
  "transactions_to_shreds E entries S =
     (case validator_keypair (keypairs (config S)) of
        None \<Rightarrow> Inr (Inl KeypairsConfigMissingValidatorKeypair)
      | Some kp \<Rightarrow>
          rbind (process (env_shredder E) (env_bank E) (env_blockstore E) (env_elapsed E) (bank S) (bank_at S (bank S))
            (blockstore S) (b_max_tick_height (env_bank E) (bank_at S (bank S))) kp entries (new_entries_processor 0)) (\<lambda>(r, _).
          Inr r))"

definition blockstore_save where
  "blockstore_save E entries S =
     rbind (transactions_to_shreds E entries S) (\<lambda>r.
     abind (alift r) (\<lambda>(data_shreds, code_shreds).
     abind (amap_err SolanaBlockstoreError (with_blockstore (bs_insert_shreds (env_blockstore E) data_shreds))) (\<lambda>_.
     abind (amap_err SolanaBlockstoreError (with_blockstore (bs_insert_shreds (env_blockstore E) code_shreds))) (\<lambda>_.
     aret ()))) S)"

definition commit_block where
  "commit_block E results origins S =
     (if length results \<noteq> length origins then Inr (Inl CommitBachAndResultsNotMatch, S)
      else rbind (block_entries E results origins S) (\<lambda>r.
        abind (alift r) (\<lambda>entries.
        abind (bank_commit E results origins entries) (\<lambda>bank_result.
        abind (blockstore_save E entries) (\<lambda>_.
        aret bank_result))) S))"

definition commit where
  "commit E results origins = abind (commit_block E results origins) (\<lambda>_. aret ())"

text \<open>Queries of the history and of the block store.\<close>

definition get_transaction_meta where
  "get_transaction_meta E signature highest_confirmed_slot S =
     map_sum SolanaBlockstoreError id
       (case highest_confirmed_slot of
          Some h \<Rightarrow> bs_complete_transaction (env_blockstore E) (blockstore S) signature h
        | None \<Rightarrow> bs_rooted_transaction (env_blockstore E) (blockstore S) signature)"

definition get_storage_root where
  "get_storage_root E S = bs_max_root (env_blockstore E) (blockstore S)"

section \<open>The entries of a block\<close>

fun hash_chain where
  "hash_chain E h [] \<longleftrightarrow> True"
| "hash_chain E h (e # es) \<longleftrightarrow>
     e_hash e = next_hash E h (e_num_hashes e) (e_transactions e) \<and> hash_chain E (e_hash e) es"

definition tick_law where
  "tick_law E \<longleftrightarrow> (\<forall>e. is_tick E e \<longleftrightarrow> e_transactions e = [])"

lemma new_entry_chain [simp]:
  "e_hash (new_entry E h n ts) = next_hash E h (e_num_hashes (new_entry E h n ts)) (e_transactions (new_entry E h n ts))"
  "e_transactions (new_entry E h n ts) = ts"
  by (simp_all add: new_entry_def Let_def)

lemma hash_chain_append:
  "hash_chain E h (es @ es') \<longleftrightarrow> hash_chain E h es \<and> hash_chain E (if es = [] then h else e_hash (last es)) es'"
  by (induction es arbitrary: h) auto

lemma tick_entries_ok:
  assumes "tick_law E"
  shows "hash_chain E h (tick_entries E n h) \<and> concat (map e_transactions (tick_entries E n h)) = [] \<and>
    length (filter (is_tick E) (tick_entries E n h)) = n"
proof (induction n arbitrary: h)
  case (Suc n)
  have "is_tick E (new_entry E h DEFAULT_NUM_HASHES [])" using assms by (simp add: tick_law_def)
  then show ?case using Suc by (simp add: Let_def)
qed simp

lemma data_entries_chain:
  assumes "data_entries E ps (Some h) S = Inr es"
  shows "hash_chain E h es \<and>
    map e_transactions es = map (\<lambda>(r, c). success_txs E r (batch_transactions c)) ps"
  using assms
proof (induction ps arbitrary: h es)
  case (Cons p ps)
  obtain r c where p: "p = (r, c)" by fastforce
  let ?e = "new_entry E h DEFAULT_NUM_HASHES (success_txs E r (batch_transactions c))"
  from Cons.prems obtain es' where es': "data_entries E ps (Some (e_hash ?e)) S = Inr es'" "es = ?e # es'"
    by (cases "data_entries E ps (Some (e_hash ?e)) S") (auto simp: p transactions_to_entry_def simp del: new_entry_chain)
  from Cons.IH [OF es'(1)] show ?case by (simp add: p es'(2))
qed simp

lemma data_entries_ok:
  assumes "data_entries E ps None S = Inr es" "ps \<noteq> []"
  obtains p where "b_parent (env_bank E) (bank_at S (bank S)) = Some p"
    "hash_chain E (b_last_blockhash (env_bank E) (bank_at S p)) es"
    "map e_transactions es = map (\<lambda>(r, c). success_txs E r (batch_transactions c)) ps"
proof -
  obtain r c ps' where ps: "ps = (r, c) # ps'" using assms(2) by (cases ps) auto
  from assms(1) obtain p where p: "b_parent (env_bank E) (bank_at S (bank S)) = Some p"
    by (auto simp: ps transactions_to_entry_def split: option.splits)
  have "data_entries E ps (Some (b_last_blockhash (env_bank E) (bank_at S p))) S = Inr es"
    using assms(1) p by (simp add: ps transactions_to_entry_def)
  from data_entries_chain [OF this] show thesis using that [OF p] by blast
qed

lemma block_entries_ok:
  assumes "tick_law E" "block_entries E results origins S = Inr (Inr es)"
  obtains p where "b_parent (env_bank E) (bank_at S (bank S)) = Some p"
    "hash_chain E (b_last_blockhash (env_bank E) (bank_at S p)) es"
    "concat (map e_transactions es) = concat (map (\<lambda>(r, c). success_txs E r (batch_transactions c)) (zip results origins))"
    "length (filter (is_tick E) es) = ticks_per_slot (genesis (config S))"
proof -
  from assms(2) obtain ds where ds: "data_entries E (zip results origins) None S = Inr ds"
    and c: "complete_entries E ds S = Inr (Inr es)" by (auto simp: block_entries_def split: sum.splits)
  from c have ne: "ds \<noteq> []" by (auto simp: complete_entries_def)
  then have "zip results origins \<noteq> []" using ds by auto
  from data_entries_ok [OF ds this] obtain p where p: "b_parent (env_bank E) (bank_at S (bank S)) = Some p"
    "hash_chain E (b_last_blockhash (env_bank E) (bank_at S p)) ds"
    "map e_transactions ds = map (\<lambda>(r, c). success_txs E r (batch_transactions c)) (zip results origins)" by blast
  let ?n = "ticks_per_slot (genesis (config S)) - length (filter (is_tick E) ds)"
  from c ne have es: "es = ds @ tick_entries E ?n (e_hash (last ds))"
    and le: "length (filter (is_tick E) ds) \<le> ticks_per_slot (genesis (config S))"
    by (auto simp: complete_entries_def res_simps)
  show thesis
    using that [OF p(1)] p(2,3) ne le tick_entries_ok [OF assms(1), of "e_hash (last ds)" ?n]
    by (simp add: es hash_chain_append)
qed

section \<open>What a commit changes\<close>

text \<open>A commit to the bank keeps the block store, the forks, the configuration and which bank is current.\<close>

definition same_ledger ::
  "('b, 'f, 's, 'i, 'kp) rollup_storage \<Rightarrow> ('b, 'f, 's, 'i, 'kp) rollup_storage \<Rightarrow> bool" where
  "same_ledger S S' \<longleftrightarrow> blockstore S' = blockstore S \<and> bank_forks S' = bank_forks S \<and> config S' = config S \<and> bank S' = bank S"

lemma single_batch_commit_frame: "single_batch_commit E r c S = Inr (x, S') \<Longrightarrow>
  same_ledger S S' \<and> rs_history S' = rs_history S"
  by (auto simp: single_batch_commit_def same_ledger_def Let_def case_prod_beta res_simps)

lemma collect_token_balances_keeps:
  assumes "collect_token_balances T b c = (x, c')"
  shows "sanitized_txs c' = sanitized_txs c" "transaction_indexes c' = transaction_indexes c"
proof -
  have one: "sanitized_txs c' = sanitized_txs c \<and> transaction_indexes c' = transaction_indexes c"
    if "collect_token_balance_from_account T b k c = (x, c')" for k c x c'
    using that by (auto simp: collect_token_balance_from_account_def split: option.splits if_splits prod.splits)
  have rec: "sanitized_txs c' = sanitized_txs c \<and> transaction_indexes c' = transaction_indexes c"
    if "collect_record T b r c = (x, c')" for r c x c'
    using that
  proof (induction r arbitrary: c x)
    case (Cons p r)
    then show ?case using one by (cases p) (fastforce split: prod.splits option.splits)
  qed simp
  have "sanitized_txs c' = sanitized_txs c \<and> transaction_indexes c' = transaction_indexes c"
    if "collect_records T b rs c = (x, c')" for rs c x c'
    using that
  proof (induction rs arbitrary: c x)
    case (Cons r rs)
    then show ?case using rec by (fastforce split: prod.splits)
  qed simp
  then show "sanitized_txs c' = sanitized_txs c" "transaction_indexes c' = transaction_indexes c"
    using assms unfolding collect_token_balances_def by blast+
qed

text \<open>
  What a batch adds to the history: its transactions with their results, and the balances in the
  bank before and after it is committed.
\<close>

definition batch_recorded where
  "batch_recorded E S S' = (\<lambda>(r, c) info. hi_transactions info = sanitized_txs c \<and>
     hi_execution_results info = execution_results r \<and> hi_transaction_indexes info = transaction_indexes c \<and>
     hi_balances info = (collect_balances (env_tokens E) (bank_at S (bank S)) c, collect_balances (env_tokens E) (bank_at S' (bank S)) c))"

lemma collect_balances_keeps: "sanitized_txs c' = sanitized_txs c \<Longrightarrow> collect_balances T b c' = collect_balances T b c"
  by (simp add: collect_balances_def batch_transactions_def)

lemma commit_one_ok:
  assumes "commit_one E (r, c) S = Inr (Inr x, S')"
  shows "same_ledger S S'"
    and "\<not> enable_history S \<Longrightarrow> rs_history S' = rs_history S"
    and "enable_history S \<Longrightarrow> \<exists>info. batch_recorded E S S' (r, c) info \<and>
      rs_history S' = \<lparr>transaction_status_sender = map_option (\<lambda>l. l @ [(bank S, info)]) (transaction_status_sender (rs_history S)),
        cache_block_meta_sender = map_option (\<lambda>l. l @ [bank S]) (cache_block_meta_sender (rs_history S))\<rparr>"
proof -
  have off: "same_ledger S S' \<and> rs_history S' = rs_history S" if "\<not> enable_history S"
    using assms that single_batch_commit_frame [of E r c S] by (simp add: commit_one_def)
  have on: "same_ledger S S' \<and> (\<exists>info. batch_recorded E S S' (r, c) info \<and>
      rs_history S' = \<lparr>transaction_status_sender = map_option (\<lambda>l. l @ [(bank S, info)]) (transaction_status_sender (rs_history S)),
        cache_block_meta_sender = map_option (\<lambda>l. l @ [bank S]) (cache_block_meta_sender (rs_history S))\<rparr>)" if h: "enable_history S"
  proof -
    obtain t1 c1 where 1: "collect_token_balances (env_tokens E) (bank_at S (bank S)) c = (t1, c1)" by fastforce
    from assms h obtain y S1 where y: "single_batch_commit E r c1 S = Inr (Inr y, S1)"
      by (auto simp: commit_one_def single_batch_commit_with_history_def act_simps 1)
    note frame = single_batch_commit_frame [OF y]
    obtain t2 c2 where 2: "collect_token_balances (env_tokens E) (bank_at S1 (bank S1)) c1 = (t2, c2)" by fastforce
    note k1 = collect_token_balances_keeps [OF 1] and k2 = collect_token_balances_keeps [OF 2]
    let ?info = "\<lparr>hi_transactions = sanitized_txs c2, hi_execution_results = execution_results r,
         hi_balances = (collect_balances (env_tokens E) (bank_at S (bank S)) c, collect_balances (env_tokens E) (bank_at S1 (bank S1)) c1),
         hi_token_balances = (t1, t2), hi_rent_debits = rent_debits E y, hi_transaction_indexes = transaction_indexes c2\<rparr>"
    have S': "S' = on_block_complete ?info S1"
      using assms h y by (auto simp: commit_one_def single_batch_commit_with_history_def act_simps 1 2)
    have "batch_recorded E S S' (r, c) ?info"
      using frame k1 k2 collect_balances_keeps [OF k1(1)]
      by (simp add: batch_recorded_def S' on_block_complete_def send_transaction_history_status_def notify_block_complete_def
          bank_at_def same_ledger_def)
    then show ?thesis
      using frame
      by (intro conjI exI [of _ ?info])
        (simp_all add: S' on_block_complete_def send_transaction_history_status_def notify_block_complete_def same_ledger_def)
  qed
  show "same_ledger S S'" using off on by blast
  show "\<not> enable_history S \<Longrightarrow> rs_history S' = rs_history S" using off by blast
  show "enable_history S \<Longrightarrow> \<exists>info. batch_recorded E S S' (r, c) info \<and>
      rs_history S' = \<lparr>transaction_status_sender = map_option (\<lambda>l. l @ [(bank S, info)]) (transaction_status_sender (rs_history S)),
        cache_block_meta_sender = map_option (\<lambda>l. l @ [bank S]) (cache_block_meta_sender (rs_history S))\<rparr>" using on by blast
qed

lemma same_ledger_trans: "same_ledger S S1 \<Longrightarrow> same_ledger S1 S' \<Longrightarrow> same_ledger S S'"
  by (simp add: same_ledger_def)

lemma commit_all_ok:
  assumes "afor (commit_one E) ps S = Inr (Inr rs, S')"
  shows "same_ledger S S' \<and> length rs = length ps"
  using assms
proof (induction ps arbitrary: S rs)
  case (Cons p ps)
  obtain r c where p: "p = (r, c)" by fastforce
  from Cons.prems obtain x S1 ys where 1: "commit_one E (r, c) S = Inr (Inr x, S1)"
    and 2: "afor (commit_one E) ps S1 = Inr (Inr ys, S')" "rs = x # ys" by (auto simp: act_simps p)
  from Cons.IH [OF 2(1)] commit_one_ok(1) [OF 1] same_ledger_trans 2(2) show ?case by fastforce
qed (simp add: same_ledger_def)

lemma commit_all_history:
  assumes "afor (commit_one E) ps S = Inr (Inr rs, S')" "transaction_status_sender (rs_history S) = Some sent"
    "cache_block_meta_sender (rs_history S) = Some metas"
  shows "\<exists>infos. transaction_status_sender (rs_history S') = Some (sent @ map (Pair (bank S)) infos) \<and>
    cache_block_meta_sender (rs_history S') = Some (metas @ replicate (length ps) (bank S)) \<and>
    list_all2 (\<lambda>(r, c) info. hi_transactions info = sanitized_txs c \<and> hi_execution_results info = execution_results r \<and>
      hi_transaction_indexes info = transaction_indexes c) ps infos"
  using assms
proof (induction ps arbitrary: S rs sent metas)
  case (Cons p ps)
  obtain r c where p: "p = (r, c)" by fastforce
  from Cons.prems(1) obtain x S1 ys where 1: "commit_one E (r, c) S = Inr (Inr x, S1)"
    and 2: "afor (commit_one E) ps S1 = Inr (Inr ys, S')" by (auto simp: act_simps p)
  have on: "enable_history S" using Cons.prems by (simp add: enable_history_def)
  from commit_one_ok(3) [OF 1 on] Cons.prems(2,3) obtain info where info: "batch_recorded E S S1 (r, c) info"
    "transaction_status_sender (rs_history S1) = Some (sent @ [(bank S, info)])"
    "cache_block_meta_sender (rs_history S1) = Some (metas @ [bank S])" by auto
  have "bank S1 = bank S" using commit_one_ok(1) [OF 1] by (simp add: same_ledger_def)
  with Cons.IH [OF 2 info(2,3)] obtain infos where
    "transaction_status_sender (rs_history S') = Some ((sent @ [(bank S, info)]) @ map (Pair (bank S)) infos)"
    "cache_block_meta_sender (rs_history S') = Some ((metas @ [bank S]) @ replicate (length ps) (bank S))"
    "list_all2 (\<lambda>(r, c) info. hi_transactions info = sanitized_txs c \<and> hi_execution_results info = execution_results r \<and>
      hi_transaction_indexes info = transaction_indexes c) ps infos" by auto
  then show ?case using info(1) by (intro exI [of _ "info # infos"]) (simp add: p batch_recorded_def)
qed simp

lemma with_blockstore_ok:
  "with_blockstore op S = Inr (Inr x, S') \<longleftrightarrow> (\<exists>bl. op (blockstore S) = (Inr x, bl) \<and> S' = S\<lparr>blockstore := bl\<rparr>)"
  by (cases "op (blockstore S)") (auto simp: with_blockstore_def)

lemma blockstore_save_ok:
  assumes "blockstore_save E es S = Inr (Inr u, S')"
  obtains data code bl bl' where "transactions_to_shreds E es S = Inr (Inr (data, code))"
    "bs_insert_shreds (env_blockstore E) data (blockstore S) = (Inr (), bl)"
    "bs_insert_shreds (env_blockstore E) code bl = (Inr (), bl')" "S' = S\<lparr>blockstore := bl'\<rparr>"
  using assms unfolding blockstore_save_def by (auto simp: res_simps act_simps with_blockstore_ok)

lemma bank_commit_ok:
  assumes "bank_commit E results batches es S = Inr (Inr rs, S')"
  obtains S1 where "afor (commit_one E) (zip results batches) S = Inr (Inr rs, S1)" "same_ledger S S'"
    "rs_history S' = rs_history S1"
    "S' = update_bank (bf_working_bank (env_forks E) (bank_forks S))
       (fold (\<lambda>e. b_register_tick (env_bank E) (e_hash e)) (filter (is_tick E) es)) S1"
proof -
  from assms obtain S1 where 1: "afor (commit_one E) (zip results batches) S = Inr (Inr rs, S1)"
    and S': "S' = update_bank (bf_working_bank (env_forks E) (bank_forks S1))
       (fold (\<lambda>e. b_register_tick (env_bank E) (e_hash e)) (filter (is_tick E) es)) S1"
    by (auto simp: bank_commit_def act_simps register_ticks_def)
  have "same_ledger S S1" using commit_all_ok [OF 1] by blast
  then show thesis using that [OF 1] S' by (simp add: same_ledger_def)
qed

lemma commit_block_ok:
  assumes "commit_block E results origins S = Inr (Inr rs, S')"
  obtains es S1 where "length results = length origins" "block_entries E results origins S = Inr (Inr es)"
    "bank_commit E results origins es S = Inr (Inr rs, S1)" "blockstore_save E es S1 = Inr (Inr (), S')"
  using assms unfolding commit_block_def by (auto simp: res_simps act_simps split: if_splits)

section \<open>Properties\<close>

text \<open>
  C8.  A block that is committed is recorded completely.  The entries saved in the block store form a
  hash chain that starts at the last blockhash of the parent, they hold the transactions that were
  executed, in the order of the batches, and no others, and exactly as many of them are ticks as a
  slot has.  Every batch has its result, and neither the forks nor the current bank change.
\<close>

theorem commit_block_records:
  assumes "tick_law E" and run: "commit_block E results origins S = Inr (Inr rs, S')"
  shows "length rs = length origins \<and> bank S' = bank S \<and> bank_forks S' = bank_forks S \<and>
    (\<exists>p es S1 data code bl. b_parent (env_bank E) (bank_at S (bank S)) = Some p \<and>
      hash_chain E (b_last_blockhash (env_bank E) (bank_at S p)) es \<and>
      concat (map e_transactions es) = concat (map (\<lambda>(r, c). success_txs E r (sanitized_txs c)) (zip results origins)) \<and>
      length (filter (is_tick E) es) = ticks_per_slot (genesis (config S)) \<and>
      same_ledger S S1 \<and> transactions_to_shreds E es S1 = Inr (Inr (data, code)) \<and>
      bs_insert_shreds (env_blockstore E) data (blockstore S) = (Inr (), bl) \<and>
      bs_insert_shreds (env_blockstore E) code bl = (Inr (), blockstore S'))"
proof -
  from commit_block_ok [OF run] obtain es S1 where len: "length results = length origins"
    and es: "block_entries E results origins S = Inr (Inr es)"
    and bank: "bank_commit E results origins es S = Inr (Inr rs, S1)" and save: "blockstore_save E es S1 = Inr (Inr (), S')" .
  from bank_commit_ok [OF bank] obtain S0 where all: "afor (commit_one E) (zip results origins) S = Inr (Inr rs, S0)"
    and same: "same_ledger S S1" by blast
  from blockstore_save_ok [OF save] obtain data code bl bl' where sv: "transactions_to_shreds E es S1 = Inr (Inr (data, code))"
    "bs_insert_shreds (env_blockstore E) data (blockstore S1) = (Inr (), bl)"
    "bs_insert_shreds (env_blockstore E) code bl = (Inr (), bl')" "S' = S1\<lparr>blockstore := bl'\<rparr>" .
  from block_entries_ok [OF assms(1) es] obtain p where p: "b_parent (env_bank E) (bank_at S (bank S)) = Some p"
    "hash_chain E (b_last_blockhash (env_bank E) (bank_at S p)) es"
    "concat (map e_transactions es) = concat (map (\<lambda>(r, c). success_txs E r (batch_transactions c)) (zip results origins))"
    "length (filter (is_tick E) es) = ticks_per_slot (genesis (config S))" .
  have "length rs = length origins" using commit_all_ok [OF all] len by simp
  moreover have "bank S' = bank S" "bank_forks S' = bank_forks S" "blockstore S1 = blockstore S" "blockstore S' = bl'"
    using same sv(4) by (simp_all add: same_ledger_def)
  ultimately show ?thesis
    using p sv same unfolding batch_transactions_def
    by (intro conjI exI [of _ p] exI [of _ es] exI [of _ S1] exI [of _ data] exI [of _ code] exI [of _ bl]) simp_all
qed

text \<open>
  With the history on, committing a block tells the transaction status service about every batch
  exactly once, in order: the bank, the transactions with their execution results and their indexes;
  and the block metadata is cached once for each batch.
\<close>

lemma commit_block_history:
  assumes run: "commit_block E results origins S = Inr (Inr rs, S')"
    and "transaction_status_sender (rs_history S) = Some sent" "cache_block_meta_sender (rs_history S) = Some metas"
  shows "\<exists>infos. transaction_status_sender (rs_history S') = Some (sent @ map (Pair (bank S)) infos) \<and>
    cache_block_meta_sender (rs_history S') = Some (metas @ replicate (length origins) (bank S)) \<and>
    map hi_transactions infos = map sanitized_txs origins \<and> map hi_execution_results infos = map execution_results results \<and>
    map hi_transaction_indexes infos = map transaction_indexes origins"
proof -
  from commit_block_ok [OF run] obtain es S1 where len: "length results = length origins"
    and bank: "bank_commit E results origins es S = Inr (Inr rs, S1)" and save: "blockstore_save E es S1 = Inr (Inr (), S')" .
  from bank_commit_ok [OF bank] obtain S0 where all: "afor (commit_one E) (zip results origins) S = Inr (Inr rs, S0)"
    and h: "rs_history S1 = rs_history S0" by blast
  from blockstore_save_ok [OF save] obtain bl' where "S' = S1\<lparr>blockstore := bl'\<rparr>" by blast
  then have h': "rs_history S' = rs_history S0" using h by simp
  from commit_all_history [OF all assms(2,3)] len obtain infos where
    i: "transaction_status_sender (rs_history S') = Some (sent @ map (Pair (bank S)) infos)"
      "cache_block_meta_sender (rs_history S') = Some (metas @ replicate (length origins) (bank S))"
      "list_all2 (\<lambda>(r, c) info. hi_transactions info = sanitized_txs c \<and> hi_execution_results info = execution_results r \<and>
        hi_transaction_indexes info = transaction_indexes c) (zip results origins) infos" unfolding h' by auto
  have "map hi_transactions infos = map (sanitized_txs \<circ> snd) (zip results origins) \<and>
      map hi_execution_results infos = map (execution_results \<circ> fst) (zip results origins) \<and>
      map hi_transaction_indexes infos = map (transaction_indexes \<circ> snd) (zip results origins)"
    using i(3) by (induction rule: list_all2_induct) auto
  then show ?thesis using i(1,2) len unfolding map_map [symmetric] by (intro exI [of _ infos]) simp
qed

section \<open>Witnesses\<close>

text \<open>
  A bank whose contents is the number of ticks registered; every transaction is executed except
  those whose result is \<open>False\<close>.
\<close>

definition commit_bank_api :: "(nat, unit, nat, unit, bool, unit) bank_api" where
  "commit_bank_api = \<lparr>b_get_account = (\<lambda>_ _. None), b_hash = (\<lambda>_. 0), b_last_blockhash = (\<lambda>_. 7), b_lamports_per_signature = (\<lambda>_. 0),
     b_parent = (\<lambda>_. Some \<lparr>ref_addr = 0, ref_slot = 4, ref_parent_slot = 3\<rparr>), b_freeze = id, b_store_account = (\<lambda>_ _. id),
     b_new_from_parent = (\<lambda>_ _ _ b. Inr (b, 0)),
     b_register_tick = (\<lambda>_ b. b + 1), b_tick_height = id, b_max_tick_height = (\<lambda>_. 2), b_ticks_per_slot = (\<lambda>_. 2),
     b_commit_transactions = (\<lambda>_ _ _ _ _ _ b. ((), b))\<rparr>"

definition commit_shredder :: "(nat entry, nat, unit) shredder_api" where
  "commit_shredder = \<lparr>sh_new_ok = (\<lambda>s p t v. p < s),
     sh_entries_to_shreds = (\<lambda>_ _ es _ i j. ([i..<i + length es], [])),
     sh_index = id, sh_merkle_root = (\<lambda>_. Inr 0), MAX_DATA_SHREDS_PER_SLOT = 32768, MAX_CODE_SHREDS_PER_SLOT = 32768\<rparr>"

definition commit_forks :: "(nat, bank_ref) forks_api" where
  "commit_forks = \<lparr>bf_get = (\<lambda>f n. if n = ref_slot f then Some f else None), bf_insert = (\<lambda>b f. Inr b), bf_root = ref_slot,
     bf_highest_slot = ref_slot, bf_working_bank = id, bf_set_root = (\<lambda>_ _ f bs. Inr (Inr [], f, bs))\<rparr>"

definition commit_blockstore :: "(nat list, nat, unit) blockstore_api" where
  "commit_blockstore = \<lparr>bs_highest_slot = (\<lambda>_. Inr None), bs_rooted_block_time = (\<lambda>_ _. Inl []), bs_max_root = (\<lambda>_. 0),
     bs_set_roots = (\<lambda>_ s. (Inr (), s)), bs_set_dead_slot = (\<lambda>_ s. (Inr (), s)), bs_insert_shreds = (\<lambda>x s. (Inr (), s @ x)),
     bs_last_index = (\<lambda>_ _. Inr None), bs_data_shred_root = (\<lambda>_ _ _. Inr None),
     bs_complete_transaction = (\<lambda>_ _ _. Inr None), bs_rooted_transaction = (\<lambda>_ _. Inr None)\<rparr>"

definition commit_tokens :: "(nat, unit, nat, nat) token_api" where
  "commit_tokens = \<lparr>tk_get_account = (\<lambda>_ _. None), tk_get_balance = (\<lambda>_ _. 0), tk_account_keys = (\<lambda>_. []),
     tk_is_invoked = (\<lambda>_ _. False), tk_is_known_spl_token_id = (\<lambda>_. False), tk_owner = (\<lambda>_. 0), tk_unpack_account = (\<lambda>_. None),
     tk_unpack_mint_decimals = (\<lambda>_. None), tk_native_mint = 0, tk_native_decimals = 9, tk_ui_amount = (\<lambda>n _. n),
     tk_to_string = (\<lambda>_. [])\<rparr>"

definition commit_env :: "(nat, bank_ref, nat list, unit, nat, nat, unit, bool, unit, nat, unit, unit, nat, unit) storage_env" where
  "commit_env = \<lparr>env_bank = commit_bank_api, env_forks = commit_forks, env_blockstore = commit_blockstore,
     env_shredder = commit_shredder, env_tokens = commit_tokens, env_pubkey_of = (\<lambda>_. 0), env_elapsed = 0,
     next_hash = (\<lambda>h n ts. h + of_nat n + of_nat (sum_list ts)), is_tick = (\<lambda>e. e_transactions e = []),
     was_executed = id, flattened_is_err = Not, to_versioned_transaction = id, num_required_signatures = (\<lambda>_. 1),
     is_simple_vote_transaction = (\<lambda>_. False), rent_debits = id\<rparr>"

definition commit_storage :: "(nat, bank_ref, nat list, (nat, bool, nat, unit) transaction_batch_history_info, unit) rollup_storage" where
  "commit_storage = \<lparr>bank = \<lparr>ref_addr = 1, ref_slot = 5, ref_parent_slot = 4\<rparr>,
     bank_forks = \<lparr>ref_addr = 1, ref_slot = 5, ref_parent_slot = 4\<rparr>, banks = (\<lambda>_. 0), next_bank = 2,
     config = \<lparr>ledger_path = [], allow_default_genesis = True, dev_mode = False,
       keypairs = \<lparr>validator_key_path = None, validator_keypair = Some (), mint_key_path = None, mint_keypair = None,
         voting_key_path = None, voting_keypair = None\<rparr>,
       gc_storage = storage_config_default \<lparr>full_snapshot_archive_interval_slots = 100,
         incremental_snapshot_archive_interval_slots = 10, full_snapshot_archives_dir = [],
         incremental_snapshot_archives_dir = [], bank_snapshots_dir = []\<rparr>,
       genesis = \<lparr>ticks_per_slot = 2, genesis_hash = 0\<rparr>\<rparr>,
     blockstore = [],
     rs_history = \<lparr>transaction_status_sender = Some [], cache_block_meta_sender = Some []\<rparr>, exit_flag = False\<rparr>"

abbreviation commit_results :: "(unit, bool) transactions_result list" where
  "commit_results \<equiv> [\<lparr>out_loaded = (), execution_results = [True, False]\<rparr>, \<lparr>out_loaded = (), execution_results = [True]\<rparr>]"

abbreviation commit_origins :: "nat commit_batch list" where
  "commit_origins \<equiv> [new_commit_batch [10, 11], new_commit_batch [12]]"

lemmas commit_example_defs = commit_env_def commit_storage_def commit_bank_api_def commit_shredder_def commit_forks_def
  commit_blockstore_def commit_tokens_def

lemma tick_entries_numeral: "tick_entries E (numeral k) h =
  (let e = new_entry E h DEFAULT_NUM_HASHES [] in e # tick_entries E (pred_numeral k) (e_hash e))"
  by (simp add: numeral_eq_Suc)

lemma commit_example_run: "\<exists>S'. commit_block commit_env commit_results commit_origins commit_storage = Inr (Inr [(), ()], S')"
  by (simp add: commit_block_def block_entries_def transactions_to_entry_def new_entry_def success_txs_def batch_transactions_def
      new_commit_batch_def complete_entries_def checked_sub_def checked_add_def umax_def tick_entries_numeral bank_commit_def abind_def alift_def
      commit_one_def enable_history_def single_batch_commit_with_history_def single_batch_commit_def collect_execution_logs_def
      count_execution_def collect_token_balances_def token_record_def on_block_complete_def notify_block_complete_def
      send_transaction_history_status_def aread_def amodify_def aret_def register_ticks_def update_bank_def bank_at_def
      blockstore_save_def transactions_to_shreds_def process_def new_entries_processor_def reset_processor_def
      get_chained_merkle_root_from_parent_def rassert_def checked_mod_def entries_to_shreds_def advance_data_def advance_code_def
      max_by_key_def amap_err_def with_blockstore_def process_shreds_stats_default_def commit_example_defs Let_def)

lemma commit_env_ticks: "tick_law commit_env"
  by (simp add: tick_law_def commit_env_def)

theorem commit_block_records_witness:
  "\<exists>S' es. commit_block commit_env commit_results commit_origins commit_storage = Inr (Inr [(), ()], S') \<and>
     concat (map e_transactions es) = [10, 12] \<and> hash_chain commit_env 7 es \<and> length (filter (is_tick commit_env) es) = 2"
proof -
  obtain S' where run: "commit_block commit_env commit_results commit_origins commit_storage = Inr (Inr [(), ()], S')"
    using commit_example_run by blast
  from commit_block_records [OF commit_env_ticks run] obtain p es where
    "b_parent (env_bank commit_env) (bank_at commit_storage (bank commit_storage)) = Some p"
    "hash_chain commit_env (b_last_blockhash (env_bank commit_env) (bank_at commit_storage p)) es"
    "concat (map e_transactions es) = concat (map (\<lambda>(r, c). success_txs commit_env r (sanitized_txs c)) (zip commit_results commit_origins))"
    "length (filter (is_tick commit_env) es) = ticks_per_slot (genesis (config commit_storage))" by blast
  then have "concat (map e_transactions es) = [10, 12] \<and> hash_chain commit_env 7 es \<and> length (filter (is_tick commit_env) es) = 2"
    by (simp add: success_txs_def new_commit_batch_def commit_example_defs)
  with run show ?thesis by blast
qed

end
