(* ===== verification/Storage_Init.thy ===== *)
theory Storage_Init
  imports Storage_Ledger
begin

text \<open>
  Opening and closing the storage: \<^verbatim>\<open>config.rs\<close>, \<^verbatim>\<open>init/mod.rs\<close>, \<^verbatim>\<open>init/default.rs\<close>, \<^verbatim>\<open>background.rs\<close> and
  \<^verbatim>\<open>close\<close> of \<^verbatim>\<open>impls.rs\<close>.

  What touches the file system, the ledger on disk or the service threads is an argument
  (\<open>init_env\<close>): the model is what the code decides with the answers.  Waiting for a snapshot polls
  the archive directory; the answers to the polls are an argument, and the loop carries fuel, the
  number of polls it may make.
\<close>

section \<open>The outside\<close>

record 'kp genesis_config_info =
  gi_genesis :: genesis_config
  gi_mint_keypair :: 'kp
  gi_voting_keypair :: 'kp

record ('b, 'f, 's, 'kp) init_env =
  read_keypair_file :: "path \<Rightarrow> string + 'kp"
  create_and_canonicalize_directories :: "path list \<Rightarrow> string + path list"
  create_all_accounts_run_and_snapshot_dirs :: "path list \<Rightarrow> string + path list \<times> path list"
  snapshot_config_load_only :: snapshot_config
  genesis_config_default :: genesis_config
  open_genesis_config :: "path \<Rightarrow> nat \<Rightarrow> string + genesis_config"
  new_keypair :: "nat \<Rightarrow> 'kp"
  create_genesis_config_with_leader :: "nat \<Rightarrow> 'kp \<Rightarrow> 'kp \<Rightarrow> 'kp \<Rightarrow> nat \<Rightarrow> nat \<Rightarrow> genesis_config"
  create_new_ledger :: "path \<Rightarrow> genesis_config \<Rightarrow> nat \<Rightarrow> string + hash"
  open_blockstore :: "path \<Rightarrow> bool \<Rightarrow> string + 's"
  load_bank_forks :: "genesis_config \<Rightarrow> 's \<Rightarrow> storage_config \<Rightarrow> slot option \<Rightarrow> string + 'f \<times> (nat \<Rightarrow> 'b) \<times> nat"
  process_blockstore_from_root :: "'s \<Rightarrow> 'f \<times> (nat \<Rightarrow> 'b) \<times> nat \<Rightarrow> (string + unit) \<times> 'f \<times> (nat \<Rightarrow> 'b) \<times> nat"

section \<open>Configuration\<close>

definition keypairs_config_default :: "'kp keypairs_config" where
  "keypairs_config_default = \<lparr>validator_key_path = None, validator_keypair = None, mint_key_path = None,
     mint_keypair = None, voting_key_path = None, voting_keypair = None\<rparr>"

definition get_or_insert :: "'a \<Rightarrow> 'a option \<Rightarrow> 'a option" where
  "get_or_insert d x = (case x of None \<Rightarrow> Some d | Some y \<Rightarrow> Some y)"

definition set_default_path :: "path \<Rightarrow> 'kp keypairs_config \<Rightarrow> 'kp keypairs_config" where
  "set_default_path base c = c\<lparr>
     validator_key_path := get_or_insert (base @ [''validator-identity.json'']) (validator_key_path c),
     mint_key_path := get_or_insert (base @ [''validator-stake-account.json'']) (mint_key_path c),
     voting_key_path := get_or_insert (base @ [''validator-vote-account.json'']) (voting_key_path c)\<rparr>"

definition init_from_file :: "('b, 'f, 's, 'kp) init_env \<Rightarrow> path \<Rightarrow> rollup_error + 'kp" where
  "init_from_file I p =
     map_sum (\<lambda>e. InitCommon (''failed to read validator keypair: '' @ e)) id (read_keypair_file I p)"

definition try_init :: "('b, 'f, 's, 'kp) init_env \<Rightarrow> 'kp option \<Rightarrow> path option \<Rightarrow> rollup_error + 'kp option" where
  "try_init I source p =
     (if source \<noteq> None then Inr source
      else case p of None \<Rightarrow> Inr None | Some q \<Rightarrow> map_sum id Some (init_from_file I q))"

definition init_keypairs :: "('b, 'f, 's, 'kp) init_env \<Rightarrow> ('kp keypairs_config, rollup_error, unit) act" where
  "init_keypairs I =
     abind (\<lambda>c. alift (try_init I (validator_keypair c) (validator_key_path c)) c) (\<lambda>k.
     abind (amodify (\<lambda>c. c\<lparr>validator_keypair := k\<rparr>)) (\<lambda>_.
     abind (\<lambda>c. alift (try_init I (mint_keypair c) (mint_key_path c)) c) (\<lambda>k.
     abind (amodify (\<lambda>c. c\<lparr>mint_keypair := k\<rparr>)) (\<lambda>_.
     abind (\<lambda>c. alift (try_init I (voting_keypair c) (voting_key_path c)) c) (\<lambda>k.
     amodify (\<lambda>c. c\<lparr>voting_keypair := k\<rparr>))))))"

definition init_config :: "('b, 'f, 's, 'kp) init_env \<Rightarrow> path \<Rightarrow> (rollup_error + storage_config) res" where
  "init_config I p =
     (case create_and_canonicalize_directories I [p] of
        Inl e \<Rightarrow> Inr (Inl (InitConfigFailed e))
      | Inr ds \<Rightarrow>
          rbind (if ds = [] then Inl (UnwrapOnNone ''pop().unwrap()'') else Inr (last ds)) (\<lambda>lp.
          case create_and_canonicalize_directories I [lp @ [''accounts'']] of
            Inl e \<Rightarrow> Inr (Inl (InitConfigFailed (''Unable to access account path: '' @ e)))
          | Inr account_dirs \<Rightarrow>
             (case create_all_accounts_run_and_snapshot_dirs I account_dirs of
                Inl e \<Rightarrow> Inr (Inl (InitConfigFailed (''Create all accounts run and snapshot dirs: '' @ e)))
              | Inr (run_paths, snapshot_paths) \<Rightarrow>
                  let snapshots = lp @ [''snapshots''] in
                  Inr (Inr ((storage_config_default (snapshot_config_load_only I))\<lparr>
                    accounts_db_working_path := Some lp,
                    account_paths := run_paths,
                    sc_snapshot_config := \<lparr>full_snapshot_archive_interval_slots = 2500,
                      incremental_snapshot_archive_interval_slots = 500,
                      full_snapshot_archives_dir = snapshots @ [''full''],
                      incremental_snapshot_archives_dir = snapshots @ [''incremental''],
                      bank_snapshots_dir = snapshots\<rparr>\<rparr>)))))"

definition global_config_with ::
  "('b, 'f, 's, 'kp) init_env \<Rightarrow> bool \<Rightarrow> bool \<Rightarrow> path \<Rightarrow> (rollup_error + 'kp global_config) res" where
  "global_config_with I allow dev p =
     rbind (init_config I p) (\<lambda>r. Inr (map_sum id (\<lambda>storage.
       \<lparr>ledger_path = p, allow_default_genesis = allow, dev_mode = dev, keypairs = keypairs_config_default,
         gc_storage = storage, genesis = genesis_config_default I\<rparr>) r))"

definition new_global_config where
  "new_global_config I p = global_config_with I False False p"

definition new_temp where
  "new_temp I p = global_config_with I True False p"

definition new_dev where
  "new_dev I p = global_config_with I True True p"

section \<open>Loading\<close>

definition DEFAULT_VALIDATOR_LAMPORTS :: nat where
  "DEFAULT_VALIDATOR_LAMPORTS = 10000000"

definition DEFAULT_MINT_LAMPORTS :: nat where
  "DEFAULT_MINT_LAMPORTS = 1000000000"

definition DEFAULT_STAKE_LAMPORTS :: nat where
  "DEFAULT_STAKE_LAMPORTS = 50000000"

definition init_block_store :: "('b, 'f, 's, 'kp) init_env \<Rightarrow> path \<Rightarrow> genesis_config \<Rightarrow> rollup_error + unit" where
  "init_block_store I p g =
     map_sum SolanaBlockstoreError (\<lambda>_. ()) (create_new_ledger I p g MAX_GENESIS_ARCHIVE_UNPACKED_SIZE)"

text \<open>The keys are drawn in the order of the code; the public key of the stake account is drawn inside the genesis.\<close>

definition default_genesis_config ::
  "('b, 'f, 's, 'kp) init_env \<Rightarrow> path \<Rightarrow> rollup_error + 'kp genesis_config_info \<times> 'kp" where
  "default_genesis_config I p =
     (let validator_key = new_keypair I 0; mint_key = new_keypair I 1; voting_key = new_keypair I 2;
          g = create_genesis_config_with_leader I DEFAULT_MINT_LAMPORTS mint_key validator_key voting_key
                DEFAULT_STAKE_LAMPORTS DEFAULT_VALIDATOR_LAMPORTS in
      map_sum id (\<lambda>_. (\<lparr>gi_genesis = g, gi_mint_keypair = mint_key, gi_voting_keypair = voting_key\<rparr>, validator_key))
        (init_block_store I p g))"

definition load_genesis ::
  "('b, 'f, 's, 'kp) init_env \<Rightarrow> ('kp global_config, rollup_error, genesis_config) act" where
  "load_genesis I cfg =
     (case open_genesis_config I (ledger_path cfg) (max_genesis_archive_unpacked_size (gc_storage cfg)) of
        Inr g \<Rightarrow> Inr (Inr g, cfg)
      | Inl err \<Rightarrow>
          if allow_default_genesis cfg
          then (case default_genesis_config I (ledger_path cfg) of
              Inl e \<Rightarrow> Inr (Inl e, cfg)
            | Inr (info, keypair) \<Rightarrow> Inr (Inr (gi_genesis info), cfg\<lparr>keypairs := keypairs_config_default\<lparr>
                validator_keypair := Some keypair, mint_keypair := Some (gi_mint_keypair info),
                voting_keypair := Some (gi_voting_keypair info)\<rparr>\<rparr>))
          else Inr (Inl (LoadBlockstoreFailed (''Failed to open genesis config: '' @ err)), cfg))"

definition with_keypairs ::
  "('kp keypairs_config, rollup_error, 'x) act \<Rightarrow> ('kp global_config, rollup_error, 'x) act" where
  "with_keypairs m cfg = rbind (m (keypairs cfg)) (\<lambda>(r, k). Inr (r, cfg\<lparr>keypairs := k\<rparr>))"

definition check_genesis_hash :: "genesis_config \<Rightarrow> ('kp global_config, rollup_error, unit) act" where
  "check_genesis_hash g cfg =
     (case expected_genesis_hash (gc_storage cfg) of
        Some h \<Rightarrow> if genesis_hash g \<noteq> h then Inr (Inl (LoadBlockstoreFailed ''genesis hash mismatch''), cfg) else Inr (Inr (), cfg)
      | None \<Rightarrow> Inr (Inr (), cfg))"

definition load_blockstore ::
  "('b, 'f, 's, 'kp) init_env \<Rightarrow> ('s, 'sh, 'm) blockstore_api
     \<Rightarrow> ('kp global_config, rollup_error, ('f \<times> (nat \<Rightarrow> 'b) \<times> nat) \<times> 's \<times> 'i history_services) act" where
  "load_blockstore I K =
     abind (load_genesis I) (\<lambda>g.
     abind (with_keypairs (init_keypairs I)) (\<lambda>_.
     abind (check_genesis_hash g) (\<lambda>_.
     abind (\<lambda>cfg. alift (map_sum (\<lambda>e. LoadBlockstoreFailed (''Failed to open Blockstore: '' @ e)) id
       (open_blockstore I (ledger_path cfg) (enforce_ulimit_nofile (gc_storage cfg)))) cfg) (\<lambda>bl.
     abind (aread (\<lambda>cfg. case halt_at_slot (gc_storage cfg) of
         Some h \<Rightarrow> Some h
       | None \<Rightarrow> (case bs_highest_slot K bl of Inl e \<Rightarrow> None | Inr h \<Rightarrow> h))) (\<lambda>halt.
     abind (aread (\<lambda>cfg. if enable_transaction_history (sc_history_config (gc_storage cfg))
       then \<lparr>transaction_status_sender = Some [], cache_block_meta_sender = Some []\<rparr>
       else \<lparr>transaction_status_sender = None, cache_block_meta_sender = None\<rparr>)) (\<lambda>history.
     abind (\<lambda>cfg. alift (map_sum LoadBlockstoreFailed id (load_bank_forks I g bl (gc_storage cfg) halt)) cfg) (\<lambda>forks.
     abind (amodify (\<lambda>cfg. cfg\<lparr>genesis := g\<rparr>)) (\<lambda>_.
     aret (forks, bl, history)))))))))"

definition new_storage ::
  "('b, 'f, 's, 'kp) init_env \<Rightarrow> ('b, 'f) forks_api \<Rightarrow> ('s, 'sh, 'm) blockstore_api \<Rightarrow> 'kp global_config
     \<Rightarrow> (rollup_error + ('b, 'f, 's, 'i, 'kp) rollup_storage) res" where
  "new_storage I F K config0 =
     rbind (load_blockstore I K config0) (\<lambda>(r, cfg). Inr (
       case r of
         Inl e \<Rightarrow> Inl e
       | Inr ((f, bs, n), bl, history) \<Rightarrow>
          (case validator_keypair (keypairs cfg) of
             None \<Rightarrow> Inl KeypairsConfigMissingValidatorKeypair
           | Some k \<Rightarrow> Inr \<lparr>bank = bf_working_bank F f, bank_forks = f, banks = bs, next_bank = n, config = cfg,
               blockstore = bl, rs_history = history, exit_flag = False\<rparr>)))"

definition init_storage ::
  "('b, 'f, 's, 'kp) init_env \<Rightarrow> ('b, 'f) forks_api \<Rightarrow> (('b, 'f, 's, 'i, 'kp) rollup_storage, rollup_error, unit) act" where
  "init_storage I F S =
     (let (r, f, bs, n) = process_blockstore_from_root I (blockstore S) (bank_forks S, banks S, next_bank S);
          S1 = S\<lparr>bank_forks := f, banks := bs, next_bank := n\<rparr> in
      case r of
        Inl e \<Rightarrow> Inr (Inl (InitCommon (''Failed to load ledger: '' @ e)), S1)
      | Inr _ \<Rightarrow> Inr (Inr (), S1\<lparr>bank := bf_working_bank F f\<rparr>))"

section \<open>Closing\<close>

definition get_latest_snapshot :: "nat \<Rightarrow> nat \<Rightarrow> nat option res" where
  "get_latest_snapshot highest interval =
     rbind (checked_mod highest interval) (\<lambda>reminder.
     if reminder \<ge> highest then Inr None else Inr (Some (highest - reminder)))"

text \<open>The polls are numbered; \<open>seen n\<close> is the highest archive slot that poll \<open>n\<close> finds.\<close>

fun poll_until :: "nat \<Rightarrow> (nat \<Rightarrow> slot option) \<Rightarrow> slot \<Rightarrow> nat \<Rightarrow> nat res" where
  "poll_until 0 seen s n = Inl OutOfFuel"
| "poll_until (Suc fuel) seen s n = (if seen n \<noteq> Some s then poll_until fuel seen s (n + 1) else Inr n)"

definition wait_snapshot :: "nat \<Rightarrow> (nat \<Rightarrow> slot option) \<Rightarrow> nat \<Rightarrow> slot \<Rightarrow> slot option res" where
  "wait_snapshot fuel seen interval height =
     rbind (get_latest_snapshot height interval) (\<lambda>expect_slot.
     rbind (case expect_slot of None \<Rightarrow> Inr 0 | Some s \<Rightarrow> poll_until fuel seen s 0) (\<lambda>_.
     Inr expect_slot))"

definition try_wait_snapshot_complete ::
  "nat \<Rightarrow> (nat \<Rightarrow> slot option) \<Rightarrow> (slot \<Rightarrow> nat \<Rightarrow> slot option) \<Rightarrow> (snapshot_config \<Rightarrow> bool)
     \<Rightarrow> ('b, 'f, 's, 'i, 'kp) rollup_storage \<Rightarrow> unit res" where
  "try_wait_snapshot_complete fuel full incremental should_generate_snapshots S =
     (let cfg = gc_storage (config S) in
      if \<not> should_generate_snapshots (sc_snapshot_config cfg) \<or> \<not> wait_snapshot_complete cfg then Inr ()
      else rbind (wait_snapshot fuel full (full_snapshot_archive_interval_slots (sc_snapshot_config cfg)) (current_height S)) (\<lambda>full_latest.
        case full_latest of
          None \<Rightarrow> Inr ()
        | Some l \<Rightarrow> rbind (wait_snapshot fuel (incremental l)
            (incremental_snapshot_archive_interval_slots (sc_snapshot_config cfg)) (current_height S)) (\<lambda>_. Inr ())))"

definition close ::
  "nat \<Rightarrow> (nat \<Rightarrow> slot option) \<Rightarrow> (slot \<Rightarrow> nat \<Rightarrow> slot option) \<Rightarrow> (snapshot_config \<Rightarrow> bool)
     \<Rightarrow> (('b, 'f, 's, 'i, 'kp) rollup_storage, rollup_error, unit) act" where
  "close fuel full incremental should_generate_snapshots =
     abind (\<lambda>S. apanic (try_wait_snapshot_complete fuel full incremental should_generate_snapshots S) S) (\<lambda>_.
     amodify (\<lambda>S. S\<lparr>exit_flag := True\<rparr>))"

section \<open>Properties\<close>

lemma init_keypairs_ok:
  assumes "init_keypairs I c = Inr (Inr u, c')"
  shows "validator_keypair c \<noteq> None \<Longrightarrow> validator_keypair c' = validator_keypair c"
    "validator_keypair c = None \<Longrightarrow> validator_key_path c = Some p \<Longrightarrow> \<exists>k. read_keypair_file I p = Inr k \<and> validator_keypair c' = Some k"
    "validator_keypair c = None \<Longrightarrow> validator_key_path c = None \<Longrightarrow> validator_keypair c' = None"
proof -
  from assms obtain k where k: "try_init I (validator_keypair c) (validator_key_path c) = Inr k" "validator_keypair c' = k"
    by (auto simp: init_keypairs_def act_simps)
  show "validator_keypair c \<noteq> None \<Longrightarrow> validator_keypair c' = validator_keypair c"
    "validator_keypair c = None \<Longrightarrow> validator_key_path c = None \<Longrightarrow> validator_keypair c' = None"
    using k by (auto simp: try_init_def)
  show "validator_keypair c = None \<Longrightarrow> validator_key_path c = Some p \<Longrightarrow> \<exists>k. read_keypair_file I p = Inr k \<and> validator_keypair c' = Some k"
    using k by (cases "read_keypair_file I p") (auto simp: try_init_def init_from_file_def)
qed

lemma with_keypairs_ok:
  "with_keypairs m c = Inr (Inr x, c') \<longleftrightarrow> (\<exists>k. m (keypairs c) = Inr (Inr x, k) \<and> c' = c\<lparr>keypairs := k\<rparr>)"
  by (auto simp: with_keypairs_def res_simps)

lemma check_genesis_hash_ok:
  "check_genesis_hash g c = Inr (Inr u, c') \<longleftrightarrow> c' = c \<and> (\<forall>h. expected_genesis_hash (gc_storage c) = Some h \<longrightarrow> genesis_hash g = h)"
  by (auto simp: check_genesis_hash_def split: option.splits if_splits)

lemma default_genesis_config_ok:
  "default_genesis_config I p = Inr (info, k) \<Longrightarrow> k = new_keypair I 0"
  by (cases "init_block_store I p (create_genesis_config_with_leader I DEFAULT_MINT_LAMPORTS (new_keypair I 1)
    (new_keypair I 0) (new_keypair I 2) DEFAULT_STAKE_LAMPORTS DEFAULT_VALIDATOR_LAMPORTS)")
    (auto simp: default_genesis_config_def Let_def)

lemma load_genesis_ok:
  assumes "load_genesis I c = Inr (Inr g, c')"
  shows "gc_storage c' = gc_storage c \<and>
    (open_genesis_config I (ledger_path c) (max_genesis_archive_unpacked_size (gc_storage c)) = Inr g \<and> keypairs c' = keypairs c \<or>
     allow_default_genesis c \<and> validator_keypair (keypairs c') = Some (new_keypair I 0) \<and>
     (\<exists>e. open_genesis_config I (ledger_path c) (max_genesis_archive_unpacked_size (gc_storage c)) = Inl e))"
  using assms
  by (auto simp: load_genesis_def split: sum.splits if_splits dest: default_genesis_config_ok)

text \<open>
  C40.  A storage that was opened can be used.  It has a validator keypair: the configured one, else the
  one read from the configured file, or new ones where the ledger is created from scratch, which
  happens only when that is allowed and there is no genesis on disk.  The genesis it runs on has the
  expected hash, the current bank is the working bank of the forks, and the history services run
  exactly when they are configured.
\<close>

theorem new_storage_ready:
  assumes "new_storage I F K c = Inr (Inr S)"
  shows "bank S = bf_working_bank F (bank_forks S) \<and>
    (\<forall>h. expected_genesis_hash (gc_storage c) = Some h \<longrightarrow> genesis_hash (genesis (config S)) = h) \<and>
    (transaction_status_sender (rs_history S) \<noteq> None \<longleftrightarrow> enable_transaction_history (sc_history_config (gc_storage c))) \<and>
    (\<exists>k. validator_keypair (keypairs (config S)) = Some k \<and>
      (validator_keypair (keypairs c) = Some k \<or>
       validator_keypair (keypairs c) = None \<and> (\<exists>p. validator_key_path (keypairs c) = Some p \<and> read_keypair_file I p = Inr k) \<or>
       allow_default_genesis c \<and> k = new_keypair I 0 \<and>
         (\<exists>e. open_genesis_config I (ledger_path c) (max_genesis_archive_unpacked_size (gc_storage c)) = Inl e)))"
proof -
  from assms obtain r cfg where load: "load_blockstore I K c = Inr (r, cfg)"
    and S: "(case r of Inl e \<Rightarrow> Inl e | Inr ((f, bs, n), bl, history) \<Rightarrow>
          (case validator_keypair (keypairs cfg) of None \<Rightarrow> Inl KeypairsConfigMissingValidatorKeypair
           | Some k \<Rightarrow> Inr \<lparr>bank = bf_working_bank F f, bank_forks = f, banks = bs, next_bank = n, config = cfg,
               blockstore = bl, rs_history = history, exit_flag = False\<rparr>)) = Inr S"
    unfolding new_storage_def by (auto simp: res_simps)
  from S obtain f bs n bl history k where r: "r = Inr ((f, bs, n), bl, history)" and k: "validator_keypair (keypairs cfg) = Some k"
    and S': "S = \<lparr>bank = bf_working_bank F f, bank_forks = f, banks = bs, next_bank = n, config = cfg,
               blockstore = bl, rs_history = history, exit_flag = False\<rparr>"
    by (auto split: sum.splits option.splits)
  from load [unfolded r] obtain g c1 kps where g: "load_genesis I c = Inr (Inr g, c1)"
    and kps: "init_keypairs I (keypairs c1) = Inr (Inr (), kps)"
    and chk: "\<forall>h. expected_genesis_hash (gc_storage c1) = Some h \<longrightarrow> genesis_hash g = h"
    and cfg: "cfg = c1\<lparr>keypairs := kps, genesis := g\<rparr>"
    and hist: "history = (if enable_transaction_history (sc_history_config (gc_storage c1))
       then \<lparr>transaction_status_sender = Some [], cache_block_meta_sender = Some []\<rparr>
       else \<lparr>transaction_status_sender = None, cache_block_meta_sender = None\<rparr>)"
    unfolding load_blockstore_def by (auto simp: act_simps with_keypairs_ok check_genesis_hash_ok)
  note lg = load_genesis_ok [OF g] and ik = init_keypairs_ok [OF kps]
  have k': "validator_keypair kps = Some k" using k cfg by simp
  have "validator_keypair (keypairs c) = Some k \<or>
       validator_keypair (keypairs c) = None \<and> (\<exists>p. validator_key_path (keypairs c) = Some p \<and> read_keypair_file I p = Inr k)"
    if "keypairs c1 = keypairs c"
    using ik k' that by (cases "validator_keypair (keypairs c)"; cases "validator_key_path (keypairs c)") auto
  moreover have "k = new_keypair I 0" if "validator_keypair (keypairs c1) = Some (new_keypair I 0)"
    using ik(1) k' that by simp
  ultimately show ?thesis using lg chk hist S' cfg k by auto
qed

section \<open>Witness\<close>

text \<open>A ledger directory without a genesis, and one file with the key 5.\<close>

definition example_init :: "(unit, unit, unit, nat) init_env" where
  "example_init = \<lparr>read_keypair_file = (\<lambda>_. Inr 5), create_and_canonicalize_directories = Inr,
     create_all_accounts_run_and_snapshot_dirs = (\<lambda>ps. Inr (ps, ps)),
     snapshot_config_load_only = \<lparr>full_snapshot_archive_interval_slots = 0, incremental_snapshot_archive_interval_slots = 0,
       full_snapshot_archives_dir = [], incremental_snapshot_archives_dir = [], bank_snapshots_dir = []\<rparr>,
     genesis_config_default = \<lparr>ticks_per_slot = 64, genesis_hash = 0\<rparr>,
     open_genesis_config = (\<lambda>_ _. Inl ''no such file''), new_keypair = (\<lambda>n. 100 + n),
     create_genesis_config_with_leader = (\<lambda>_ _ _ _ _ _. \<lparr>ticks_per_slot = 64, genesis_hash = 77\<rparr>),
     create_new_ledger = (\<lambda>_ _ _. Inr 77), open_blockstore = (\<lambda>_ _. Inr ()),
     load_bank_forks = (\<lambda>_ _ _ _. Inr ((), \<lambda>_. (), 1)), process_blockstore_from_root = (\<lambda>_ fs. (Inr (), fs))\<rparr>"

definition example_init_forks :: "(unit, unit) forks_api" where
  "example_init_forks = \<lparr>bf_get = (\<lambda>_ _. None), bf_insert = (\<lambda>_ f. Inr f), bf_root = (\<lambda>_. 0), bf_highest_slot = (\<lambda>_. 0),
     bf_working_bank = (\<lambda>_. \<lparr>ref_addr = 0, ref_slot = 0, ref_parent_slot = 0\<rparr>), bf_set_root = (\<lambda>_ _ f bs. Inr (Inr [], f, bs))\<rparr>"

definition example_init_blockstore :: "(unit, unit, unit) blockstore_api" where
  "example_init_blockstore = \<lparr>bs_highest_slot = (\<lambda>_. Inr None), bs_rooted_block_time = (\<lambda>_ _. Inl []), bs_max_root = (\<lambda>_. 0),
     bs_set_roots = (\<lambda>_ s. (Inr (), s)), bs_set_dead_slot = (\<lambda>_ s. (Inr (), s)), bs_insert_shreds = (\<lambda>_ s. (Inr (), s)),
     bs_last_index = (\<lambda>_ _. Inr None), bs_data_shred_root = (\<lambda>_ _ _. Inr None),
     bs_complete_transaction = (\<lambda>_ _ _. Inr None), bs_rooted_transaction = (\<lambda>_ _. Inr None)\<rparr>"

definition example_init_config :: "nat global_config" where
  "example_init_config = \<lparr>ledger_path = [''ledger''], allow_default_genesis = True, dev_mode = False,
     keypairs = keypairs_config_default, gc_storage = storage_config_default (snapshot_config_load_only example_init),
     genesis = genesis_config_default example_init\<rparr>"

lemma example_new_storage:
  "\<exists>S :: (unit, unit, unit, unit, nat) rollup_storage.
     new_storage example_init example_init_forks example_init_blockstore example_init_config = Inr (Inr S)"
  by (simp add: new_storage_def load_blockstore_def load_genesis_def default_genesis_config_def init_block_store_def
      with_keypairs_def init_keypairs_def try_init_def check_genesis_hash_def keypairs_config_default_def
      storage_config_default_def history_config_default_def example_init_def example_init_config_def
      example_init_blockstore_def abind_def aread_def amodify_def aret_def alift_def Let_def)

theorem new_storage_ready_witness:
  "\<exists>S :: (unit, unit, unit, unit, nat) rollup_storage.
     new_storage example_init example_init_forks example_init_blockstore example_init_config = Inr (Inr S) \<and>
     validator_keypair (keypairs (config S)) = Some 100"
proof -
  obtain S :: "(unit, unit, unit, unit, nat) rollup_storage" where
    S: "new_storage example_init example_init_forks example_init_blockstore example_init_config = Inr (Inr S)"
    using example_new_storage by blast
  from new_storage_ready [OF S] have "validator_keypair (keypairs (config S)) = Some 100"
    by (auto simp: example_init_def example_init_config_def keypairs_config_default_def)
  with S show ?thesis by blast
qed

end
