(* ===== verification/Verifier.thy ===== *)
theory Verifier
  imports Actions
begin

text \<open>
  \<^verbatim>\<open>BankVerifier\<close> (\<^verbatim>\<open>verifier/src/lib.rs\<close>), its settings and its errors.

  The bank is an argument, \<open>'b\<close> its contents: what it says about a transaction (\<open>'v\<close> as received, \<open>'tx\<close>
  sanitized), its account locks, its age check and its ticks.  A \<^verbatim>\<open>TransactionBatch\<close> releases the
  locks it holds when it is dropped; the end of \<open>get_batch_results\<close> is where that happens.
\<close>

section \<open>Settings and errors\<close>

record switchs =
  tx_sanity_check :: bool
  txs_conflict_check :: bool

definition switchs_default :: switchs where
  "switchs_default = \<lparr>tx_sanity_check = False, txs_conflict_check = False\<rparr>"

record 'fee settings =
  max_age_slots :: nat
  switchs_of :: switchs
  fee_structure :: 'fee

definition settings_default :: "'fee \<Rightarrow> 'fee settings" where
  "settings_default fee = \<lparr>max_age_slots = 150, switchs_of = switchs_default, fee_structure = fee\<rparr>"

datatype ticks_error = InvalidLastTick | TooFewTicks | TooManyTicks | InvalidTickHashCount | TrailingEntry

datatype 'te verifier_error = TickError ticks_error | TransactionError 'te

section \<open>The bank\<close>

record ('b, 'tx, 'v, 'te, 'chk, 'mode, 'e) verifier_api =
  vb_fully_verify_transaction :: "'b \<Rightarrow> 'v \<Rightarrow> 'te + 'tx"
  vb_verify_transaction :: "'b \<Rightarrow> 'v \<Rightarrow> 'mode \<Rightarrow> 'te + 'tx"
  vb_to_versioned :: "'tx \<Rightarrow> 'v"
  vb_resanitization_needed :: 'te
  vb_account_lock_limit :: "'b \<Rightarrow> nat"
  vb_lock_accounts_with_results :: "'tx list \<Rightarrow> ('te + unit) list \<Rightarrow> nat \<Rightarrow> 'b \<Rightarrow> ('te + unit) list \<times> 'b"
  vb_lock_accounts :: "'tx list \<Rightarrow> nat \<Rightarrow> 'b \<Rightarrow> ('te + unit) list \<times> 'b"
  vb_unlock_accounts :: "('tx \<times> ('te + unit)) list \<Rightarrow> 'b \<Rightarrow> 'b"
  vb_check_transactions :: "'b \<Rightarrow> 'tx list \<Rightarrow> ('te + unit) list \<Rightarrow> nat \<Rightarrow> ('te + 'chk) list"
  vb_tick_height :: "'b \<Rightarrow> nat"
  vb_max_tick_height :: "'b \<Rightarrow> nat"
  vb_hashes_per_tick :: "'b \<Rightarrow> nat option"
  ve_transactions :: "'e \<Rightarrow> 'v list"
  ve_is_tick :: "'e \<Rightarrow> bool"
  ve_tick_count :: "'e list \<Rightarrow> nat"
  ve_verify_tick_hash_count :: "'e list \<Rightarrow> nat \<Rightarrow> nat \<Rightarrow> bool \<times> nat"

record ('tx, 'te) transaction_batch =
  tb_lock_results :: "('te + unit) list"
  tb_transactions :: "'tx list"
  tb_needs_unlock :: bool

section \<open>Transactions\<close>

definition get_transactions_sanity_results ::
  "('b, 'tx, 'v, 'te, 'chk, 'mode, 'e) verifier_api \<Rightarrow> 'b \<Rightarrow> 'tx list \<Rightarrow> ('te + unit) list" where
  "get_transactions_sanity_results V b txs =
     map (\<lambda>tx. case vb_fully_verify_transaction V b (vb_to_versioned V tx) of
        Inl e \<Rightarrow> Inl e
      | Inr tx' \<Rightarrow> if tx' \<noteq> tx then Inl (vb_resanitization_needed V) else Inr ()) txs"

definition entry_sanity_check ::
  "('b, 'tx, 'v, 'te, 'chk, 'mode, 'e) verifier_api \<Rightarrow> 'b \<Rightarrow> 'e \<Rightarrow> 'mode \<Rightarrow> 'te verifier_error + unit" where
  "entry_sanity_check V b entry mode =
     map_sum TransactionError (\<lambda>_. ())
       (collect_results (map (\<lambda>tx. vb_verify_transaction V b tx mode) (ve_transactions V entry)))"

definition batch_and_verify_conflicts ::
  "('b, 'tx, 'v, 'te, 'chk, 'mode, 'e) verifier_api \<Rightarrow> 'fee settings \<Rightarrow> 'tx list \<Rightarrow> ('te + unit) list \<Rightarrow> 'b
     \<Rightarrow> ('tx, 'te) transaction_batch \<times> 'b" where
  "batch_and_verify_conflicts V cfg txs results b =
     (let (lock_result, b') =
        (if txs_conflict_check (switchs_of cfg)
         then vb_lock_accounts_with_results V txs results (vb_account_lock_limit V b) b
         else (map (\<lambda>_. Inr ()) results, b));
        batch = \<lparr>tb_lock_results = lock_result, tb_transactions = txs, tb_needs_unlock = True\<rparr> in
      (if \<not> txs_conflict_check (switchs_of cfg) then batch\<lparr>tb_needs_unlock := False\<rparr> else batch, b'))"

definition validate_batch ::
  "('b, 'tx, 'v, 'te, 'chk, 'mode, 'e) verifier_api \<Rightarrow> 'fee settings \<Rightarrow> ('tx, 'te) transaction_batch \<Rightarrow> 'b \<Rightarrow> ('te + 'chk) list" where
  "validate_batch V cfg batch b =
     vb_check_transactions V b (tb_transactions batch) (tb_lock_results batch) (max_age_slots cfg)"

text \<open>Dropping a batch.\<close>

definition drop_batch ::
  "('b, 'tx, 'v, 'te, 'chk, 'mode, 'e) verifier_api \<Rightarrow> ('tx, 'te) transaction_batch \<Rightarrow> 'b \<Rightarrow> 'b" where
  "drop_batch V batch b =
     (if tb_needs_unlock batch then vb_unlock_accounts V (zip (tb_transactions batch) (tb_lock_results batch)) b else b)"

definition get_batch_results ::
  "('b, 'tx, 'v, 'te, 'chk, 'mode, 'e) verifier_api \<Rightarrow> 'fee settings \<Rightarrow> 'tx list \<Rightarrow> 'b \<Rightarrow> ('te + 'chk) list \<times> 'b" where
  "get_batch_results V cfg txs b =
     (let results = (if tx_sanity_check (switchs_of cfg) then get_transactions_sanity_results V b txs
                     else map (\<lambda>_. Inr ()) txs);
          (batch, b') = batch_and_verify_conflicts V cfg txs results b in
      (validate_batch V cfg batch b', drop_batch V batch b'))"

definition transactions_sanity_check ::
  "('b, 'tx, 'v, 'te, 'chk, 'mode, 'e) verifier_api \<Rightarrow> 'tx list \<Rightarrow> 'b \<Rightarrow> 'te verifier_error + unit" where
  "transactions_sanity_check V txs b =
     map_sum TransactionError (\<lambda>_. ())
       (collect_results (map (\<lambda>tx. vb_fully_verify_transaction V b (vb_to_versioned V tx)) txs))"

text \<open>The locks taken here are not released.\<close>

definition transactions_conflict_check ::
  "('b, 'tx, 'v, 'te, 'chk, 'mode, 'e) verifier_api \<Rightarrow> 'tx list \<Rightarrow> 'b \<Rightarrow> ('te verifier_error + unit) \<times> 'b" where
  "transactions_conflict_check V txs b =
     (let (results, b') = vb_lock_accounts V txs (vb_account_lock_limit V b) b in
      (map_sum TransactionError (\<lambda>_. ()) (collect_results results), b'))"

section \<open>Ticks\<close>

definition verify_ticks ::
  "('b, 'tx, 'v, 'te, 'chk, 'mode, 'e) verifier_api \<Rightarrow> 'b \<Rightarrow> 'e list \<Rightarrow> bool \<Rightarrow> (nat, 'te verifier_error, unit) act" where
  "verify_ticks V b entries slot_full tick_hash_count =
     rbind (checked_add 64 (vb_tick_height V b) (ve_tick_count V entries)) (\<lambda>next_height.
     let max_height = vb_max_tick_height V b in
     if next_height > max_height then Inr (Inl (TickError TooManyTicks), tick_hash_count)
     else if next_height < max_height \<and> slot_full then Inr (Inl (TickError TooFewTicks), tick_hash_count)
     else if next_height = max_height \<and> entries \<noteq> [] \<and> \<not> ve_is_tick V (last entries)
       then Inr (Inl (TickError TrailingEntry), tick_hash_count)
     else if next_height = max_height \<and> \<not> slot_full then Inr (Inl (TickError InvalidLastTick), tick_hash_count)
     else (let hashes_per_tick = (case vb_hashes_per_tick V b of None \<Rightarrow> 0 | Some n \<Rightarrow> n);
               (ok, tick_hash_count') = ve_verify_tick_hash_count V entries tick_hash_count hashes_per_tick in
           if \<not> ok then Inr (Inl (TickError InvalidTickHashCount), tick_hash_count')
           else Inr (Inr (), tick_hash_count')))"

section \<open>Laws of the bank\<close>

text \<open>
  Locking answers for every transaction, keeps the errors it is given, refuses a transaction that
  conflicts with one it has accepted, and is undone by unlocking; the age check answers for every
  transaction and keeps the errors.
\<close>

definition lock_laws :: "('b, 'tx, 'v, 'te, 'chk, 'mode, 'e) verifier_api \<Rightarrow> ('tx \<Rightarrow> 'tx \<Rightarrow> bool) \<Rightarrow> bool" where
  "lock_laws V conflicts \<longleftrightarrow>
     (\<forall>txs rs n b ls b'. length rs = length txs \<and> vb_lock_accounts_with_results V txs rs n b = (ls, b') \<longrightarrow>
        length ls = length txs \<and> (\<forall>i < length txs. ls ! i = Inr () \<longrightarrow> rs ! i = Inr ()) \<and>
        (\<forall>i j. i < j \<and> j < length txs \<and> ls ! i = Inr () \<and> ls ! j = Inr () \<longrightarrow> \<not> conflicts (txs ! i) (txs ! j)) \<and>
        vb_unlock_accounts V (zip txs ls) b' = b)"

definition check_laws :: "('b, 'tx, 'v, 'te, 'chk, 'mode, 'e) verifier_api \<Rightarrow> bool" where
  "check_laws V \<longleftrightarrow>
     (\<forall>b txs ls n. length ls = length txs \<longrightarrow> length (vb_check_transactions V b txs ls n) = length txs \<and>
        (\<forall>i < length txs. \<forall>c. vb_check_transactions V b txs ls n ! i = Inr c \<longrightarrow> ls ! i = Inr ()))"

text \<open>
  Counting ticks and hashes goes on from one piece of a slot to the next; registering the ticks of
  a piece advances the height of the bank and nothing else.
\<close>

definition tick_laws :: "('b, 'tx, 'v, 'te, 'chk, 'mode, 'e) verifier_api \<Rightarrow> ('b \<Rightarrow> 'e list \<Rightarrow> 'b) \<Rightarrow> bool" where
  "tick_laws V register \<longleftrightarrow>
     (\<forall>es es'. ve_tick_count V (es @ es') = ve_tick_count V es + ve_tick_count V es') \<and> ve_tick_count V [] = 0 \<and>
     (\<forall>es es' c c1 c2 n. ve_verify_tick_hash_count V es c n = (True, c1) \<and> ve_verify_tick_hash_count V es' c1 n = (True, c2) \<longrightarrow>
        ve_verify_tick_hash_count V (es @ es') c n = (True, c2)) \<and>
     (\<forall>b es. vb_tick_height V (register b es) = vb_tick_height V b + ve_tick_count V es \<and>
        vb_max_tick_height V (register b es) = vb_max_tick_height V b \<and>
        vb_hashes_per_tick V (register b es) = vb_hashes_per_tick V b)"

text \<open>A slot that is verified as its entries arrive: only the last piece is marked as full.\<close>

fun verify_pieces ::
  "('b, 'tx, 'v, 'te, 'chk, 'mode, 'e) verifier_api \<Rightarrow> ('b \<Rightarrow> 'e list \<Rightarrow> 'b) \<Rightarrow> 'b \<Rightarrow> 'e list list \<Rightarrow> (nat, 'te verifier_error, unit) act" where
  "verify_pieces V register b [] = aret ()"
| "verify_pieces V register b [es] = verify_ticks V b es True"
| "verify_pieces V register b (es # rest) =
     abind (verify_ticks V b es False) (\<lambda>_. verify_pieces V register (register b es) rest)"

lemma verify_ticks_ok:
  "verify_ticks V b es full c = Inr (Inr (), c') \<longleftrightarrow>
     vb_tick_height V b + ve_tick_count V es \<le> umax 64 \<and>
     vb_tick_height V b + ve_tick_count V es \<le> vb_max_tick_height V b \<and>
     (full \<longleftrightarrow> vb_tick_height V b + ve_tick_count V es = vb_max_tick_height V b) \<and>
     (full \<and> es \<noteq> [] \<longrightarrow> ve_is_tick V (last es)) \<and>
     ve_verify_tick_hash_count V es c (case vb_hashes_per_tick V b of None \<Rightarrow> 0 | Some n \<Rightarrow> n) = (True, c')"
  by (auto simp: verify_ticks_def res_simps Let_def not_less split: prod.splits if_splits)

lemma concat_not_Nil: "ess \<noteq> [] \<Longrightarrow> last ess \<noteq> [] \<Longrightarrow> concat ess \<noteq> []"
  by (metis concat_eq_Nil_conv last_in_set)

lemma verify_pieces_concat:
  assumes laws: "tick_laws V register" and "ess \<noteq> []" "last ess \<noteq> []"
    and "verify_pieces V register b ess c = Inr (Inr (), c')"
  shows "verify_ticks V b (concat ess) True c = Inr (Inr (), c')"
  using assms(2-4)
proof (induction ess arbitrary: b c)
  case (Cons es rest)
  show ?case
  proof (cases "rest = []")
    case False
    then obtain es1 rest1 where r: "rest = es1 # rest1" by (cases rest) auto
    from Cons.prems(3) obtain c1 where 1: "verify_ticks V b es False c = Inr (Inr (), c1)"
      and 2: "verify_pieces V register (register b es) rest c1 = Inr (Inr (), c')" by (auto simp: r act_simps)
    have "last rest \<noteq> []" using Cons.prems(2) False by simp
    from Cons.IH [OF False this 2] have IH: "verify_ticks V (register b es) (concat rest) True c1 = Inr (Inr (), c')" .
    have t: "ve_tick_count V (es @ concat rest) = ve_tick_count V es + ve_tick_count V (concat rest)"
      "vb_tick_height V (register b es) = vb_tick_height V b + ve_tick_count V es"
      "vb_max_tick_height V (register b es) = vb_max_tick_height V b" "vb_hashes_per_tick V (register b es) = vb_hashes_per_tick V b"
      using laws by (auto simp: tick_laws_def)
    have "ve_verify_tick_hash_count V (es @ concat rest) c (case vb_hashes_per_tick V b of None \<Rightarrow> 0 | Some n \<Rightarrow> n) = (True, c')"
      using 1 IH laws unfolding verify_ticks_ok t(4) tick_laws_def by blast
    then show ?thesis
      using 1 IH concat_not_Nil [OF False \<open>last rest \<noteq> []\<close>] by (simp add: verify_ticks_ok t add.assoc)
  qed (use Cons.prems in simp)
qed simp

section \<open>Properties\<close>


text \<open>
  C28.  With the check for conflicts on, verifying a batch answers for every transaction and leaves the
  account locks of the bank as they were.  No two transactions that are accepted conflict with each
  other, and with the sanity check on, too, every accepted transaction is valid for the bank and
  is sanitized to itself.
\<close>

theorem get_batch_results_sound:
  assumes "lock_laws V conflicts" "check_laws V" and "txs_conflict_check (switchs_of cfg)"
    and run: "get_batch_results V cfg txs b = (rs, b')"
  shows "length rs = length txs \<and> b' = b \<and>
    (\<forall>i j x y. i < j \<and> j < length txs \<and> rs ! i = Inr x \<and> rs ! j = Inr y \<longrightarrow> \<not> conflicts (txs ! i) (txs ! j)) \<and>
    (tx_sanity_check (switchs_of cfg) \<longrightarrow> (\<forall>i < length txs. \<forall>x. rs ! i = Inr x \<longrightarrow>
       vb_fully_verify_transaction V b (vb_to_versioned V (txs ! i)) = Inr (txs ! i)))"
proof -
  let ?pre = "if tx_sanity_check (switchs_of cfg) then get_transactions_sanity_results V b txs else map (\<lambda>_. Inr ()) txs"
  obtain ls b1 where ls: "vb_lock_accounts_with_results V txs ?pre (vb_account_lock_limit V b) b = (ls, b1)" by fastforce
  have "length ?pre = length txs" by (simp add: get_transactions_sanity_results_def)
  with assms(1) ls have l: "length ls = length txs" "\<And>i. i < length txs \<Longrightarrow> ls ! i = Inr () \<Longrightarrow> ?pre ! i = Inr ()"
    "\<And>i j. i < j \<Longrightarrow> j < length txs \<Longrightarrow> ls ! i = Inr () \<Longrightarrow> ls ! j = Inr () \<Longrightarrow> \<not> conflicts (txs ! i) (txs ! j)"
    "vb_unlock_accounts V (zip txs ls) b1 = b" unfolding lock_laws_def by blast+
  have rs: "rs = vb_check_transactions V b1 txs ls (max_age_slots cfg)" and b': "b' = b"
    using run ls assms(3) l(4)
    by (simp_all add: get_batch_results_def batch_and_verify_conflicts_def validate_batch_def drop_batch_def Let_def split: if_splits)
  have c: "length rs = length txs" "\<And>i x. i < length txs \<Longrightarrow> rs ! i = Inr x \<Longrightarrow> ls ! i = Inr ()"
    using assms(2) l(1) unfolding rs check_laws_def by blast+
  have sane: "vb_fully_verify_transaction V b (vb_to_versioned V (txs ! i)) = Inr (txs ! i)"
    if "tx_sanity_check (switchs_of cfg)" "i < length txs" "rs ! i = Inr x" for i x
    using l(2) [OF that(2) c(2) [OF that(2,3)]] that(1,2)
    by (auto simp: get_transactions_sanity_results_def split: sum.splits if_splits)
  show ?thesis using c l(3) b' sane by auto
qed

text \<open>
  Without the check for conflicts the sanity check has no effect: the batch is built from the
  number of its results only, so a transaction that failed the sanity check is passed on as if it
  had succeeded.
\<close>

lemma sanity_check_ineffective:
  "get_batch_results V (cfg\<lparr>switchs_of := \<lparr>tx_sanity_check = True, txs_conflict_check = False\<rparr>\<rparr>) txs b =
   get_batch_results V (cfg\<lparr>switchs_of := \<lparr>tx_sanity_check = False, txs_conflict_check = False\<rparr>\<rparr>) txs b"
  by (simp add: get_batch_results_def batch_and_verify_conflicts_def validate_batch_def drop_batch_def
      get_transactions_sanity_results_def Let_def comp_def)

section \<open>Witnesses\<close>

text \<open>
  Transactions are accounts, which conflict when they are the same; a transaction above 100 is not
  valid.  The bank is its height together with the accounts that are locked.  An entry is the list
  of its transactions, and a tick has two hashes.
\<close>

fun example_lock :: "nat list \<Rightarrow> (string + unit) list \<Rightarrow> nat set \<Rightarrow> (string + unit) list" where
  "example_lock (tx # txs) (Inr () # rs) L =
     (if tx \<in> L then Inl ''AccountInUse'' # example_lock txs rs L else Inr () # example_lock txs rs (insert tx L))"
| "example_lock (tx # txs) (Inl e # rs) L = Inl e # example_lock txs rs L"
| "example_lock txs rs L = []"

definition example_verifier :: "(nat \<times> nat set list, nat, nat, string, unit, unit, nat list) verifier_api" where
  "example_verifier = \<lparr>vb_fully_verify_transaction = (\<lambda>_ v. if v \<le> 100 then Inr v else Inl ''invalid''),
     vb_verify_transaction = (\<lambda>_ v _. Inr v), vb_to_versioned = id, vb_resanitization_needed = ''ResanitizationNeeded'',
     vb_account_lock_limit = (\<lambda>_. 64),
     vb_lock_accounts_with_results = (\<lambda>txs rs _ (h, Ls). (example_lock txs rs (\<Union> (set Ls)), (h, {x. (x, Inr ()) \<in> set (zip txs (example_lock txs rs (\<Union> (set Ls))))} # Ls))),
     vb_lock_accounts = (\<lambda>txs _ (h, Ls). (example_lock txs (map (\<lambda>_. Inr ()) txs) (\<Union> (set Ls)), (h, set txs # Ls))),
     vb_unlock_accounts = (\<lambda>_ (h, Ls). (h, tl Ls)), vb_check_transactions = (\<lambda>_ _ ls _. ls),
     vb_tick_height = fst, vb_max_tick_height = (\<lambda>_. 2), vb_hashes_per_tick = (\<lambda>_. None),
     ve_transactions = id, ve_is_tick = (\<lambda>e. e = []), ve_tick_count = (\<lambda>es. length (filter (\<lambda>e. e = []) es)),
     ve_verify_tick_hash_count = (\<lambda>_ c _. (True, c))\<rparr>"

lemma example_lock_ok:
  "length rs = length txs \<Longrightarrow> length (example_lock txs rs L) = length txs \<and>
    (\<forall>i < length txs. example_lock txs rs L ! i = Inr () \<longrightarrow> rs ! i = Inr () \<and> txs ! i \<notin> L) \<and>
    (\<forall>i j. i < j \<and> j < length txs \<and> example_lock txs rs L ! i = Inr () \<and> example_lock txs rs L ! j = Inr () \<longrightarrow> txs ! i \<noteq> txs ! j)"
proof (induction txs rs L rule: example_lock.induct)
  case (1 tx txs rs L)
  show ?case
  proof (cases "tx \<in> L")
    case True
    then show ?thesis using 1 by (auto simp: nth_Cons less_Suc_eq_0_disj split: nat.splits)
  next
    case False
    then show ?thesis using 1 by (auto simp: nth_Cons less_Suc_eq_0_disj split: nat.splits)
  qed
next
  case (2 tx txs e rs L)
  then show ?case by (auto simp: nth_Cons less_Suc_eq_0_disj split: nat.splits)
qed auto

lemma example_verifier_laws: "lock_laws example_verifier (=)" "check_laws example_verifier"
  "tick_laws example_verifier (\<lambda>b es. (fst b + length (filter (\<lambda>e. e = []) es), snd b))"
proof -
  show "lock_laws example_verifier (=)"
    unfolding lock_laws_def
  proof (intro allI impI)
    fix txs rs n b ls b'
    assume a: "length rs = length txs \<and> vb_lock_accounts_with_results example_verifier txs rs n b = (ls, b')"
    obtain h Ls where b: "b = (h, Ls)" by fastforce
    from a have "ls = example_lock txs rs (\<Union> (set Ls))" "tl (snd b') = Ls" "fst b' = h" by (auto simp: example_verifier_def b)
    then show "length ls = length txs \<and> (\<forall>i < length txs. ls ! i = Inr () \<longrightarrow> rs ! i = Inr ()) \<and>
        (\<forall>i j. i < j \<and> j < length txs \<and> ls ! i = Inr () \<and> ls ! j = Inr () \<longrightarrow> txs ! i \<noteq> txs ! j) \<and>
        vb_unlock_accounts example_verifier (zip txs ls) b' = b"
      using example_lock_ok [of rs txs "\<Union> (set Ls)"] a by (cases b') (auto simp: example_verifier_def b)
  qed
  show "check_laws example_verifier" by (auto simp: check_laws_def example_verifier_def)
  show "tick_laws example_verifier (\<lambda>b es. (fst b + length (filter (\<lambda>e. e = []) es), snd b))"
    by (auto simp: tick_laws_def example_verifier_def)
qed


theorem get_batch_results_sound_witness:
  "let cfg = \<lparr>max_age_slots = 150, switchs_of = \<lparr>tx_sanity_check = True, txs_conflict_check = True\<rparr>, fee_structure = ()\<rparr>;
       (rs, b') = get_batch_results example_verifier cfg [7, 7, 200] (0, []) in
   length rs = 3 \<and> rs ! 0 = Inr () \<and> b' = (0, [])"
proof -
  define cfg where "cfg = \<lparr>max_age_slots = 150, switchs_of = \<lparr>tx_sanity_check = True, txs_conflict_check = True\<rparr>, fee_structure = ()\<rparr>"
  obtain rs b' where run: "get_batch_results example_verifier cfg [7, 7, 200] (0, []) = (rs, b')" by (meson surj_pair)
  have "txs_conflict_check (switchs_of cfg)" by (simp add: cfg_def)
  from get_batch_results_sound [OF example_verifier_laws(1,2) this run] have "length rs = 3" "b' = (0, [])" by simp_all
  moreover have "rs ! 0 = Inr ()"
    using run by (auto simp: get_batch_results_def batch_and_verify_conflicts_def validate_batch_def drop_batch_def
        get_transactions_sanity_results_def example_verifier_def cfg_def)
  ultimately show ?thesis using run by (simp add: cfg_def)
qed

end
