(* ===== verification/Executor.thy ===== *)
theory Executor
  imports Storage_Reorg Storage_Commit Storage_Init Verifier
begin

text \<open>
  The engine of the rollup: \<^verbatim>\<open>executor/src/lib.rs\<close>, \<^verbatim>\<open>processor.rs\<close> and \<^verbatim>\<open>error.rs\<close>.

  A block is checked, executed batch by batch on a new slot, committed and confirmed; blocks are
  finalized and the chain is reorganised through the storage.  \<open>processor_api\<close> is what is called of
  the virtual machine, beside the operations of the storage (\<open>storage_env\<close>) and of the verifier
  (\<open>verifier_api\<close>).
\<close>

section \<open>The transaction processor\<close>

text \<open>
  Of the environment and the configuration of the virtual machine, the parts that the code takes
  from the settings or chooses itself; the others are read from the bank, which is passed as well.
\<close>

record 'fee processing_environment =
  pe_blockhash :: hash
  pe_lamports_per_signature :: nat
  pe_fee_structure :: "'fee option"

record processing_config =
  pc_check_program_modification_slot :: bool
  pc_limit_to_load_programs :: bool
  pc_transaction_account_lock_limit :: "nat option"

record ('b, 'tx, 'te, 'chk, 'o, 'ex, 'fee) processor_api =
  px_check_program_modification_slot :: "'b \<Rightarrow> bool"
  px_load_and_execute :: "'b \<Rightarrow> 'tx list \<Rightarrow> ('te + 'chk) list \<Rightarrow> 'fee processing_environment \<Rightarrow> processing_config
     \<Rightarrow> ('o, 'ex) transactions_result \<times> 'b"

definition environment where
  "environment B cfg b = \<lparr>pe_blockhash = b_last_blockhash B b, pe_lamports_per_signature = b_lamports_per_signature B b,
     pe_fee_structure = Some (fee_structure cfg)\<rparr>"

definition make_processing_config where
  "make_processing_config V X b = \<lparr>pc_check_program_modification_slot = px_check_program_modification_slot X b,
     pc_limit_to_load_programs = False, pc_transaction_account_lock_limit = Some (vb_account_lock_limit V b)\<rparr>"

definition process_transactions where
  "process_transactions B V X cfg txs b =
     (let (results, b1) = get_batch_results V cfg txs b in
      px_load_and_execute X b1 txs results (environment B cfg b1) (make_processing_config V X b1))"

section \<open>The engine\<close>

text \<open>A transaction error is represented by its text, like the errors of other crates.\<close>

datatype executor_error =
    StorageIsNone
  | FetchStreamBatchError string
  | ExStorageError rollup_error
  | ValidatorError "string verifier_error"
  | StorageQueryError string

record 'tx block_payload =
  bp_transactions :: "'tx list list"

definition new_block_payload :: "'tx list \<Rightarrow> 'tx block_payload" where
  "new_block_payload txs = \<lparr>bp_transactions = [txs]\<rparr>"

definition new_with_batches :: "'tx list list \<Rightarrow> 'tx block_payload" where
  "new_with_batches batches = \<lparr>bp_transactions = batches\<rparr>"

text \<open>The answer of the stream is an argument.\<close>

definition extend_with :: "string + 'tx list list \<Rightarrow> ('tx block_payload, executor_error, unit) act" where
  "extend_with next_batch p =
     (case next_batch of
        Inl e \<Rightarrow> Inr (Inl (FetchStreamBatchError e), p)
      | Inr batches \<Rightarrow> Inr (Inr (), p\<lparr>bp_transactions := bp_transactions p @ batches\<rparr>))"

record ('b, 'f, 's, 'i, 'kp, 'fee) executor =
  ex_storage :: "('b, 'f, 's, 'i, 'kp) rollup_storage option"
  ex_finalized :: slot
  validator_settings :: "'fee settings"

definition with_storage ::
  "(('b, 'f, 's, 'i, 'kp) rollup_storage, rollup_error, 'x) act
     \<Rightarrow> (('b, 'f, 's, 'i, 'kp, 'fee) executor, executor_error, 'x) act" where
  "with_storage m X =
     (case ex_storage X of
        None \<Rightarrow> Inr (Inl StorageIsNone, X)
      | Some S \<Rightarrow> rbind (m S) (\<lambda>(r, S'). Inr (map_sum ExStorageError id r, X\<lparr>ex_storage := Some S'\<rparr>)))"

definition new_with_validator_settings where
  "new_with_validator_settings I F K cfg vs =
     rbind (new_storage I F K cfg) (\<lambda>r.
     case r of
       Inl e \<Rightarrow> Inr (Inl (ExStorageError e))
     | Inr S \<Rightarrow> rbind (init_storage I F S) (\<lambda>(r', S').
         Inr (map_sum ExStorageError (\<lambda>_. \<lparr>ex_storage = Some S', ex_finalized = get_root F S', validator_settings = vs\<rparr>) r')))"

definition new_with_config where
  "new_with_config I F K fee cfg =
     new_with_validator_settings I F K cfg
       \<lparr>max_age_slots = 150, switchs_of = \<lparr>tx_sanity_check = True, txs_conflict_check = True\<rparr>, fee_structure = fee\<rparr>"

definition new_for_test where
  "new_for_test I F K fee path =
     rbind (new_temp I path) (\<lambda>r.
     case r of Inl e \<Rightarrow> Inr (Inl (ExStorageError e)) | Inr cfg \<Rightarrow> new_with_config I F K fee cfg)"

definition close_executor where
  "close_executor fuel full incremental should_generate =
     with_storage (close fuel full incremental should_generate)"

text \<open>The checks on the current bank, as actions of the storage.\<close>

definition sanity_check_batch ::
  "('b, 'tx, 'v, string, 'chk, 'mode, 'e) verifier_api \<Rightarrow> 'tx list
     \<Rightarrow> (('b, 'f, 's, 'i, 'kp) rollup_storage, executor_error, unit) act" where
  "sanity_check_batch V txs S =
     Inr (map_sum ValidatorError id (transactions_sanity_check V txs (bank_at S (bank S))), S)"

definition conflict_check_batch ::
  "('b, 'tx, 'v, string, 'chk, 'mode, 'e) verifier_api \<Rightarrow> 'tx list
     \<Rightarrow> (('b, 'f, 's, 'i, 'kp) rollup_storage, executor_error, unit) act" where
  "conflict_check_batch V txs S =
     (let (r, b) = transactions_conflict_check V txs (bank_at S (bank S)) in
      Inr (map_sum ValidatorError id r, update_bank (bank S) (\<lambda>_. b) S))"

definition check_block where
  "check_block V block sw X =
     (let use = (case sw of None \<Rightarrow> switchs_of (validator_settings X) | Some s \<Rightarrow> s) in
      case ex_storage X of
        None \<Rightarrow> Inr (Inl StorageIsNone, X)
      | Some S \<Rightarrow>
          rbind (abind (if tx_sanity_check use then afor (sanity_check_batch V) (bp_transactions block) else aret []) (\<lambda>_.
                 abind (if txs_conflict_check use then afor (conflict_check_batch V) (bp_transactions block) else aret []) (\<lambda>_.
                 aret ())) S) (\<lambda>(r, S').
          Inr (r, X\<lparr>ex_storage := Some S'\<rparr>)))"

definition process_batch where
  "process_batch E V P cfg txs S =
     (let (out, b) = process_transactions (env_bank E) V P cfg txs (bank_at S (bank S)) in
      Inr (Inr out :: rollup_error + _, update_bank (bank S) (\<lambda>_. b) S))"

definition new_block where
  "new_block E V P block =
     abind (with_storage (bump (env_pubkey_of E) (env_bank E) (env_forks E))) (\<lambda>_ X.
     abind (with_storage (afor (process_batch E V P (validator_settings X)) (bp_transactions block))) (\<lambda>results.
     abind (with_storage (commit E results (map new_commit_batch (bp_transactions block)))) (\<lambda>_.
     abind (with_storage (aread current_height)) (\<lambda>current.
     abind (with_storage (confirm (env_bank E) (env_blockstore E) current)) (\<lambda>_.
     with_storage (\<lambda>S. alift (get_slot_info (env_bank E) (env_forks E) (env_blockstore E) (current_height S) S) S))))) X)"

definition executor_reorg where
  "executor_reorg E reset_to X =
     abind (with_storage (reorg (env_forks E) (env_blockstore E) reset_to (Some (ex_finalized X)))) (\<lambda>_. aret ()) X"

definition finalize where
  "finalize E block = abind (with_storage (set_root (env_forks E) (env_blockstore E) block None)) (\<lambda>_. aret ())"

end
