(* ===== verification/Executor_Chain.thy ===== *)
theory Executor_Chain
  imports Executor
begin

text \<open>
  The chain an engine builds.  The operations of the engine only ever add a block on top of the
  current one, so in every state it can reach the banks form one line, whose head is the current
  bank (\<open>chain_ok\<close>).  The states are those of the inductive relation \<open>executor_run\<close>: the engine starts
  on a ledger that is a line, and blocks are executed, successfully or not, checked, finalized and
  reorganised in any order.
\<close>

section \<open>Lines of banks\<close>

definition line :: "(slot \<Rightarrow> bank_ref option) \<Rightarrow> slot \<Rightarrow> slot \<Rightarrow> bool" where
  "line g lo hi \<longleftrightarrow> lo \<le> hi \<and> dom g = {lo..hi} \<and> (\<forall>n b. g n = Some b \<and> lo < n \<longrightarrow> ref_parent_slot b + 1 = n)"

lemma line_get: "line g lo hi \<Longrightarrow> g n \<noteq> None \<longleftrightarrow> lo \<le> n \<and> n \<le> hi"
  by (auto simp: line_def dom_def set_eq_iff)

lemma lineage_line:
  assumes "line g lo hi" "lo \<le> n" "n \<le> hi"
  shows "set (lineage g n) = {lo..n}"
  using assms(2,3)
proof (induction n rule: less_induct)
  case (less n)
  from less.prems obtain b where b: "g n = Some b" using line_get [OF assms(1), of n] by auto
  show ?case
  proof (cases "n = lo")
    case True
    then have "lineage g (ref_parent_slot b) = []" if "ref_parent_slot b < n"
      using that line_get [OF assms(1), of "ref_parent_slot b"] by auto
    then have "lineage g n = [n]" using b by (subst lineage.simps) simp
    then show ?thesis using True by simp
  next
    case False
    then have p: "ref_parent_slot b + 1 = n" using assms(1) b less.prems unfolding line_def by (metis le_neq_implies_less)
    then have "lineage g n = n # lineage g (ref_parent_slot b)" using lineage_Some [of g n b] b by simp
    moreover have "set (lineage g (ref_parent_slot b)) = {lo..ref_parent_slot b}" using less.IH [of "ref_parent_slot b"] p less.prems False by simp
    ultimately show ?thesis using p less.prems by auto
  qed
qed

lemma line_extend:
  assumes "line g lo hi" "ref_slot b = hi + 1" "ref_parent_slot b = hi"
  shows "line (g(ref_slot b \<mapsto> b)) lo (hi + 1)"
  using assms by (auto simp: line_def dom_def set_eq_iff)

text \<open>What is left of a line when its root is moved up.\<close>

lemma line_restrict:
  assumes line: "line g lo hi" and s: "lo \<le> s" "s \<le> hi"
    and g': "\<And>n. g' n = (if survives g s stop n then g n else None)"
  shows "line g' (if s < stop then s else max lo stop) hi \<and> g' hi = g hi"
proof -
  have surv: "survives g s stop n \<longleftrightarrow> s \<le> n \<or> stop \<le> n" if "lo \<le> n" "n \<le> hi" for n
    using lineage_line [OF line that] lineage_line [OF line s] that s by (auto simp: survives_def)
  have get: "g' n = (if lo \<le> n \<and> n \<le> hi \<and> (s \<le> n \<or> stop \<le> n) then g n else None)" for n
    using g' [of n] surv [of n] line_get [OF line, of n] by auto
  let ?lo = "if s < stop then s else max lo stop"
  have get': "g' n = (if ?lo \<le> n \<and> n \<le> hi then g n else None)" for n
    unfolding get using s by (auto simp: max_def)
  have lo: "lo \<le> ?lo" "?lo \<le> hi" using s by (auto simp: max_def)
  have "dom g' = {?lo..hi}" using get' line_get [OF line] lo by (auto simp: dom_def split: if_splits)
  moreover have "ref_parent_slot b + 1 = n" if "g' n = Some b" "?lo < n" for n b
    using that get' [of n] line lo(1) unfolding line_def by (metis (no_types, lifting) le_less_trans option.distinct(1))
  ultimately have "line g' ?lo hi" using lo(2) unfolding line_def by blast
  then show ?thesis using get' [of hi] lo by simp
qed

section \<open>Storage operations\<close>

definition chain_ok :: "('b, 'f) forks_api \<Rightarrow> ('f \<Rightarrow> bool) \<Rightarrow> ('b, 'f, 's, 'i, 'kp) rollup_storage \<Rightarrow> bool" where
  "chain_ok F ok S \<longleftrightarrow> ok (bank_forks S) \<and>
     (\<exists>lo. line (bf_get F (bank_forks S)) lo (ref_slot (bank S))) \<and> bf_get F (bank_forks S) (ref_slot (bank S)) = Some (bank S)"

definition same_head :: "bank_ref \<Rightarrow> 'f \<Rightarrow> ('b, 'f, 's, 'i, 'kp) rollup_storage \<Rightarrow> bool" where
  "same_head r f S \<longleftrightarrow> bank S = r \<and> bank_forks S = f"

lemma preserves_chain: "(\<And>r f. preserves (same_head r f) m) \<Longrightarrow> preserves (chain_ok F ok) m"
  unfolding preserves_def same_head_def chain_ok_def by metis

lemma preserves_with_blockstore [preserves_intros]: "preserves (same_head r f) (with_blockstore op)"
  by (auto simp: preserves_def with_blockstore_def same_head_def split: prod.splits)

lemma preserves_single_batch_commit [preserves_intros]: "preserves (same_head r f) (single_batch_commit E x c)"
  using single_batch_commit_frame by (fastforce simp: preserves_def same_head_def same_ledger_def)

lemma preserves_commit_one [preserves_intros]: "preserves (same_head r f) (commit_one E x)"
proof -
  obtain a c where x: "x = (a, c)" by fastforce
  have "preserves (same_head r f) (single_batch_commit_with_history E a c)"
    unfolding single_batch_commit_with_history_def case_prod_beta
    by (intro preserves_intros)
      (simp add: on_block_complete_def send_transaction_history_status_def notify_block_complete_def same_head_def)
  then show ?thesis unfolding commit_one_def x case_prod_conv by (intro preserves_intros)
qed

lemma preserves_commit [preserves_intros]: "preserves (same_head r f) (commit E results origins)"
  unfolding commit_def commit_block_def bank_commit_def blockstore_save_def register_ticks_def case_prod_beta
  by (intro preserves_intros) (simp_all add: same_head_def preserves_def)

lemma preserves_process_batch [preserves_intros]: "preserves (same_head r f) (process_batch E V P cfg txs)"
  by (auto simp: preserves_def process_batch_def same_head_def split: prod.splits)

lemma preserves_confirm [preserves_intros]: "preserves (same_head r f) (confirm B K s)"
  unfolding confirm_def by (intro preserves_intros) (simp add: same_head_def)

lemma preserves_conflict_check [preserves_intros]:
  "preserves (same_head r f) (conflict_check_batch V txs)" "preserves (same_head r f) (sanity_check_batch V txs)"
  by (auto simp: preserves_def conflict_check_batch_def sanity_check_batch_def same_head_def split: prod.splits)

lemma chain_highest:
  assumes laws: "forks_laws F ok" and chain: "chain_ok F ok S"
  shows "bf_highest_slot F (bank_forks S) = ref_slot (bank S)"
proof -
  let ?f = "bank_forks S"
  from chain obtain lo where c: "ok ?f" "line (bf_get F ?f) lo (ref_slot (bank S))"
    "bf_get F ?f (ref_slot (bank S)) = Some (bank S)" unfolding chain_ok_def by blast
  have "bf_highest_slot F ?f \<le> ref_slot (bank S)"
    using line_get [OF c(2), of "bf_highest_slot F ?f"] forks_lawsD(4) [OF laws c(1)] by simp
  moreover have "ref_slot (bank S) \<le> bf_highest_slot F ?f" using forks_lawsD(3) [OF laws c(1,3)] .
  ultimately show ?thesis by simp
qed

lemma chain_working:
  assumes "forks_laws F ok" "chain_ok F ok S"
  shows "bf_working_bank F (bank_forks S) = bank S"
  using forks_lawsD(4) [of F ok "bank_forks S"] chain_highest [OF assms] assms by (simp add: chain_ok_def)

lemma bump_cases:
  assumes laws: "forks_laws F ok" and chain: "chain_ok F ok S" and run: "bump pk B F S = Inr (r, S')"
  shows "chain_ok F ok S' \<and> (\<forall>u. r = Inr u \<longrightarrow>
    ref_slot (bank S') = ref_slot (bank S) + 1 \<and> ref_parent_slot (bank S') = ref_slot (bank S))"
proof -
  let ?s = "ref_slot (bank S) + 1" and ?f = "bank_forks S"
  let ?new = "\<lparr>ref_addr = next_bank S, ref_slot = ?s, ref_parent_slot = ref_slot (bank S)\<rparr>"
  have add: "checked_add 64 (ref_slot (bank S)) 1 = Inr ?s"
    using run unfolding bump_def by (cases "checked_add 64 (ref_slot (bank S)) 1") (auto simp: chain_highest [OF laws chain] res_simps)
  have eq: "bump pk B F S = abind (new_slot_with_parent pk B F (bank S) ?s) (\<lambda>_. aret ()) S"
    unfolding bump_def bump_slot_def by (simp add: chain_highest [OF laws chain] add [unfolded One_nat_def] abind_def aread_def apanic_def)
  show ?thesis
  proof (cases "collector_id pk S")
    case (Inl e)
    then have "r = Inl e \<and> S' = S"
      using run unfolding eq by (simp add: new_slot_with_parent_def abind_def alift_def)
    then show ?thesis using chain by simp
  next
    case (Inr k)
    from run obtain pb nb f' where f': "bf_insert F ?new ?f = Inr f'" and r: "r = Inr ()"
      and S': "S' = S\<lparr>banks := (banks S)(ref_addr (bank S) := pb, next_bank S := nb), next_bank := next_bank S + 1,
        bank_forks := f', bank := ?new\<rparr>"
      unfolding eq by (auto simp: new_slot_with_parent_def Inr Let_def abind_def alift_def aret_def res_simps)
    from chain obtain lo where c: "ok ?f" "line (bf_get F ?f) lo (ref_slot (bank S))" unfolding chain_ok_def by blast
    note ins = forks_laws_insert [OF laws c(1) f']
    have "line (bf_get F f') lo ?s" using line_extend [OF c(2), of ?new] ins(2) by simp
    then have "chain_ok F ok S'" using ins S' by (auto simp: chain_ok_def)
    then show ?thesis using r S' by simp
  qed
qed

text \<open>Moving the root along the line keeps the line and its head.\<close>

lemma set_root_chain:
  assumes laws: "forks_laws F ok" and chain: "chain_ok F ok S"
    and run: "set_root F K s h S = Inr (Inr removed, S')"
  shows "chain_ok F ok S' \<and> bank S' = bank S \<and> get_root F S' = s"
proof -
  let ?f = "bank_forks S"
  from set_root_ok [OF run] obtain bl f' bs' where
    sr: "bf_set_root F s h ?f (banks S) = Inr (Inr removed, f', bs')"
    and S': "S' = S\<lparr>blockstore := bl, bank_forks := f', banks := bs'\<rparr>" by blast
  from chain obtain lo where c: "ok ?f" "line (bf_get F ?f) lo (ref_slot (bank S))"
    "bf_get F ?f (ref_slot (bank S)) = Some (bank S)" unfolding chain_ok_def by blast
  note r = forks_laws_set_root [OF laws c(1) sr]
  have s: "lo \<le> s" "s \<le> ref_slot (bank S)" using r(3) line_get [OF c(2), of s] by auto
  from line_restrict [OF c(2) s r(4)] c(3) r(1,2) show ?thesis by (auto simp: S' chain_ok_def get_root_def)
qed

lemma reorg_chain:
  assumes laws: "forks_laws F ok" and chain: "chain_ok F ok S"
    and run: "reorg F K s h S = Inr (Inr removed, S')"
  shows "chain_ok F ok S' \<and> bank S' = bank S"
proof -
  from run obtain S1 bl where root: "set_root F K s h S = Inr (Inr removed, S1)"
    and S': "S' = S1\<lparr>blockstore := bl, bank := bf_working_bank F (bank_forks S1)\<rparr>"
    unfolding reorg_def by (auto simp: act_simps)
  note r = set_root_chain [OF laws chain root]
  then have "bf_working_bank F (bank_forks S1) = bank S" using chain_working [OF laws, of S1] by simp
  then show ?thesis using r S' by (auto simp: chain_ok_def)
qed

section \<open>The engine\<close>

definition executor_ok :: "('b, 'f) forks_api \<Rightarrow> ('f \<Rightarrow> bool) \<Rightarrow> ('b, 'f, 's, 'i, 'kp, 'fee) executor \<Rightarrow> bool" where
  "executor_ok F ok X \<longleftrightarrow> (\<forall>S. ex_storage X = Some S \<longrightarrow> chain_ok F ok S)"

lemma preserves_with_storage [preserves_intros]:
  assumes "preserves (chain_ok F ok) m"
  shows "preserves (executor_ok F ok) (with_storage m)"
proof (rule preservesI)
  fix X r X'
  assume X: "executor_ok F ok X" and run: "with_storage m X = Inr (r, X')"
  show "executor_ok F ok X'"
  proof (cases "ex_storage X")
    case None
    then show ?thesis using X run by (simp add: with_storage_def)
  next
    case (Some S)
    then obtain r' S' where m: "m S = Inr (r', S')" "X' = X\<lparr>ex_storage := Some S'\<rparr>"
      using run by (auto simp: with_storage_def res_simps)
    have "chain_ok F ok S" using X Some by (simp add: executor_ok_def)
    from preservesD [OF assms this m(1)] show ?thesis using m(2) by (simp add: executor_ok_def)
  qed
qed

lemma preserves_dup: "(\<And>Y. preserves I (m Y)) \<Longrightarrow> preserves I (\<lambda>X. m X X)"
  by (rule preservesI) (blast dest: preservesD)

lemma preserves_new_block:
  assumes laws: "forks_laws (env_forks E) ok"
  shows "preserves (executor_ok (env_forks E) ok) (new_block E V P block)"
proof -
  let ?I = "executor_ok (env_forks E) ok"
  have bump: "preserves (chain_ok (env_forks E) ok) (bump pk B (env_forks E))" for pk B
    using bump_cases [OF laws] by (blast intro: preservesI)
  have info: "preserves (chain_ok (env_forks E) ok) (\<lambda>S. alift (g S) S)" for g
    by (simp add: preserves_def alift_def)
  show ?thesis
    unfolding new_block_def
  proof (intro preserves_abind preserves_with_storage bump)
    fix x
    show "preserves ?I (\<lambda>X. abind (with_storage (afor (process_batch E V P (validator_settings X)) (bp_transactions block))) (\<lambda>results.
     abind (with_storage (commit E results (map new_commit_batch (bp_transactions block)))) (\<lambda>_.
     abind (with_storage (aread current_height)) (\<lambda>current.
     abind (with_storage (confirm (env_bank E) (env_blockstore E) current)) (\<lambda>_.
     with_storage (\<lambda>S. alift (get_slot_info (env_bank E) (env_forks E) (env_blockstore E) (current_height S) S) S))))) X)"
      by (rule preserves_dup) (intro preserves_abind preserves_with_storage info preserves_chain preserves_intros)
  qed
qed

lemma preserves_check_block:
  "preserves (executor_ok F ok) (check_block V block sw)"
proof (rule preservesI)
  fix X r X'
  assume X: "executor_ok F ok X" and run: "check_block V block sw X = Inr (r, X')"
  show "executor_ok F ok X'"
  proof (cases "ex_storage X")
    case None
    then show ?thesis using X run by (simp add: check_block_def Let_def)
  next
    case (Some S)
    let ?use = "case sw of None \<Rightarrow> switchs_of (validator_settings X) | Some s \<Rightarrow> s"
    let ?m = "abind (if tx_sanity_check ?use then afor (sanity_check_batch V) (bp_transactions block) else aret []) (\<lambda>_.
       abind (if txs_conflict_check ?use then afor (conflict_check_batch V) (bp_transactions block) else aret []) (\<lambda>_. aret ()))"
    from run Some obtain S' where m: "?m S = Inr (r, S')" "X' = X\<lparr>ex_storage := Some S'\<rparr>"
      by (auto simp: check_block_def Let_def res_simps)
    have "preserves (chain_ok F ok) ?m" by (intro preserves_chain preserves_intros)
    moreover have "chain_ok F ok S" using X Some by (simp add: executor_ok_def)
    ultimately have "chain_ok F ok S'" using m(1) by (rule preservesD)
    then show ?thesis using m(2) by (simp add: executor_ok_def)
  qed
qed

lemma with_storage_ok:
  "with_storage m X = Inr (Inr x, X') \<longleftrightarrow> (\<exists>S S'. ex_storage X = Some S \<and> m S = Inr (Inr x, S') \<and> X' = X\<lparr>ex_storage := Some S'\<rparr>)"
proof (cases "ex_storage X")
  case (Some S)
  show ?thesis
  proof (cases "m S")
    case (Inr p)
    then show ?thesis using Some by (cases "fst p"; cases p) (auto simp: with_storage_def)
  qed (simp add: with_storage_def Some)
qed (simp add: with_storage_def)

inductive executor_run for E V P X0 where
  start: "executor_run E V P X0 X0"
| block: "executor_run E V P X0 X \<Longrightarrow> new_block E V P (b :: _ block_payload) X = Inr (r, X') \<Longrightarrow> executor_run E V P X0 X'"
| check: "executor_run E V P X0 X \<Longrightarrow> check_block V (b :: _ block_payload) sw X = Inr (r, X') \<Longrightarrow> executor_run E V P X0 X'"
| finalized: "executor_run E V P X0 X \<Longrightarrow> finalize E s X = Inr (Inr (), X') \<Longrightarrow> executor_run E V P X0 X'"
| reorganised: "executor_run E V P X0 X \<Longrightarrow> executor_reorg E s X = Inr (Inr (), X') \<Longrightarrow> executor_run E V P X0 X'"

lemma executor_run_ok:
  assumes laws: "forks_laws (env_forks E) ok" and "executor_ok (env_forks E) ok X0"
    and "executor_run E V P X0 X"
  shows "executor_ok (env_forks E) ok X"
  using assms(3)
proof (induction rule: executor_run.induct)
  case start
  show ?case by (rule assms(2))
next
  case (block X b r X')
  from preservesD [OF preserves_new_block [OF laws] block.IH block.hyps(2)] show ?case .
next
  case (check X b sw r X')
  from preservesD [OF preserves_check_block check.IH check.hyps(2)] show ?case .
next
  case (finalized X s X')
  then show ?case
    using set_root_chain [OF laws] by (fastforce simp: finalize_def act_simps with_storage_ok executor_ok_def)
next
  case (reorganised X s X')
  then show ?case
    using reorg_chain [OF laws] by (fastforce simp: executor_reorg_def act_simps with_storage_ok executor_ok_def)
qed

text \<open>No operation changes what the engine takes to be finalized.\<close>

lemma preserves_finalized [preserves_intros]: "preserves (\<lambda>X. ex_finalized X = n) (with_storage m)"
  by (rule preservesI) (auto simp: with_storage_def res_simps split: option.splits)

lemma executor_run_finalized: "executor_run E V P X0 X \<Longrightarrow> ex_finalized X = ex_finalized X0"
proof (induction rule: executor_run.induct)
  case (block X b r X')
  have "preserves (\<lambda>X. ex_finalized X = ex_finalized X0) (new_block E V P b)"
    unfolding new_block_def
    by (intro preserves_abind preserves_finalized, rule preserves_dup) (intro preserves_intros)
  from preservesD [OF this block.IH block.hyps(2)] show ?case .
next
  case (check X b sw r X')
  then show ?case by (auto simp: check_block_def Let_def res_simps split: option.splits)
qed (auto simp: finalize_def executor_reorg_def act_simps with_storage_ok)

lemma new_block_ok:
  assumes "new_block E V P b X = Inr (Inr info, X')" "ex_storage X = Some S"
  obtains S1 S' where "bump (env_pubkey_of E) (env_bank E) (env_forks E) S = Inr (Inr (), S1)" "ex_storage X' = Some S'"
    "bank S' = bank S1" "bank_forks S' = bank_forks S1"
    "get_slot_info (env_bank E) (env_forks E) (env_blockstore E) (current_height S') S' = Inr info"
proof -
  from assms obtain S1 S2 S3 rs S' where 1: "bump (env_pubkey_of E) (env_bank E) (env_forks E) S = Inr (Inr (), S1)"
    and 2: "afor (process_batch E V P (validator_settings X)) (bp_transactions b) S1 = Inr (Inr rs, S2)"
    and 3: "commit E rs (map new_commit_batch (bp_transactions b)) S2 = Inr (Inr (), S3)"
    and 4: "confirm (env_bank E) (env_blockstore E) (current_height S3) S3 = Inr (Inr (), S')"
    and X': "ex_storage X' = Some S'"
    and info: "get_slot_info (env_bank E) (env_forks E) (env_blockstore E) (current_height S') S' = Inr info"
    unfolding new_block_def by (auto simp: act_simps with_storage_ok)
  let ?I = "same_head (bank S1) (bank_forks S1)"
  have "?I S1" by (simp add: same_head_def)
  with _ have "?I S2" using 2 by (rule preservesD) (intro preserves_intros)
  with _ have "?I S3" using 3 by (rule preservesD) (intro preserves_intros)
  with _ have "?I S'" using 4 by (rule preservesD) (intro preserves_intros)
  then show thesis using that [OF 1 X' _ _ info] by (simp add: same_head_def)
qed

lemma get_slot_info_Inr:
  "get_slot_info B F K s S = Inr info \<Longrightarrow> si_head info = get_slot_head B F K s S \<and> (0 < s \<longrightarrow> si_parent info = get_slot_head B F K (s - 1) S)"
  by (auto simp: get_slot_info_def get_slot_head_def slot_head_default_def Let_def split: sum.splits option.splits)

lemma get_slot_head_slot: "sh_slot (get_slot_head B F K s S) = s"
  by (simp add: get_slot_head_def slot_head_default_def Let_def split: option.splits)

section \<open>Locks left behind\<close>

text \<open>
  What the documentation of \<^verbatim>\<open>Accounts::lock_accounts\<close> says of repeated calls: there is one result for
  every transaction; a transaction whose locks were taken holds them until they are released, and the
  accounts of a transaction that holds its locks cannot be locked for it again.  (Every transaction
  locks at least the account that pays its fee for writing.)
\<close>

definition held_laws :: "('b, 'tx, 'v, 'te, 'chk, 'mode, 'e) verifier_api \<Rightarrow> ('b \<Rightarrow> 'tx \<Rightarrow> bool) \<Rightarrow> bool" where
  "held_laws V held \<longleftrightarrow>
     (\<forall>txs n b ls b'. vb_lock_accounts V txs n b = (ls, b') \<longrightarrow>
        length ls = length txs \<and> (\<forall>i < length txs. ls ! i = Inr () \<longrightarrow> held b' (txs ! i)) \<and>
        (\<forall>tx. held b tx \<longrightarrow> held b' tx) \<and> (\<forall>i < length txs. held b (txs ! i) \<longrightarrow> ls ! i \<noteq> Inr ()))"

lemma held_lawsD:
  assumes "held_laws V held" "vb_lock_accounts V txs n b = (ls, b')"
  shows "length ls = length txs" "\<And>i. i < length txs \<Longrightarrow> ls ! i = Inr () \<Longrightarrow> held b' (txs ! i)"
    "\<And>tx. held b tx \<Longrightarrow> held b' tx" "\<And>i. i < length txs \<Longrightarrow> held b (txs ! i) \<Longrightarrow> ls ! i \<noteq> Inr ()"
  using assms unfolding held_laws_def by blast+

definition held_in :: "('b \<Rightarrow> 'tx \<Rightarrow> bool) \<Rightarrow> 'tx \<Rightarrow> ('b, 'f, 's, 'i, 'kp) rollup_storage \<Rightarrow> bool" where
  "held_in held tx S \<longleftrightarrow> held (bank_at S (bank S)) tx"

lemma preserves_held:
  assumes "held_laws V held"
  shows "preserves (held_in held tx) (conflict_check_batch V txs)" "preserves (held_in held tx) (sanity_check_batch V txs)"
  by (auto simp: preserves_def conflict_check_batch_def sanity_check_batch_def transactions_conflict_check_def held_in_def
      bank_at_def update_bank_def split: prod.splits dest: held_lawsD(3) [OF assms])

lemma conflict_check_batch_fails:
  assumes laws: "held_laws V held" and "tx \<in> set txs" "held_in held tx S"
  shows "\<exists>e S'. conflict_check_batch V txs S = Inr (Inl e, S')"
proof -
  let ?b = "bank_at S (bank S)"
  obtain ls b' where l: "vb_lock_accounts V txs (vb_account_lock_limit V ?b) ?b = (ls, b')" by fastforce
  from assms(2) obtain i where i: "i < length txs" "txs ! i = tx" by (auto simp: in_set_conv_nth)
  have "ls ! i \<noteq> Inr ()" using held_lawsD(4) [OF laws l i(1)] assms(3) i(2) by (simp add: held_in_def)
  then have "\<nexists>ys. collect_results ls = Inr ys"
    using i(1) held_lawsD(1) [OF laws l] by (auto simp: collect_results_Inr)
  then obtain e where "collect_results ls = Inl e" by (cases "collect_results ls") auto
  then show ?thesis using l by (simp add: conflict_check_batch_def transactions_conflict_check_def)
qed

lemma conflict_check_batch_holds:
  assumes laws: "held_laws V held" and "tx \<in> set txs" "conflict_check_batch V txs S = Inr (Inr u, S')"
  shows "held_in held tx S'"
proof -
  let ?b = "bank_at S (bank S)"
  obtain ls b' where l: "vb_lock_accounts V txs (vb_account_lock_limit V ?b) ?b = (ls, b')" by fastforce
  with assms(3) obtain ys where ys: "collect_results ls = Inr ys" and S': "S' = update_bank (bank S) (\<lambda>_. b') S"
    by (cases "collect_results ls") (auto simp: conflict_check_batch_def transactions_conflict_check_def)
  from assms(2) obtain i where i: "i < length txs" "txs ! i = tx" by (auto simp: in_set_conv_nth)
  from held_lawsD(2) [OF laws l i(1)] i ys held_lawsD(1) [OF laws l] show ?thesis
    by (auto simp: collect_results_Inr S' held_in_def bank_at_def update_bank_def)
qed

lemma conflict_checks_hold:
  assumes laws: "held_laws V held" and "txs \<in> set bs" "tx \<in> set txs" "afor (conflict_check_batch V) bs S = Inr (Inr rs, S')"
  shows "held_in held tx S'"
  using assms(2,4)
proof (induction bs arbitrary: S rs)
  case (Cons c cs)
  from Cons.prems(2) obtain S1 r rs' where c: "conflict_check_batch V c S = Inr (Inr r, S1)"
    and cs: "afor (conflict_check_batch V) cs S1 = Inr (Inr rs', S')" unfolding afor.simps abind_ok aret_ok by blast
  show ?case
  proof (cases "txs = c")
    case True
    then have "held_in held tx S1" using conflict_check_batch_holds [OF laws assms(3)] c by simp
    moreover have "preserves (held_in held tx) (afor (conflict_check_batch V) cs)" by (intro preserves_intros preserves_held [OF laws])
    ultimately show ?thesis using cs by (blast dest: preservesD)
  next
    case False
    then show ?thesis using Cons cs by auto
  qed
qed simp

section \<open>Properties\<close>

text \<open>
  C6.  In every state an engine can reach, a block that is executed successfully becomes the slot
  after the current one, on top of the current block, and it is the new current block.  What the
  engine reports of it is its own hash, and as its parent the slot that really is its parent.
\<close>

theorem new_block_extends_chain:
  assumes laws: "forks_laws (env_forks E) ok" and "executor_ok (env_forks E) ok X0"
    and run: "executor_run E V P X0 X" and S: "ex_storage X = Some S"
    and block: "new_block E V P b X = Inr (Inr info, X')"
  shows "\<exists>S'. ex_storage X' = Some S' \<and> current_height S' = current_height S + 1 \<and>
    ref_parent_slot (bank S') = current_height S \<and>
    sh_slot (si_head info) = current_height S' \<and> sh_hash (si_head info) = Some (b_hash (env_bank E) (bank_at S' (bank S'))) \<and>
    sh_slot (si_parent info) = ref_parent_slot (bank S')"
proof -
  have chain: "chain_ok (env_forks E) ok S" using executor_run_ok [OF laws assms(2) run] S by (simp add: executor_ok_def)
  from new_block_ok [OF block S] obtain S1 S' where bump: "bump (env_pubkey_of E) (env_bank E) (env_forks E) S = Inr (Inr (), S1)"
    and S': "ex_storage X' = Some S'" "bank S' = bank S1" "bank_forks S' = bank_forks S1"
    and info: "get_slot_info (env_bank E) (env_forks E) (env_blockstore E) (current_height S') S' = Inr info" .
  from bump_cases [OF laws chain bump] have 1: "chain_ok (env_forks E) ok S1" "ref_slot (bank S1) = ref_slot (bank S) + 1"
    "ref_parent_slot (bank S1) = ref_slot (bank S)" by auto
  have "bf_get (env_forks E) (bank_forks S') (current_height S') = Some (bank S')"
    using 1(1) S'(2,3) by (simp add: chain_ok_def current_height_def)
  then have "sh_hash (si_head info) = Some (b_hash (env_bank E) (bank_at S' (bank S')))"
    using get_slot_info_Inr [OF info] by (simp add: get_slot_head_def)
  then show ?thesis
    using get_slot_info_Inr [OF info] 1(2,3) S' by (simp add: get_slot_head_slot current_height_def)
qed

text \<open>
  C15.  A reorganisation through the engine never undoes a block: in every state the engine can reach,
  if it returns, the current block is the same as before, because the blocks above the slot it is
  given are descendants of that slot and survive.  And on an engine that was started on a fresh
  chain, where slot 0 is what it takes to be finalized, it does not return at all as long as the
  genesis bank is there.
\<close>

theorem executor_reorg_keeps_head:
  assumes laws: "forks_laws (env_forks E) ok" and "executor_ok (env_forks E) ok X0"
    and run: "executor_run E V P X0 X" and S: "ex_storage X = Some S"
  shows "(\<forall>X'. executor_reorg E s X = Inr (Inr (), X') \<longrightarrow> (\<exists>S'. ex_storage X' = Some S' \<and> bank S' = bank S)) \<and>
    (\<forall>removed S1. ex_finalized X0 = 0 \<and> bf_get (env_forks E) (bank_forks S) 0 \<noteq> None \<and>
       set_root (env_forks E) (env_blockstore E) s (Some 0) S = Inr (Inr removed, S1) \<longrightarrow>
       executor_reorg E s X = Inl OutOfFuel)"
proof (intro conjI allI impI)
  have chain: "chain_ok (env_forks E) ok S" using executor_run_ok [OF laws assms(2) run] S by (simp add: executor_ok_def)
  fix X'
  assume "executor_reorg E s X = Inr (Inr (), X')"
  then show "\<exists>S'. ex_storage X' = Some S' \<and> bank S' = bank S"
    using S reorg_chain [OF laws chain] by (fastforce simp: executor_reorg_def act_simps with_storage_ok)
next
  have chain: "chain_ok (env_forks E) ok S" using executor_run_ok [OF laws assms(2) run] S by (simp add: executor_ok_def)
  fix removed S1
  assume a: "ex_finalized X0 = 0 \<and> bf_get (env_forks E) (bank_forks S) 0 \<noteq> None \<and>
       set_root (env_forks E) (env_blockstore E) s (Some 0) S = Inr (Inr removed, S1)"
  let ?g = "bf_get (env_forks E) (bank_forks S)"
  from chain obtain lo where c: "ok (bank_forks S)" "line ?g lo (ref_slot (bank S))" unfolding chain_ok_def by blast
  have lo: "lo = 0" using a line_get [OF c(2), of 0] by simp
  have sr: "set_root (env_forks E) (env_blockstore E) s (Some 0) S = Inr (Inr removed, S1)" using a by blast
  from set_root_ok [OF sr] obtain f' bs' where "bf_set_root (env_forks E) s (Some 0) (bank_forks S) (banks S) = Inr (Inr removed, f', bs')" .
  from forks_laws_set_root(3) [OF laws c(1) this] have "s \<le> ref_slot (bank S)" using line_get [OF c(2), of s] by simp
  then have "0 \<in> set (lineage ?g s)" using lineage_line [OF c(2), of s] lo by simp
  from reorg_diverges [OF laws c(1) sr this]
  have "reorg (env_forks E) (env_blockstore E) s (Some (ex_finalized X)) S = Inl OutOfFuel"
    using a executor_run_finalized [OF run] by simp
  then show "executor_reorg E s X = Inl OutOfFuel" using S by (simp add: executor_reorg_def abind_def with_storage_def)
qed

text \<open>
  C30.  A block can be checked once only.  The check for conflicts takes the locks of the accounts in
  the current bank and nothing releases them, so when a block with a transaction in it has passed the
  check, checking the same block again is an error for as long as that bank is the current one.
\<close>

theorem check_block_not_repeatable:
  assumes laws: "held_laws V held"
    and switches: "txs_conflict_check (case sw of None \<Rightarrow> switchs_of (validator_settings X) | Some s \<Rightarrow> s)"
    and tx: "txs \<in> set (bp_transactions block)" "tx \<in> set txs"
    and passed: "check_block V block sw X = Inr (Inr (), X')"
  shows "\<exists>e X''. check_block V block sw X' = Inr (Inl e, X'')"
proof -
  let ?use = "case sw of None \<Rightarrow> switchs_of (validator_settings X) | Some s \<Rightarrow> s"
  let ?sane = "if tx_sanity_check ?use then afor (sanity_check_batch V) (bp_transactions block) else aret []"
  let ?locked = "afor (conflict_check_batch V) (bp_transactions block)"
  from passed switches obtain S S1 S' r1 r2 where S: "ex_storage X = Some S" "X' = X\<lparr>ex_storage := Some S'\<rparr>"
    and 1: "?sane S = Inr (Inr r1, S1)" and 2: "?locked S1 = Inr (Inr r2, S')"
    by (auto simp: check_block_def Let_def res_simps act_simps split: option.splits)
  note keeps = preserves_held [OF laws, of tx]
  have total: "\<exists>r S'. sanity_check_batch V c S = Inr (r, S')" "\<exists>r S'. conflict_check_batch V c S = Inr (r, S')" for c S
    by (simp_all add: sanity_check_batch_def conflict_check_batch_def case_prod_beta)
  have held: "held_in held tx S'" by (rule conflict_checks_hold [OF laws tx 2])
  have p: "preserves (held_in held tx) ?sane" by (intro preserves_intros keeps)
  obtain r3 S3 where 3: "?sane S' = Inr (r3, S3)"
    using afor_total [of "sanity_check_batch V" "bp_transactions block" S', OF total(1)] by (cases "tx_sanity_check ?use") (auto simp: aret_def)
  have "held_in held tx S3" using p held 3 by (rule preservesD)
  from afor_fails [where f = "conflict_check_batch V" and I = "held_in held tx", OF keeps(1) total(2) tx(1) conflict_check_batch_fails [OF laws tx(2)] this]
  obtain e S4 where "?locked S3 = Inr (Inl e, S4)" by blast
  moreover have "(case sw of None \<Rightarrow> switchs_of (validator_settings X') | Some s \<Rightarrow> s) = ?use" by (simp add: S(2) split: option.splits)
  moreover have "ex_storage X' = Some S'" by (simp add: S(2))
  ultimately show ?thesis using 3 switches by (cases r3) (simp_all add: check_block_def Let_def abind_def)
qed

section \<open>Witnesses\<close>

text \<open>
  An engine on a fresh chain: the bank forks are a list of banks, the operations of the storage those
  of the witnesses for committing a block, and every transaction that passes its checks is executed.
\<close>

definition chain_env :: "(nat, bank_ref list \<times> slot, nat list, unit, nat, nat, unit, bool, unit, nat, unit, unit, nat, unit) storage_env" where
  "chain_env = \<lparr>env_bank = commit_bank_api, env_forks = list_forks, env_blockstore = commit_blockstore,
     env_shredder = commit_shredder, env_tokens = commit_tokens, env_pubkey_of = (\<lambda>_. 0), env_elapsed = 0,
     next_hash = (\<lambda>h n ts. h + of_nat n + of_nat (sum_list ts)), is_tick = (\<lambda>e. e_transactions e = []),
     was_executed = id, flattened_is_err = Not, to_versioned_transaction = id, num_required_signatures = (\<lambda>_. 1),
     is_simple_vote_transaction = (\<lambda>_. False), rent_debits = id\<rparr>"

definition chain_verifier :: "(nat, nat, nat, string, unit, unit, nat list) verifier_api" where
  "chain_verifier = \<lparr>vb_fully_verify_transaction = (\<lambda>_ v. Inr v), vb_verify_transaction = (\<lambda>_ v _. Inr v), vb_to_versioned = id,
     vb_resanitization_needed = ''ResanitizationNeeded'', vb_account_lock_limit = (\<lambda>_. 64),
     vb_lock_accounts_with_results = (\<lambda>txs rs _ b. (rs, b)), vb_lock_accounts = (\<lambda>txs _ b. (map (\<lambda>_. Inr ()) txs, b)),
     vb_unlock_accounts = (\<lambda>_ b. b), vb_check_transactions = (\<lambda>_ _ ls _. ls),
     vb_tick_height = id, vb_max_tick_height = (\<lambda>_. 2), vb_hashes_per_tick = (\<lambda>_. None),
     ve_transactions = id, ve_is_tick = (\<lambda>e. e = []), ve_tick_count = (\<lambda>es. length (filter (\<lambda>e. e = []) es)),
     ve_verify_tick_hash_count = (\<lambda>_ c _. (True, c))\<rparr>"

definition chain_processor :: "(nat, nat, string, unit, unit, bool, unit) processor_api" where
  "chain_processor = \<lparr>px_check_program_modification_slot = (\<lambda>_. False),
     px_load_and_execute = (\<lambda>b txs rs _ _. (\<lparr>out_loaded = (), execution_results = map (\<lambda>r. r = Inr ()) rs\<rparr>, b))\<rparr>"

type_synonym chain_history = "(nat, bool, nat, unit) transaction_batch_history_info"

definition chain_storage :: "'b \<Rightarrow> ('b, bank_ref list \<times> slot, nat list, chain_history, unit) rollup_storage" where
  "chain_storage b = (let r = \<lparr>ref_addr = 0, ref_slot = 0, ref_parent_slot = 0\<rparr> in
     \<lparr>bank = r, bank_forks = ([r], 0), banks = (\<lambda>_. b), next_bank = 1, config = example_config, blockstore = [],
       rs_history = \<lparr>transaction_status_sender = None, cache_block_meta_sender = None\<rparr>, exit_flag = False\<rparr>)"

definition chain_executor :: "'b \<Rightarrow> ('b, bank_ref list \<times> slot, nat list, chain_history, unit, unit) executor" where
  "chain_executor b = \<lparr>ex_storage = Some (chain_storage b), ex_finalized = 0,
     validator_settings = \<lparr>max_age_slots = 150, switchs_of = \<lparr>tx_sanity_check = True, txs_conflict_check = True\<rparr>, fee_structure = ()\<rparr>\<rparr>"

lemma chain_storage_sel [simp]: "bank (chain_storage b) = \<lparr>ref_addr = 0, ref_slot = 0, ref_parent_slot = 0\<rparr>"
  "bank_forks (chain_storage b) = ([\<lparr>ref_addr = 0, ref_slot = 0, ref_parent_slot = 0\<rparr>], 0)"
  by (simp_all add: chain_storage_def Let_def)

lemma chain_executor_ok: "executor_ok list_forks list_forks_ok (chain_executor b)"
  by (auto simp: executor_ok_def chain_executor_def chain_ok_def list_forks_ok_def line_def list_get_def dom_def
      split: if_splits intro!: exI [of _ 0])

lemma chain_env_forks [simp]: "env_forks chain_env = list_forks"
  by (simp add: chain_env_def)

theorem executor_reorg_keeps_head_witness:
  "executor_reorg chain_env 0 (chain_executor 0) = Inl OutOfFuel"
proof -
  let ?X = "chain_executor (0 :: nat)"
  have S: "ex_storage ?X = Some (chain_storage 0)" by (simp add: chain_executor_def)
  have run: "executor_run chain_env chain_verifier chain_processor ?X ?X" by (rule executor_run.start)
  have laws: "forks_laws (env_forks chain_env) list_forks_ok" "executor_ok (env_forks chain_env) list_forks_ok ?X"
    by (simp_all add: list_forks_laws chain_executor_ok)
  have "\<exists>removed S1. set_root (env_forks chain_env) (env_blockstore chain_env) 0 (Some 0) (the (ex_storage ?X)) = Inr (Inr removed, S1)"
    unfolding S by (simp add: set_root_def abind_def amap_err_def with_blockstore_def chain_env_def commit_blockstore_def list_forks_def list_get_def)
  moreover have "ex_finalized ?X = 0" by (simp add: chain_executor_def)
  ultimately show ?thesis
    using executor_reorg_keeps_head [OF laws run S, of 0, THEN conjunct2] by (simp add: S list_get_def)
qed

lemma example_held_laws: "held_laws example_verifier (\<lambda>b tx. tx \<in> \<Union> (set (snd b)))"
  using example_lock_ok [of "map (\<lambda>_. Inr ()) txs" txs for txs] by (auto simp: held_laws_def example_verifier_def)

theorem check_block_not_repeatable_witness:
  "\<exists>X' e X''. check_block example_verifier (new_block_payload [7]) None (chain_executor (0, [])) = Inr (Inr (), X') \<and>
     check_block example_verifier (new_block_payload [7]) None X' = Inr (Inl e, X'')"
proof -
  let ?check = "check_block example_verifier (new_block_payload [7]) None"
  obtain X' where run: "?check (chain_executor (0, [])) = Inr (Inr (), X')"
    by (simp add: check_block_def new_block_payload_def chain_executor_def chain_storage_def sanity_check_batch_def
        conflict_check_batch_def transactions_sanity_check_def transactions_conflict_check_def example_verifier_def
        bank_at_def Let_def abind_def aret_def update_bank_def)
  have "\<exists>e X''. ?check X' = Inr (Inl e, X'')"
    by (rule check_block_not_repeatable [OF example_held_laws _ _ _ run, of "[7]" 7])
      (simp_all add: chain_executor_def new_block_payload_def)
  with run show ?thesis by blast
qed

lemmas chain_run_defs = new_block_def new_block_payload_def chain_executor_def chain_storage_def with_storage_def bump_def bump_slot_def new_slot_with_parent_def
      process_batch_def process_transactions_def get_batch_results_def batch_and_verify_conflicts_def validate_batch_def drop_batch_def
      get_transactions_sanity_results_def chain_verifier_def chain_processor_def chain_env_def list_forks_def list_get_def list_highest_def
      collector_id_def ok_or_def example_config_def commit_def confirm_def get_slot_info_def get_slot_head_def current_height_def
      commit_block_def block_entries_def transactions_to_entry_def new_entry_def success_txs_def batch_transactions_def
      new_commit_batch_def complete_entries_def checked_sub_def checked_add_def umax_def tick_entries_numeral bank_commit_def abind_def alift_def
      commit_one_def enable_history_def single_batch_commit_def collect_execution_logs_def
      count_execution_def aread_def amodify_def aret_def apanic_def register_ticks_def update_bank_def bank_at_def
      blockstore_save_def transactions_to_shreds_def process_def new_entries_processor_def reset_processor_def
      get_chained_merkle_root_from_parent_def rassert_def checked_mod_def entries_to_shreds_def advance_data_def advance_code_def
      max_by_key_def amap_err_def with_blockstore_def process_shreds_stats_default_def commit_example_defs Let_def

lemma chain_example_block: "\<exists>info X'. new_block chain_env chain_verifier chain_processor (new_block_payload [10, 11]) (chain_executor 0) = Inr (Inr info, X')"
  by (simp add: chain_run_defs)

theorem new_block_extends_chain_witness:
  "\<exists>info X' S'. new_block chain_env chain_verifier chain_processor (new_block_payload [10, 11]) (chain_executor 0) = Inr (Inr info, X') \<and>
     ex_storage X' = Some S' \<and> current_height S' = 1 \<and> ref_parent_slot (bank S') = 0 \<and> sh_slot (si_parent info) = 0"
proof -
  obtain info X' where run: "new_block chain_env chain_verifier chain_processor (new_block_payload [10, 11]) (chain_executor 0) = Inr (Inr info, X')"
    using chain_example_block by blast
  have laws: "forks_laws (env_forks chain_env) list_forks_ok" and ok: "executor_ok (env_forks chain_env) list_forks_ok (chain_executor 0)"
    by (simp_all add: list_forks_laws chain_executor_ok)
  have S: "ex_storage (chain_executor 0) = Some (chain_storage 0)" by (simp add: chain_executor_def)
  from new_block_extends_chain [OF laws ok executor_run.start S run] run show ?thesis
    by (auto simp: current_height_def)
qed

end
