(* ===== verification/Svm_Bank.thy ===== *)
theory Svm_Bank
  imports Actions
begin

text \<open>
  The banks of the stand-alone virtual machine: the traits \<^verbatim>\<open>BankOperations\<close> and \<^verbatim>\<open>BankInfo\<close>
  (\<^verbatim>\<open>interface/src/l2/bank.rs\<close>) and their two implementations, \<^verbatim>\<open>MockBankCallback\<close>
  (\<^verbatim>\<open>svm/executor/src/mock/bank.rs\<close>), which keeps the accounts in a map, and \<^verbatim>\<open>BankWrapper\<close>
  (\<^verbatim>\<open>svm/executor/src/bank\<close>), which wraps a bank of the Solana crates.

  A type that implements the traits is a value of the record \<open>bank_trait\<close>, one component for each
  method.  Keys that the code draws at random, and the time, are arguments.
\<close>

section \<open>Accounts\<close>

text \<open>\<^verbatim>\<open>AccountSharedData\<close>, and its serialised contents.\<close>

record account =
  acc_lamports :: nat
  acc_data :: "u8 list"
  acc_owner :: pubkey
  acc_executable :: bool
  acc_rent_epoch :: nat

definition account_default :: account where
  "account_default = \<lparr>acc_lamports = 0, acc_data = [], acc_owner = 0, acc_executable = False, acc_rent_epoch = 0\<rparr>"

record clock =
  clk_slot :: slot
  clk_epoch_start_timestamp :: int
  clk_epoch :: nat
  clk_leader_schedule_epoch :: nat
  clk_unix_timestamp :: int

text \<open>
  What the serialisation of the crates gives for the two states of an upgradeable program and for
  the clock, writing the second state into an account (\<^verbatim>\<open>StateMut::set_state\<close>, \<open>None\<close> for an
  error), the addresses they define, and the size they reserve for the state of a program.
\<close>

record loader_api =
  ser_program :: "pubkey \<Rightarrow> u8 list"
  ser_program_data :: "slot \<Rightarrow> u8 list"
  set_program_data :: "slot \<Rightarrow> account \<Rightarrow> account option"
  programdata_metadata_size :: nat
  loader_id :: pubkey
  clock_id :: pubkey
  ser_clock :: "clock \<Rightarrow> u8 list"
  loadable_account :: "string \<Rightarrow> account"

section \<open>The traits\<close>

record ('b, 'a) bank_trait =
  t_insert_account :: "pubkey \<Rightarrow> 'a \<Rightarrow> ('b, string, unit) act"
  t_deploy_program :: "pubkey \<times> pubkey \<Rightarrow> u8 list \<Rightarrow> ('b, string, pubkey) act"
  t_set_clock :: "int \<Rightarrow> ('b, string, unit) act"
  t_bump :: "('b, string, unit) act"
  t_last_blockhash :: "'b \<Rightarrow> hash"
  t_execution_slot :: "'b \<Rightarrow> slot"
  t_collector_id :: "'b \<Rightarrow> string + pubkey"

section \<open>The bank in memory\<close>

definition DEPLOYMENT_SLOT :: slot where
  "DEPLOYMENT_SLOT = 0"

definition DEPLOYMENT_EPOCH :: nat where
  "DEPLOYMENT_EPOCH = 0"

record mock_bank =
  account_shared_data :: "pubkey \<rightharpoonup> account"
  mb_execution_slot :: slot

definition mock_bank_default :: mock_bank where
  "mock_bank_default = \<lparr>account_shared_data = Map.empty, mb_execution_slot = 5\<rparr>"

definition mock_init :: "string + mock_bank" where
  "mock_init = Inr mock_bank_default"

fun position :: "'a \<Rightarrow> 'a list \<Rightarrow> nat option" where
  "position x [] = None"
| "position x (y # ys) = (if x = y then Some 0 else map_option Suc (position x ys))"

definition mock_account_matches_owners :: "pubkey \<Rightarrow> pubkey list \<Rightarrow> mock_bank \<Rightarrow> nat option" where
  "mock_account_matches_owners k owners B =
     (case account_shared_data B k of
        Some d \<Rightarrow> if acc_lamports d = 0 then None else position (acc_owner d) owners
      | None \<Rightarrow> None)"

definition mock_get_account :: "pubkey \<Rightarrow> mock_bank \<Rightarrow> account option" where
  "mock_get_account k B = account_shared_data B k"

definition mock_add_builtin_account :: "loader_api \<Rightarrow> string \<Rightarrow> pubkey \<Rightarrow> mock_bank \<Rightarrow> mock_bank" where
  "mock_add_builtin_account L name program_id B =
     B\<lparr>account_shared_data := (account_shared_data B)(program_id \<mapsto> loadable_account L name)\<rparr>"

definition mock_insert_account :: "pubkey \<Rightarrow> account \<Rightarrow> (mock_bank, string, unit) act" where
  "mock_insert_account k d = amodify (\<lambda>B. B\<lparr>account_shared_data := (account_shared_data B)(k \<mapsto> d)\<rparr>)"

definition mock_deploy_program :: "loader_api \<Rightarrow> pubkey \<times> pubkey \<Rightarrow> u8 list \<Rightarrow> (mock_bank, string, pubkey) act" where
  "mock_deploy_program L = (\<lambda>(program_account, program_data_account) buffer.
     abind (mock_insert_account program_account
       (account_default\<lparr>acc_data := ser_program L program_data_account, acc_lamports := 25, acc_owner := loader_id L\<rparr>)) (\<lambda>_.
     let hdr = ser_program_data L DEPLOYMENT_SLOT;
         complement = replicate (max 0 (sat_sub (programdata_metadata_size L) (length hdr))) 0 in
     abind (mock_insert_account program_data_account (account_default\<lparr>acc_data := hdr @ complement @ buffer\<rparr>)) (\<lambda>_.
     aret program_account)))"

definition mock_set_clock :: "loader_api \<Rightarrow> int \<Rightarrow> (mock_bank, string, unit) act" where
  "mock_set_clock L time_now =
     (let clock = \<lparr>clk_slot = DEPLOYMENT_SLOT, clk_epoch_start_timestamp = max (time_now - 10) (- (2 ^ 63)),
            clk_epoch = DEPLOYMENT_EPOCH, clk_leader_schedule_epoch = DEPLOYMENT_EPOCH, clk_unix_timestamp = time_now\<rparr> in
      mock_insert_account (clock_id L) (account_default\<lparr>acc_data := ser_clock L clock\<rparr>))"

definition mock_bank_trait :: "loader_api \<Rightarrow> (mock_bank, account) bank_trait" where
  "mock_bank_trait L = \<lparr>t_insert_account = mock_insert_account, t_deploy_program = mock_deploy_program L,
     t_set_clock = mock_set_clock L, t_bump = aret (), t_last_blockhash = (\<lambda>_. 0), t_execution_slot = mb_execution_slot,
     t_collector_id = (\<lambda>_. Inr 0)\<rparr>"

text \<open>The relation between slots that the program cache is given: the slots form one line.\<close>

datatype block_relation = Ancestor | Equal | Descendant

definition relationship :: "slot \<Rightarrow> slot \<Rightarrow> block_relation" where
  "relationship a b = (if a < b then Ancestor else if a = b then Equal else Descendant)"

definition slot_epoch :: "slot \<Rightarrow> nat option" where
  "slot_epoch s = Some 0"

section \<open>The bank on top of Solana's\<close>

record wrapper_config =
  previous_slot :: slot
  latest_slot :: slot
  mint_lamports :: nat

definition wrapper_config_default :: wrapper_config where
  "wrapper_config_default = \<lparr>previous_slot = 20, latest_slot = 30, mint_lamports = 10000\<rparr>"

text \<open>
  What is called of \<^verbatim>\<open>Bank\<close>; \<open>'b\<close> is its contents.  The genesis gives a bank, the key of its
  validator and, for accounts on disk, an error where a directory cannot be made.
\<close>

record 'b wrapped_api =
  w_store_account :: "pubkey \<Rightarrow> account \<Rightarrow> 'b \<Rightarrow> 'b"
  w_get_account :: "'b \<Rightarrow> pubkey \<Rightarrow> account option"
  w_last_blockhash :: "'b \<Rightarrow> hash"
  w_slot :: "'b \<Rightarrow> slot"
  w_register_tick :: "hash \<Rightarrow> 'b \<Rightarrow> 'b"
  w_freeze :: "'b \<Rightarrow> 'b"
  w_new_from_parent :: "pubkey \<Rightarrow> slot \<Rightarrow> 'b \<Rightarrow> 'b"
  w_hashv :: "hash \<Rightarrow> u8 \<Rightarrow> hash"
  w_new_for_tests :: "nat \<Rightarrow> 'b \<times> pubkey"
  w_new_with_paths :: "nat \<Rightarrow> string list list \<Rightarrow> 'b \<times> pubkey"
  w_create_dirs :: "string list \<Rightarrow> string + string list"
  w_u32_to_string :: "nat \<Rightarrow> string"

record 'b bank_wrapper =
  bw_bank :: 'b
  bw_cfg :: wrapper_config
  validator_pubkey :: pubkey

definition wrapper_insert_account :: "'b wrapped_api \<Rightarrow> pubkey \<Rightarrow> account \<Rightarrow> ('b bank_wrapper, string, unit) act" where
  "wrapper_insert_account W k d = amodify (\<lambda>X. X\<lparr>bw_bank := w_store_account W k d (bw_bank X)\<rparr>)"

text \<open>The method of slices of the standard library, on the part of a vector from an offset.\<close>

definition copy_from_slice :: "nat \<Rightarrow> u8 list \<Rightarrow> u8 list \<Rightarrow> u8 list res" where
  "copy_from_slice off src dst =
     (if off \<le> length dst \<and> length src = length dst - off then Inr (take off dst @ src) else Inl IndexOutOfBounds)"

definition wrapper_deploy_program ::
  "loader_api \<Rightarrow> 'b wrapped_api \<Rightarrow> pubkey \<times> pubkey \<Rightarrow> u8 list \<Rightarrow> ('b bank_wrapper, string, pubkey) act" where
  "wrapper_deploy_program L W = (\<lambda>(program_key, programdata_key) buffer X.
     let program_account = \<lparr>acc_lamports = 40, acc_data = ser_program L programdata_key, acc_owner = loader_id L,
           acc_executable = True, acc_rent_epoch = 1\<rparr>;
         off = programdata_metadata_size L;
         programdata_account = \<lparr>acc_lamports = 40, acc_data = replicate (off + length buffer) 0, acc_owner = loader_id L,
           acc_executable = False, acc_rent_epoch = 0\<rparr> in
     rbind (runwrap ''set_state'' (set_program_data L (previous_slot (bw_cfg X)) programdata_account)) (\<lambda>a.
     rbind (copy_from_slice off buffer (acc_data a)) (\<lambda>data.
     Inr (Inr program_key, X\<lparr>bw_bank := w_store_account W programdata_key (a\<lparr>acc_data := data, acc_rent_epoch := 1\<rparr>)
       (w_store_account W program_key program_account (bw_bank X))\<rparr>))))"

definition bank_wrapper_trait :: "loader_api \<Rightarrow> 'b wrapped_api \<Rightarrow> ('b bank_wrapper, account) bank_trait" where
  "bank_wrapper_trait L W = \<lparr>t_insert_account = wrapper_insert_account W, t_deploy_program = wrapper_deploy_program L W,
     t_set_clock = (\<lambda>_. aret ()), t_bump = aret (), t_last_blockhash = (\<lambda>X. w_last_blockhash W (bw_bank X)),
     t_execution_slot = (\<lambda>X. w_slot W (bw_bank X)), t_collector_id = (\<lambda>X. Inr (validator_pubkey X))\<rparr>"

text \<open>The loop that fills the slot with ticks.\<close>

partial_function (option) goto_end_of_slot_with_scheduler :: "'b wrapped_api \<Rightarrow> wrapper_config \<Rightarrow> hash \<Rightarrow> 'b \<Rightarrow> 'b option" where
  "goto_end_of_slot_with_scheduler W cfg tick_hash b =
     (let h = w_hashv W tick_hash (of_nat (previous_slot cfg)); b' = w_register_tick W h b in
      if h = w_last_blockhash W b' then Some (w_freeze W b') else goto_end_of_slot_with_scheduler W cfg h b')"

declare goto_end_of_slot_with_scheduler.simps [code]

definition goto_end_of_slot :: "'b wrapped_api \<Rightarrow> wrapper_config \<Rightarrow> 'b \<Rightarrow> 'b option" where
  "goto_end_of_slot W cfg b = goto_end_of_slot_with_scheduler W cfg (w_last_blockhash W b) b"

definition new_from_bank :: "'b wrapped_api \<Rightarrow> 'b \<Rightarrow> wrapper_config \<Rightarrow> 'b bank_wrapper res" where
  "new_from_bank W b cfg =
     (case goto_end_of_slot W cfg b of
        None \<Rightarrow> Inl OutOfFuel
      | Some b1 \<Rightarrow>
          let b2 = w_new_from_parent W 0 (previous_slot cfg) b1; b3 = w_new_from_parent W 0 (latest_slot cfg) b2 in
          Inr \<lparr>bw_bank = b3, bw_cfg = cfg, validator_pubkey = 0\<rparr>)"

definition new_bank_wrapper :: "'b wrapped_api \<Rightarrow> wrapper_config \<Rightarrow> 'b bank_wrapper res" where
  "new_bank_wrapper W cfg =
     (let (b, validator) = w_new_for_tests W (mint_lamports cfg) in
      rbind (new_from_bank W b cfg) (\<lambda>X. Inr (X\<lparr>validator_pubkey := validator\<rparr>)))"

definition wrapper_init :: "'b wrapped_api \<Rightarrow> wrapper_config \<Rightarrow> (string + 'b bank_wrapper) res" where
  "wrapper_init W cfg = rbind (new_bank_wrapper W cfg) (\<lambda>X. Inr (Inr X))"

definition new_with_path :: "'b wrapped_api \<Rightarrow> string list \<Rightarrow> nat \<Rightarrow> wrapper_config \<Rightarrow> (string + 'b bank_wrapper) res" where
  "new_with_path W base_path dir_count cfg =
     (case collect_results (map (\<lambda>i. w_create_dirs W (base_path @ [w_u32_to_string W i])) [0..<dir_count]) of
        Inl e \<Rightarrow> Inr (Inl e)
      | Inr paths \<Rightarrow>
          let (b, validator) = w_new_with_paths W (mint_lamports cfg) paths in
          rbind (new_from_bank W b cfg) (\<lambda>X. Inr (Inr (X\<lparr>validator_pubkey := validator\<rparr>))))"

section \<open>Filling a slot\<close>

text \<open>
  What \<^verbatim>\<open>Bank::register_tick\<close> is documented to do: the height goes up by one, and the hash becomes the
  last blockhash exactly when the tick ends a slot.
\<close>

definition register_tick_laws :: "'b wrapped_api \<Rightarrow> ('b \<Rightarrow> nat) \<Rightarrow> nat \<Rightarrow> bool" where
  "register_tick_laws W height per_slot \<longleftrightarrow> 0 < per_slot \<and>
     (\<forall>h b. height (w_register_tick W h b) = height b + 1 \<and>
        w_last_blockhash W (w_register_tick W h b) = (if (height b + 1) mod per_slot = 0 then h else w_last_blockhash W b))"

fun tick_hashes :: "'b wrapped_api \<Rightarrow> wrapper_config \<Rightarrow> hash \<Rightarrow> nat \<Rightarrow> hash list" where
  "tick_hashes W cfg h 0 = []"
| "tick_hashes W cfg h (Suc n) = (let h' = w_hashv W h (of_nat (previous_slot cfg)) in h' # tick_hashes W cfg h' n)"

lemma ticks_left_step:
  assumes "0 < (m :: nat)" "(n + 1) mod m \<noteq> 0"
  shows "m - n mod m = Suc (m - (n + 1) mod m)"
  using assms by (simp add: mod_Suc split: if_splits) (metis Suc_diff_Suc Suc_lessI mod_less_divisor)

lemma ticks_left_last: "0 < (m :: nat) \<Longrightarrow> (n + 1) mod m = 0 \<Longrightarrow> m - n mod m = 1"
  by (simp add: mod_Suc split: if_splits)

lemma goto_end_steps:
  assumes laws: "register_tick_laws W height per_slot"
    and "left = per_slot - height b mod per_slot"
    and "last_hash = w_last_blockhash W b" "last_hash \<notin> set (butlast (tick_hashes W cfg h left))"
  shows "goto_end_of_slot_with_scheduler W cfg h b = Some (w_freeze W (fold (w_register_tick W) (tick_hashes W cfg h left) b))"
  using assms(2-4)
proof (induction left arbitrary: h b)
  case 0
  then show ?case using laws by (metis mod_less_divisor not_less0 register_tick_laws_def zero_less_diff)
next
  case (Suc n)
  let ?h = "w_hashv W h (of_nat (previous_slot cfg))"
  let ?b = "w_register_tick W ?h b"
  have l: "0 < per_slot" "height ?b = height b + 1"
    "w_last_blockhash W ?b = (if (height b + 1) mod per_slot = 0 then ?h else w_last_blockhash W b)"
    using laws by (simp_all add: register_tick_laws_def)
  show ?case
  proof (cases "(height b + 1) mod per_slot = 0")
    case True
    then have "n = 0" using Suc.prems(1) ticks_left_last [OF l(1) True] by simp
    then show ?thesis using l(3) True by (simp add: goto_end_of_slot_with_scheduler.simps [of W cfg h b] Let_def)
  next
    case False
    then have n: "n = per_slot - height ?b mod per_slot" using Suc.prems(1) ticks_left_step [OF l(1) False] l(2) by simp
    then have "n \<noteq> 0" using mod_less_divisor [OF l(1), of "height ?b"] by simp
    then have ne: "tick_hashes W cfg ?h n \<noteq> []" by (cases n) (auto simp: Let_def)
    then have "last_hash \<noteq> ?h" "last_hash \<notin> set (butlast (tick_hashes W cfg ?h n))" using Suc.prems(3) by (auto simp: Let_def)
    moreover from this have "last_hash = w_last_blockhash W ?b" using l(3) False Suc.prems(2) by simp
    ultimately show ?thesis using Suc.IH [OF n] by (simp add: goto_end_of_slot_with_scheduler.simps [of W cfg h b] Let_def)
  qed
qed

section \<open>Properties\<close>

text \<open>
  C32.  Going to the end of the slot returns: it registers exactly the ticks that are missing, each the
  hash of the one before, and freezes the bank.  It is enough that none of the hashes before the last
  one happens to be the last blockhash, which would end the loop early.
\<close>

theorem goto_end_of_slot_fills:
  assumes "register_tick_laws W height per_slot"
    and "w_last_blockhash W b \<notin> set (butlast (tick_hashes W cfg (w_last_blockhash W b) (per_slot - height b mod per_slot)))"
  shows "\<exists>b'. goto_end_of_slot W cfg b = Some (w_freeze W b') \<and>
    b' = fold (w_register_tick W) (tick_hashes W cfg (w_last_blockhash W b) (per_slot - height b mod per_slot)) b \<and>
    height b' mod per_slot = 0 \<and> height b < height b' \<and> height b' \<le> height b + per_slot"
proof -
  let ?n = "per_slot - height b mod per_slot"
  have pos: "0 < per_slot" using assms(1) by (simp add: register_tick_laws_def)
  have h: "height (fold (w_register_tick W) hs b) = height b + length hs" for hs
    using assms(1) by (induction hs arbitrary: b) (simp_all add: register_tick_laws_def)
  have l: "length (tick_hashes W cfg h n) = n" for h n by (induction n arbitrary: h) (simp_all add: Let_def)
  have "height b mod per_slot < per_slot" using pos by simp
  then have n: "0 < ?n" "?n \<le> per_slot" by simp_all
  have "height b + ?n = per_slot * (height b div per_slot) + per_slot"
    using mult_div_mod_eq [of per_slot "height b"] \<open>height b mod per_slot < per_slot\<close> by linarith
  then have "(height b + ?n) mod per_slot = 0" by simp
  then show ?thesis using goto_end_steps [OF assms(1) refl refl assms(2)] h l n by (simp add: goto_end_of_slot_def)
qed

section \<open>Witnesses\<close>

text \<open>A bank that is its height together with the last blockhash; hashing adds one.\<close>

definition counting_bank :: "(nat \<times> hash) wrapped_api" where
  "counting_bank = \<lparr>w_store_account = (\<lambda>_ _ b. b), w_get_account = (\<lambda>_ _. None), w_last_blockhash = snd, w_slot = (\<lambda>_. 0),
     w_register_tick = (\<lambda>h (n, l). (n + 1, if (n + 1) mod 4 = 0 then h else l)), w_freeze = id, w_new_from_parent = (\<lambda>_ _ b. b),
     w_hashv = (\<lambda>h _. h + 1), w_new_for_tests = (\<lambda>_. ((0, 0), 0)), w_new_with_paths = (\<lambda>_ _. ((0, 0), 0)),
     w_create_dirs = Inr, w_u32_to_string = (\<lambda>_. [])\<rparr>"

theorem goto_end_of_slot_fills_witness:
  "goto_end_of_slot counting_bank wrapper_config_default (1, 7) = Some (4, 10)"
proof -
  have laws: "register_tick_laws counting_bank fst 4" by (auto simp: register_tick_laws_def counting_bank_def)
  have l: "tick_hashes counting_bank wrapper_config_default (7 :: hash) (4 - 1) = [8, 9, 10]"
    by (simp add: counting_bank_def numeral_3_eq_3)
  have "w_last_blockhash counting_bank (1, 7) \<notin> set (butlast (tick_hashes counting_bank wrapper_config_default
      (w_last_blockhash counting_bank (1, 7)) (4 - fst (1 :: nat, 7 :: hash) mod 4)))"
    using l by (simp add: counting_bank_def)
  from goto_end_of_slot_fills [OF laws this] l show ?thesis by (simp add: counting_bank_def)
qed

end
