(* ===== verification/Tx_Builder.thy ===== *)
theory Tx_Builder
  imports Actions
begin

text \<open>
  Building a transaction: \<^verbatim>\<open>svm/executor/src/transaction/builder.rs\<close>.

  Instructions are collected together with the accounts they name, and \<open>assemble\<close> lays them out as
  the message of a transaction: a list of keys, in which the position of a key says whether it has
  signed and whether it may be written, and instructions that name accounts by their positions.
  \<open>decompile\<close> reads an instruction back the way the documentation of \<^verbatim>\<open>MessageHeader\<close> says.
  The sanitisation of the result is that of the Solana crates, an argument of \<open>build\<close>.
\<close>

type_synonym signature = "512 word"

section \<open>Data\<close>

datatype account_type =
    Readonly
  | Writable
  | SignerReadonly
  | SignerWritable

record account_meta =
  meta_pubkey :: pubkey
  is_signer :: bool
  is_writable :: bool

record inner_instruction =
  ii_program_id :: pubkey
  ii_accounts :: "(pubkey \<times> account_type) list"
  ii_data :: "u8 list"

text \<open>The counters are bytes, with saturating arithmetic.\<close>

record transaction_builder =
  instructions :: "inner_instruction list"
  required_signatures :: nat
  readonly_signed :: nat
  readonly_unsigned :: nat
  signed_readonly_accounts :: "(pubkey \<times> signature) list"
  signed_mutable_accounts :: "(pubkey \<times> signature) list"
  unsigned_readonly_accounts :: "pubkey list"
  unsigned_mutable_account :: "pubkey list"

definition transaction_builder_default :: transaction_builder where
  "transaction_builder_default = \<lparr>instructions = [], required_signatures = 0, readonly_signed = 0, readonly_unsigned = 0,
     signed_readonly_accounts = [], signed_mutable_accounts = [], unsigned_readonly_accounts = [], unsigned_mutable_account = []\<rparr>"

text \<open>Messages and transactions of the Solana crates.\<close>

record message_header =
  mh_required_signatures :: nat
  mh_readonly_signed :: nat
  mh_readonly_unsigned :: nat

record compiled_instruction =
  program_id_index :: nat
  ci_accounts :: "nat list"
  ci_data :: "u8 list"

record message =
  header :: message_header
  account_keys :: "pubkey list"
  recent_blockhash :: hash
  ci_instructions :: "compiled_instruction list"

datatype versioned_message = Legacy message | V0 message

record versioned_transaction =
  signatures :: "signature list"
  vt_message :: versioned_message

section \<open>Operations\<close>

definition account_type_of :: "account_meta \<Rightarrow> account_type" where
  "account_type_of m =
     (if is_signer m then (if is_writable m then SignerWritable else SignerReadonly)
      else if is_writable m then Writable else Readonly)"

definition add_account ::
  "(pubkey \<rightharpoonup> signature) \<Rightarrow> account_meta \<Rightarrow> transaction_builder \<times> (pubkey \<times> account_type) list
     \<Rightarrow> (transaction_builder \<times> (pubkey \<times> account_type) list) res" where
  "add_account sigs item = (\<lambda>(b, accounts).
     let key = meta_pubkey item; acc_type = account_type_of item in
     rbind (case acc_type of
         SignerWritable \<Rightarrow> rbind (runwrap ''no entry found for key'' (sigs key)) (\<lambda>sig.
           Inr (b\<lparr>required_signatures := sat_add 8 (required_signatures b) 1,
             signed_mutable_accounts := signed_mutable_accounts b @ [(key, sig)]\<rparr>))
       | SignerReadonly \<Rightarrow> rbind (runwrap ''no entry found for key'' (sigs key)) (\<lambda>sig.
           Inr (b\<lparr>required_signatures := sat_add 8 (required_signatures b) 1,
             readonly_signed := sat_add 8 (readonly_signed b) 1,
             signed_readonly_accounts := signed_readonly_accounts b @ [(key, sig)]\<rparr>))
       | Writable \<Rightarrow> Inr (b\<lparr>unsigned_mutable_account := unsigned_mutable_account b @ [key]\<rparr>)
       | Readonly \<Rightarrow> Inr (b\<lparr>readonly_unsigned := sat_add 8 (readonly_unsigned b) 1,
             unsigned_readonly_accounts := unsigned_readonly_accounts b @ [key]\<rparr>)) (\<lambda>b'.
     Inr (b', accounts @ [(key, acc_type)])))"

definition create_instruction ::
  "pubkey \<Rightarrow> account_meta list \<Rightarrow> (pubkey \<rightharpoonup> signature) \<Rightarrow> u8 list \<Rightarrow> transaction_builder \<Rightarrow> transaction_builder res" where
  "create_instruction program_id accounts sigs data b =
     rbind (rfold (add_account sigs) accounts (b, [])) (\<lambda>(b', accs).
     Inr (b'\<lparr>instructions := instructions b' @ [\<lparr>ii_program_id = program_id, ii_accounts = accs, ii_data = data\<rparr>]\<rparr>))"

definition clean_up :: "transaction_builder \<Rightarrow> inner_instruction list \<times> transaction_builder" where
  "clean_up b = (instructions b,
     b\<lparr>instructions := [], required_signatures := 0, readonly_signed := 0, readonly_unsigned := 0,
       signed_mutable_accounts := [], signed_readonly_accounts := [], unsigned_mutable_account := []\<rparr>)"

definition positions_lambda ::
  "pubkey \<times> account_type \<Rightarrow> (pubkey \<times> account_type \<rightharpoonup> nat) \<times> pubkey list \<Rightarrow> (pubkey \<times> account_type \<rightharpoonup> nat) \<times> pubkey list" where
  "positions_lambda = (\<lambda>(key, ty) (positions, keys). (positions((key, ty) \<mapsto> length keys), keys @ [key]))"

definition push_and_return_index :: "pubkey \<Rightarrow> pubkey list \<Rightarrow> nat \<times> pubkey list" where
  "push_and_return_index v keys = (let keys' = keys @ [v] in (sat_sub (length keys') 1 mod 256, keys'))"

definition compile_instruction ::
  "(pubkey \<times> account_type \<rightharpoonup> nat) \<Rightarrow> inner_instruction \<Rightarrow> compiled_instruction list \<times> pubkey list
     \<Rightarrow> (compiled_instruction list \<times> pubkey list) res" where
  "compile_instruction positions item = (\<lambda>(compiled, keys).
     rbind (rmap (\<lambda>key. rbind (runwrap ''no entry found for key'' (positions key)) (\<lambda>i. Inr (i mod 256))) (ii_accounts item)) (\<lambda>accounts.
     let (i, keys') = push_and_return_index (ii_program_id item) keys in
     Inr (compiled @ [\<lparr>program_id_index = i, ci_accounts = accounts, ci_data = ii_data item\<rparr>], keys')))"

definition ordered_accounts :: "transaction_builder \<Rightarrow> (pubkey \<times> account_type) list" where
  "ordered_accounts b =
     map (\<lambda>(key, _). (key, SignerWritable)) (signed_mutable_accounts b) @
     map (\<lambda>(key, _). (key, SignerReadonly)) (signed_readonly_accounts b) @
     map (\<lambda>key. (key, Writable)) (unsigned_mutable_account b) @
     map (\<lambda>key. (key, Readonly)) (unsigned_readonly_accounts b)"

text \<open>The transaction up to its sanitisation.\<close>

definition assemble ::
  "hash \<Rightarrow> pubkey \<times> signature \<Rightarrow> bool \<Rightarrow> transaction_builder \<Rightarrow> (versioned_transaction \<times> transaction_builder) res" where
  "assemble block_hash fee_payer v0_message b =
     (let hd = \<lparr>mh_required_signatures = sat_add 8 (required_signatures b) 1, mh_readonly_signed = readonly_signed b,
            mh_readonly_unsigned = sat_add 8 (readonly_unsigned b) 1\<rparr>;
          (positions, keys) = fold positions_lambda (ordered_accounts b) (Map.empty, [fst fee_payer]);
          sigs = snd fee_payer # map snd (signed_mutable_accounts b) @ map snd (signed_readonly_accounts b);
          (instrs, b') = clean_up b in
      rbind (rfold (compile_instruction positions) instrs ([], keys)) (\<lambda>(compiled, keys').
      let msg = \<lparr>header = hd, account_keys = keys', recent_blockhash = block_hash, ci_instructions = compiled\<rparr> in
      Inr (\<lparr>signatures = sigs, vt_message = (if v0_message then V0 msg else Legacy msg)\<rparr>, b')))"

record ('te, 'stx) sanitize_api =
  try_new_versioned :: "versioned_transaction \<Rightarrow> bool"
  try_new_sanitized :: "versioned_transaction \<Rightarrow> 'te + 'stx"

definition build ::
  "('te, 'stx) sanitize_api \<Rightarrow> hash \<Rightarrow> pubkey \<times> signature \<Rightarrow> bool
     \<Rightarrow> (transaction_builder, 'te, 'stx \<times> versioned_transaction) act" where
  "build Z block_hash fee_payer v0_message b =
     rbind (assemble block_hash fee_payer v0_message b) (\<lambda>(transaction, b').
     rbind (rassert (try_new_versioned Z transaction) ''SanitizedVersionedTransaction::try_new'') (\<lambda>_.
     Inr (map_sum id (\<lambda>s. (s, transaction)) (try_new_sanitized Z transaction), b')))"

section \<open>Reading a message\<close>

text \<open>
  The documentation of \<^verbatim>\<open>MessageHeader\<close>: the keys that signed come first; the last ones of them, and
  the last ones of the keys that did not sign, as many as the header says, are read only.
\<close>

definition key_signed :: "message \<Rightarrow> nat \<Rightarrow> bool" where
  "key_signed m i \<longleftrightarrow> i < mh_required_signatures (header m)"

definition key_writable :: "message \<Rightarrow> nat \<Rightarrow> bool" where
  "key_writable m i \<longleftrightarrow>
     (if i < mh_required_signatures (header m) then i < mh_required_signatures (header m) - mh_readonly_signed (header m)
      else i < length (account_keys m) - mh_readonly_unsigned (header m))"

definition decompile :: "message \<Rightarrow> compiled_instruction \<Rightarrow> pubkey \<times> account_meta list \<times> u8 list" where
  "decompile m ci = (account_keys m ! program_id_index ci,
     map (\<lambda>i. \<lparr>meta_pubkey = account_keys m ! i, is_signer = key_signed m i, is_writable = key_writable m i\<rparr>) (ci_accounts ci), ci_data ci)"

fun message_of :: "versioned_message \<Rightarrow> message" where
  "message_of (Legacy m) = m"
| "message_of (V0 m) = m"

section \<open>The state of a builder\<close>

text \<open>The builder after instructions that name the accounts \<open>ms\<close>, in order.\<close>

definition of_type :: "account_type \<Rightarrow> account_meta list \<Rightarrow> account_meta list" where
  "of_type t ms = filter (\<lambda>m. account_type_of m = t) ms"

definition signed_as :: "(pubkey \<rightharpoonup> signature) \<Rightarrow> account_meta \<Rightarrow> pubkey \<times> signature" where
  "signed_as sigs m = (meta_pubkey m, the (sigs (meta_pubkey m)))"

definition collected :: "(pubkey \<rightharpoonup> signature) \<Rightarrow> account_meta list \<Rightarrow> inner_instruction list \<Rightarrow> transaction_builder" where
  "collected sigs ms ins = \<lparr>instructions = ins,
     required_signatures = length (of_type SignerWritable ms) + length (of_type SignerReadonly ms),
     readonly_signed = length (of_type SignerReadonly ms), readonly_unsigned = length (of_type Readonly ms),
     signed_readonly_accounts = map (signed_as sigs) (of_type SignerReadonly ms),
     signed_mutable_accounts = map (signed_as sigs) (of_type SignerWritable ms),
     unsigned_readonly_accounts = map meta_pubkey (of_type Readonly ms),
     unsigned_mutable_account = map meta_pubkey (of_type Writable ms)\<rparr>"

definition typed :: "account_meta \<Rightarrow> pubkey \<times> account_type" where
  "typed m = (meta_pubkey m, account_type_of m)"

definition have_signatures :: "(pubkey \<rightharpoonup> signature) \<Rightarrow> account_meta list \<Rightarrow> bool" where
  "have_signatures sigs ms \<longleftrightarrow> (\<forall>m \<in> set ms. is_signer m \<longrightarrow> sigs (meta_pubkey m) \<noteq> None)"

lemma of_type_append [simp]: "of_type t (ms @ ns) = of_type t ms @ of_type t ns"
  by (simp add: of_type_def)

lemma of_type_single: "of_type t [m] = (if account_type_of m = t then [m] else [])" "of_type t [] = []"
  by (simp_all add: of_type_def)

lemma length_of_type:
  "length (of_type SignerWritable ms) + length (of_type SignerReadonly ms) + length (of_type Writable ms) + length (of_type Readonly ms) = length ms"
proof (induction ms)
  case (Cons m ms)
  then show ?case by (cases "account_type_of m") (auto simp: of_type_def)
qed (simp add: of_type_def)

lemma transaction_builder_default_collected: "transaction_builder_default = collected sigs [] []"
  by (simp add: transaction_builder_default_def collected_def of_type_single)

lemma add_account_collected:
  assumes "length ms < 255" "have_signatures sigs [m]"
  shows "add_account sigs m (collected sigs ms ins, accs) = Inr (collected sigs (ms @ [m]) ins, accs @ [typed m])"
proof -
  have len: "length (of_type SignerWritable ms) + length (of_type SignerReadonly ms) < 255" "length (of_type Readonly ms) < 255"
    "length (of_type SignerReadonly ms) < 255" using length_of_type [of ms] assms(1) by simp_all
  show ?thesis
  proof (cases "account_type_of m")
    case Readonly
    then show ?thesis using len by (simp add: add_account_def Let_def collected_def of_type_single sat_add_def umax_def typed_def)
  next
    case Writable
    then show ?thesis by (simp add: add_account_def Let_def collected_def of_type_single typed_def)
  next
    case SignerReadonly
    then obtain g where "sigs (meta_pubkey m) = Some g"
      using assms(2) by (auto simp: have_signatures_def account_type_of_def split: if_splits)
    then show ?thesis using SignerReadonly len
      by (simp add: add_account_def Let_def collected_def of_type_single sat_add_def umax_def typed_def runwrap_def signed_as_def)
  next
    case SignerWritable
    then obtain g where "sigs (meta_pubkey m) = Some g"
      using assms(2) by (auto simp: have_signatures_def account_type_of_def split: if_splits)
    then show ?thesis using SignerWritable len
      by (simp add: add_account_def Let_def collected_def of_type_single sat_add_def umax_def typed_def runwrap_def signed_as_def)
  qed
qed

lemma add_accounts_collected:
  assumes "length ms + length ns \<le> 255" "have_signatures sigs ns"
  shows "rfold (add_account sigs) ns (collected sigs ms ins, accs) = Inr (collected sigs (ms @ ns) ins, accs @ map typed ns)"
  using assms
proof (induction ns arbitrary: ms accs)
  case (Cons n ns)
  then have "add_account sigs n (collected sigs ms ins, accs) = Inr (collected sigs (ms @ [n]) ins, accs @ [typed n])"
    by (intro add_account_collected) (auto simp: have_signatures_def)
  then show ?case using Cons.IH [of "ms @ [n]"] Cons.prems by (simp add: have_signatures_def)
qed simp

text \<open>Any number of instructions, each with its program, its accounts and its data.\<close>

type_synonym request = "pubkey \<times> account_meta list \<times> u8 list"

definition create_all :: "(pubkey \<rightharpoonup> signature) \<Rightarrow> request list \<Rightarrow> transaction_builder \<Rightarrow> transaction_builder res" where
  "create_all sigs = rfold (\<lambda>(p, ms, d). create_instruction p ms sigs d)"

definition inner_of :: "request \<Rightarrow> inner_instruction" where
  "inner_of = (\<lambda>(p, ms, d). \<lparr>ii_program_id = p, ii_accounts = map typed ms, ii_data = d\<rparr>)"

definition metas_of :: "request list \<Rightarrow> account_meta list" where
  "metas_of rs = concat (map (fst \<circ> snd) rs)"

lemma metas_of_Cons [simp]: "metas_of ((p, ms, d) # rs) = ms @ metas_of rs" "metas_of [] = []"
  by (simp_all add: metas_of_def)

lemma have_signatures_append [simp]: "have_signatures sigs (ms @ ns) \<longleftrightarrow> have_signatures sigs ms \<and> have_signatures sigs ns"
  by (auto simp: have_signatures_def)

lemma create_all_collected:
  assumes "length ms + length (metas_of rs) \<le> 255" "have_signatures sigs (metas_of rs)"
  shows "create_all sigs rs (collected sigs ms ins) = Inr (collected sigs (ms @ metas_of rs) (ins @ map inner_of rs))"
  using assms
proof (induction rs arbitrary: ms ins)
  case (Cons r rs)
  obtain p ns d where r: "r = (p, ns, d)" by (cases r)
  have "create_instruction p ns sigs d (collected sigs ms ins) = Inr (collected sigs (ms @ ns) (ins @ [inner_of r]))"
    using add_accounts_collected [of ms ns sigs ins "[]"] Cons.prems
    by (simp add: create_instruction_def r inner_of_def) (simp add: collected_def)
  then show ?case using Cons.IH [of "ms @ ns" "ins @ [inner_of r]"] Cons.prems by (simp add: create_all_def r)
qed (simp add: create_all_def)

section \<open>The layout of the keys\<close>

definition layout :: "account_meta list \<Rightarrow> (pubkey \<times> account_type) list" where
  "layout ms = concat (map (\<lambda>t. map (\<lambda>m. (meta_pubkey m, t)) (of_type t ms)) [SignerWritable, SignerReadonly, Writable, Readonly])"

lemma ordered_accounts_collected: "ordered_accounts (collected sigs ms ins) = layout ms"
  by (simp add: ordered_accounts_def collected_def layout_def comp_def signed_as_def)

lemma length_layout: "length (layout ms) = length ms"
  using length_of_type [of ms] by (simp add: layout_def)

lemma UNIV_account_type: "UNIV = {SignerWritable, SignerReadonly, Writable, Readonly}"
  using account_type.exhaust by blast

lemma set_layout: "set (layout ms) = typed ` set ms"
proof -
  have "set (layout ms) = (\<Union>t. (\<lambda>m. (meta_pubkey m, t)) ` {m \<in> set ms. account_type_of m = t})"
    unfolding UNIV_account_type by (simp add: layout_def of_type_def Un_assoc)
  also have "\<dots> = typed ` set ms" by (auto simp: typed_def)
  finally show ?thesis .
qed

lemma layout_types: "map snd (layout ms) = replicate (length (of_type SignerWritable ms)) SignerWritable @
    replicate (length (of_type SignerReadonly ms)) SignerReadonly @ replicate (length (of_type Writable ms)) Writable @
    replicate (length (of_type Readonly ms)) Readonly"
  by (simp add: layout_def comp_def map_replicate_const)

lemma nth_replicate4:
  assumes "j < a + b + c + d"
  shows "(replicate a w @ replicate b x @ replicate c y @ replicate d z) ! j =
    (if j < a then w else if j < a + b then x else if j < a + b + c then y else z)"
proof -
  consider "j < a" | "a \<le> j" "j < a + b" | "a + b \<le> j" "j < a + b + c" | "a + b + c \<le> j" by linarith
  then show ?thesis using assms by cases (auto simp: nth_append)
qed

lemma layout_type:
  assumes "j < length ms"
  shows "snd (layout ms ! j) =
    (if j < length (of_type SignerWritable ms) then SignerWritable
     else if j < length (of_type SignerWritable ms) + length (of_type SignerReadonly ms) then SignerReadonly
     else if j < length (of_type SignerWritable ms) + length (of_type SignerReadonly ms) + length (of_type Writable ms) then Writable
     else Readonly)"
proof -
  have "snd (layout ms ! j) = map snd (layout ms) ! j" using assms by (simp add: length_layout)
  then show ?thesis unfolding layout_types using assms length_of_type [of ms] by (simp only: nth_replicate4)
qed

lemma positions_fold:
  "fold positions_lambda ps (pos, keys) = (pos', keys') \<Longrightarrow> keys' = keys @ map fst ps \<and>
    (\<forall>a. if a \<in> set ps then \<exists>j < length ps. ps ! j = a \<and> pos' a = Some (length keys + j) else pos' a = pos a)"
proof (induction ps arbitrary: pos keys)
  case (Cons p ps)
  obtain k t where p: "p = (k, t)" by (cases p)
  from Cons.prems have "fold positions_lambda ps (pos((k, t) \<mapsto> length keys), keys @ [k]) = (pos', keys')"
    by (simp add: positions_lambda_def p)
  note ih = Cons.IH [OF this]
  have 1: "keys' = keys @ k # map fst ps" using ih by simp
  note 2 = spec [OF conjunct2 [OF ih]]
  have "if a \<in> set (p # ps) then \<exists>j < length (p # ps). (p # ps) ! j = a \<and> pos' a = Some (length keys + j) else pos' a = pos a" for a
  proof (cases "a \<in> set ps")
    case True
    then obtain j where "j < length ps" "ps ! j = a" "pos' a = Some (length (keys @ [k]) + j)" using 2 [of a] by auto
    then show ?thesis using True by (auto intro!: exI [of _ "Suc j"])
  next
    case False
    then show ?thesis using 2 [of a] by (auto simp: p intro!: exI [of _ 0])
  qed
  moreover have "keys' = keys @ map fst (p # ps)" using 1 by (simp add: p)
  ultimately show ?case by blast
qed simp

section \<open>The message\<close>

lemma compile_all:
  assumes pos: "\<And>i a. i \<in> set ins \<Longrightarrow> a \<in> set (ii_accounts i) \<Longrightarrow> \<exists>j. positions a = Some j \<and> j < 256"
    and len: "length keys + length ins \<le> 256"
  shows "rfold (compile_instruction positions) ins (cs, keys) =
    Inr (cs @ map (\<lambda>(n, i). \<lparr>program_id_index = n, ci_accounts = map (the \<circ> positions) (ii_accounts i), ci_data = ii_data i\<rparr>)
      (enumerate (length keys) ins), keys @ map ii_program_id ins)"
  using assms
proof (induction ins arbitrary: cs keys)
  case (Cons i ins)
  have "rmap (\<lambda>key. rbind (runwrap ''no entry found for key'' (positions key)) (\<lambda>i. Inr (i mod 256))) (ii_accounts i)
      = Inr (map (the \<circ> positions) (ii_accounts i))"
  proof (rule rmap_pure)
    fix a
    assume "a \<in> set (ii_accounts i)"
    then obtain j where "positions a = Some j" "j < 256" using Cons.prems(1) [of i a] by auto
    then show "rbind (runwrap ''no entry found for key'' (positions a)) (\<lambda>i. Inr (i mod 256)) = Inr ((the \<circ> positions) a)"
      by (simp add: runwrap_def)
  qed
  then have "compile_instruction positions i (cs, keys) = Inr (cs @ [\<lparr>program_id_index = length keys,
      ci_accounts = map (the \<circ> positions) (ii_accounts i), ci_data = ii_data i\<rparr>], keys @ [ii_program_id i])"
    using Cons.prems(2) by (simp add: compile_instruction_def push_and_return_index_def sat_sub_def)
  moreover have "\<exists>j. positions a = Some j \<and> j < 256" if "k \<in> set ins" "a \<in> set (ii_accounts k)" for k a
    using Cons.prems(1) [of k a] that by simp
  ultimately show ?case using Cons.IH [of "keys @ [ii_program_id i]"] Cons.prems(2) by simp
qed simp

text \<open>
  What a builder with the accounts \<open>ms\<close> and the instructions \<open>rs\<close> produces.  The positions of the
  accounts are those of the layout, shifted by the fee payer.
\<close>

definition transaction_of ::
  "hash \<Rightarrow> pubkey \<times> signature \<Rightarrow> (pubkey \<rightharpoonup> signature) \<Rightarrow> (pubkey \<times> account_type \<rightharpoonup> nat) \<Rightarrow> request list \<Rightarrow> signature list \<times> message" where
  "transaction_of h fp sigs pos rs = (let ms = metas_of rs in
     (snd fp # map (snd \<circ> signed_as sigs) (of_type SignerWritable ms @ of_type SignerReadonly ms),
      \<lparr>header = \<lparr>mh_required_signatures = length (of_type SignerWritable ms) + length (of_type SignerReadonly ms) + 1,
          mh_readonly_signed = length (of_type SignerReadonly ms), mh_readonly_unsigned = length (of_type Readonly ms) + 1\<rparr>,
        account_keys = fst fp # map fst (layout ms) @ map fst rs, recent_blockhash = h,
        ci_instructions = map (\<lambda>(n, p, ms, d). \<lparr>program_id_index = n, ci_accounts = map (the \<circ> pos \<circ> typed) ms, ci_data = d\<rparr>)
          (enumerate (length ms + 1) rs)\<rparr>))"

definition positions_ok :: "(pubkey \<times> account_type \<rightharpoonup> nat) \<Rightarrow> account_meta list \<Rightarrow> bool" where
  "positions_ok pos ms \<longleftrightarrow> (\<forall>m \<in> set ms. \<exists>j < length ms. layout ms ! j = typed m \<and> pos (typed m) = Some (j + 1))"

lemma map_enumerate_inner:
  "map (\<lambda>(n, i). \<lparr>program_id_index = n, ci_accounts = map (the \<circ> pos) (ii_accounts i), ci_data = ii_data i\<rparr>) (enumerate k (map inner_of rs)) =
   map (\<lambda>(n, p, ms, d). \<lparr>program_id_index = n, ci_accounts = map (the \<circ> pos \<circ> typed) ms, ci_data = d\<rparr>) (enumerate k rs)"
  by (induction rs arbitrary: k) (auto simp: inner_of_def)

lemma assemble_collected:
  assumes len: "length (metas_of rs) + length rs \<le> 255" and one: "rs \<noteq> []"
  shows "\<exists>pos. positions_ok pos (metas_of rs) \<and>
    assemble h fp v0 (collected sigs (metas_of rs) (map inner_of rs)) =
      (let (gs, m) = transaction_of h fp sigs pos rs in
       Inr (\<lparr>signatures = gs, vt_message = (if v0 then V0 m else Legacy m)\<rparr>,
         transaction_builder_default\<lparr>unsigned_readonly_accounts := map meta_pubkey (of_type Readonly (metas_of rs))\<rparr>))"
proof -
  let ?ms = "metas_of rs"
  obtain pos keys where f: "fold positions_lambda (layout ?ms) (Map.empty, [fst fp]) = (pos, keys)" by fastforce
  from positions_fold [OF f] have keys: "keys = fst fp # map fst (layout ?ms)"
    and pos: "\<And>a. a \<in> set (layout ?ms) \<Longrightarrow> \<exists>j < length ?ms. layout ?ms ! j = a \<and> pos a = Some (j + 1)"
    by (auto simp: length_layout split: if_splits)
  have ok: "positions_ok pos ?ms" unfolding positions_ok_def using pos by (simp add: set_layout)
  have bound: "\<exists>j. pos a = Some j \<and> j < 256" if "i \<in> set (map inner_of rs)" "a \<in> set (ii_accounts i)" for i a
  proof -
    from that obtain p ns d m where "(p, ns, d) \<in> set rs" "m \<in> set ns" "a = typed m" by (auto simp: inner_of_def)
    then have "m \<in> set ?ms" "a = typed m" by (auto simp: metas_of_def intro!: bexI [of _ "(p, ns, d)"])
    then show ?thesis using ok len unfolding positions_ok_def by fastforce
  qed
  have "length keys + length (map inner_of rs) \<le> 256" using len by (simp add: keys length_layout)
  from compile_all [of "map inner_of rs" pos keys "[]", OF bound this, unfolded map_enumerate_inner keys]
  have comp: "rfold (compile_instruction pos) (map inner_of rs) ([], fst fp # map fst (layout ?ms)) =
      Inr (ci_instructions (snd (transaction_of h fp sigs pos rs)), account_keys (snd (transaction_of h fp sigs pos rs)))"
    by (simp add: transaction_of_def Let_def length_layout comp_def inner_of_def case_prod_beta)
  have lt: "length (of_type SignerWritable ?ms) + length (of_type SignerReadonly ?ms) < 255" "length (of_type Readonly ?ms) < 255"
    using length_of_type [of ?ms] len one by (cases rs; simp)+
  have "assemble h fp v0 (collected sigs ?ms (map inner_of rs)) =
      (let (gs, m) = transaction_of h fp sigs pos rs in
       Inr (\<lparr>signatures = gs, vt_message = (if v0 then V0 m else Legacy m)\<rparr>,
         transaction_builder_default\<lparr>unsigned_readonly_accounts := map meta_pubkey (of_type Readonly ?ms)\<rparr>))"
    using lt unfolding assemble_def ordered_accounts_collected f
    by (simp add: clean_up_def collected_def [of sigs ?ms] keys comp)
      (simp add: transaction_of_def Let_def sat_add_def umax_def transaction_builder_default_def)
  with ok show ?thesis by blast
qed

lemma layout_privileges:
  assumes pos: "positions_ok pos (metas_of rs)" and m: "m \<in> set (metas_of rs)"
    and msg: "msg = snd (transaction_of h fp sigs pos rs)" and i: "i = the (pos (typed m))"
  shows "i < length (account_keys msg)" "account_keys msg ! i = meta_pubkey m" "key_signed msg i \<longleftrightarrow> is_signer m"
    "length rs = 1 \<Longrightarrow> key_writable msg i \<longleftrightarrow> is_writable m"
proof -
  let ?ms = "metas_of rs"
  from pos m obtain j where j: "j < length ?ms" "layout ?ms ! j = typed m" "i = j + 1"
    unfolding positions_ok_def i by (metis option.sel)
  note ty = layout_type [OF j(1), unfolded j(2), unfolded typed_def snd_conv] and len = length_of_type [of ?ms]
  show "i < length (account_keys msg)" using j by (simp add: msg transaction_of_def Let_def length_layout)
  show "account_keys msg ! i = meta_pubkey m"
    using j by (simp add: msg transaction_of_def Let_def length_layout nth_append typed_def)
  show "key_signed msg i \<longleftrightarrow> is_signer m"
    using ty j(3) by (auto simp: msg key_signed_def transaction_of_def Let_def account_type_of_def split: if_splits)
  show "key_writable msg i \<longleftrightarrow> is_writable m" if "length rs = 1"
    using ty j(1,3) len that
    by (auto simp: msg key_writable_def transaction_of_def Let_def length_layout account_type_of_def split: if_splits)
qed

lemma layout_signed:
  assumes "j < length (of_type SignerWritable ms) + length (of_type SignerReadonly ms)"
  shows "map (snd \<circ> signed_as sigs) (of_type SignerWritable ms @ of_type SignerReadonly ms) ! j = the (sigs (fst (layout ms ! j)))"
  using assms by (auto simp: layout_def nth_append signed_as_def)

lemma assemble_returns:
  assumes "have_signatures sigs ms" "length ms \<le> 254"
  shows "\<exists>b tx b'. create_instruction p ms sigs d transaction_builder_default = Inr b \<and> assemble h fp v0 b = Inr (tx, b') \<and>
    (let m = message_of (vt_message tx) in
     map (decompile m) (ci_instructions m) = [(p, ms, d)] \<and> recent_blockhash m = h \<and>
     account_keys m ! 0 = fst fp \<and> key_signed m 0 \<and> key_writable m 0 \<and>
     length (signatures tx) = mh_required_signatures (header m) \<and>
     (\<forall>i < length (signatures tx). signatures tx ! i = (if i = 0 then snd fp else the (sigs (account_keys m ! i)))))"
proof -
  let ?rs = "[(p, ms, d)]"
  have ms: "metas_of ?rs = ms" by simp
  have c: "create_instruction p ms sigs d transaction_builder_default = Inr (collected sigs (metas_of ?rs) (map inner_of ?rs))"
    using create_all_collected [of "[]" ?rs sigs "[]"] assms
    by (simp add: create_all_def transaction_builder_default_collected [of sigs] res_simps)
  from assemble_collected [of ?rs h fp v0 sigs] assms(2) obtain pos where pos: "positions_ok pos (metas_of ?rs)"
    and a: "assemble h fp v0 (collected sigs (metas_of ?rs) (map inner_of ?rs)) =
      (let (gs, m) = transaction_of h fp sigs pos ?rs in
       Inr (\<lparr>signatures = gs, vt_message = (if v0 then V0 m else Legacy m)\<rparr>,
         transaction_builder_default\<lparr>unsigned_readonly_accounts := map meta_pubkey (of_type Readonly (metas_of ?rs))\<rparr>))" by auto
  obtain gs m where t: "transaction_of h fp sigs pos ?rs = (gs, m)" by fastforce
  have m: "m = snd (transaction_of h fp sigs pos ?rs)" by (simp add: t)
  note f = layout_privileges [OF pos _ m refl]
  have "map (\<lambda>i. \<lparr>meta_pubkey = account_keys m ! i, is_signer = key_signed m i, is_writable = key_writable m i\<rparr>)
      (map (the \<circ> pos \<circ> typed) ms) = ms" using f by (auto intro!: map_idI)
  then have d: "map (decompile m) (ci_instructions m) = ?rs"
    using m by (simp add: decompile_def transaction_of_def nth_append length_layout)
  have g: "length gs = mh_required_signatures (header m)" "gs ! 0 = snd fp" "recent_blockhash m = h" "account_keys m ! 0 = fst fp"
    "key_signed m 0" "key_writable m 0" using t by (auto simp: transaction_of_def key_signed_def key_writable_def Let_def)
  have "gs ! i = the (sigs (account_keys m ! i))" if "i < length gs" "i \<noteq> 0" for i
    using that t layout_signed [of "i - 1" ms sigs] length_of_type [of ms]
    by (auto simp: transaction_of_def Let_def nth_append length_layout)
  with c a t d g show ?thesis by (cases v0) auto
qed

section \<open>Properties\<close>

text \<open>
  C17.  Building a transaction for one instruction loses nothing: whenever there is a signature for
  every account that has to sign and no more than 254 accounts are named, the transaction is
  assembled, and reading its only instruction back from the message gives the program, the data and
  the accounts in order, each with exactly the rights it was given.  The fee payer comes first, has
  signed and may be written, and the signatures are those of the first keys, in their order.
\<close>

theorem build_roundtrip:
  assumes "have_signatures sigs ms" "length ms \<le> 254"
  shows "\<exists>b tx b'. create_instruction p ms sigs d transaction_builder_default = Inr b \<and> assemble h fp v0 b = Inr (tx, b') \<and>
    (let m = message_of (vt_message tx) in
     map (decompile m) (ci_instructions m) = [(p, ms, d)] \<and> recent_blockhash m = h \<and>
     account_keys m ! 0 = fst fp \<and> key_signed m 0 \<and> key_writable m 0 \<and>
     length (signatures tx) = mh_required_signatures (header m) \<and>
     (\<forall>i < length (signatures tx). signatures tx ! i = (if i = 0 then snd fp else the (sigs (account_keys m ! i)))))"
  by (rule assemble_returns [OF assms])

text \<open>
  With more than one instruction the rights are not kept.  The header counts one read-only key
  for a program whereas every instruction adds the key of its program, so the first account that was
  asked for as read only is at a position that may be written.
\<close>

lemma several_instructions_misgrant:
  assumes "have_signatures sigs (metas_of rs)" "length (metas_of rs) + length rs \<le> 255" "2 \<le> length rs"
    and "of_type Readonly (metas_of rs) \<noteq> []"
  shows "\<exists>b tx b' i. create_all sigs rs transaction_builder_default = Inr b \<and> assemble h fp v0 b = Inr (tx, b') \<and>
    (let m = message_of (vt_message tx) in
     account_keys m ! i = meta_pubkey (hd (of_type Readonly (metas_of rs))) \<and> \<not> key_signed m i \<and> key_writable m i)"
proof -
  let ?ms = "metas_of rs" and ?b = "collected sigs (metas_of rs) (map inner_of rs)"
  let ?i = "1 + length (of_type SignerWritable ?ms) + length (of_type SignerReadonly ?ms) + length (of_type Writable ?ms)"
  have c: "create_all sigs rs transaction_builder_default = Inr ?b"
    using create_all_collected [of "[]" rs sigs "[]"] assms(1,2) by (simp add: transaction_builder_default_collected [of sigs])
  have "rs \<noteq> []" using assms(3) by auto
  from assemble_collected [OF assms(2) this, of h fp v0 sigs] obtain pos b' gs m where
    a: "assemble h fp v0 ?b = Inr (\<lparr>signatures = gs, vt_message = (if v0 then V0 m else Legacy m)\<rparr>, b')"
    and t: "transaction_of h fp sigs pos rs = (gs, m)" by (metis (no_types, lifting) case_prod_conv surj_pair)
  have m: "m = snd (transaction_of h fp sigs pos rs)" by (simp add: t)
  have "fst (layout ?ms ! (?i - 1)) = meta_pubkey (hd (of_type Readonly ?ms))"
    using assms(4) by (simp add: layout_def nth_append hd_conv_nth)
  moreover have "length ?ms = ?i - 1 + length (of_type Readonly ?ms)" using length_of_type [of ?ms] by simp
  moreover have "length (of_type Readonly ?ms) > 0" using assms(4) by simp
  ultimately have "account_keys m ! ?i = meta_pubkey (hd (of_type Readonly ?ms)) \<and> \<not> key_signed m ?i \<and> key_writable m ?i"
    using assms(3) by (simp add: m transaction_of_def Let_def key_signed_def key_writable_def nth_append length_layout)
  with c a show ?thesis by (cases v0) auto
qed

text \<open>A builder is not as new after a transaction was built: the accounts asked for as read only stay.\<close>

lemma build_not_reset:
  assumes "rs \<noteq> []" "length (metas_of rs) + length rs \<le> 255"
    and "assemble h fp v0 (collected sigs (metas_of rs) (map inner_of rs)) = Inr (tx, b')"
  shows "unsigned_readonly_accounts b' = map meta_pubkey (of_type Readonly (metas_of rs))"
  using assemble_collected [OF assms(2,1), of h fp v0 sigs] assms(3) by (auto simp: Let_def case_prod_beta)

section \<open>Witnesses\<close>

definition example_metas :: "account_meta list" where
  "example_metas = [\<lparr>meta_pubkey = 11, is_signer = True, is_writable = True\<rparr>, \<lparr>meta_pubkey = 12, is_signer = False, is_writable = True\<rparr>,
     \<lparr>meta_pubkey = 13, is_signer = False, is_writable = False\<rparr>, \<lparr>meta_pubkey = 14, is_signer = True, is_writable = False\<rparr>]"

theorem build_roundtrip_witness:
  "\<exists>b tx b'. create_instruction 99 example_metas (\<lambda>k. Some (ucast k)) [1] transaction_builder_default = Inr b \<and>
     assemble 7 (10, 500) True b = Inr (tx, b') \<and>
     map (decompile (message_of (vt_message tx))) (ci_instructions (message_of (vt_message tx))) = [(99, example_metas, [1])] \<and>
     signatures tx ! 0 = 500"
proof -
  have "have_signatures (\<lambda>k. Some (ucast k)) example_metas" "length example_metas \<le> 254"
    by (simp_all add: have_signatures_def example_metas_def)
  from build_roundtrip [OF this, of 99 "[1]" 7 "(10, 500)" True] obtain b tx b' where
    r: "create_instruction 99 example_metas (\<lambda>k. Some (ucast k)) [1] transaction_builder_default = Inr b"
      "assemble 7 (10, 500) True b = Inr (tx, b')"
      "map (decompile (message_of (vt_message tx))) (ci_instructions (message_of (vt_message tx))) = [(99, example_metas, [1])]"
      "key_signed (message_of (vt_message tx)) 0" "length (signatures tx) = mh_required_signatures (header (message_of (vt_message tx)))"
      "\<forall>i < length (signatures tx). signatures tx ! i = (if i = 0 then 500 else ucast (account_keys (message_of (vt_message tx)) ! i))"
    by (auto simp: Let_def)
  then have "signatures tx ! 0 = 500" by (simp add: key_signed_def)
  show ?thesis by (intro exI conjI) (fact r \<open>signatures tx ! 0 = 500\<close>)+
qed

end
