(* ===== verification/Svm_Builder.thy ===== *)
theory Svm_Builder
  imports Svm_Bank Tx_Builder
begin

text \<open>
  Running one program on a bank: \<^verbatim>\<open>SimpleBuilder\<close> of \<^verbatim>\<open>svm/executor/src/builder/simple.rs\<close>.

  The builder is given a program, accounts and call data; \<open>build_ex\<close> deploys the program, stores the
  accounts, pays with a new account, builds the transaction and has it executed.  It is generic in
  the bank, an instance of \<open>bank_trait\<close>.  The transaction processor of the Solana crates, the file
  system and everything that is drawn anew (\<open>fresh\<close>) are arguments.
\<close>

section \<open>Data\<close>

datatype 'te svm_error =
    BuilderError string
  | TransactionProcessorIsNone
  | StdIo string
  | SolanaTransactionError 'te

record builder_settings =
  fee_payer_balance :: nat

definition builder_settings_default :: builder_settings where
  "builder_settings_default = \<lparr>fee_payer_balance = 80000\<rparr>"

record 'n checked_transaction_details =
  ctd_nonce :: "'n option"
  ctd_lamports_per_signature :: nat

record execution_accounts =
  ea_fee_payer :: pubkey
  ea_accounts :: "account_meta list"
  ea_signatures :: "pubkey \<rightharpoonup> signature"

text \<open>The shared fork graph has no contents and is left out.\<close>

record ('b, 'te, 'p, 'n) simple_builder =
  sb_bank :: 'b
  sb_settings :: builder_settings
  sb_tx_builder :: transaction_builder
  sb_tx_processor :: "'p option"
  sb_program_path :: "string option"
  sb_program_buffer :: "u8 list option"
  sb_calldata :: "u8 list"
  sb_accounts :: "(account_meta \<times> account option) list"
  sb_v0_message :: bool
  sb_check_result :: "('te + 'n checked_transaction_details) option"

record recording_config =
  enable_log_recording :: bool
  enable_return_data_recording :: bool
  enable_cpi_recording :: bool

text \<open>
  The processor: creating one for a slot, with the sysvars and the built-in programs of the bank, and
  executing a list of transactions, which changes what the processor keeps of the programs it loaded.
\<close>

record ('b, 'te, 'stx, 'p, 'n, 'out) svm_api =
  svm_sanitize :: "('te, 'stx) sanitize_api"
  svm_new_processor :: "slot \<Rightarrow> nat \<Rightarrow> 'p"
  svm_fill_sysvars :: "'b \<Rightarrow> 'p \<Rightarrow> 'p"
  svm_add_builtin :: "string \<Rightarrow> slot \<Rightarrow> nat \<Rightarrow> 'p \<times> 'b \<Rightarrow> 'p \<times> 'b"
  svm_set_environment :: "'p \<Rightarrow> 'p"
  svm_execute :: "'p \<Rightarrow> 'b \<Rightarrow> 'stx list \<Rightarrow> ('te + 'n checked_transaction_details) list \<Rightarrow> recording_config \<Rightarrow> 'out \<times> 'p"

record file_api =
  f_open :: "string \<Rightarrow> string + unit"
  f_len :: "string \<Rightarrow> string + nat"
  f_read_exact :: "string \<Rightarrow> nat \<Rightarrow> string + u8 list"

text \<open>The keys and signatures that are drawn during one run, and the time.\<close>

record fresh =
  fr_program :: pubkey
  fr_programdata :: pubkey
  fr_fee_payer :: pubkey
  fr_fee_signature :: signature
  fr_signature :: "nat \<Rightarrow> signature"
  fr_time :: int

section \<open>Operations\<close>

definition simple_builder_init where
  "simple_builder_init bank = map_sum BuilderError (\<lambda>b. \<lparr>sb_bank = b, sb_settings = builder_settings_default,
     sb_tx_builder = transaction_builder_default, sb_tx_processor = None, sb_program_path = None, sb_program_buffer = None,
     sb_calldata = [], sb_accounts = [], sb_v0_message = False, sb_check_result = None\<rparr>) bank"

definition with_settings where
  "with_settings settings X = X\<lparr>sb_settings := settings\<rparr>"

definition with_bank where
  "with_bank bank X = X\<lparr>sb_bank := bank\<rparr>"

definition with_tx_processor where
  "with_tx_processor p X = X\<lparr>sb_tx_processor := Some p\<rparr>"

definition with_tx_builder where
  "with_tx_builder t X = X\<lparr>sb_tx_builder := t\<rparr>"

definition with_program_path where
  "with_program_path path X = X\<lparr>sb_program_path := path\<rparr>"

definition with_program_buffer where
  "with_program_buffer buffer X = X\<lparr>sb_program_buffer := buffer\<rparr>"

definition with_calldata where
  "with_calldata calldata X = X\<lparr>sb_calldata := calldata\<rparr>"

definition with_v0_message where
  "with_v0_message v X = X\<lparr>sb_v0_message := v\<rparr>"

definition with_check_result where
  "with_check_result r X = X\<lparr>sb_check_result := Some r\<rparr>"

definition account_with where
  "account_with meta acc X = X\<lparr>sb_accounts := sb_accounts X @ [(meta, acc)]\<rparr>"

definition account_with_balance where
  "account_with_balance pubkey lamports signer writable =
     account_with \<lparr>meta_pubkey = pubkey, is_signer = signer, is_writable = writable\<rparr>
       (map_option (\<lambda>l. account_default\<lparr>acc_lamports := l\<rparr>) lamports)"

definition read_file :: "file_api \<Rightarrow> string \<Rightarrow> 'te svm_error + u8 list" where
  "read_file FS dir =
     (case f_open FS dir of
        Inl e \<Rightarrow> Inl (StdIo e)
      | Inr _ \<Rightarrow> (case f_len FS dir of
          Inl e \<Rightarrow> Inl (StdIo e)
        | Inr n \<Rightarrow> map_sum StdIo id (f_read_exact FS dir n)))"

definition read_program :: "file_api \<Rightarrow> ('b, 'te, 'p, 'n) simple_builder \<Rightarrow> 'te svm_error + u8 list" where
  "read_program FS X =
     (if sb_program_buffer X \<noteq> None \<and> sb_program_path X \<noteq> None then Inl (BuilderError ''Both program buffer and path are set'')
      else case sb_program_buffer X of
          Some buffer \<Rightarrow> Inr buffer
        | None \<Rightarrow> (case sb_program_path X of
              Some path \<Rightarrow> read_file FS path
            | None \<Rightarrow> Inl (BuilderError ''Program not found'')))"

text \<open>An operation of the bank inside the builder.\<close>

definition on_bank :: "('b, string, 'a) act \<Rightarrow> (('b, 'te, 'p, 'n) simple_builder, 'te svm_error, 'a) act" where
  "on_bank m X = rbind (m (sb_bank X)) (\<lambda>(r, b). Inr (map_sum BuilderError id r, X\<lparr>sb_bank := b\<rparr>))"

definition create_fee_payer where
  "create_fee_payer T Y X =
     abind (on_bank (t_insert_account T (fr_fee_payer Y) (account_default\<lparr>acc_lamports := fee_payer_balance (sb_settings X)\<rparr>))) (\<lambda>_.
     aret (fr_fee_payer Y)) X"

text \<open>
  The loop over the accounts: the account is stored where there is one, and a signer gets the next
  signature that is drawn.
\<close>

definition prepare_account where
  "prepare_account T Y = (\<lambda>(i, meta, acc).
     abind (case acc of Some a \<Rightarrow> on_bank (t_insert_account T (meta_pubkey meta) a) | None \<Rightarrow> aret ()) (\<lambda>_.
     aret (if is_signer meta then [(meta_pubkey meta, fr_signature Y i)] else [])))"

definition prepare_accounts where
  "prepare_accounts T Y X =
     abind (afor (prepare_account T Y) (enumerate 0 (sb_accounts X))) (\<lambda>sigs.
     abind (create_fee_payer T Y) (\<lambda>payer.
     aret \<lparr>ea_fee_payer = payer, ea_accounts = map fst (sb_accounts X), ea_signatures = map_of (rev (concat sigs))\<rparr>)) X"

definition get_checked_tx_details where
  "get_checked_tx_details X =
     (case sb_check_result X of Some r \<Rightarrow> r | None \<Rightarrow> Inr \<lparr>ctd_nonce = None, ctd_lamports_per_signature = 20\<rparr>)"

definition get_processing_config :: recording_config where
  "get_processing_config = \<lparr>enable_log_recording = True, enable_return_data_recording = True, enable_cpi_recording = False\<rparr>"

definition BPF_LOADER_NAME :: string where
  "BPF_LOADER_NAME = ''solana_bpf_loader_upgradeable_program''"

definition SYSTEM_PROGRAM_NAME :: string where
  "SYSTEM_PROGRAM_NAME = ''system_program''"

definition register_builtins where
  "register_builtins A pb =
     svm_add_builtin A SYSTEM_PROGRAM_NAME DEPLOYMENT_SLOT (length SYSTEM_PROGRAM_NAME)
       (svm_add_builtin A BPF_LOADER_NAME DEPLOYMENT_SLOT (length BPF_LOADER_NAME) pb)"

definition create_transaction_processor where
  "create_transaction_processor A T Y b =
     (let p = svm_set_environment A (svm_new_processor A (t_execution_slot T b) 0) in
      abind (amap_err BuilderError (t_set_clock T (fr_time Y))) (\<lambda>_ b'.
      let (p', b'') = register_builtins A (svm_fill_sysvars A b' p, b') in
      aret p' b'') b)"

definition on_tx_builder where
  "on_tx_builder m X = rbind (m (sb_tx_builder X)) (\<lambda>(r, t). Inr (map_sum SolanaTransactionError id r, X\<lparr>sb_tx_builder := t\<rparr>))"

definition ensure_processor where
  "ensure_processor A T Y X =
     (if sb_tx_processor X = None then
        rbind (create_transaction_processor A T Y (sb_bank X)) (\<lambda>(r, b).
        case r of Inl e \<Rightarrow> Inr (Inl e, X\<lparr>sb_bank := b\<rparr>) | Inr p \<Rightarrow> Inr (Inr (), X\<lparr>sb_bank := b, sb_tx_processor := Some p\<rparr>))
      else aret () X)"

definition build_ex where
  "build_ex A T FS Y =
     abind (on_bank (t_bump T)) (\<lambda>_.
     abind (\<lambda>X. alift (read_program FS X) X) (\<lambda>buffer.
     abind (on_bank (t_deploy_program T (fr_program Y, fr_programdata Y) buffer)) (\<lambda>program_id.
     abind (prepare_accounts T Y) (\<lambda>accounts.
     abind (\<lambda>X. rbind (create_instruction program_id (ea_accounts accounts) (ea_signatures accounts) (sb_calldata X) (sb_tx_builder X))
       (\<lambda>t. aret () (X\<lparr>sb_tx_builder := t\<rparr>))) (\<lambda>_.
     abind (\<lambda>X. on_tx_builder (build (svm_sanitize A) (t_last_blockhash T (sb_bank X)) (ea_fee_payer accounts, fr_fee_signature Y)
       (sb_v0_message X)) X) (\<lambda>(sanitized_transaction, versioned_transaction).
     abind (aread get_checked_tx_details) (\<lambda>check_result.
     abind (ensure_processor A T Y) (\<lambda>_ X.
     case sb_tx_processor X of
       None \<Rightarrow> athrow TransactionProcessorIsNone X
     | Some p \<Rightarrow>
         let (result, p') = svm_execute A p (sb_bank X) [sanitized_transaction] [check_result] get_processing_config in
         aret (result, versioned_transaction) (X\<lparr>sb_tx_processor := Some p'\<rparr>)))))))))"

definition build_out where
  "build_out A T FS Y = abind (build_ex A T FS Y) (\<lambda>(result, _). aret result)"

lemma builder_frame [simp]: "read_program FS (X\<lparr>sb_bank := b\<rparr>) = read_program FS X"
  "get_checked_tx_details (X\<lparr>sb_bank := b\<rparr>) = get_checked_tx_details X"
  "get_checked_tx_details (X\<lparr>sb_tx_builder := t\<rparr>) = get_checked_tx_details X"
  by (simp_all add: read_program_def get_checked_tx_details_def split: option.splits)

section \<open>The contract of a bank\<close>

text \<open>
  A program is deployed when its account points to an account that holds, after the state of the
  loader padded to the size reserved for it, the bytes of the program.
\<close>

definition deployed :: "loader_api \<Rightarrow> (pubkey \<Rightarrow> account option) \<Rightarrow> pubkey \<Rightarrow> pubkey \<Rightarrow> u8 list \<Rightarrow> bool" where
  "deployed L g pk pdk buffer \<longleftrightarrow> (\<exists>a d s. g pk = Some a \<and> acc_data a = ser_program L pdk \<and> acc_owner a = loader_id L \<and>
     g pdk = Some d \<and> acc_data d = ser_program_data L s @
       replicate (programdata_metadata_size L - length (ser_program_data L s)) 0 @ buffer)"

text \<open>The accounts that a list of accounts stores, the last one of a key counting, and the signatures drawn.\<close>

definition inserted :: "(account_meta \<times> account option) list \<Rightarrow> pubkey \<rightharpoonup> account" where
  "inserted xs = map_of (rev (concat (map (\<lambda>(m, acc). case acc of Some a \<Rightarrow> [(meta_pubkey m, a)] | None \<Rightarrow> []) xs)))"

definition drawn :: "fresh \<Rightarrow> nat \<Rightarrow> (account_meta \<times> account option) list \<Rightarrow> (pubkey \<times> signature) list list" where
  "drawn Y n xs = map (\<lambda>(i, m, acc). if is_signer m then [(meta_pubkey m, fr_signature Y i)] else []) (enumerate n xs)"

lemma inserted_Cons: "inserted ((m, acc) # xs) = (case acc of Some a \<Rightarrow> [meta_pubkey m \<mapsto> a] | None \<Rightarrow> Map.empty) ++ inserted xs"
  by (simp add: inserted_def split: option.splits)

lemma drawn_signatures: "have_signatures (map_of (rev (concat (drawn Y n xs)))) (map fst xs)"
proof -
  have "meta_pubkey m \<in> fst ` set (concat (drawn Y n xs))" if "m \<in> set (map fst xs)" "is_signer m" for m
    using that
  proof (induction xs arbitrary: n)
    case (Cons x xs)
    then show ?case by (cases x) (auto simp: drawn_def image_Un)
  qed simp
  then show ?thesis unfolding have_signatures_def map_of_eq_None_iff by simp
qed

locale bank_contract =
  fixes T :: "('b, account) bank_trait" and get :: "'b \<Rightarrow> pubkey \<Rightarrow> account option" and L :: loader_api
  assumes insert_returns: "acc_lamports d \<noteq> 0 \<Longrightarrow> \<exists>b'. t_insert_account T k d b = Inr (Inr (), b') \<and> get b' = (get b)(k \<mapsto> d)"
    and deploy_returns: "pk \<noteq> pdk \<Longrightarrow> \<exists>b'. t_deploy_program T (pk, pdk) buffer b = Inr (Inr pk, b') \<and>
      deployed L (get b') pk pdk buffer \<and> (\<forall>k. k \<noteq> pk \<and> k \<noteq> pdk \<longrightarrow> get b' k = get b k)"
    and bump_returns: "\<exists>b'. t_bump T b = Inr (Inr (), b') \<and> get b' = get b"
begin

lemma on_bank_step:
  assumes "m (sb_bank X) = Inr (Inr x, b')"
  shows "on_bank m X = Inr (Inr x, X\<lparr>sb_bank := b'\<rparr>)"
  using assms by (simp add: on_bank_def)

lemma prepare_account_returns:
  assumes "\<And>a. acc = Some a \<Longrightarrow> acc_lamports a \<noteq> 0"
  shows "\<exists>b'. prepare_account T (Y :: fresh) (i, meta, acc) X =
      Inr (Inr (if is_signer meta then [(meta_pubkey meta, fr_signature Y i)] else []), X\<lparr>sb_bank := b'\<rparr>) \<and>
    get b' = (get (sb_bank X)) ++ (case acc of Some a \<Rightarrow> [meta_pubkey meta \<mapsto> a] | None \<Rightarrow> Map.empty)"
proof (cases acc)
  case None
  then show ?thesis by (intro exI [of _ "sb_bank X"]) (simp add: prepare_account_def abind_def aret_def)
next
  case (Some a)
  from insert_returns [OF assms [OF this], of "meta_pubkey meta" "sb_bank X"] obtain b' where
    "t_insert_account T (meta_pubkey meta) a (sb_bank X) = Inr (Inr (), b')" "get b' = (get (sb_bank X))(meta_pubkey meta \<mapsto> a)" by blast
  then show ?thesis using Some by (intro exI [of _ b']) (simp add: prepare_account_def abind_def aret_def on_bank_step)
qed

lemma prepare_loop:
  assumes "\<forall>(m, acc) \<in> set xs. \<forall>a. acc = Some a \<longrightarrow> acc_lamports a \<noteq> 0"
  shows "\<exists>b'. afor (prepare_account T (Y :: fresh)) (enumerate n xs) X = Inr (Inr (drawn Y n xs), X\<lparr>sb_bank := b'\<rparr>) \<and>
    get b' = get (sb_bank X) ++ inserted xs"
  using assms
proof (induction xs arbitrary: n X)
  case Nil
  then show ?case by (intro exI [of _ "sb_bank X"]) (simp add: drawn_def inserted_def)
next
  case (Cons x xs)
  obtain m acc where x: "x = (m, acc)" by (cases x)
  have "acc_lamports a \<noteq> 0" if "acc = Some a" for a using Cons.prems that by (simp add: x)
  from prepare_account_returns [of acc Y n m X, OF this] obtain b1 where
    1: "prepare_account T Y (n, m, acc) X = Inr (Inr (if is_signer m then [(meta_pubkey m, fr_signature Y n)] else []), X\<lparr>sb_bank := b1\<rparr>)"
      "get b1 = (get (sb_bank X)) ++ (case acc of Some a \<Rightarrow> [meta_pubkey m \<mapsto> a] | None \<Rightarrow> Map.empty)" by blast
  from Cons.IH [of "Suc n" "X\<lparr>sb_bank := b1\<rparr>"] Cons.prems obtain b' where
    2: "afor (prepare_account T Y) (enumerate (Suc n) xs) (X\<lparr>sb_bank := b1\<rparr>) = Inr (Inr (drawn Y (Suc n) xs), X\<lparr>sb_bank := b'\<rparr>)"
      "get b' = get b1 ++ inserted xs" by auto
  show ?case using 1 2 by (intro exI [of _ b']) (simp add: x abind_def aret_def drawn_def inserted_Cons)
qed

lemma prepare_accounts_returns:
  assumes "\<forall>(m, acc) \<in> set (sb_accounts X). \<forall>a. acc = Some a \<longrightarrow> acc_lamports a \<noteq> 0" "fee_payer_balance (sb_settings X) \<noteq> 0"
  shows "\<exists>b' sigs. prepare_accounts T (Y :: fresh) X = Inr (Inr \<lparr>ea_fee_payer = fr_fee_payer Y, ea_accounts = map fst (sb_accounts X),
      ea_signatures = sigs\<rparr>, X\<lparr>sb_bank := b'\<rparr>) \<and> have_signatures sigs (map fst (sb_accounts X)) \<and>
    get b' = (get (sb_bank X) ++ inserted (sb_accounts X))
      (fr_fee_payer Y \<mapsto> account_default\<lparr>acc_lamports := fee_payer_balance (sb_settings X)\<rparr>)"
proof -
  let ?pay = "account_default\<lparr>acc_lamports := fee_payer_balance (sb_settings X)\<rparr>"
  from prepare_loop [OF assms(1), of Y 0 X] obtain b1 where
    1: "afor (prepare_account T Y) (enumerate 0 (sb_accounts X)) X = Inr (Inr (drawn Y 0 (sb_accounts X)), X\<lparr>sb_bank := b1\<rparr>)"
      "get b1 = get (sb_bank X) ++ inserted (sb_accounts X)" by blast
  from insert_returns [of ?pay "fr_fee_payer Y" b1] assms(2) obtain b' where
    2: "t_insert_account T (fr_fee_payer Y) ?pay b1 = Inr (Inr (), b')" "get b' = (get b1)(fr_fee_payer Y \<mapsto> ?pay)" by auto
  then show ?thesis using 1 drawn_signatures [of Y 0 "sb_accounts X"]
    by (intro exI [of _ b'] exI [of _ "map_of (rev (concat (drawn Y 0 (sb_accounts X))))"])
      (simp add: prepare_accounts_def create_fee_payer_def abind_def aret_def on_bank_step)
qed

text \<open>
  The whole run, up to the sanitisation of the transaction: the program is deployed, the accounts and
  the fee payer are stored, and the transaction calls that program with these accounts and the data.
\<close>

lemma build_ex_returns:
  assumes X: "sb_tx_builder X = transaction_builder_default" "sb_tx_processor X = Some p" "length (sb_accounts X) \<le> 254"
      "\<forall>(m, acc) \<in> set (sb_accounts X). \<forall>a. acc = Some a \<longrightarrow> acc_lamports a \<noteq> 0" "fee_payer_balance (sb_settings X) \<noteq> 0"
    and program: "read_program FS X = Inr buffer"
    and distinct: "fr_program (Y :: fresh) \<noteq> fr_programdata Y" "fr_fee_payer Y \<notin> {fr_program Y, fr_programdata Y}"
      "\<forall>(m, acc) \<in> set (sb_accounts X). meta_pubkey m \<notin> {fr_program Y, fr_programdata Y}"
  shows "\<exists>tx b t. (let m = message_of (vt_message tx) in
      map (decompile m) (ci_instructions m) = [(fr_program Y, map fst (sb_accounts X), sb_calldata X)] \<and> account_keys m ! 0 = fr_fee_payer Y) \<and>
    deployed L (get b) (fr_program Y) (fr_programdata Y) buffer \<and>
    (\<forall>k. k \<notin> {fr_program Y, fr_programdata Y} \<longrightarrow> get b k = ((get (sb_bank X) ++ inserted (sb_accounts X))
      (fr_fee_payer Y \<mapsto> account_default\<lparr>acc_lamports := fee_payer_balance (sb_settings X)\<rparr>)) k) \<and>
    (\<forall>stx. try_new_versioned (svm_sanitize A) tx \<and> try_new_sanitized (svm_sanitize A) tx = Inr stx \<longrightarrow>
      (case svm_execute A p b [stx] [get_checked_tx_details X] get_processing_config of (out, p') \<Rightarrow>
        build_ex A T FS Y X = Inr (Inr (out, tx), X\<lparr>sb_bank := b, sb_tx_builder := t, sb_tx_processor := Some p'\<rparr>)))"
proof -
  let ?pk = "fr_program Y" and ?pdk = "fr_programdata Y"
  from bump_returns [of "sb_bank X"] obtain b1 where 1: "t_bump T (sb_bank X) = Inr (Inr (), b1)" "get b1 = get (sb_bank X)" by blast
  from deploy_returns [OF distinct(1), of buffer b1] obtain b2 where 2: "t_deploy_program T (?pk, ?pdk) buffer b1 = Inr (Inr ?pk, b2)"
    "deployed L (get b2) ?pk ?pdk buffer" "\<And>k. k \<noteq> ?pk \<Longrightarrow> k \<noteq> ?pdk \<Longrightarrow> get b2 k = get b1 k" by blast
  from prepare_accounts_returns [of "X\<lparr>sb_bank := b2\<rparr>" Y] X(4,5) obtain b sigs where
    3: "prepare_accounts T Y (X\<lparr>sb_bank := b2\<rparr>) = Inr (Inr \<lparr>ea_fee_payer = fr_fee_payer Y, ea_accounts = map fst (sb_accounts X),
      ea_signatures = sigs\<rparr>, X\<lparr>sb_bank := b\<rparr>)" "have_signatures sigs (map fst (sb_accounts X))"
      "get b = (get b2 ++ inserted (sb_accounts X)) (fr_fee_payer Y \<mapsto> account_default\<lparr>acc_lamports := fee_payer_balance (sb_settings X)\<rparr>)" by auto
  have keep: "inserted (sb_accounts X) k = None" if "k \<in> {?pk, ?pdk}" for k
    using distinct(3) that by (fastforce simp: inserted_def map_of_eq_None_iff split: option.splits)
  have "get b k = get b2 k" if "k \<in> {?pk, ?pdk}" for k
    using that distinct(2) keep [OF that] by (auto simp: 3(3) map_add_def)
  then have dep: "deployed L (get b) ?pk ?pdk buffer" using 2(2) by (simp add: deployed_def)
  have len: "length (map fst (sb_accounts X)) \<le> 254" using X(3) by simp
  from assemble_returns [OF 3(2) len, of ?pk "sb_calldata X" "t_last_blockhash T b" "(fr_fee_payer Y, fr_fee_signature Y)" "sb_v0_message X"]
  obtain t tx t' where c: "create_instruction ?pk (map fst (sb_accounts X)) sigs (sb_calldata X) transaction_builder_default = Inr t"
    and a: "assemble (t_last_blockhash T b) (fr_fee_payer Y, fr_fee_signature Y) (sb_v0_message X) t = Inr (tx, t')"
    and m: "let m = message_of (vt_message tx) in map (decompile m) (ci_instructions m) = [(?pk, map fst (sb_accounts X), sb_calldata X)] \<and>
      account_keys m ! 0 = fr_fee_payer Y" by (auto simp: Let_def)
  have run: "\<forall>stx. try_new_versioned (svm_sanitize A) tx \<and> try_new_sanitized (svm_sanitize A) tx = Inr stx \<longrightarrow>
      (case svm_execute A p b [stx] [get_checked_tx_details X] get_processing_config of (out, p') \<Rightarrow>
        build_ex A T FS Y X = Inr (Inr (out, tx), X\<lparr>sb_bank := b, sb_tx_builder := t', sb_tx_processor := Some p'\<rparr>))"
    using X(1,2) program 1 2(1) 3(1) c a
    by (simp add: build_ex_def abind_def on_bank_step alift_def aret_def aread_def on_tx_builder_def build_def rassert_def
        ensure_processor_def split: prod.splits)
  have "\<forall>k. k \<notin> {?pk, ?pdk} \<longrightarrow> get b k = ((get (sb_bank X) ++ inserted (sb_accounts X))
      (fr_fee_payer Y \<mapsto> account_default\<lparr>acc_lamports := fee_payer_balance (sb_settings X)\<rparr>)) k"
    using 2(3) 1(2) by (auto simp: 3(3) map_add_def split: option.splits)
  then show ?thesis using m dep run by (intro exI [of _ tx] exI [of _ b] exI [of _ t'] conjI)
qed

end

section \<open>The two banks\<close>

interpretation mock: bank_contract "mock_bank_trait L" "\<lambda>B k. mock_get_account k B" L for L
proof unfold_locales
  fix k d b
  show "\<exists>b'. t_insert_account (mock_bank_trait L) k d b = Inr (Inr (), b') \<and>
      (\<lambda>k. mock_get_account k b') = (\<lambda>k. mock_get_account k b)(k \<mapsto> d)"
    by (auto simp: mock_bank_trait_def mock_insert_account_def amodify_def mock_get_account_def)
next
  fix pk pdk :: pubkey and buffer b
  assume "pk \<noteq> pdk"
  then show "\<exists>b'. t_deploy_program (mock_bank_trait L) (pk, pdk) buffer b = Inr (Inr pk, b') \<and>
      deployed L (\<lambda>k. mock_get_account k b') pk pdk buffer \<and>
      (\<forall>k. k \<noteq> pk \<and> k \<noteq> pdk \<longrightarrow> mock_get_account k b' = mock_get_account k b)"
    by (auto simp: mock_bank_trait_def mock_deploy_program_def mock_insert_account_def amodify_def abind_def aret_def
        mock_get_account_def deployed_def sat_sub_def account_default_def Let_def)
qed (auto simp: mock_bank_trait_def aret_def)

text \<open>
  For the other bank, what the crates document: storing an account that has lamports makes it the
  account of its key; the serialised state of a program fits into the space reserved for it, and
  setting the state of an account with at least that space overwrites the beginning of its data.
\<close>

definition store_laws :: "'b wrapped_api \<Rightarrow> bool" where
  "store_laws W \<longleftrightarrow> (\<forall>k a b. acc_lamports a \<noteq> 0 \<longrightarrow> w_get_account W (w_store_account W k a b) = (w_get_account W b)(k \<mapsto> a))"

definition set_state_laws :: "loader_api \<Rightarrow> bool" where
  "set_state_laws L \<longleftrightarrow> (\<forall>s. length (ser_program_data L s) \<le> programdata_metadata_size L) \<and>
     (\<forall>s a. programdata_metadata_size L \<le> length (acc_data a) \<longrightarrow> set_program_data L s a =
       Some (a\<lparr>acc_data := ser_program_data L s @ drop (length (ser_program_data L s)) (acc_data a)\<rparr>))"

lemma wrapper_keeps_contract:
  assumes "store_laws (W :: 'a wrapped_api)" "set_state_laws L"
  shows "bank_contract (bank_wrapper_trait L W) (\<lambda>X. w_get_account W (bw_bank X)) L"
proof unfold_locales
  fix d :: account and k b
  assume "acc_lamports d \<noteq> 0"
  then show "\<exists>b'. t_insert_account (bank_wrapper_trait L W) k d b = Inr (Inr (), b') \<and>
      w_get_account W (bw_bank b') = (w_get_account W (bw_bank b))(k \<mapsto> d)"
    using assms(1) by (auto simp: store_laws_def bank_wrapper_trait_def wrapper_insert_account_def amodify_def)
next
  fix pk pdk :: pubkey and buffer :: "u8 list" and b :: "'a bank_wrapper"
  assume ne: "pk \<noteq> pdk"
  let ?st = "ser_program_data L (previous_slot (bw_cfg b))" and ?n = "programdata_metadata_size L"
  have fits: "length ?st \<le> ?n" using assms(2) by (simp add: set_state_laws_def)
  then have zeros: "take ?n (?st @ drop (length ?st) (replicate (?n + length buffer) 0)) = ?st @ replicate (?n - length ?st) 0" by simp
  have len: "length ?st + (?n + length buffer - length ?st) - ?n = length buffer" using fits by simp
  show "\<exists>b'. t_deploy_program (bank_wrapper_trait L W) (pk, pdk) buffer b = Inr (Inr pk, b') \<and>
      deployed L (w_get_account W (bw_bank b')) pk pdk buffer \<and>
      (\<forall>k. k \<noteq> pk \<and> k \<noteq> pdk \<longrightarrow> w_get_account W (bw_bank b') k = w_get_account W (bw_bank b) k)"
    using assms fits ne zeros len
    by (auto simp: bank_wrapper_trait_def wrapper_deploy_program_def set_state_laws_def runwrap_def copy_from_slice_def Let_def store_laws_def deployed_def)
qed (auto simp: bank_wrapper_trait_def aret_def)

section \<open>Properties\<close>


text \<open>
  C33.  The bank on top of Solana's keeps the contract that the builder relies on: storing an account,
  deploying a program and starting a run return and leave behind what the contract says, so
  what the contract gives for a run holds on it as well.
\<close>

theorem bank_wrapper_contract:
  assumes "store_laws (W :: 'a wrapped_api)" "set_state_laws L"
  shows "bank_contract (bank_wrapper_trait L W) (\<lambda>X. w_get_account W (bw_bank X)) L"
  by (rule wrapper_keeps_contract [OF assms])

section \<open>Witnesses\<close>

text \<open>A loader whose states are one byte in a space of four, a processor that counts, and accounts that are all kept.\<close>

definition example_loader :: loader_api where
  "example_loader = \<lparr>ser_program = (\<lambda>_. [1]), ser_program_data = (\<lambda>_. [2]),
     set_program_data = (\<lambda>_ a. case acc_data a of [] \<Rightarrow> None | x # xs \<Rightarrow> Some (a\<lparr>acc_data := 2 # xs\<rparr>)), programdata_metadata_size = 4, loader_id = 77, clock_id = 78,
     ser_clock = (\<lambda>_. []), loadable_account = (\<lambda>_. account_default)\<rparr>"

definition example_svm :: "('b, string, versioned_transaction, unit, unit, nat) svm_api" where
  "example_svm = \<lparr>svm_sanitize = \<lparr>try_new_versioned = (\<lambda>_. True), try_new_sanitized = Inr\<rparr>, svm_new_processor = (\<lambda>_ _. ()),
     svm_fill_sysvars = (\<lambda>_ p. p), svm_add_builtin = (\<lambda>_ _ _ pb. pb), svm_set_environment = id,
     svm_execute = (\<lambda>_ _ txs _ _. (length txs, ()))\<rparr>"

definition example_files :: file_api where
  "example_files = \<lparr>f_open = (\<lambda>_. Inl ''NotFound''), f_len = (\<lambda>_. Inl ''NotFound''), f_read_exact = (\<lambda>_ _. Inl ''NotFound'')\<rparr>"

definition example_fresh :: fresh where
  "example_fresh = \<lparr>fr_program = 50, fr_programdata = 51, fr_fee_payer = 52, fr_fee_signature = 9, fr_signature = (\<lambda>n. of_nat n), fr_time = 0\<rparr>"

definition example_simple :: "(mock_bank, string, unit, unit) simple_builder" where
  "example_simple = \<lparr>sb_bank = mock_bank_default, sb_settings = builder_settings_default, sb_tx_builder = transaction_builder_default,
     sb_tx_processor = Some (), sb_program_path = None, sb_program_buffer = Some [9], sb_calldata = [1],
     sb_accounts = [(\<lparr>meta_pubkey = 11, is_signer = True, is_writable = True\<rparr>, Some (account_default\<lparr>acc_lamports := 5\<rparr>))],
     sb_v0_message = True, sb_check_result = None\<rparr>"


definition storing_bank :: "(pubkey \<Rightarrow> account option) wrapped_api" where
  "storing_bank = \<lparr>w_store_account = (\<lambda>k a b. b(k \<mapsto> a)), w_get_account = (\<lambda>b. b), w_last_blockhash = (\<lambda>_. 0), w_slot = (\<lambda>_. 0),
     w_register_tick = (\<lambda>_ b. b), w_freeze = id, w_new_from_parent = (\<lambda>_ _ b. b), w_hashv = (\<lambda>h _. h),
     w_new_for_tests = (\<lambda>_. (Map.empty, 0)), w_new_with_paths = (\<lambda>_ _. (Map.empty, 0)), w_create_dirs = Inr, w_u32_to_string = (\<lambda>_. [])\<rparr>"

theorem bank_wrapper_contract_witness:
  "bank_contract (bank_wrapper_trait example_loader storing_bank) (\<lambda>X. bw_bank X) example_loader"
  using bank_wrapper_contract [of storing_bank example_loader]
  by (auto simp: store_laws_def set_state_laws_def storing_bank_def example_loader_def split: list.split)

end
