(* ===== verification/Example_Data.thy ===== *)
theory Example_Data
  imports Svm_Builder
begin

text \<open>
  The data of the example rollup (\<^verbatim>\<open>example/src/l1\<close>, \<^verbatim>\<open>example/src/l2\<close>), the stream of transactions
  (\<^verbatim>\<open>l2/stream.rs\<close>), the ledger (\<^verbatim>\<open>l2/ledger.rs\<close>), the two ways of deriving blocks
  (\<^verbatim>\<open>example/src/derive\<close>) and the mocks that feed them (\<^verbatim>\<open>example/src/mock\<close>).

  A channel is the list of the messages in it, together with whether the other end is still there.  A
  sender that waits because the channel is full only delays its next step, so the capacity is left
  out.  Random numbers and the time are arguments.
\<close>

section \<open>Layer 1\<close>

record l1_head =
  l1_hash :: hash
  l1_height :: nat
  l1_timestamp :: nat

record deposit_tx =
  dep_from :: pubkey
  dep_to :: pubkey
  dep_amount :: nat
  dep_calldata :: "u8 list"

record l1_block_info =
  deposit_txs :: "deposit_tx list"
  l1_batch :: "unit option"
  l1_head_of :: l1_head

record l2_transaction =
  tx_from :: pubkey
  tx_to :: pubkey
  tx_amount :: nat
  tx_calldata :: "u8 list"

definition l2_from_deposit :: "deposit_tx \<Rightarrow> l2_transaction" where
  "l2_from_deposit d = \<lparr>tx_from = dep_from d, tx_to = dep_to d, tx_amount = dep_amount d, tx_calldata = dep_calldata d\<rparr>"

record epoch_info =
  ep_hash :: hash
  ep_height :: nat
  ep_timestamp :: nat

definition epoch_from_head :: "l1_head \<Rightarrow> epoch_info" where
  "epoch_from_head h = \<lparr>ep_hash = l1_hash h, ep_height = l1_height h, ep_timestamp = l1_timestamp h\<rparr>"

record payload_attribute =
  at_transactions :: "l2_transaction list"
  at_epoch :: epoch_info
  at_sequence_number :: nat

definition attribute_from_head :: "l1_head \<Rightarrow> payload_attribute" where
  "attribute_from_head h = \<lparr>at_transactions = [], at_epoch = epoch_from_head h, at_sequence_number = 0\<rparr>"

definition attribute_from_block :: "l1_block_info \<Rightarrow> payload_attribute" where
  "attribute_from_block i = \<lparr>at_transactions = map l2_from_deposit (deposit_txs i), at_epoch = epoch_from_head (l1_head_of i),
     at_sequence_number = 0\<rparr>"

section \<open>Layer 2\<close>

record l2_head =
  l2_hash :: hash
  l2_height :: nat
  l2_timestamp :: nat

definition l2_head_default :: l2_head where
  "l2_head_default = \<lparr>l2_hash = 0, l2_height = 0, l2_timestamp = 0\<rparr>"

record simple_entry =
  se_num_hashes :: nat
  se_hash :: hash
  se_transactions :: "versioned_transaction list"

definition new_simple_entry :: "versioned_transaction list \<Rightarrow> simple_entry" where
  "new_simple_entry txs = \<lparr>se_num_hashes = length txs, se_hash = 0, se_transactions = txs\<rparr>"

definition tx_count :: "simple_entry \<Rightarrow> nat" where
  "tx_count e = length (se_transactions e)"

text \<open>A payload and a block have the same fields, and a payload is made a block field by field.\<close>

record simple_block =
  bl_head :: l2_head
  bl_entries :: "simple_entry list"

section \<open>The stream of transactions\<close>

definition DEFAULT_MAX_SIZE :: nat where
  "DEFAULT_MAX_SIZE = 1024"

definition stream_insert :: "l2_transaction \<Rightarrow> l2_transaction list \<Rightarrow> l2_transaction list" where
  "stream_insert tx s = s @ [tx]"

definition next_batch :: "nat \<Rightarrow> l2_transaction list \<Rightarrow> l2_transaction list \<times> l2_transaction list" where
  "next_batch max_size s = (if max_size \<le> length s then (take max_size s, drop max_size s) else (s, []))"

section \<open>The ledger\<close>

text \<open>The ordered map from heights to blocks, as the list of its entries.\<close>

fun btree_insert :: "nat \<Rightarrow> 'a \<Rightarrow> (nat \<times> 'a) list \<Rightarrow> (nat \<times> 'a) list" where
  "btree_insert k v [] = [(k, v)]"
| "btree_insert k v ((k', v') # kvs) =
     (if k < k' then (k, v) # (k', v') # kvs else if k = k' then (k, v) # kvs else (k', v') # btree_insert k v kvs)"

record mock_ledger =
  lg_blocks :: "(nat \<times> simple_block) list"
  lg_hash_map :: "hash \<rightharpoonup> nat"

definition mock_ledger_default :: mock_ledger where
  "mock_ledger_default = \<lparr>lg_blocks = [], lg_hash_map = Map.empty\<rparr>"

definition ledger_new_block :: "simple_block \<Rightarrow> mock_ledger \<Rightarrow> l2_head \<times> mock_ledger" where
  "ledger_new_block b G =
     (let h = bl_head b in
      (h, G\<lparr>lg_blocks := btree_insert (l2_height h) b (lg_blocks G), lg_hash_map := (lg_hash_map G)(l2_hash h \<mapsto> l2_height h)\<rparr>))"

definition latest_height :: "mock_ledger \<Rightarrow> nat" where
  "latest_height G = (if lg_blocks G = [] then 0 else fst (last (lg_blocks G)))"

section \<open>Derivation\<close>

record 'a chan =
  ch_buffer :: "'a list"
  ch_open :: bool

text \<open>Sending to a channel whose receiver is gone is an error, and the message is lost.\<close>

definition chan_send :: "'a \<Rightarrow> 'a chan \<Rightarrow> (unit + unit) \<times> 'a chan" where
  "chan_send x c = (if ch_open c then (Inr (), c\<lparr>ch_buffer := ch_buffer c @ [x]\<rparr>) else (Inl (), c))"

definition get_new_block :: "l1_block_info chan \<Rightarrow> (string + l1_block_info option) \<times> l1_block_info chan" where
  "get_new_block c =
     (case ch_buffer c of
        i # rest \<Rightarrow> (Inr (Some i), c\<lparr>ch_buffer := rest\<rparr>)
      | [] \<Rightarrow> (if ch_open c then (Inr None, c) else (Inl ''Receiver disconnected'', c)))"

definition da_next :: "payload_attribute list \<Rightarrow> payload_attribute option \<times> payload_attribute list" where
  "da_next cached = (if cached = [] then (None, []) else (Some (last cached), butlast cached))"

definition try_update :: "payload_attribute list \<times> payload_attribute list chan \<Rightarrow> payload_attribute list \<times> payload_attribute list chan" where
  "try_update = (\<lambda>(cached, c). case ch_buffer c of
     payloads # rest \<Rightarrow> (cached @ payloads, c\<lparr>ch_buffer := rest\<rparr>)
   | [] \<Rightarrow> (cached, c))"

section \<open>Mocks\<close>

definition generate_block :: "nat \<Rightarrow> deposit_tx list \<Rightarrow> nat \<Rightarrow> l1_block_info" where
  "generate_block now deposits height =
     \<lparr>deposit_txs = deposits, l1_batch = None, l1_head_of = \<lparr>l1_hash = 0, l1_height = height, l1_timestamp = now\<rparr>\<rparr>"

definition random_deposit_tx :: "pubkey \<Rightarrow> pubkey \<Rightarrow> nat \<Rightarrow> deposit_tx" where
  "random_deposit_tx from to r = \<lparr>dep_from = from, dep_to = to, dep_amount = r mod 100, dep_calldata = []\<rparr>"

definition random_deposit_txs :: "nat \<Rightarrow> (nat \<Rightarrow> pubkey \<times> pubkey \<times> nat) \<Rightarrow> deposit_tx list" where
  "random_deposit_txs r draw = map (\<lambda>i. case draw i of (from, to, a) \<Rightarrow> random_deposit_tx from to a) [0..<r mod 10]"

definition random_l2_tx :: "pubkey \<Rightarrow> pubkey \<Rightarrow> nat \<Rightarrow> l2_transaction" where
  "random_l2_tx from to r = \<lparr>tx_from = from, tx_to = to, tx_amount = r mod 100, tx_calldata = []\<rparr>"

text \<open>One round of the mocked layer 1 and of the transaction server.\<close>

definition layer1_round :: "nat \<Rightarrow> nat \<Rightarrow> (nat \<Rightarrow> pubkey \<times> pubkey \<times> nat) \<Rightarrow> nat \<times> l1_block_info chan \<Rightarrow> (nat \<times> l1_block_info chan) res" where
  "layer1_round now r draw = (\<lambda>(height, c).
     rbind (checked_add 64 height 1) (\<lambda>height'.
     Inr (height', snd (chan_send (generate_block now (random_deposit_txs r draw) height') c))))"

definition tx_server_round :: "nat \<Rightarrow> (nat \<Rightarrow> pubkey \<times> pubkey \<times> nat) \<Rightarrow> l2_transaction list \<Rightarrow> l2_transaction list" where
  "tx_server_round r draw s =
     fold (\<lambda>i. stream_insert (case draw i of (from, to, a) \<Rightarrow> random_l2_tx from to a)) [0..<r mod 5] s"

section \<open>Lemmas\<close>

lemma next_batch_split: "next_batch n s = (b, s') \<Longrightarrow> s = b @ s' \<and> length b \<le> n \<and> (s' \<noteq> [] \<longrightarrow> length b = n)"
  by (auto simp: next_batch_def split: if_splits)

lemma btree_insert_last:
  assumes "\<forall>k' \<in> set (map fst kvs). k' < k"
  shows "btree_insert k v kvs = kvs @ [(k, v)]"
  using assms by (induction kvs) auto

lemma attribute_heights [simp]: "ep_height (at_epoch (attribute_from_head h)) = l1_height h"
  "ep_height (at_epoch (attribute_from_block i)) = l1_height (l1_head_of i)"
  "at_sequence_number (attribute_from_block i) = 0"
  by (simp_all add: attribute_from_head_def attribute_from_block_def epoch_from_head_def)

end
