(* ===== verification/Example_Engine.thy ===== *)
theory Example_Engine
  imports Example_Data
begin

text \<open>
  The engine of the example rollup: the producer of blocks (\<^verbatim>\<open>example/src/l2/producer.rs\<close>), the block
  store (\<^verbatim>\<open>l2/blockstore.rs\<close>) and the engine itself (\<^verbatim>\<open>l2/engine.rs\<close>).

  The accounts live in a bank that every run of a transaction shares, so the producer keeps the bank
  that a run leaves behind, also when the run fails.  \<open>example_api\<close> collects what is called of other
  crates; \<open>x_first_result\<close> is the first execution result: whether there is one, whether it has
  details, and whether its status is an error.
\<close>

section \<open>The environment\<close>

record ('b, 'stx, 'p, 'n, 'out, 's, 'sh, 'kp) example_api =
  x_wrapped :: "'b wrapped_api"
  x_loader :: loader_api
  x_svm :: "('b bank_wrapper, string, 'stx, 'p, 'n, 'out) svm_api"
  x_files :: file_api
  x_first_result :: "'out \<Rightarrow> bool option option"
  x_fresh :: "nat \<Rightarrow> fresh"
  x_new_ok :: "slot \<Rightarrow> slot \<Rightarrow> nat \<Rightarrow> nat \<Rightarrow> bool"
  x_shreds :: "slot \<times> slot \<times> nat \<times> nat \<Rightarrow> 'kp \<Rightarrow> simple_entry list \<Rightarrow> bool \<Rightarrow> hash option \<Rightarrow> nat \<Rightarrow> nat \<Rightarrow> 'sh list \<times> 'sh list"
  x_merkle_root :: "'sh \<Rightarrow> string + hash"
  x_is_data :: "'sh \<Rightarrow> bool"
  x_insert_shreds :: "'sh list \<Rightarrow> 's \<Rightarrow> (string + unit) \<times> 's"

datatype example_error =
    Anyhow string
  | SvmFailure "string svm_error"

section \<open>The producer\<close>

record ('b, 'p) svm_producer =
  pr_bank :: "'b bank_wrapper"
  pr_tx_processor :: 'p
  pr_system_account :: pubkey
  txs_per_entry :: nat
  pr_drawn :: nat

definition new_producer where
  "new_producer E base_path =
     rbind (new_with_path (x_wrapped E) base_path 4 wrapper_config_default) (\<lambda>r.
     case r of
       Inl e \<Rightarrow> Inr (Inl (SvmFailure (StdIo e)))
     | Inr bank \<Rightarrow>
         rbind (create_transaction_processor (x_svm E) (bank_wrapper_trait (x_loader E) (x_wrapped E)) (x_fresh E 0) bank) (\<lambda>(r', bank').
         Inr (map_sum SvmFailure (\<lambda>p. \<lparr>pr_bank = bank', pr_tx_processor = p, pr_system_account = 0, txs_per_entry = 64, pr_drawn = 1\<rparr>) r')))"

definition INIT_LAMPORTS :: nat where
  "INIT_LAMPORTS = 900000"

definition to_be_bytes :: "nat \<Rightarrow> u8 list" where
  "to_be_bytes n = map (\<lambda>i. of_nat (n div 256 ^ (7 - i) mod 256)) [0..<8]"

definition get_program_path :: string where
  "get_program_path = ''svm/executor/tests/simple_transfer_program.so''"

definition transaction_run where
  "transaction_run tx P X =
     with_calldata (to_be_bytes (tx_amount tx)) (with_v0_message True
       (account_with_balance (pr_system_account P) None False False
       (account_with_balance (tx_to tx) (Some INIT_LAMPORTS) False True
       (account_with_balance (tx_from tx) (Some INIT_LAMPORTS) True True
       (with_program_path (Some get_program_path)
       (with_bank (pr_bank P) (with_tx_processor (pr_tx_processor P) X)))))))"

definition process_single_tx where
  "process_single_tx E tx P =
     rbind (wrapper_init (x_wrapped E) wrapper_config_default) (\<lambda>r.
     case simple_builder_init r of
       Inl e \<Rightarrow> Inr (Inl (SvmFailure e), P)
     | Inr X \<Rightarrow>
         rbind (build_ex (x_svm E) (bank_wrapper_trait (x_loader E) (x_wrapped E)) (x_files E) (x_fresh E (pr_drawn P)) (transaction_run tx P X))
           (\<lambda>(out, X').
         let P' = P\<lparr>pr_bank := sb_bank X', pr_drawn := pr_drawn P + 1,
               pr_tx_processor := (case sb_tx_processor X' of Some p \<Rightarrow> p | None \<Rightarrow> pr_tx_processor P)\<rparr> in
         Inr (case out of
             Inl e \<Rightarrow> Inl (SvmFailure e)
           | Inr (result, txs) \<Rightarrow> (case x_first_result E result of
               None \<Rightarrow> Inl (Anyhow ''no result'')
             | Some None \<Rightarrow> Inl (Anyhow ''no details'')
             | Some (Some True) \<Rightarrow> Inl (Anyhow ''tx failed'')
             | Some (Some False) \<Rightarrow> Inr txs), P')))"

fun process_loop where
  "process_loop E [] result txs P =
     Inr (Inr (if txs \<noteq> [] then result @ [new_simple_entry txs] else result), P)"
| "process_loop E (tx # rest) result txs P =
     abind (process_single_tx E tx) (\<lambda>v.
       let txs' = txs @ [v] in
       if txs_per_entry P \<le> length txs' then process_loop E rest (result @ [new_simple_entry txs']) []
       else process_loop E rest result txs') P"

definition process_txs where
  "process_txs E attribute = process_loop E (at_transactions attribute) [] []"

definition produce where
  "produce E now attribute G P =
     rbind (checked_add 64 (latest_height G) 1) (\<lambda>new_height.
     abind (process_txs E attribute) (\<lambda>entries.
     aret \<lparr>bl_head = \<lparr>l2_hash = 0, l2_height = new_height, l2_timestamp = now\<rparr>, bl_entries = entries\<rparr>) P)"

section \<open>The block store\<close>

text \<open>\<^verbatim>\<open>Vec::append\<close> moves the elements and leaves the other vector empty.\<close>

definition vec_append :: "'a list \<Rightarrow> 'a list \<Rightarrow> 'a list \<times> 'a list" where
  "vec_append xs ys = (xs @ ys, [])"

definition vec_last :: "'a list \<Rightarrow> 'a option" where
  "vec_last xs = (if xs = [] then None else Some (last xs))"

record 'sh write_locals =
  wl_current_slot :: slot
  wl_remaining_ticks :: nat
  wl_shredder :: "slot \<times> slot \<times> nat \<times> nat"
  wl_all_shreds :: "'sh list"
  wl_slot_entries :: "simple_entry list"
  wl_merkle_root :: "hash option"

definition is_tick_entry :: "simple_entry \<Rightarrow> bool" where
  "is_tick_entry e \<longleftrightarrow> se_transactions e = []"

definition next_slot where
  "next_slot E ticks_per_slot kp Lc =
     rbind (checked_add 64 (wl_current_slot Lc) 1) (\<lambda>current_slot.
     let parent_slot = current_slot - 1;
         (data_shreds, coding_shreds) = x_shreds E (wl_shredder Lc) kp (wl_slot_entries Lc) True (wl_merkle_root Lc) 0 0;
         (all1, data_shreds') = vec_append (wl_all_shreds Lc) data_shreds;
         (all2, coding_shreds') = vec_append all1 coding_shreds in
     rbind (runwrap ''called Option::unwrap() on a None value'' (vec_last coding_shreds')) (\<lambda>sh.
     case x_merkle_root E sh of
       Inl e \<Rightarrow> Inl (UnwrapOnNone e)
     | Inr h \<Rightarrow>
         rbind (rassert (x_new_ok E current_slot parent_slot 0 0) ''Shredder::new'') (\<lambda>_.
         Inr \<lparr>wl_current_slot = current_slot, wl_remaining_ticks = ticks_per_slot, wl_shredder = (current_slot, parent_slot, 0, 0),
           wl_all_shreds = all2, wl_slot_entries = [], wl_merkle_root = Some h\<rparr>)))"

definition write_entry where
  "write_entry E ticks_per_slot kp entry Lc =
     rbind (if wl_remaining_ticks Lc = 0 then next_slot E ticks_per_slot kp Lc else Inr Lc) (\<lambda>Lc'.
     rbind (if is_tick_entry entry then checked_sub (wl_remaining_ticks Lc') 1 else Inr (wl_remaining_ticks Lc')) (\<lambda>remaining.
     Inr (Lc'\<lparr>wl_remaining_ticks := remaining, wl_slot_entries := wl_slot_entries Lc' @ [entry]\<rparr>)))"

definition write_entries where
  "write_entries E start_slot ticks_per_slot parent is_full_slot kp root entries bs =
     (let parent_slot = (case parent of None \<Rightarrow> sat_sub start_slot 1 | Some v \<Rightarrow> v) in
      rbind (checked_sub start_slot parent_slot) (\<lambda>d.
      let num_slots = max d 1; ticks = num_slots * ticks_per_slot in
      rbind (if ticks \<le> umax 64 then Inr () else Inl ArithmeticOverflow) (\<lambda>_.
      rbind (rassert (0 < ticks) ''NUM_TICKS_IN_START_SLOT < num_slots * ticks_per_slot'') (\<lambda>_.
      rbind (rassert (x_new_ok E start_slot parent_slot 0 0) ''Shredder::new'') (\<lambda>_.
      rbind (rfold (write_entry E ticks_per_slot kp) entries
        \<lparr>wl_current_slot = start_slot, wl_remaining_ticks = ticks, wl_shredder = (start_slot, parent_slot, 0, 0),
          wl_all_shreds = [], wl_slot_entries = [], wl_merkle_root = Some root\<rparr>) (\<lambda>Lc.
      let all_shreds = (if wl_slot_entries Lc \<noteq> [] then
            (case x_shreds E (wl_shredder Lc) kp (wl_slot_entries Lc) is_full_slot (wl_merkle_root Lc) 0 0 of
               (data_shreds, coding_shreds) \<Rightarrow> wl_all_shreds Lc @ data_shreds @ coding_shreds)
            else wl_all_shreds Lc);
          num_data = length (filter (x_is_data E) all_shreds);
          (r, bs') = x_insert_shreds E all_shreds bs in
      Inr (map_sum Anyhow (\<lambda>_. num_data) r, bs')))))))"

section \<open>The engine\<close>

record ('b, 'p, 's) svm_engine =
  en_stream :: "l2_transaction list"
  en_producer :: "('b, 'p) svm_producer"
  en_ledger :: mock_ledger
  en_blockstore :: 's
  en_attributes :: "payload_attribute chan"

definition new_engine where
  "new_engine E open_blockstore base_path attribute_sender =
     (case open_blockstore (base_path @ [''blockstore'']) of
        Inl e \<Rightarrow> Inr (Inl (Anyhow e))
      | Inr bs \<Rightarrow>
          rbind (new_producer E (base_path @ [''accountsdb''])) (\<lambda>r.
          Inr (map_sum id (\<lambda>P. \<lparr>en_stream = [], en_producer = P, en_ledger = mock_ledger_default, en_blockstore = bs,
            en_attributes = attribute_sender\<rparr>) r)))"

definition produce_block where
  "produce_block E now attribute N =
     (let (extra_txs, stream') = next_batch DEFAULT_MAX_SIZE (en_stream N);
          transactions = at_transactions attribute @ extra_txs;
          new_attribute = \<lparr>at_transactions = transactions, at_epoch = at_epoch attribute, at_sequence_number = at_sequence_number attribute\<rparr>;
          N1 = N\<lparr>en_stream := stream'\<rparr> in
      rbind (produce E now new_attribute (en_ledger N) (en_producer N)) (\<lambda>(r, P').
      let N2 = N1\<lparr>en_producer := P'\<rparr> in
      case r of
        Inl e \<Rightarrow> Inr (Inl e, N2)
      | Inr block \<Rightarrow> Inr (Inr block, N2\<lparr>en_attributes := snd (chan_send new_attribute (en_attributes N2))\<rparr>)))"

definition get_head where
  "get_head height N = map_option bl_head (map_of (lg_blocks (en_ledger N)) height)"

definition engine_new_block where
  "engine_new_block E kp root block N =
     (let (h, G') = ledger_new_block block (en_ledger N); N1 = N\<lparr>en_ledger := G'\<rparr> in
      rbind (write_entries E (l2_height h) 10 (Some (sat_sub (l2_height h) 1)) True kp root (bl_entries block) (en_blockstore N1)) (\<lambda>(r, bs').
      let N2 = N1\<lparr>en_blockstore := bs'\<rparr> in
      Inr (map_sum id (\<lambda>_. h) r, N2)))"

definition engine_reorg :: "l2_head \<Rightarrow> ('n, example_error, unit) act" where
  "engine_reorg reset_to N = Inl (ExplicitPanic ''not yet implemented'')"

definition engine_finalize :: "l2_head \<Rightarrow> ('n, example_error, unit) act" where
  "engine_finalize block N = Inl (ExplicitPanic ''not yet implemented'')"

section \<open>Blocks\<close>

lemma process_single_tx_frame:
  assumes "process_single_tx E tx P = Inr (r, P')"
  shows "txs_per_entry P' = txs_per_entry P"
proof -
  from assms obtain x where x: "wrapper_init (x_wrapped E) wrapper_config_default = Inr x"
    by (auto simp: process_single_tx_def res_simps)
  show ?thesis
  proof (cases x)
    case (Inl e)
    then show ?thesis using assms x by (simp add: process_single_tx_def simple_builder_init_def)
  next
    case (Inr X)
    then show ?thesis using assms x by (auto simp: process_single_tx_def simple_builder_init_def Let_def case_prod_beta res_simps)
  qed
qed

lemma chunks_snoc_full:
  assumes "length txs < n" "n \<le> length (txs @ [v])"
  shows "chunks n (txs @ v # vs) = (txs @ [v]) # chunks n vs"
proof -
  have n: "n = Suc (length txs)" using assms by simp
  show ?thesis unfolding n by (subst chunks.simps) simp
qed

lemma chunks_short: "txs \<noteq> [] \<Longrightarrow> length txs < n \<Longrightarrow> chunks n txs = [txs]"
  by (subst chunks.simps) (auto simp: chunks.simps)

text \<open>A run of the loop that succeeds packs the transactions it built, in order, into entries of the same size.\<close>

lemma process_loop_packs:
  assumes "process_loop E l result txs P = Inr (Inr es, P')" "length txs < txs_per_entry P"
  shows "\<exists>vs. length vs = length l \<and> es = result @ map new_simple_entry (chunks (txs_per_entry P) (txs @ vs))"
  using assms
proof (induction l arbitrary: result txs P)
  case Nil
  then show ?case by (cases "txs = []") (auto simp: chunks_short)
next
  case (Cons tx l)
  from Cons.prems(1) obtain v P1 where v: "process_single_tx E tx P = Inr (Inr v, P1)"
    and rest: "(if txs_per_entry P \<le> length (txs @ [v]) then process_loop E l (result @ [new_simple_entry (txs @ [v])]) []
       else process_loop E l result (txs @ [v])) P1 = Inr (Inr es, P')" by (auto simp: act_simps Let_def)
  have n: "txs_per_entry P1 = txs_per_entry P" by (rule process_single_tx_frame [OF v])
  show ?case
  proof (cases "txs_per_entry P \<le> length (txs @ [v])")
    case True
    from Cons.IH [of "result @ [new_simple_entry (txs @ [v])]" "[]" P1] rest True n Cons.prems(2) obtain vs where
      "length vs = length l" "es = (result @ [new_simple_entry (txs @ [v])]) @ map new_simple_entry (chunks (txs_per_entry P) vs)" by auto
    then show ?thesis using chunks_snoc_full [OF Cons.prems(2) True, of vs] by (intro exI [of _ "v # vs"]) simp
  next
    case False
    from Cons.IH [of result "txs @ [v]" P1] rest False n obtain vs where
      "length vs = length l" "es = result @ map new_simple_entry (chunks (txs_per_entry P) ((txs @ [v]) @ vs))" by auto
    then show ?thesis by (intro exI [of _ "v # vs"]) simp
  qed
qed

lemma produce_block_cases:
  assumes "produce_block E now a N = Inr (r, N')"
  obtains batch stream' P' where "en_stream N = batch @ stream'" "length batch \<le> DEFAULT_MAX_SIZE"
    "stream' \<noteq> [] \<longrightarrow> length batch = DEFAULT_MAX_SIZE"
    "produce E now \<lparr>at_transactions = at_transactions a @ batch, at_epoch = at_epoch a, at_sequence_number = at_sequence_number a\<rparr>
       (en_ledger N) (en_producer N) = Inr (r, P')"
    "N' = N\<lparr>en_stream := stream', en_producer := P', en_attributes := (case r of Inl e \<Rightarrow> en_attributes N | Inr b \<Rightarrow>
       snd (chan_send \<lparr>at_transactions = at_transactions a @ batch, at_epoch = at_epoch a, at_sequence_number = at_sequence_number a\<rparr> (en_attributes N)))\<rparr>"
proof -
  obtain batch stream' where b: "next_batch DEFAULT_MAX_SIZE (en_stream N) = (batch, stream')" by fastforce
  from assms obtain r0 P' where p: "produce E now \<lparr>at_transactions = at_transactions a @ batch, at_epoch = at_epoch a,
      at_sequence_number = at_sequence_number a\<rparr> (en_ledger N) (en_producer N) = Inr (r0, P')"
    by (auto simp: produce_block_def b Let_def res_simps)
  have "r0 = r" using assms p by (cases r0) (auto simp: produce_block_def b Let_def)
  moreover from this have "N' = N\<lparr>en_stream := stream', en_producer := P', en_attributes := (case r of Inl e \<Rightarrow> en_attributes N | Inr b \<Rightarrow>
       snd (chan_send \<lparr>at_transactions = at_transactions a @ batch, at_epoch = at_epoch a, at_sequence_number = at_sequence_number a\<rparr> (en_attributes N)))\<rparr>"
    using assms p by (cases r) (auto simp: produce_block_def b Let_def)
  ultimately show thesis using that [of batch stream' P'] next_batch_split [OF b] p by blast
qed

lemma produce_ok:
  assumes "produce E now a G P = Inr (Inr block, P')" "0 < txs_per_entry P"
  shows "l2_height (bl_head block) = latest_height G + 1"
    "\<exists>vs. length vs = length (at_transactions a) \<and> bl_entries block = map new_simple_entry (chunks (txs_per_entry P) vs)"
  using assms process_loop_packs [of E "at_transactions a" "[]" "[]" P]
  by (auto simp: produce_def process_txs_def act_simps res_simps)

section \<open>Writing a block\<close>

text \<open>Entries that are not ticks all go into the slot they were started in.\<close>

lemma write_no_ticks:
  assumes "\<forall>e \<in> set es. \<not> is_tick_entry e" "wl_remaining_ticks Lc \<noteq> 0"
  shows "rfold (write_entry E n kp) es Lc = Inr (Lc\<lparr>wl_slot_entries := wl_slot_entries Lc @ es\<rparr>)"
  using assms by (induction es arbitrary: Lc) (simp_all add: write_entry_def)

lemma next_slot_panics: "\<exists>e. next_slot E n kp Lc = Inl e"
  by (cases "checked_add 64 (wl_current_slot Lc) 1")
    (auto simp: next_slot_def vec_append_def vec_last_def runwrap_def Let_def split: prod.splits)

lemma write_entries_no_ticks:
  assumes "\<forall>e \<in> set es. \<not> is_tick_entry e" "0 < s" "x_new_ok E s (s - 1) 0 0"
  shows "write_entries E s 10 (Some (sat_sub s 1)) full kp root es bs =
    (let shreds = (if es = [] then [] else case x_shreds E (s, s - 1, 0, 0) kp es full (Some root) 0 0 of (d, c) \<Rightarrow> d @ c);
         (r, bs') = x_insert_shreds E shreds bs in
     Inr (map_sum Anyhow (\<lambda>_. length (filter (x_is_data E) shreds)) r, bs'))"
proof -
  have "s - (s - Suc 0) = 1" using assms(2) by simp
  then show ?thesis
    using assms(3) by (simp add: write_entries_def sat_sub_def checked_sub_def umax_def rassert_def write_no_ticks [OF assms(1)] Let_def)
qed

section \<open>Properties\<close>


text \<open>Where the production of a block fails, the transactions taken from the stream are gone.\<close>

lemma failed_block_loses_transactions:
  assumes "produce_block E now a N = Inr (Inl e, N')"
  shows "\<exists>batch. en_stream N = batch @ en_stream N' \<and> length batch = min 1024 (length (en_stream N)) \<and>
    en_ledger N' = en_ledger N \<and> en_attributes N' = en_attributes N"
  using assms
proof (rule produce_block_cases)
  fix batch stream' P'
  assume b: "en_stream N = batch @ stream'" "length batch \<le> DEFAULT_MAX_SIZE" "stream' \<noteq> [] \<longrightarrow> length batch = DEFAULT_MAX_SIZE"
    and N': "N' = N\<lparr>en_stream := stream', en_producer := P', en_attributes := (case Inl e of Inl e \<Rightarrow> en_attributes N | Inr b \<Rightarrow>
       snd (chan_send \<lparr>at_transactions = at_transactions a @ batch, at_epoch = at_epoch a, at_sequence_number = at_sequence_number a\<rparr> (en_attributes N)))\<rparr>"
  have "length batch = min 1024 (length (en_stream N))" using b by (cases "stream' = []") (auto simp: DEFAULT_MAX_SIZE_def)
  then show ?thesis using b(1) by (simp add: N')
qed

text \<open>
  Writing more entries after the ticks of the slot are used up panics: the coding shreds have been
  moved out of the vector whose last element is taken.
\<close>

lemma write_beyond_slot_panics:
  assumes "wl_remaining_ticks Lc = 0"
  shows "\<exists>x. rfold (write_entry E n kp) (e # es) Lc = Inl x"
  using next_slot_panics [of E n kp Lc] assms by (auto simp: write_entry_def)

section \<open>Witnesses\<close>

text \<open>The operations of the witnesses for the builder, a file with one byte, and a store that is a list of shreds.\<close>

definition example_env :: "(pubkey \<Rightarrow> account option, versioned_transaction, unit, unit, nat, nat list, nat, unit) example_api" where
  "example_env = \<lparr>x_wrapped = storing_bank, x_loader = example_loader, x_svm = example_svm,
     x_files = \<lparr>f_open = (\<lambda>_. Inr ()), f_len = (\<lambda>_. Inr 1), f_read_exact = (\<lambda>_ _. Inr [9])\<rparr>,
     x_first_result = (\<lambda>n. if n = 0 then None else Some (Some False)), x_fresh = (\<lambda>_. example_fresh),
     x_new_ok = (\<lambda>s p _ _. p < s), x_shreds = (\<lambda>_ _ es _ _ i j. ([i..<i + length es], [])), x_merkle_root = (\<lambda>_. Inr 0),
     x_is_data = (\<lambda>_. True), x_insert_shreds = (\<lambda>x s. (Inr (), s @ x))\<rparr>"

definition example_engine :: "(pubkey \<Rightarrow> account option, unit, nat list) svm_engine" where
  "example_engine = \<lparr>en_stream = [random_l2_tx 11 12 5], en_producer = \<lparr>pr_bank = \<lparr>bw_bank = Map.empty, bw_cfg = wrapper_config_default, validator_pubkey = 0\<rparr>,
     pr_tx_processor = (), pr_system_account = 0, txs_per_entry = 64, pr_drawn = 0\<rparr>, en_ledger = mock_ledger_default, en_blockstore = [],
     en_attributes = \<lparr>ch_buffer = [], ch_open = True\<rparr>\<rparr>"

lemma storing_bank_new: "new_bank_wrapper storing_bank cfg = Inr \<lparr>bw_bank = Map.empty, bw_cfg = cfg, validator_pubkey = 0\<rparr>"
proof -
  have "goto_end_of_slot storing_bank cfg b = Some b" for b
    by (simp add: goto_end_of_slot_def goto_end_of_slot_with_scheduler.simps) (simp add: storing_bank_def)
  then show ?thesis by (simp add: new_bank_wrapper_def new_from_bank_def) (simp add: storing_bank_def)
qed

lemma example_single_tx:
  assumes "fr_program example_fresh \<notin> {tx_from tx, tx_to tx, pr_system_account P}" "fr_programdata example_fresh \<notin> {tx_from tx, tx_to tx, pr_system_account P}"
  shows "\<exists>v P'. process_single_tx example_env tx P = Inr (Inr v, P')"
proof -
  have laws: "store_laws storing_bank" "set_state_laws example_loader"
    by (auto simp: store_laws_def storing_bank_def set_state_laws_def example_loader_def split: list.split)
  let ?X = "transaction_run tx P \<lparr>sb_bank = \<lparr>bw_bank = Map.empty, bw_cfg = wrapper_config_default, validator_pubkey = 0\<rparr>,
      sb_settings = builder_settings_default, sb_tx_builder = transaction_builder_default, sb_tx_processor = None, sb_program_path = None,
      sb_program_buffer = None, sb_calldata = [], sb_accounts = [], sb_v0_message = False, sb_check_result = None\<rparr>"
  have X: "sb_tx_builder ?X = transaction_builder_default" "sb_tx_processor ?X = Some (pr_tx_processor P)" "length (sb_accounts ?X) \<le> 254"
    "\<forall>(m, acc) \<in> set (sb_accounts ?X). \<forall>a. acc = Some a \<longrightarrow> acc_lamports a \<noteq> 0" "fee_payer_balance (sb_settings ?X) \<noteq> 0"
    "read_program (x_files example_env) ?X = Inr [9]" "fr_program example_fresh \<noteq> fr_programdata example_fresh"
    "fr_fee_payer example_fresh \<notin> {fr_program example_fresh, fr_programdata example_fresh}"
    "\<forall>(m, acc) \<in> set (sb_accounts ?X). meta_pubkey m \<notin> {fr_program example_fresh, fr_programdata example_fresh}"
    using assms
    by (auto simp: transaction_run_def with_calldata_def with_v0_message_def account_with_balance_def account_with_def with_program_path_def
        with_bank_def with_tx_processor_def INIT_LAMPORTS_def builder_settings_default_def read_program_def read_file_def example_env_def example_fresh_def)
  from bank_contract.build_ex_returns [OF wrapper_keeps_contract [OF laws] X, of example_svm] obtain tx' b t where
    "build_ex example_svm (bank_wrapper_trait example_loader storing_bank) (x_files example_env) example_fresh ?X =
      Inr (Inr (1, tx'), ?X\<lparr>sb_bank := b, sb_tx_builder := t, sb_tx_processor := Some ()\<rparr>)"
    by (auto simp: example_svm_def)
  then show ?thesis
    by (simp add: process_single_tx_def wrapper_init_def storing_bank_new simple_builder_init_def example_env_def Let_def)
qed


end
