(* ===== verification/Example_Batcher.thy ===== *)
theory Example_Batcher
  imports Example_Data
begin

text \<open>
  The batcher of the example rollup, \<^verbatim>\<open>example/src/l2/batcher.rs\<close>: it collects the attributes of the
  blocks that were produced and hands them to the DA layer in batches, one round after they were
  collected.

  Its two tasks are interleaved step by step: a round of the loop that receives, and the two halves of
  a round of the loop that sends, since the receiving task may run between them.
\<close>

section \<open>The tasks\<close>

datatype batcher_phase = Sleeping | SentBatch

record batcher =
  bt_attributes :: "payload_attribute chan"
  bt_cache :: "payload_attribute list"
  bt_next_batch :: "payload_attribute list"
  bt_phase :: batcher_phase
  bt_da :: "payload_attribute list chan"

definition new_batcher :: "payload_attribute list chan \<Rightarrow> payload_attribute chan \<Rightarrow> batcher" where
  "new_batcher da_sender receiver = \<lparr>bt_attributes = receiver, bt_cache = [], bt_next_batch = [], bt_phase = Sleeping, bt_da = da_sender\<rparr>"

definition receive_tx :: "batcher \<Rightarrow> batcher" where
  "receive_tx s =
     (case ch_buffer (bt_attributes s) of
        block # rest \<Rightarrow> s\<lparr>bt_attributes := (bt_attributes s)\<lparr>ch_buffer := rest\<rparr>, bt_cache := bt_cache s @ [block]\<rparr>
      | [] \<Rightarrow> s)"

definition send_next_batch :: "batcher \<Rightarrow> batcher" where
  "send_next_batch s =
     (let has_batch = length (bt_next_batch s) > 0;
          s' = (if has_batch then s\<lparr>bt_da := snd (chan_send (bt_next_batch s) (bt_da s))\<rparr> else s) in
      s'\<lparr>bt_phase := SentBatch\<rparr>)"

definition take_next_batch :: "batcher \<Rightarrow> batcher" where
  "take_next_batch s = s\<lparr>bt_next_batch := bt_cache s, bt_cache := [], bt_phase := Sleeping\<rparr>"

text \<open>What can happen: an attribute is sent to the batcher, or one of its tasks takes its next step.\<close>

datatype batcher_event = Input payload_attribute | Receive | Send | Take

fun batcher_exec :: "batcher_event \<Rightarrow> batcher \<Rightarrow> batcher" where
  "batcher_exec (Input a) s = s\<lparr>bt_attributes := snd (chan_send a (bt_attributes s))\<rparr>"
| "batcher_exec Receive s = receive_tx s"
| "batcher_exec Send s = (if bt_phase s = Sleeping then send_next_batch s else s)"
| "batcher_exec Take s = (if bt_phase s = SentBatch then take_next_batch s else s)"

section \<open>The queue it implements\<close>

text \<open>A first-in first-out queue: what was delivered, and what is still in it.\<close>

datatype 'a queue_event = Enqueue 'a | Dequeue nat

fun queue_exec :: "'a queue_event \<Rightarrow> 'a list \<times> 'a list \<Rightarrow> 'a list \<times> 'a list" where
  "queue_exec (Enqueue x) (out, q) = (out, q @ [x])"
| "queue_exec (Dequeue n) (out, q) = (out @ take n q, drop n q)"

definition transit :: "batcher \<Rightarrow> payload_attribute list" where
  "transit s = (if bt_phase s = Sleeping then bt_next_batch s else []) @ bt_cache s @ ch_buffer (bt_attributes s)"

definition delivered :: "batcher \<Rightarrow> payload_attribute list" where
  "delivered s = concat (ch_buffer (bt_da s))"

definition queue_of :: "batcher \<Rightarrow> payload_attribute list \<times> payload_attribute list" where
  "queue_of s = (delivered s, transit s)"

definition queue_event_of :: "batcher \<Rightarrow> batcher_event \<Rightarrow> payload_attribute queue_event" where
  "queue_event_of s e = (case e of
     Input a \<Rightarrow> Enqueue a
   | Send \<Rightarrow> Dequeue (if bt_phase s = Sleeping then length (bt_next_batch s) else 0)
   | _ \<Rightarrow> Dequeue 0)"

definition channels_open :: "batcher \<Rightarrow> bool" where
  "channels_open s \<longleftrightarrow> ch_open (bt_attributes s) \<and> ch_open (bt_da s)"

lemma channels_stay_open: "channels_open s \<Longrightarrow> channels_open (batcher_exec e s)"
  by (cases e) (auto simp: channels_open_def chan_send_def receive_tx_def send_next_batch_def take_next_batch_def Let_def split: list.splits)

lemma batcher_step_refines:
  assumes "channels_open s"
  shows "queue_of (batcher_exec e s) = queue_exec (queue_event_of s e) (queue_of s)"
proof (cases e)
  case (Input a)
  then show ?thesis using assms
    by (simp add: queue_of_def queue_event_of_def channels_open_def chan_send_def transit_def delivered_def)
next
  case Receive
  then show ?thesis
    by (auto simp: queue_of_def queue_event_of_def receive_tx_def transit_def delivered_def split: list.splits)
next
  case Send
  then show ?thesis using assms
    by (auto simp: queue_of_def queue_event_of_def send_next_batch_def channels_open_def chan_send_def transit_def delivered_def Let_def)
next
  case Take
  then show ?thesis
    by (cases "bt_phase s") (auto simp: queue_of_def queue_event_of_def take_next_batch_def transit_def delivered_def)
qed

text \<open>A run, and the run of the queue that it implements.\<close>

fun batcher_run :: "batcher_event list \<Rightarrow> batcher \<Rightarrow> batcher" where
  "batcher_run [] s = s"
| "batcher_run (e # es) s = batcher_run es (batcher_exec e s)"

fun queue_run_of :: "batcher_event list \<Rightarrow> batcher \<Rightarrow> payload_attribute queue_event list" where
  "queue_run_of [] s = []"
| "queue_run_of (e # es) s = queue_event_of s e # queue_run_of es (batcher_exec e s)"

lemma batcher_run_append: "batcher_run (es @ fs) s = batcher_run fs (batcher_run es s)"
  by (induction es arbitrary: s) auto

lemma batcher_run_open: "channels_open s \<Longrightarrow> channels_open (batcher_run es s)"
  by (induction es arbitrary: s) (auto intro: channels_stay_open)

lemma queue_exec_all: "fst (queue_exec q p) @ snd (queue_exec q p) = fst p @ snd p @ (case q of Enqueue x \<Rightarrow> [x] | Dequeue n \<Rightarrow> [])"
  by (cases p; cases q) auto

definition inputs :: "batcher_event list \<Rightarrow> payload_attribute list" where
  "inputs es = concat (map (\<lambda>e. case e of Input a \<Rightarrow> [a] | _ \<Rightarrow> []) es)"

lemma batcher_run_all:
  assumes "channels_open s"
  shows "delivered (batcher_run es s) @ transit (batcher_run es s) = delivered s @ transit s @ inputs es"
  using assms
proof (induction es arbitrary: s)
  case (Cons e es)
  have "delivered (batcher_exec e s) @ transit (batcher_exec e s) = delivered s @ transit s @ inputs [e]"
    using batcher_step_refines [OF Cons.prems, of e] queue_exec_all [of "queue_event_of s e" "queue_of s"]
    by (cases e) (simp_all add: queue_of_def queue_event_of_def inputs_def)
  then show ?case using Cons.IH [OF channels_stay_open [OF Cons.prems]] by (simp add: inputs_def)
qed (simp add: inputs_def)

text \<open>Steps of the receiving task, and new attributes, leave alone what the sending task has.\<close>

definition quiet :: "batcher_event list \<Rightarrow> bool" where
  "quiet es \<longleftrightarrow> Send \<notin> set es \<and> Take \<notin> set es"

lemma quiet_run:
  assumes "quiet es"
  shows "bt_phase (batcher_run es s) = bt_phase s" "bt_next_batch (batcher_run es s) = bt_next_batch s"
    "bt_da (batcher_run es s) = bt_da s" "\<exists>r. bt_cache (batcher_run es s) = bt_cache s @ r"
proof -
  have "bt_phase (batcher_run es s) = bt_phase s \<and> bt_next_batch (batcher_run es s) = bt_next_batch s \<and>
    bt_da (batcher_run es s) = bt_da s \<and> (\<exists>r. bt_cache (batcher_run es s) = bt_cache s @ r)"
    using assms
  proof (induction es arbitrary: s)
    case (Cons e es)
    then have "quiet es" by (simp add: quiet_def)
    from Cons.IH [OF this, of "batcher_exec e s"] Cons.prems show ?case
      by (cases e) (auto simp: quiet_def receive_tx_def split: list.splits)
  qed simp
  then show "bt_phase (batcher_run es s) = bt_phase s" "bt_next_batch (batcher_run es s) = bt_next_batch s"
    "bt_da (batcher_run es s) = bt_da s" "\<exists>r. bt_cache (batcher_run es s) = bt_cache s @ r" by blast+
qed

text \<open>Receiving often enough moves everything that was in the channel into the cache.\<close>

lemma quiet_receives:
  assumes "quiet es" "ch_buffer (bt_attributes s) = xs @ ys" "length xs \<le> count_list es Receive"
  shows "\<exists>r. bt_cache (batcher_run es s) = bt_cache s @ xs @ r"
  using assms
proof (induction es arbitrary: s xs ys)
  case (Cons e es)
  then have q: "quiet es" by (simp add: quiet_def)
  show ?case
  proof (cases e)
    case (Input a)
    have "ch_buffer (bt_attributes (batcher_exec e s)) = xs @ ys @ (if ch_open (bt_attributes s) then [a] else [])"
      using Cons.prems(2) by (simp add: Input chan_send_def)
    from Cons.IH [OF q this] Cons.prems(3) show ?thesis by (simp add: Input)
  next
    case Receive
    show ?thesis
    proof (cases xs)
      case Nil
      then show ?thesis using quiet_run(4) [OF Cons.prems(1), of s] by simp
    next
      case (Cons x xs')
      then have s': "bt_cache (receive_tx s) = bt_cache s @ [x]" "ch_buffer (bt_attributes (receive_tx s)) = xs' @ ys"
        using Cons.prems(2) by (simp_all add: receive_tx_def)
      from Cons.IH [OF q s'(2)] Cons.prems(3) show ?thesis using s'(1) Cons by (simp add: Receive)
    qed
  qed (use Cons.prems in \<open>simp_all add: quiet_def\<close>)
qed simp

lemma send_batch_delivers:
  assumes "ch_open (bt_da s)"
  shows "delivered (send_next_batch s) = delivered s @ bt_next_batch s" "ch_open (bt_da (send_next_batch s))"
    "bt_phase (send_next_batch s) = SentBatch" "bt_cache (send_next_batch s) = bt_cache s"
  using assms by (auto simp: send_next_batch_def Let_def chan_send_def delivered_def)

section \<open>Properties\<close>

text \<open>
  C13.  The batcher is a first-in first-out queue: as long as its channels are open, every step of its
  tasks is a step of the queue, so over any interleaving what was handed to the DA layer, in the order
  of the batches, followed by what is still on its way is exactly what was sent to the batcher, in
  that order: no attribute is lost, repeated or reordered.
\<close>

theorem batcher_refines_queue:
  assumes "channels_open s"
  shows "queue_of (batcher_run es s) = fold queue_exec (queue_run_of es s) (queue_of s) \<and>
    delivered (batcher_run es s) @ transit (batcher_run es s) = delivered s @ transit s @ inputs es"
proof
  show "queue_of (batcher_run es s) = fold queue_exec (queue_run_of es s) (queue_of s)"
    using assms
  proof (induction es arbitrary: s)
    case (Cons e es)
    then show ?case using batcher_step_refines [OF Cons.prems, of e] channels_stay_open [OF Cons.prems, of e] by simp
  qed simp
qed (rule batcher_run_all [OF assms])


section \<open>Witnesses\<close>

definition example_attribute :: "nat \<Rightarrow> payload_attribute" where
  "example_attribute n = \<lparr>at_transactions = [], at_epoch = \<lparr>ep_hash = 0, ep_height = n, ep_timestamp = 0\<rparr>, at_sequence_number = 0\<rparr>"

abbreviation example_batcher :: batcher where
  "example_batcher \<equiv> new_batcher \<lparr>ch_buffer = [], ch_open = True\<rparr> \<lparr>ch_buffer = [example_attribute 1, example_attribute 2], ch_open = True\<rparr>"

lemma example_batcher_open: "channels_open example_batcher"
  by (simp add: channels_open_def new_batcher_def)

theorem batcher_refines_queue_witness:
  "delivered (batcher_run [Receive, Send, Input (example_attribute 3), Take, Send] example_batcher) @
     transit (batcher_run [Receive, Send, Input (example_attribute 3), Take, Send] example_batcher) =
     [example_attribute 1, example_attribute 2, example_attribute 3]"
  using batcher_refines_queue [OF example_batcher_open, of "[Receive, Send, Input (example_attribute 3), Take, Send]"]
  by (simp add: delivered_def transit_def new_batcher_def inputs_def del: batcher_run.simps)


end
