(* ===== verification/Example_Runner.thy ===== *)
theory Example_Runner
  imports Example_Engine Example_Batcher
begin

text \<open>
  The runner of the example rollup (\<^verbatim>\<open>example/src/runner.rs\<close>), and the whole program (\<^verbatim>\<open>main.rs\<close>): the
  runner that advances, the mocked layer 1 and transaction server, the two tasks of the batcher and the
  task that fills the cache of the DA layer, interleaved step by step.  One call of \<open>advance\<close> is one
  step.

  \<open>ambient\<close> is what a call reads of its surroundings: the clock, the key and the random hash of the
  block of a given height, and whether the log level lets through messages of level info, whose
  arguments the code evaluates only then.
\<close>

section \<open>The runner\<close>

record ('b, 'p, 's) simple_runner =
  rn_engine :: "('b, 'p, 's) svm_engine"
  rn_instant :: "l1_block_info chan option"
  rn_da :: "payload_attribute list option"
  rn_current_head :: "l1_head option"
  rn_sequence_number :: nat

record 'kp ambient =
  am_now :: "nat \<Rightarrow> nat"
  am_keypair :: "nat \<Rightarrow> 'kp"
  am_root :: "nat \<Rightarrow> hash"
  am_log_info :: bool

definition new_runner where
  "new_runner E open_blockstore base_path attribute_sender =
     rbind (new_engine E open_blockstore base_path attribute_sender) (\<lambda>r.
     Inr (map_sum id (\<lambda>N. \<lparr>rn_engine = N, rn_instant = None, rn_da = None, rn_current_head = None, rn_sequence_number = 0\<rparr>) r))"

definition register_instant where
  "register_instant derive R = R\<lparr>rn_instant := Some derive\<rparr>"

definition register_da where
  "register_da derive R = R\<lparr>rn_da := Some derive\<rparr>"

definition on_engine where
  "on_engine m R = rbind (m (rn_engine R)) (\<lambda>(r, N). Inr (r, R\<lparr>rn_engine := N\<rparr>))"

definition runner_produce where
  "runner_produce E am attribute R = on_engine (produce_block E (am_now am (latest_height (en_ledger (rn_engine R)))) attribute) R"

definition runner_new_block where
  "runner_new_block E am block R =
     abind (on_engine (engine_new_block E (am_keypair am (l2_height (bl_head block))) (am_root am (l2_height (bl_head block))) block)) (\<lambda>new_head R.
     if am_log_info am \<and> rn_current_head R = None then athrow (Anyhow ''No current head'') R else aret new_head R) R"

definition has_executed :: "('b, 'p, 's) simple_runner \<Rightarrow> payload_attribute \<Rightarrow> bool" where
  "has_executed R attribute \<longleftrightarrow>
     (case rn_current_head R of
        Some head \<Rightarrow> l1_height head > ep_height (at_epoch attribute) \<or> rn_sequence_number R \<ge> at_sequence_number attribute
      | None \<Rightarrow> False)"

definition advance_unsafe where
  "advance_unsafe E am R =
     (case rn_instant R of
        None \<Rightarrow> athrow (Anyhow ''Instant derive not registered'') R
      | Some c \<Rightarrow>
          let (info, c') = get_new_block c; R1 = R\<lparr>rn_instant := Some c'\<rparr> in
          (case info of
             Inl e \<Rightarrow> athrow (Anyhow e) R1
           | Inr (Some i) \<Rightarrow>
               abind (runner_produce E am (attribute_from_block i)) (\<lambda>block. abind (runner_new_block E am block) (\<lambda>_. aret ()))
                 (R1\<lparr>rn_current_head := Some (l1_head_of i), rn_sequence_number := 0\<rparr>)
           | Inr None \<Rightarrow> (case rn_current_head R1 of
               Some safe_head \<Rightarrow>
                 rbind (checked_add 8 (rn_sequence_number R1) 1) (\<lambda>n.
                 abind (runner_produce E am ((attribute_from_head safe_head)\<lparr>at_sequence_number := n\<rparr>))
                   (\<lambda>block. abind (runner_new_block E am block) (\<lambda>_. aret ())) (R1\<lparr>rn_sequence_number := n\<rparr>))
             | None \<Rightarrow> aret () R1)))"

text \<open>The loop over the cache of the DA layer; every round takes one attribute out of it.\<close>

fun safe_loop where
  "safe_loop E am 0 R = Inl OutOfFuel"
| "safe_loop E am (Suc n) R =
     (case rn_da R of
        None \<Rightarrow> athrow (Anyhow ''DA derive not registered'') R
      | Some cached \<Rightarrow>
          let (attribute, cached') = da_next cached; R1 = R\<lparr>rn_da := Some cached'\<rparr> in
          (case attribute of
             None \<Rightarrow> aret () R1
           | Some a \<Rightarrow>
               if has_executed R1 a then safe_loop E am n R1
               else abind (runner_produce E am a) (\<lambda>block. abind (runner_new_block E am block) (\<lambda>_. safe_loop E am n)) R1))"

definition advance_safe where
  "advance_safe E am R = safe_loop E am (length (case rn_da R of Some c \<Rightarrow> c | None \<Rightarrow> []) + 1) R"

definition advance where
  "advance E am = abind (advance_safe E am) (\<lambda>_. advance_unsafe E am)"

section \<open>The program\<close>

record ('b, 'p, 's) rollup =
  ro_runner :: "('b, 'p, 's) simple_runner"
  ro_cache :: "payload_attribute list"
  ro_next_batch :: "payload_attribute list"
  ro_phase :: batcher_phase
  ro_da :: "payload_attribute list chan"
  ro_l1_height :: nat

definition batcher_of where
  "batcher_of S = \<lparr>bt_attributes = en_attributes (rn_engine (ro_runner S)), bt_cache = ro_cache S, bt_next_batch = ro_next_batch S,
     bt_phase = ro_phase S, bt_da = ro_da S\<rparr>"

definition set_batcher where
  "set_batcher s S = S\<lparr>ro_runner := (ro_runner S)\<lparr>rn_engine := (rn_engine (ro_runner S))\<lparr>en_attributes := bt_attributes s\<rparr>\<rparr>,
     ro_cache := bt_cache s, ro_next_batch := bt_next_batch s, ro_phase := bt_phase s, ro_da := bt_da s\<rparr>"

definition start_rollup where
  "start_rollup runner start_height =
     \<lparr>ro_runner = register_da [] (register_instant \<lparr>ch_buffer = [], ch_open = True\<rparr> runner), ro_cache = [], ro_next_batch = [],
       ro_phase = Sleeping, ro_da = \<lparr>ch_buffer = [], ch_open = True\<rparr>, ro_l1_height = start_height\<rparr>"

inductive rollup_step for E where
  layer1: "rn_instant (ro_runner S) = Some c \<Longrightarrow> layer1_round now r draw (ro_l1_height S, c) = Inr (h, c') \<Longrightarrow>
    rollup_step E S (S\<lparr>ro_l1_height := h, ro_runner := (ro_runner S)\<lparr>rn_instant := Some c'\<rparr>\<rparr>)"
| tx_server: "rollup_step E S (S\<lparr>ro_runner := (ro_runner S)\<lparr>rn_engine := (rn_engine (ro_runner S))
    \<lparr>en_stream := tx_server_round r draw (en_stream (rn_engine (ro_runner S)))\<rparr>\<rparr>\<rparr>)"
| batcher: "e \<in> {Receive, Send, Take} \<Longrightarrow> rollup_step E S (set_batcher (batcher_exec e (batcher_of S)) S)"
| da_update: "rn_da (ro_runner S) = Some cached \<Longrightarrow> try_update (cached, ro_da S) = (cached', c') \<Longrightarrow>
    rollup_step E S (S\<lparr>ro_da := c', ro_runner := (ro_runner S)\<lparr>rn_da := Some cached'\<rparr>\<rparr>)"
| advance: "advance E (am :: 'kp ambient) (ro_runner S) = Inr (r, R') \<Longrightarrow> rollup_step E S (S\<lparr>ro_runner := R'\<rparr>)"

inductive rollup_reachable for E S0 where
  start: "rollup_reachable E S0 S0"
| step: "rollup_reachable E S0 S \<Longrightarrow> rollup_step E S S' \<Longrightarrow> rollup_reachable E S0 S'"

section \<open>The chain\<close>

text \<open>The blocks of the ledger have the heights 1, 2, 3 and so on.\<close>

definition ledger_ok :: "mock_ledger \<Rightarrow> bool" where
  "ledger_ok G \<longleftrightarrow> map fst (lg_blocks G) = [1..<Suc (length (lg_blocks G))] \<and> (\<forall>(k, b) \<in> set (lg_blocks G). l2_height (bl_head b) = k)"

lemma ledger_ok_latest: "ledger_ok G \<Longrightarrow> latest_height G = length (lg_blocks G)"
  by (cases "lg_blocks G" rule: rev_cases) (auto simp: ledger_ok_def latest_height_def)

lemma ledger_ok_new_block:
  assumes "ledger_ok G" "l2_height (bl_head b) = latest_height G + 1"
  shows "ledger_ok (snd (ledger_new_block b G))" "lg_blocks (snd (ledger_new_block b G)) = lg_blocks G @ [(latest_height G + 1, b)]"
proof -
  have "map fst (lg_blocks G) = [1..<Suc (length (lg_blocks G))]" using assms(1) by (simp only: ledger_ok_def)
  then have k: "set (map fst (lg_blocks G)) = {1..<Suc (length (lg_blocks G))}" by (simp only: set_upt)
  have "\<forall>k' \<in> set (map fst (lg_blocks G)). k' < latest_height G + 1" unfolding k ledger_ok_latest [OF assms(1)] by simp
  from btree_insert_last [OF this, of b] show 1: "lg_blocks (snd (ledger_new_block b G)) = lg_blocks G @ [(latest_height G + 1, b)]"
    by (simp add: ledger_new_block_def Let_def assms(2))
  show "ledger_ok (snd (ledger_new_block b G))"
    using assms unfolding ledger_ok_def 1 by (auto simp: ledger_ok_latest [OF assms(1)])
qed

text \<open>What producing a block and adding it does to a runner.\<close>

definition engine_ok :: "('b, 'p, 's) svm_engine \<Rightarrow> bool" where
  "engine_ok N \<longleftrightarrow> ledger_ok (en_ledger N) \<and> 0 < txs_per_entry (en_producer N)"

definition same_position :: "('b, 'p, 's) simple_runner \<Rightarrow> ('b, 'p, 's) simple_runner \<Rightarrow> bool" where
  "same_position R R' \<longleftrightarrow> rn_instant R' = rn_instant R \<and> rn_da R' = rn_da R \<and> rn_current_head R' = rn_current_head R \<and>
     rn_sequence_number R' = rn_sequence_number R"

lemma process_loop_frame: "process_loop E l result txs P = Inr (r, P') \<Longrightarrow> txs_per_entry P' = txs_per_entry P"
proof (induction l arbitrary: result txs P)
  case (Cons tx l)
  from Cons.prems obtain r1 P1 where 1: "process_single_tx E tx P = Inr (r1, P1)" by (auto simp: abind_def res_simps)
  note n = process_single_tx_frame [OF 1]
  show ?case
  proof (cases r1)
    case (Inl e)
    then show ?thesis using Cons.prems 1 n by (simp add: abind_def)
  next
    case (Inr v)
    then show ?thesis using Cons.prems 1 n Cons.IH by (auto simp: abind_def Let_def split: if_splits)
  qed
qed auto

lemma produce_frame: "produce E now a G P = Inr (r, P') \<Longrightarrow> txs_per_entry P' = txs_per_entry P"
  by (auto simp: produce_def process_txs_def res_simps aret_def elim!: abindE dest: process_loop_frame)

lemma runner_produce_cases:
  assumes "runner_produce E am a R = Inr (r, R')" "engine_ok (rn_engine R)"
  obtains a' where "same_position R R'" "en_ledger (rn_engine R') = en_ledger (rn_engine R)" "engine_ok (rn_engine R')"
    "at_epoch a' = at_epoch a" "at_sequence_number a' = at_sequence_number a"
    "en_attributes (rn_engine R') = (case r of Inl e \<Rightarrow> en_attributes (rn_engine R) | Inr b \<Rightarrow> snd (chan_send a' (en_attributes (rn_engine R))))"
    "\<And>b. r = Inr b \<Longrightarrow> l2_height (bl_head b) = latest_height (en_ledger (rn_engine R)) + 1"
proof -
  let ?now = "am_now am (latest_height (en_ledger (rn_engine R)))"
  from assms(1) obtain N' where p: "produce_block E ?now a (rn_engine R) = Inr (r, N')" and R': "R' = R\<lparr>rn_engine := N'\<rparr>"
    by (auto simp: runner_produce_def on_engine_def res_simps)
  from p obtain batch stream' P' where
    q: "produce E ?now \<lparr>at_transactions = at_transactions a @ batch, at_epoch = at_epoch a, at_sequence_number = at_sequence_number a\<rparr>
       (en_ledger (rn_engine R)) (en_producer (rn_engine R)) = Inr (r, P')" (is "produce E ?now ?a _ _ = _")
    and N': "N' = (rn_engine R)\<lparr>en_stream := stream', en_producer := P', en_attributes := (case r of Inl e \<Rightarrow> en_attributes (rn_engine R) | Inr b \<Rightarrow>
       snd (chan_send \<lparr>at_transactions = at_transactions a @ batch, at_epoch = at_epoch a, at_sequence_number = at_sequence_number a\<rparr>
         (en_attributes (rn_engine R))))\<rparr>" by (rule produce_block_cases)
  have n: "0 < txs_per_entry (en_producer (rn_engine R))" using assms(2) by (simp add: engine_ok_def)
  show thesis
  proof (rule that)
    show "same_position R R'" by (simp add: same_position_def R')
    show "engine_ok (rn_engine R')" using assms(2) produce_frame [OF q] by (simp add: engine_ok_def R' N')
    show "l2_height (bl_head b) = latest_height (en_ledger (rn_engine R)) + 1" if "r = Inr b" for b
      using produce_ok(1) [OF q [unfolded that] n] .
  qed (simp_all add: R' N')
qed

lemma runner_new_block_cases:
  assumes "runner_new_block E am b R = Inr (r, R')" "engine_ok (rn_engine R)"
    and "l2_height (bl_head b) = latest_height (en_ledger (rn_engine R)) + 1"
  shows "same_position R R'" "engine_ok (rn_engine R')" "en_attributes (rn_engine R') = en_attributes (rn_engine R)"
    "lg_blocks (en_ledger (rn_engine R')) = lg_blocks (en_ledger (rn_engine R)) @ [(latest_height (en_ledger (rn_engine R)) + 1, b)]"
proof -
  let ?h = "l2_height (bl_head b)"
  obtain r1 N' where n: "engine_new_block E (am_keypair am ?h) (am_root am ?h) b (rn_engine R) = Inr (r1, N')" and R': "R' = R\<lparr>rn_engine := N'\<rparr>"
  proof -
    from assms(1) obtain y where y: "on_engine (engine_new_block E (am_keypair am ?h) (am_root am ?h) b) R = Inr y"
      by (auto simp: runner_new_block_def abind_def res_simps)
    then obtain r1 N' where "engine_new_block E (am_keypair am ?h) (am_root am ?h) b (rn_engine R) = Inr (r1, N')" "y = (r1, R\<lparr>rn_engine := N'\<rparr>)"
      by (auto simp: on_engine_def res_simps)
    then show thesis using that assms(1) y
      by (cases r1) (auto simp: runner_new_block_def abind_def aret_def athrow_def split: if_splits)
  qed
  obtain h' G' where G': "ledger_new_block b (en_ledger (rn_engine R)) = (h', G')" by fastforce
  from n obtain bs' where N': "N' = (rn_engine R)\<lparr>en_ledger := G', en_blockstore := bs'\<rparr>"
    by (auto simp: engine_new_block_def G' Let_def res_simps)
  have ok: "ledger_ok (en_ledger (rn_engine R))" using assms(2) by (simp add: engine_ok_def)
  note l = ledger_ok_new_block [OF ok assms(3), unfolded G' snd_conv]
  show "same_position R R'" "engine_ok (rn_engine R')" "en_attributes (rn_engine R') = en_attributes (rn_engine R)"
    "lg_blocks (en_ledger (rn_engine R')) = lg_blocks (en_ledger (rn_engine R)) @ [(latest_height (en_ledger (rn_engine R)) + 1, b)]"
    using l assms(2) by (simp_all add: R' N' same_position_def engine_ok_def)
qed

definition produce_and_add where
  "produce_and_add E am a = abind (runner_produce E am a) (\<lambda>block. abind (runner_new_block E am block) (\<lambda>_. aret ()))"

lemma produce_and_add_cases:
  assumes "produce_and_add E am a R = Inr (r, R')" "engine_ok (rn_engine R)"
  shows "same_position R R'" "engine_ok (rn_engine R')" "ch_open (en_attributes (rn_engine R')) = ch_open (en_attributes (rn_engine R))"
    "\<exists>as. ch_buffer (en_attributes (rn_engine R')) = ch_buffer (en_attributes (rn_engine R)) @ as \<and>
      (\<forall>x \<in> set as. at_epoch x = at_epoch a \<and> at_sequence_number x = at_sequence_number a)"
    "\<exists>bs. lg_blocks (en_ledger (rn_engine R')) = lg_blocks (en_ledger (rn_engine R)) @ bs \<and> length bs \<le> 1 \<and> (r = Inr () \<longrightarrow> length bs = 1)"
proof -
  have "same_position R R' \<and> engine_ok (rn_engine R') \<and> ch_open (en_attributes (rn_engine R')) = ch_open (en_attributes (rn_engine R)) \<and>
    (\<exists>as. ch_buffer (en_attributes (rn_engine R')) = ch_buffer (en_attributes (rn_engine R)) @ as \<and>
      (\<forall>x \<in> set as. at_epoch x = at_epoch a \<and> at_sequence_number x = at_sequence_number a)) \<and>
    (\<exists>bs. lg_blocks (en_ledger (rn_engine R')) = lg_blocks (en_ledger (rn_engine R)) @ bs \<and> length bs \<le> 1 \<and> (r = Inr () \<longrightarrow> length bs = 1))"
    using assms(1) unfolding produce_and_add_def
  proof (cases rule: abindE)
    case (1 e)
    from runner_produce_cases [OF 1(1) assms(2)] show ?thesis using 1(2) by (metis append_Nil2 empty_iff list.set(1) list.size(3) old.sum.simps(5) Inl_Inr_False zero_le_one)
  next
    case (2 b R1)
    from 2(1) assms(2) obtain a' where p: "same_position R R1" "en_ledger (rn_engine R1) = en_ledger (rn_engine R)" "engine_ok (rn_engine R1)"
      "at_epoch a' = at_epoch a" "at_sequence_number a' = at_sequence_number a"
      "en_attributes (rn_engine R1) = snd (chan_send a' (en_attributes (rn_engine R)))"
      "l2_height (bl_head b) = latest_height (en_ledger (rn_engine R)) + 1" by (rule runner_produce_cases) simp
    from 2(2) obtain r1 where n: "runner_new_block E am b R1 = Inr (r1, R')" by (auto simp: aret_def elim: abindE)
    have "l2_height (bl_head b) = latest_height (en_ledger (rn_engine R1)) + 1" using p(2,7) by simp
    note q = runner_new_block_cases [OF n p(3) this]
    show ?thesis using p q by (auto simp: same_position_def chan_send_def)
  qed
  then show "same_position R R'" "engine_ok (rn_engine R')" "ch_open (en_attributes (rn_engine R')) = ch_open (en_attributes (rn_engine R))"
    "\<exists>as. ch_buffer (en_attributes (rn_engine R')) = ch_buffer (en_attributes (rn_engine R)) @ as \<and>
      (\<forall>x \<in> set as. at_epoch x = at_epoch a \<and> at_sequence_number x = at_sequence_number a)"
    "\<exists>bs. lg_blocks (en_ledger (rn_engine R')) = lg_blocks (en_ledger (rn_engine R)) @ bs \<and> length bs \<le> 1 \<and> (r = Inr () \<longrightarrow> length bs = 1)"
    by blast+
qed

section \<open>Attributes that were executed\<close>

definition attribute_done :: "('b, 'p, 's) simple_runner \<Rightarrow> payload_attribute \<Rightarrow> bool" where
  "attribute_done R a \<longleftrightarrow> (\<exists>h. rn_current_head R = Some h \<and> (ep_height (at_epoch a) < l1_height h \<or>
     ep_height (at_epoch a) = l1_height h \<and> at_sequence_number a \<le> rn_sequence_number R))"

text \<open>A runner that has moved on, and one that is in step with the layer 1 up to a height.\<close>

definition moved_on :: "('b, 'p, 's) simple_runner \<Rightarrow> ('b, 'p, 's) simple_runner \<Rightarrow> bool" where
  "moved_on R R' \<longleftrightarrow> (\<forall>h. rn_current_head R = Some h \<longrightarrow> (\<exists>h'. rn_current_head R' = Some h' \<and>
     (l1_height h < l1_height h' \<or> h' = h \<and> rn_sequence_number R \<le> rn_sequence_number R')))"

definition in_step :: "nat \<Rightarrow> ('b, 'p, 's) simple_runner \<Rightarrow> bool" where
  "in_step height R \<longleftrightarrow> (\<exists>c. rn_instant R = Some c \<and> ch_open c \<and>
     sorted_wrt (<) ((case rn_current_head R of None \<Rightarrow> [] | Some h \<Rightarrow> [l1_height h]) @ map (l1_height \<circ> l1_head_of) (ch_buffer c) @ [Suc height]))"

lemma attribute_done_executed: "attribute_done R a \<Longrightarrow> has_executed R a"
  by (auto simp: attribute_done_def has_executed_def)

lemma attribute_done_moved: "moved_on R R' \<Longrightarrow> attribute_done R a \<Longrightarrow> attribute_done R' a"
  unfolding moved_on_def attribute_done_def by fastforce

lemma same_position_frame:
  assumes "same_position R R'"
  shows "moved_on R R'" "in_step n R' = in_step n R" "attribute_done R' a = attribute_done R a"
  using assms by (auto simp: same_position_def moved_on_def in_step_def attribute_done_def)

lemma advance_unsafe_steps:
  assumes run: "advance_unsafe E am R = Inr (r, R')" and ok: "engine_ok (rn_engine R)" "in_step n R"
    and sent: "\<forall>a \<in> set (ch_buffer (en_attributes (rn_engine R))). attribute_done R a"
  shows "moved_on R R' \<and> engine_ok (rn_engine R') \<and> in_step n R' \<and> rn_da R' = rn_da R \<and>
    (\<forall>a \<in> set (ch_buffer (en_attributes (rn_engine R'))). attribute_done R' a) \<and>
    ch_open (en_attributes (rn_engine R')) = ch_open (en_attributes (rn_engine R)) \<and>
    (\<exists>bs. lg_blocks (en_ledger (rn_engine R')) = lg_blocks (en_ledger (rn_engine R)) @ bs \<and> length bs \<le> 1 \<and>
      (r = Inr () \<and> rn_current_head R' \<noteq> None \<longrightarrow> length bs = 1))"
proof -
  from ok(2) obtain c where c: "rn_instant R = Some c" "ch_open c"
    and sorted: "sorted_wrt (<) ((case rn_current_head R of None \<Rightarrow> [] | Some h \<Rightarrow> [l1_height h]) @ map (l1_height \<circ> l1_head_of) (ch_buffer c) @ [Suc n])"
    unfolding in_step_def by blast
  have main: ?thesis if p: "produce_and_add E am a R1 = Inr (r, R')" and R1: "rn_engine R1 = rn_engine R" "rn_da R1 = rn_da R" "in_step n R1"
      "moved_on R R1" "attribute_done R1 a" for a R1
  proof -
    have "engine_ok (rn_engine R1)" using ok(1) R1(1) by simp
    note q = produce_and_add_cases [OF p this]
    note f = same_position_frame [OF q(1)]
    have m: "moved_on R R'" using R1(4) q(1) by (simp add: moved_on_def same_position_def)
    have "attribute_done R' x" if "at_epoch x = at_epoch a" "at_sequence_number x = at_sequence_number a" for x
      using R1(5) f(3) that by (simp add: attribute_done_def)
    then have "\<forall>x \<in> set (ch_buffer (en_attributes (rn_engine R'))). attribute_done R' x"
      using q(4) sent attribute_done_moved [OF m] R1(1) by auto
    then show ?thesis using q f m R1 by (auto simp: same_position_def)
  qed
  show ?thesis
  proof (cases "ch_buffer c")
    case (Cons i rest)
    let ?R = "R\<lparr>rn_instant := Some (c\<lparr>ch_buffer := rest\<rparr>), rn_current_head := Some (l1_head_of i), rn_sequence_number := 0\<rparr>"
    have "produce_and_add E am (attribute_from_block i) ?R = Inr (r, R')"
      using run c(1) Cons by (simp add: advance_unsafe_def get_new_block_def produce_and_add_def)
    from main [OF this] show ?thesis using sorted Cons c(2)
      by (auto simp: in_step_def moved_on_def attribute_done_def split: option.splits)
  next
    case Nil
    show ?thesis
    proof (cases "rn_current_head R")
      case None
      then have "r = Inr ()" "R' = R" using run c Nil by (auto simp: advance_unsafe_def get_new_block_def aret_def)
      then show ?thesis using ok sent None by (auto simp: moved_on_def)
    next
      case (Some h)
      let ?k = "rn_sequence_number R + 1"
      have "produce_and_add E am ((attribute_from_head h)\<lparr>at_sequence_number := ?k\<rparr>) (R\<lparr>rn_instant := Some c, rn_sequence_number := ?k\<rparr>) = Inr (r, R')"
        using run c Nil Some by (auto simp: advance_unsafe_def get_new_block_def produce_and_add_def res_simps)
      from main [OF this] show ?thesis using ok(2) Some c(1) by (auto simp: in_step_def moved_on_def attribute_done_def)
    qed
  qed
qed

lemma safe_loop_skips:
  assumes "rn_da R = Some cached" "\<forall>a \<in> set cached. attribute_done R a" "length cached < n"
  shows "safe_loop E am n R = Inr (Inr (), R\<lparr>rn_da := Some []\<rparr>)"
  using assms
proof (induction n arbitrary: R cached)
  case (Suc n)
  show ?case
  proof (cases cached rule: rev_cases)
    case Nil
    then show ?thesis using Suc.prems(1) by (simp add: da_next_def aret_def)
  next
    case (snoc init a)
    let ?R = "R\<lparr>rn_da := Some init\<rparr>"
    have d: "attribute_done ?R x = attribute_done R x" for x by (simp add: attribute_done_def)
    have "has_executed ?R a" using Suc.prems(2) snoc d by (intro attribute_done_executed) simp
    then show ?thesis using Suc.IH [of ?R init] Suc.prems snoc d by (simp add: da_next_def)
  qed
qed simp

section \<open>Reachable states\<close>

text \<open>Everything that is on its way from the engine back to the runner.\<close>

definition pipeline :: "('b, 'p, 's) rollup \<Rightarrow> payload_attribute set" where
  "pipeline S = set (ch_buffer (en_attributes (rn_engine (ro_runner S)))) \<union> set (ro_cache S) \<union> set (ro_next_batch S) \<union>
     set (concat (ch_buffer (ro_da S))) \<union> set (case rn_da (ro_runner S) of Some c \<Rightarrow> c | None \<Rightarrow> [])"

definition rollup_ok :: "('b, 'p, 's) rollup \<Rightarrow> bool" where
  "rollup_ok S \<longleftrightarrow> engine_ok (rn_engine (ro_runner S)) \<and> in_step (ro_l1_height S) (ro_runner S) \<and> rn_da (ro_runner S) \<noteq> None \<and>
     (\<forall>a \<in> pipeline S. attribute_done (ro_runner S) a)"

lemma advance_steps:
  assumes run: "advance E am (ro_runner S) = Inr (r, R')" and ok: "rollup_ok S"
  shows "rollup_ok (S\<lparr>ro_runner := R'\<rparr>) \<and> rn_da R' = Some [] \<and>
    (\<exists>bs. lg_blocks (en_ledger (rn_engine R')) = lg_blocks (en_ledger (rn_engine (ro_runner S))) @ bs \<and> length bs \<le> 1 \<and>
      (r = Inr () \<and> rn_current_head R' \<noteq> None \<longrightarrow> length bs = 1))"
proof -
  let ?R = "(ro_runner S)\<lparr>rn_da := Some []\<rparr>"
  from ok obtain cached where c: "rn_da (ro_runner S) = Some cached" by (auto simp: rollup_ok_def)
  have all: "attribute_done (ro_runner S) a" if "a \<in> pipeline S" for a using ok that by (simp add: rollup_ok_def)
  have "advance_safe E am (ro_runner S) = Inr (Inr (), ?R)"
    unfolding advance_safe_def using c all by (intro safe_loop_skips) (auto simp: pipeline_def)
  then have u: "advance_unsafe E am ?R = Inr (r, R')" using run by (simp add: advance_def abind_def)
  have f: "attribute_done ?R a = attribute_done (ro_runner S) a" for a by (simp add: attribute_done_def)
  have i: "engine_ok (rn_engine ?R)" "in_step (ro_l1_height S) ?R" using ok by (simp_all add: rollup_ok_def in_step_def)
  have s: "\<forall>a \<in> set (ch_buffer (en_attributes (rn_engine ?R))). attribute_done ?R a" using all f by (auto simp: pipeline_def)
  note q = advance_unsafe_steps [OF u i s]
  then have m: "attribute_done R' a" if "attribute_done (ro_runner S) a" for a using attribute_done_moved [of ?R R' a] f that by blast
  have "attribute_done R' a" if "a \<in> pipeline (S\<lparr>ro_runner := R'\<rparr>)" for a
    using that q all m by (auto simp: pipeline_def)
  then show ?thesis using q by (auto simp: rollup_ok_def)
qed

lemma batcher_pipeline:
  assumes "e \<in> {Receive, Send, Take}"
  shows "pipeline (set_batcher (batcher_exec e (batcher_of S)) S) \<subseteq> pipeline S"
  using assms
  by (auto simp: pipeline_def set_batcher_def batcher_of_def receive_tx_def send_next_batch_def take_next_batch_def chan_send_def Let_def
      split: list.splits if_splits)

lemma rollup_step_ok:
  assumes "rollup_step E S S'" "rollup_ok S"
  shows "rollup_ok S'"
  using assms
proof cases
  case (layer1 c now r draw h c')
  from layer1(3) have c': "h = Suc (ro_l1_height S)" "c' = snd (chan_send (generate_block now (random_deposit_txs r draw) h) c)"
    by (auto simp: layer1_round_def res_simps)
  let ?R = "(ro_runner S)\<lparr>rn_instant := Some c'\<rparr>"
  have f: "attribute_done ?R a = attribute_done (ro_runner S) a" for a by (simp add: attribute_done_def)
  have "in_step h ?R" using assms(2) layer1(2) c' unfolding rollup_ok_def
    by (auto simp: in_step_def chan_send_def generate_block_def sorted_wrt_append split: option.splits)
  then show ?thesis using assms(2) f layer1(1) by (auto simp: rollup_ok_def pipeline_def)
next
  case (tx_server r draw)
  then show ?thesis using assms(2) by (auto simp: rollup_ok_def pipeline_def in_step_def attribute_done_def engine_ok_def)
next
  case (batcher e)
  let ?R = "ro_runner (set_batcher (batcher_exec e (batcher_of S)) S)"
  have f: "attribute_done ?R a = attribute_done (ro_runner S) a" for a by (simp add: attribute_done_def set_batcher_def)
  show ?thesis using assms(2) f batcher_pipeline [OF batcher(2), of S] batcher(1)
    by (auto simp: rollup_ok_def in_step_def engine_ok_def set_batcher_def)
next
  case (da_update cached cached' c')
  then have "pipeline S' \<subseteq> pipeline S" by (auto simp: pipeline_def try_update_def split: list.splits)
  then show ?thesis using assms(2) da_update(1) by (auto simp: rollup_ok_def in_step_def attribute_done_def)
next
  case (advance am r R')
  then show ?thesis using advance_steps [OF advance(2) assms(2)] by simp
qed

lemma start_rollup_ok:
  assumes "engine_ok (rn_engine R)" "ch_buffer (en_attributes (rn_engine R)) = []" "rn_current_head R = None"
  shows "rollup_ok (start_rollup R n)"
  using assms by (simp add: rollup_ok_def start_rollup_def register_da_def register_instant_def in_step_def pipeline_def)

lemma rollup_reachable_ok: "rollup_reachable E S0 S \<Longrightarrow> rollup_ok S0 \<Longrightarrow> rollup_ok S"
  by (induction rule: rollup_reachable.induct) (auto intro: rollup_step_ok)

section \<open>Properties\<close>

text \<open>
  C12.  The rollup never executes its own blocks again.  The attribute of every block goes through the
  batcher and the DA layer back to the runner; in every reachable state all attributes on that way
  are recognised as executed, so that deriving blocks from the DA layer returns, empties the cache and
  changes nothing else.
\<close>

theorem own_blocks_skipped:
  assumes "rollup_reachable E (start_rollup R n) S"
    and "engine_ok (rn_engine R)" "ch_buffer (en_attributes (rn_engine R)) = []" "rn_current_head R = None"
  shows "(\<forall>a \<in> pipeline S. has_executed (ro_runner S) a) \<and>
    (\<forall>am. advance_safe E am (ro_runner S) = Inr (Inr (), (ro_runner S)\<lparr>rn_da := Some []\<rparr>))"
proof -
  have ok: "rollup_ok S" by (rule rollup_reachable_ok [OF assms(1) start_rollup_ok [OF assms(2-4)]])
  then obtain cached where c: "rn_da (ro_runner S) = Some cached" by (auto simp: rollup_ok_def)
  have all: "attribute_done (ro_runner S) a" if "a \<in> pipeline S" for a using ok that by (simp add: rollup_ok_def)
  have "advance_safe E am (ro_runner S) = Inr (Inr (), (ro_runner S)\<lparr>rn_da := Some []\<rparr>)" for am
    unfolding advance_safe_def using c all by (intro safe_loop_skips) (auto simp: pipeline_def)
  then show ?thesis using all attribute_done_executed by blast
qed

text \<open>
  C27.  The chain of the rollup grows by one block at a time.  In every reachable state the blocks have
  the heights 1, 2, 3 and so on; advancing keeps all of them and adds at most one, and it adds exactly
  one whenever it returns without an error and a block of the layer 1 is known.
\<close>

theorem advance_extends_chain:
  assumes "rollup_reachable E (start_rollup R n) S"
    and "engine_ok (rn_engine R)" "ch_buffer (en_attributes (rn_engine R)) = []" "rn_current_head R = None"
    and "advance E am (ro_runner S) = Inr (r, R')"
  shows "ledger_ok (en_ledger (rn_engine R')) \<and>
    (\<exists>bs. lg_blocks (en_ledger (rn_engine R')) = lg_blocks (en_ledger (rn_engine (ro_runner S))) @ bs \<and> length bs \<le> 1 \<and>
      (r = Inr () \<and> rn_current_head R' \<noteq> None \<longrightarrow> length bs = 1))"
  using advance_steps [OF assms(5) rollup_reachable_ok [OF assms(1) start_rollup_ok [OF assms(2-4)]]]
  by (auto simp: rollup_ok_def engine_ok_def)

text \<open>
  Two limits of the runner.  Without a new block of the layer 1 the 256th block panics, because the
  sequence number is a byte.  And where there is no block of the layer 1 yet, a block derived from the
  DA layer is added to the ledger, but reported as an error if the log level lets the message through.
\<close>

lemma sequence_number_overflows:
  assumes "rn_instant R = Some \<lparr>ch_buffer = [], ch_open = True\<rparr>" "rn_current_head R = Some h" "rn_sequence_number R = 255"
  shows "advance_unsafe E am R = Inl ArithmeticOverflow"
  using assms by (simp add: advance_unsafe_def get_new_block_def checked_add_def umax_def)

lemma da_block_without_head:
  assumes "rn_current_head R = None" "rn_da R = Some [a]" "am_log_info am"
    and "runner_produce E am a (R\<lparr>rn_da := Some []\<rparr>) = Inr (Inr b, R1)" "rn_current_head R1 = None"
    and "engine_new_block E (am_keypair am (l2_height (bl_head b))) (am_root am (l2_height (bl_head b))) b (rn_engine R1) = Inr (Inr h, N)"
  shows "advance_safe E am R = Inr (Inl (Anyhow ''No current head''), R1\<lparr>rn_engine := N\<rparr>)"
  using assms by (simp add: advance_safe_def numeral_2_eq_2 da_next_def has_executed_def abind_def runner_new_block_def on_engine_def athrow_def)

section \<open>Witnesses\<close>

definition example_runner :: "(pubkey \<Rightarrow> account option, unit, nat list) simple_runner" where
  "example_runner = \<lparr>rn_engine = example_engine\<lparr>en_stream := []\<rparr>, rn_instant = None, rn_da = None, rn_current_head = None, rn_sequence_number = 0\<rparr>"

definition example_ambient :: "unit ambient" where
  "example_ambient = \<lparr>am_now = (\<lambda>_. 0), am_keypair = (\<lambda>_. ()), am_root = (\<lambda>_. 0), am_log_info = True\<rparr>"

lemma example_runner_ok: "engine_ok (rn_engine example_runner)" "ch_buffer (en_attributes (rn_engine example_runner)) = []"
  "rn_current_head example_runner = None"
  by (simp_all add: engine_ok_def example_runner_def example_engine_def ledger_ok_def mock_ledger_default_def)

text \<open>A block of the layer 1 arrives and the runner advances.\<close>

definition example_layer1 :: "(pubkey \<Rightarrow> account option, unit, nat list) rollup" where
  "example_layer1 = (let S = start_rollup example_runner 1000 in
     S\<lparr>ro_l1_height := 1001, ro_runner := (ro_runner S)\<lparr>rn_instant := Some \<lparr>ch_buffer = [generate_block 0 [] 1001], ch_open = True\<rparr>\<rparr>\<rparr>)"

lemma example_layer1_reachable: "rollup_reachable example_env (start_rollup example_runner 1000) example_layer1"
proof -
  let ?S = "start_rollup example_runner 1000"
  have "rn_instant (ro_runner ?S) = Some \<lparr>ch_buffer = [], ch_open = True\<rparr>" by (simp add: start_rollup_def register_da_def register_instant_def)
  moreover have "layer1_round 0 0 (\<lambda>_. (0, 0, 0)) (ro_l1_height ?S, \<lparr>ch_buffer = [], ch_open = True\<rparr>) =
      Inr (1001, \<lparr>ch_buffer = [generate_block 0 [] 1001], ch_open = True\<rparr>)"
    by (simp add: layer1_round_def start_rollup_def checked_add_def umax_def chan_send_def random_deposit_txs_def)
  ultimately have "rollup_step example_env ?S example_layer1" unfolding example_layer1_def Let_def by (rule rollup_step.layer1)
  then show ?thesis by (rule rollup_reachable.step [OF rollup_reachable.start])
qed

lemma example_advance: "\<exists>R'. advance example_env example_ambient (ro_runner example_layer1) = Inr (Inr (), R') \<and>
  rn_current_head R' \<noteq> None \<and> lg_blocks (en_ledger (rn_engine (ro_runner example_layer1))) = [] \<and>
  ch_buffer (en_attributes (rn_engine R')) = [attribute_from_block (generate_block 0 [] 1001)]"
  by (simp add: advance_def advance_safe_def advance_unsafe_def example_layer1_def start_rollup_def register_da_def register_instant_def
      da_next_def abind_def aret_def get_new_block_def runner_produce_def on_engine_def produce_block_def next_batch_def DEFAULT_MAX_SIZE_def
      attribute_from_block_def generate_block_def produce_def process_txs_def checked_add_def checked_sub_def umax_def latest_height_def
      mock_ledger_default_def chan_send_def runner_new_block_def engine_new_block_def ledger_new_block_def write_entries_def sat_sub_def rassert_def
      example_env_def example_runner_def example_engine_def example_ambient_def Let_def)

theorem own_blocks_skipped_witness:
  "\<exists>S a. rollup_reachable example_env (start_rollup example_runner 1000) S \<and> a \<in> pipeline S \<and> has_executed (ro_runner S) a"
proof -
  obtain R' where run: "advance example_env example_ambient (ro_runner example_layer1) = Inr (Inr (), R')"
    and b: "ch_buffer (en_attributes (rn_engine R')) = [attribute_from_block (generate_block 0 [] 1001)]" using example_advance by blast
  let ?S = "example_layer1\<lparr>ro_runner := R'\<rparr>"
  have r: "rollup_reachable example_env (start_rollup example_runner 1000) ?S"
    by (rule rollup_reachable.step [OF example_layer1_reachable rollup_step.advance [OF run]])
  have p: "attribute_from_block (generate_block 0 [] 1001) \<in> pipeline ?S" using b by (simp add: pipeline_def)
  from own_blocks_skipped [OF r example_runner_ok] p have "has_executed (ro_runner ?S) (attribute_from_block (generate_block 0 [] 1001))" by blast
  with r p show ?thesis by blast
qed

theorem advance_extends_chain_witness:
  "\<exists>R' b. advance example_env example_ambient (ro_runner example_layer1) = Inr (Inr (), R') \<and> lg_blocks (en_ledger (rn_engine R')) = [b] \<and>
     ledger_ok (en_ledger (rn_engine R'))"
proof -
  obtain R' where run: "advance example_env example_ambient (ro_runner example_layer1) = Inr (Inr (), R')" "rn_current_head R' \<noteq> None"
    "lg_blocks (en_ledger (rn_engine (ro_runner example_layer1))) = []" using example_advance by blast
  from advance_extends_chain [OF example_layer1_reachable example_runner_ok run(1)] run obtain bs where
    "lg_blocks (en_ledger (rn_engine R')) = bs" "length bs = 1" "ledger_ok (en_ledger (rn_engine R'))" by auto
  then show ?thesis using run(1) by (cases bs) auto
qed

end
