(* ===== verification/Rpc_Types.thy ===== *)
theory Rpc_Types
  imports Storage_Types Svm_Bank Tx_Builder
begin

text \<open>
  The data of the JSON-RPC server (\<^verbatim>\<open>rpc/src\<close>): the errors of a request, the configuration, the state
  of \<^verbatim>\<open>JsonRpcRequestProcessor\<close> (\<^verbatim>\<open>jsonrpc/core.rs\<close>), and its cache of the largest accounts
  (\<^verbatim>\<open>jsonrpc/cache.rs\<close>).

  What the server reads belongs to the Solana crates.  The bank forks, the block store and the
  long-term storage are records of the answers they give to the queries of the server, and
  the methods of a bank with contents \<open>'b\<close> are the record \<open>rpc_bank_api\<close>.  A request is evaluated on one
  state of these; only the cache of the largest accounts and the channel of the transactions are
  changed by a request.

  A fallible method that cannot panic returns \<open>rpc_error + 'a\<close>, sequenced by \<open>ebind\<close>; one that can panic
  returns \<open>(rpc_error + 'a) res\<close>.  The limits that the client crates define are the record \<open>rpc_limits\<close>.
\<close>

section \<open>Sequencing\<close>

fun ebind :: "'e + 'a \<Rightarrow> ('a \<Rightarrow> 'e + 'b) \<Rightarrow> 'e + 'b" where
  "ebind (Inl e) f = Inl e"
| "ebind (Inr x) f = f x"

definition map_err :: "('d \<Rightarrow> 'e) \<Rightarrow> 'd + 'a \<Rightarrow> 'e + 'a" where
  "map_err f r = map_sum f id r"

definition guard :: "bool \<Rightarrow> 'e \<Rightarrow> 'e + unit" where
  "guard b e = (if b then Inr () else Inl e)"

fun res_ok :: "'e + 'a \<Rightarrow> 'a option" where
  "res_ok (Inl e) = None"
| "res_ok (Inr x) = Some x"

definition unwrap_or :: "'a \<Rightarrow> 'a option \<Rightarrow> 'a" where
  "unwrap_or d x = (case x of None \<Rightarrow> d | Some y \<Rightarrow> y)"

text \<open>\<^verbatim>\<open>Option::transpose\<close>: an optional result as a result that is optional.\<close>

definition transpose_res :: "('e + 'a) option \<Rightarrow> 'e + 'a option" where
  "transpose_res x = (case x of None \<Rightarrow> Inr None | Some r \<Rightarrow> map_sum id Some r)"

lemma ebind_cong [fundef_cong]:
  "m = m' \<Longrightarrow> (\<And>x. m' = Inr x \<Longrightarrow> f x = f' x) \<Longrightarrow> ebind m f = ebind m' f'"
  by (cases m') auto

lemma ebind_Inr_iff [act_simps]: "ebind m f = Inr y \<longleftrightarrow> (\<exists>x. m = Inr x \<and> f x = Inr y)"
  by (cases m) auto

lemma map_err_Inr_iff [act_simps]: "map_err f r = Inr y \<longleftrightarrow> r = Inr y"
  by (cases r) (auto simp: map_err_def)

lemma guard_Inr_iff [act_simps]: "guard b e = Inr u \<longleftrightarrow> b"
  by (simp add: guard_def)

lemma unwrap_or_simps [simp]: "unwrap_or d None = d" "unwrap_or d (Some x) = x"
  by (simp_all add: unwrap_or_def)

lemma res_ok_Some_iff [simp]: "res_ok r = Some x \<longleftrightarrow> r = Inr x"
  by (cases r) auto

section \<open>Errors\<close>

text \<open>
  The variants of \<^verbatim>\<open>RpcCustomError\<close> that the server raises; \<open>'sim\<close> is the report of a simulation that
  failed.  Errors of other crates are represented by their text, and a limit that a message mentions by
  its name.
\<close>

datatype 'sim rpc_custom_error =
    MinContextSlotNotReached slot
  | LongTermStorageSlotSkipped slot
  | BlockCleanedUp slot slot
  | BlockNotAvailable slot
  | BlockStatusNotAvailableYet slot
  | SlotSkipped slot
  | EpochRewardsPeriodActive slot nat nat
  | ScanError string
  | KeyExcludedFromSecondaryIndex string
  | TransactionHistoryNotAvailable
  | TransactionSignatureVerificationFailure
  | TransactionPrecompileVerificationFailure string
  | SendTransactionPreflightFailure string 'sim
  | EncodeError string
  | NoSnapshot

text \<open>\<^verbatim>\<open>jsonrpc_core::Error\<close>: its code, and where it is given its message.\<close>

datatype 'sim rpc_error =
    InvalidParams string
  | InvalidRequest string
  | InternalError
  | CustomError "'sim rpc_custom_error"

datatype blockstore_error =
    SlotCleanedUp
  | OtherBlockstoreError string

datatype bigtable_error =
    BlockNotFound slot
  | SignatureNotFound
  | OtherStorageError string

section \<open>Configuration\<close>

datatype account_index = ProgramIdIndex | SplTokenMintIndex | SplTokenOwnerIndex

record json_rpc_config =
  enable_rpc_transaction_history :: bool
  jc_extended_tx_metadata_storage :: bool
  faucet_addr :: "string option"
  max_multiple_accounts :: "nat option"
  ix_contains :: "account_index \<Rightarrow> bool"
  ix_include_key :: "pubkey \<Rightarrow> bool"
  rpc_threads :: nat
  rpc_niceness_adj :: int
  full_api :: bool
  rpc_scan_and_fix_roots :: bool
  max_request_body_size :: "nat option"

text \<open>The secondary indexes are off by default, and every key is included.\<close>

definition json_rpc_config_default :: json_rpc_config where
  "json_rpc_config_default = \<lparr>enable_rpc_transaction_history = False, jc_extended_tx_metadata_storage = False,
     faucet_addr = None, max_multiple_accounts = None, ix_contains = (\<lambda>_. False), ix_include_key = (\<lambda>_. True),
     rpc_threads = 0, rpc_niceness_adj = 0, full_api = False, rpc_scan_and_fix_roots = False, max_request_body_size = None\<rparr>"

definition default_for_test :: json_rpc_config where
  "default_for_test = json_rpc_config_default\<lparr>full_api := True\<rparr>"

definition MAX_REQUEST_BODY_SIZE :: nat where
  "MAX_REQUEST_BODY_SIZE = 50 * 2 ^ 10"

definition PERFORMANCE_SAMPLES_LIMIT :: nat where
  "PERFORMANCE_SAMPLES_LIMIT = 720"

record rpc_limits =
  MAX_GET_CONFIRMED_BLOCKS_RANGE :: nat
  MAX_GET_CONFIRMED_SIGNATURES_FOR_ADDRESS2_LIMIT :: nat
  MAX_GET_PROGRAM_ACCOUNT_FILTERS :: nat
  MAX_GET_SIGNATURE_STATUSES_QUERY_ITEMS :: nat
  MAX_GET_SLOT_LEADERS :: nat
  MAX_MULTIPLE_ACCOUNTS :: nat
  MAX_TX_ACCOUNT_LOCKS :: nat
  MAX_PERMITTED_DATA_LENGTH :: nat
  MAX_PROCESSING_AGE :: nat
  NUM_LARGEST_ACCOUNTS :: nat
  MAX_BASE58_BYTES :: nat
  PACKET_DATA_SIZE :: nat
  DELINQUENT_VALIDATOR_SLOT_DISTANCE :: nat
  MAX_EPOCH_CREDITS_HISTORY :: nat

text \<open>A commitment is represented by the answers of the two tests the server makes; the default is \<^verbatim>\<open>finalized\<close>.\<close>

record commitment_config =
  is_at_least_confirmed :: bool
  is_confirmed :: bool

definition commitment_default :: commitment_config where
  "commitment_default = \<lparr>is_at_least_confirmed = True, is_confirmed = False\<rparr>"

record context_config =
  cc_commitment :: "commitment_config option"
  cc_min_context_slot :: "slot option"

definition context_config_default :: context_config where
  "context_config_default = \<lparr>cc_commitment = None, cc_min_context_slot = None\<rparr>"

record 'a rpc_response =
  context_slot :: slot
  rpc_value :: 'a

section \<open>What the server reads\<close>

text \<open>The textual form of keys, hashes and signatures; parsing gives the text of its error.\<close>

record text_api =
  show_key :: "pubkey \<Rightarrow> string"
  parse_key :: "string \<Rightarrow> string + pubkey"
  show_hash :: "hash \<Rightarrow> string"
  parse_hash :: "string \<Rightarrow> string + hash"
  show_sig :: "signature \<Rightarrow> string"
  parse_sig :: "string \<Rightarrow> string + signature"

text \<open>\<^verbatim>\<open>transaction::Result<()>\<close>, and the status of a transaction.\<close>

type_synonym tx_result = "string + unit"

datatype confirmation_status = ProcessedStatus | ConfirmedStatus | FinalizedStatus

record transaction_status =
  st_slot :: slot
  st_status :: tx_result
  st_confirmations :: "nat option"
  st_err :: "string option"
  st_confirmation_status :: "confirmation_status option"

record signature_info =
  sn_signature :: signature
  sn_slot :: slot
  sn_err :: "string option"
  sn_memo :: "string option"
  sn_block_time :: "int option"

datatype perf_sample =
    PerfSampleV1 nat nat nat
  | PerfSampleV2 nat nat nat nat

record 'b forks_view =
  fv_working_bank :: 'b
  fv_root_bank :: 'b
  fv_root :: slot
  fv_get :: "slot \<Rightarrow> 'b option"

text \<open>\<open>'blk\<close> is a confirmed block, \<open>'ctx\<close> a confirmed transaction.\<close>

record ('blk, 'ctx) blockstore_view =
  v_is_root :: "slot \<Rightarrow> bool"
  v_max_root :: slot
  v_is_skipped :: "slot \<Rightarrow> bool"
  v_first_available_block :: "blockstore_error + slot"
  v_rooted_block :: "slot \<Rightarrow> blockstore_error + 'blk"
  v_complete_block :: "slot \<Rightarrow> blockstore_error + 'blk"
  v_rooted_block_time :: "slot \<Rightarrow> blockstore_error + int"
  v_rooted_slots :: "slot \<Rightarrow> blockstore_error + slot list"
  v_slot_metas :: "blockstore_error + slot list"
  v_rooted_transaction_status :: "signature \<Rightarrow> blockstore_error + (slot \<times> tx_result) option"
  v_complete_transaction :: "signature \<Rightarrow> slot \<Rightarrow> blockstore_error + 'ctx option"
  v_rooted_transaction :: "signature \<Rightarrow> blockstore_error + 'ctx option"
  v_signatures_for_address :: "pubkey \<Rightarrow> slot \<Rightarrow> slot \<Rightarrow> blockstore_error + signature list"
  v_signatures_for_address2 ::
    "pubkey \<Rightarrow> slot \<Rightarrow> signature option \<Rightarrow> signature option \<Rightarrow> nat \<Rightarrow> string + signature_info list \<times> bool"
  v_recent_perf_samples :: "nat \<Rightarrow> blockstore_error + (slot \<times> perf_sample) list"

record ('blk, 'ctx) bigtable_view =
  bt_confirmed_block :: "slot \<Rightarrow> bigtable_error + 'blk"
  bt_confirmed_blocks :: "slot \<Rightarrow> nat \<Rightarrow> bigtable_error + slot list"
  bt_signature_status :: "signature \<Rightarrow> bigtable_error + transaction_status"
  bt_confirmed_transaction :: "signature \<Rightarrow> bigtable_error + 'ctx option"
  bt_signatures_for_address ::
    "pubkey \<Rightarrow> signature option \<Rightarrow> signature option \<Rightarrow> nat \<Rightarrow> bigtable_error + (signature_info \<times> nat) list"
  bt_first_available_block :: "bigtable_error + slot option"

record vote_state =
  vs_votes :: "slot list"
  vs_epoch_credits :: "(nat \<times> nat \<times> nat) list"
  vs_node_pubkey :: pubkey
  vs_commission :: nat
  vs_root_slot :: "slot option"

record slot_history =
  sh_oldest :: slot
  sh_newest :: slot
  sh_found :: "slot \<Rightarrow> bool"

datatype index_key = IndexProgramId pubkey | IndexSplTokenMint pubkey | IndexSplTokenOwner pubkey

record 'b rpc_bank_api =
  k_slot :: "'b \<Rightarrow> slot"
  k_block_height :: "'b \<Rightarrow> nat"
  k_collector_id :: "'b \<Rightarrow> pubkey"
  k_get_account :: "'b \<Rightarrow> pubkey \<Rightarrow> account option"
  k_get_balance :: "'b \<Rightarrow> pubkey \<Rightarrow> nat"
  k_transaction_count :: "'b \<Rightarrow> nat"
  k_last_blockhash :: "'b \<Rightarrow> hash"
  k_confirmed_last_blockhash :: "'b \<Rightarrow> hash"
  k_last_valid_block_height :: "'b \<Rightarrow> hash \<Rightarrow> nat option"
  k_is_blockhash_valid :: "'b \<Rightarrow> hash \<Rightarrow> bool"
  k_capitalization :: "'b \<Rightarrow> nat"
  k_non_circulating_supply :: "'b \<Rightarrow> string + nat \<times> pubkey list"
  k_largest_accounts :: "'b \<Rightarrow> nat \<Rightarrow> pubkey set \<Rightarrow> bool \<Rightarrow> bool \<Rightarrow> string + (pubkey \<times> nat) list"
  k_genesis_creation_time :: "'b \<Rightarrow> int"
  k_unix_timestamp :: "'b \<Rightarrow> int"
  k_status_cache_ancestors :: "'b \<Rightarrow> slot set"
  k_signature_status :: "'b \<Rightarrow> signature \<Rightarrow> tx_result option"
  k_signature_status_slot :: "'b \<Rightarrow> signature \<Rightarrow> (slot \<times> tx_result) option"
  k_minimum_balance :: "'b \<Rightarrow> nat \<Rightarrow> nat"
  k_stake_minimum_delegation :: "'b \<Rightarrow> nat"
  k_epoch :: "'b \<Rightarrow> nat"
  k_epoch_of_slot :: "'b \<Rightarrow> slot \<Rightarrow> nat"
  k_first_slot_in_epoch :: "'b \<Rightarrow> nat \<Rightarrow> slot"
  k_partitioned_rewards_slot :: "'b \<Rightarrow> slot option"
  k_vote_accounts :: "'b \<Rightarrow> (pubkey \<times> nat \<times> vote_state option) list"
  k_epoch_vote_accounts :: "'b \<Rightarrow> nat \<Rightarrow> pubkey set option"
  k_vote_state_default :: vote_state
  k_slot_history :: "'b \<Rightarrow> slot_history"
  k_indexed_accounts :: "'b \<Rightarrow> index_key \<Rightarrow> (account \<Rightarrow> bool) \<Rightarrow> bool \<Rightarrow> string + (pubkey \<times> account) list"
  k_program_accounts :: "'b \<Rightarrow> pubkey \<Rightarrow> (account \<Rightarrow> bool) \<Rightarrow> bool \<Rightarrow> string + (pubkey \<times> account) list"

end
