(* ===== verification/Rpc_Processor.thy ===== *)
theory Rpc_Processor
  imports Rpc_Types
begin

text \<open>
  \<^verbatim>\<open>JsonRpcRequestProcessor\<close> of \<^verbatim>\<open>rpc/src/jsonrpc/core.rs\<close>: its state, the requests that are answered from
  the working bank, the supply, the vote accounts, and the largest accounts with their cache
  (\<^verbatim>\<open>jsonrpc/cache.rs\<close>).

  The keys that a bank holds in a hash map or a hash set are lists in the order of its iterator.
  The transaction channel is the list of the transactions that were sent: the processor owns both ends
  of the channel, so sending to it cannot fail.
\<close>

section \<open>The cache of the largest accounts\<close>

datatype largest_accounts_filter = Circulating | NonCirculating

record account_balance =
  ab_address :: string
  ab_lamports :: nat

record largest_accounts_cache_value =
  cv_accounts :: "account_balance list"
  cv_slot :: slot
  cv_cached_time :: nat

text \<open>The duration is in seconds, the time of an entry in nanoseconds; a clock that went back is an error.\<close>

record largest_accounts_cache =
  lc_duration :: nat
  lc_cache :: "largest_accounts_filter option \<Rightarrow> largest_accounts_cache_value option"

definition new_largest_accounts_cache :: "nat \<Rightarrow> largest_accounts_cache" where
  "new_largest_accounts_cache duration = \<lparr>lc_duration = duration, lc_cache = Map.empty\<rparr>"

definition cache_get_largest_accounts ::
  "nat \<Rightarrow> largest_accounts_filter option \<Rightarrow> largest_accounts_cache \<Rightarrow> (slot \<times> account_balance list) option" where
  "cache_get_largest_accounts now flt C =
     (case lc_cache C flt of
        None \<Rightarrow> None
      | Some v \<Rightarrow>
          if cv_cached_time v \<le> now \<and> now - cv_cached_time v < lc_duration C * 10 ^ 9 then Some (cv_slot v, cv_accounts v)
          else None)"

definition cache_set_largest_accounts ::
  "nat \<Rightarrow> largest_accounts_filter option \<Rightarrow> slot \<Rightarrow> account_balance list \<Rightarrow> largest_accounts_cache \<Rightarrow> largest_accounts_cache" where
  "cache_set_largest_accounts now flt s accounts C =
     C\<lparr>lc_cache := (lc_cache C)(flt \<mapsto> \<lparr>cv_accounts = accounts, cv_slot = s, cv_cached_time = now\<rparr>)\<rparr>"

section \<open>The processor\<close>

record ('b, 'blk, 'ctx, 'tx) request_processor =
  rp_bank_forks :: "'b forks_view"
  rp_blockstore :: "('blk, 'ctx) blockstore_view"
  rp_config :: json_rpc_config
  rp_snapshot_config :: "snapshot_config option"
  rp_genesis_hash :: hash
  rp_tx_channel :: "'tx list"
  rp_bigtable_ledger_storage :: "('blk, 'ctx) bigtable_view option"
  rp_largest_accounts_cache :: largest_accounts_cache
  rp_max_complete_transaction_status_slot :: slot
  rp_prioritization_fees :: "pubkey list \<Rightarrow> (slot \<times> nat) list"

definition clone_without_bigtable :: "('b, 'blk, 'ctx, 'tx) request_processor \<Rightarrow> ('b, 'blk, 'ctx, 'tx) request_processor" where
  "clone_without_bigtable M = M\<lparr>rp_bigtable_ledger_storage := None\<rparr>"

definition new_request_processor where
  "new_request_processor cfg snapshot forks store hash tx_channel bigtable cache max_complete fees =
     \<lparr>rp_bank_forks = forks, rp_blockstore = store, rp_config = cfg, rp_snapshot_config = snapshot,
      rp_genesis_hash = hash, rp_tx_channel = tx_channel, rp_bigtable_ledger_storage = bigtable,
      rp_largest_accounts_cache = cache, rp_max_complete_transaction_status_slot = max_complete,
      rp_prioritization_fees = fees\<rparr>"

text \<open>The commitment is ignored: requests are answered from the working bank.\<close>

definition rpc_bank :: "('b, 'blk, 'ctx, 'tx) request_processor \<Rightarrow> commitment_config option \<Rightarrow> 'b" where
  "rpc_bank M commitment = fv_working_bank (rp_bank_forks M)"

definition new_response :: "'b rpc_bank_api \<Rightarrow> 'b \<Rightarrow> 'a \<Rightarrow> 'a rpc_response" where
  "new_response K b v = \<lparr>context_slot = k_slot K b, rpc_value = v\<rparr>"

definition is_finalized :: "'b rpc_bank_api \<Rightarrow> 'b \<Rightarrow> ('blk, 'ctx) blockstore_view \<Rightarrow> slot \<Rightarrow> bool" where
  "is_finalized K b V s \<longleftrightarrow> v_is_root V s \<or> s \<in> k_status_cache_ancestors K b"

definition get_bank_with_config ::
  "'b rpc_bank_api \<Rightarrow> ('b, 'blk, 'ctx, 'tx) request_processor \<Rightarrow> context_config \<Rightarrow> 'sim rpc_error + 'b" where
  "get_bank_with_config K M cfg =
     (let b = rpc_bank M (cc_commitment cfg) in
      case cc_min_context_slot cfg of
        Some m \<Rightarrow> if k_slot K b < m then Inl (CustomError (MinContextSlotNotReached (k_slot K b))) else Inr b
      | None \<Rightarrow> Inr b)"

definition genesis_creation_time :: "'b rpc_bank_api \<Rightarrow> ('b, 'blk, 'ctx, 'tx) request_processor \<Rightarrow> int" where
  "genesis_creation_time K M = k_genesis_creation_time K (rpc_bank M None)"

section \<open>Requests on the working bank\<close>

definition get_minimum_balance_for_rent_exemption where
  "get_minimum_balance_for_rent_exemption K M data_len commitment = k_minimum_balance K (rpc_bank M commitment) data_len"

definition rpc_get_balance ::
  "'b rpc_bank_api \<Rightarrow> ('b, 'blk, 'ctx, 'tx) request_processor \<Rightarrow> pubkey \<Rightarrow> context_config \<Rightarrow> 'sim rpc_error + nat rpc_response" where
  "rpc_get_balance K M key cfg = ebind (get_bank_with_config K M cfg) (\<lambda>b. Inr (new_response K b (k_get_balance K b key)))"

definition confirm_transaction ::
  "'b rpc_bank_api \<Rightarrow> ('b, 'blk, 'ctx, 'tx) request_processor \<Rightarrow> signature \<Rightarrow> commitment_config option \<Rightarrow> 'sim rpc_error + bool rpc_response" where
  "confirm_transaction K M sg commitment =
     (let b = rpc_bank M commitment in
      case k_signature_status K b sg of
        Some status \<Rightarrow> Inr (new_response K b (\<not> isl status))
      | None \<Rightarrow> Inr (new_response K b False))"

definition get_slot ::
  "'b rpc_bank_api \<Rightarrow> ('b, 'blk, 'ctx, 'tx) request_processor \<Rightarrow> context_config \<Rightarrow> 'sim rpc_error + slot" where
  "get_slot K M cfg = ebind (get_bank_with_config K M cfg) (\<lambda>b. Inr (k_slot K b))"

definition get_block_height ::
  "'b rpc_bank_api \<Rightarrow> ('b, 'blk, 'ctx, 'tx) request_processor \<Rightarrow> context_config \<Rightarrow> 'sim rpc_error + nat" where
  "get_block_height K M cfg = ebind (get_bank_with_config K M cfg) (\<lambda>b. Inr (k_block_height K b))"

definition get_slot_leader ::
  "text_api \<Rightarrow> 'b rpc_bank_api \<Rightarrow> ('b, 'blk, 'ctx, 'tx) request_processor \<Rightarrow> context_config \<Rightarrow> 'sim rpc_error + string" where
  "get_slot_leader T K M cfg = ebind (get_bank_with_config K M cfg) (\<lambda>b. Inr (show_key T (k_collector_id K b)))"

text \<open>A rollup has one leader, whatever the slots that are asked for.\<close>

definition get_slot_leaders ::
  "'b rpc_bank_api \<Rightarrow> ('b, 'blk, 'ctx, 'tx) request_processor \<Rightarrow> commitment_config option \<Rightarrow> slot \<Rightarrow> nat \<Rightarrow> 'sim rpc_error + pubkey list" where
  "get_slot_leaders K M commitment start_slot limit = Inr [k_collector_id K (rpc_bank M commitment)]"

definition get_transaction_count ::
  "'b rpc_bank_api \<Rightarrow> ('b, 'blk, 'ctx, 'tx) request_processor \<Rightarrow> context_config \<Rightarrow> 'sim rpc_error + nat" where
  "get_transaction_count K M cfg = ebind (get_bank_with_config K M cfg) (\<lambda>b. Inr (k_transaction_count K b))"

record block_commitment =
  bc_commitment :: "nat list option"
  bc_total_stake :: nat

definition get_block_commitment :: "slot \<Rightarrow> block_commitment" where
  "get_block_commitment block = \<lparr>bc_commitment = None, bc_total_stake = 0\<rparr>"

definition minimum_ledger_slot :: "('b, 'blk, 'ctx, 'tx) request_processor \<Rightarrow> 'sim rpc_error + slot" where
  "minimum_ledger_slot M =
     (case v_slot_metas (rp_blockstore M) of
        Inr metas \<Rightarrow> (case metas of s # _ \<Rightarrow> Inr s | [] \<Rightarrow> Inl (InvalidRequest ''''))
      | Inl err \<Rightarrow> Inl (InvalidRequest ''''))"

record rpc_blockhash =
  bh_blockhash :: string
  bh_last_valid_block_height :: nat

definition get_latest_blockhash ::
  "text_api \<Rightarrow> 'b rpc_bank_api \<Rightarrow> ('b, 'blk, 'ctx, 'tx) request_processor \<Rightarrow> context_config
     \<Rightarrow> ('sim rpc_error + rpc_blockhash rpc_response) res" where
  "get_latest_blockhash T K M cfg =
     (case get_bank_with_config K M cfg of
        Inl e \<Rightarrow> Inr (Inl e)
      | Inr b \<Rightarrow>
          let blockhash = k_last_blockhash K b in
          rbind (runwrap ''bank blockhash queue should contain blockhash'' (k_last_valid_block_height K b blockhash)) (\<lambda>height.
          Inr (Inr (new_response K b \<lparr>bh_blockhash = show_hash T blockhash, bh_last_valid_block_height = height\<rparr>))))"

definition is_blockhash_valid ::
  "'b rpc_bank_api \<Rightarrow> ('b, 'blk, 'ctx, 'tx) request_processor \<Rightarrow> hash \<Rightarrow> context_config \<Rightarrow> 'sim rpc_error + bool rpc_response" where
  "is_blockhash_valid K M blockhash cfg =
     ebind (get_bank_with_config K M cfg) (\<lambda>b. Inr (new_response K b (k_is_blockhash_valid K b blockhash)))"

definition get_stake_minimum_delegation ::
  "'b rpc_bank_api \<Rightarrow> ('b, 'blk, 'ctx, 'tx) request_processor \<Rightarrow> context_config \<Rightarrow> 'sim rpc_error + nat rpc_response" where
  "get_stake_minimum_delegation K M cfg =
     ebind (get_bank_with_config K M cfg) (\<lambda>b. Inr (new_response K b (k_stake_minimum_delegation K b)))"

record prioritization_fee =
  pf_slot :: slot
  pf_prioritization_fee :: nat

definition get_recent_prioritization_fees ::
  "('b, 'blk, 'ctx, 'tx) request_processor \<Rightarrow> pubkey list \<Rightarrow> 'sim rpc_error + prioritization_fee list" where
  "get_recent_prioritization_fees M keys =
     Inr (map (\<lambda>(s, fee). \<lparr>pf_slot = s, pf_prioritization_fee = fee\<rparr>) (rp_prioritization_fees M keys))"

section \<open>Largest accounts and supply\<close>

record largest_accounts_config =
  la_commitment :: "commitment_config option"
  la_filter :: "largest_accounts_filter option"
  la_sort_results :: "bool option"

definition largest_accounts_config_default :: largest_accounts_config where
  "largest_accounts_config_default = \<lparr>la_commitment = None, la_filter = None, la_sort_results = None\<rparr>"

definition get_cached_largest_accounts where
  "get_cached_largest_accounts now M flt = cache_get_largest_accounts now flt (rp_largest_accounts_cache M)"

definition set_cached_largest_accounts where
  "set_cached_largest_accounts now flt s accounts M =
     M\<lparr>rp_largest_accounts_cache := cache_set_largest_accounts now flt s accounts (rp_largest_accounts_cache M)\<rparr>"

text \<open>The addresses that are excluded, or for the non-circulating accounts the only ones included.\<close>

definition largest_accounts_addresses ::
  "'b rpc_bank_api \<Rightarrow> 'b \<Rightarrow> largest_accounts_filter option \<Rightarrow> 'sim rpc_custom_error + pubkey set \<times> bool" where
  "largest_accounts_addresses K b flt =
     (case flt of
        Some f \<Rightarrow> ebind (map_err ScanError (k_non_circulating_supply K b)) (\<lambda>(lamports, accounts).
          Inr (set accounts, f = NonCirculating))
      | None \<Rightarrow> Inr ({}, False))"

definition get_largest_accounts ::
  "rpc_limits \<Rightarrow> text_api \<Rightarrow> 'b rpc_bank_api \<Rightarrow> nat \<Rightarrow> largest_accounts_config option \<Rightarrow>
     (('b, 'blk, 'ctx, 'tx) request_processor, 'sim rpc_custom_error, account_balance list rpc_response) act" where
  "get_largest_accounts N T K now cfg0 M =
     (let cfg = unwrap_or largest_accounts_config_default cfg0;
          b = rpc_bank M (la_commitment cfg);
          sort_results = unwrap_or True (la_sort_results cfg) in
      case get_cached_largest_accounts now M (la_filter cfg) of
        Some (s, accounts) \<Rightarrow> aret \<lparr>context_slot = s, rpc_value = accounts\<rparr> M
      | None \<Rightarrow>
          abind (alift (largest_accounts_addresses K b (la_filter cfg))) (\<lambda>(addresses, include).
          abind (alift (map_err ScanError (k_largest_accounts K b (NUM_LARGEST_ACCOUNTS N) addresses include sort_results))) (\<lambda>found.
          let accounts = map (\<lambda>(address, lamports). \<lparr>ab_address = show_key T address, ab_lamports = lamports\<rparr>) found in
          abind (amodify (set_cached_largest_accounts now (la_filter cfg) (k_slot K b) accounts)) (\<lambda>_.
          aret (new_response K b accounts)))) M)"

record supply_config =
  su_commitment :: "commitment_config option"
  su_exclude_non_circulating_accounts_list :: bool

definition supply_config_default :: supply_config where
  "supply_config_default = \<lparr>su_commitment = None, su_exclude_non_circulating_accounts_list = False\<rparr>"

record rpc_supply =
  sp_total :: nat
  sp_circulating :: nat
  sp_non_circulating :: nat
  sp_non_circulating_accounts :: "string list"

definition get_supply ::
  "text_api \<Rightarrow> 'b rpc_bank_api \<Rightarrow> ('b, 'blk, 'ctx, 'tx) request_processor \<Rightarrow> supply_config option
     \<Rightarrow> ('sim rpc_custom_error + rpc_supply rpc_response) res" where
  "get_supply T K M cfg0 =
     (let cfg = unwrap_or supply_config_default cfg0; b = rpc_bank M (su_commitment cfg) in
      case map_err ScanError (k_non_circulating_supply K b) of
        Inl e \<Rightarrow> Inr (Inl e)
      | Inr (lamports, keys) \<Rightarrow>
          let total_supply = k_capitalization K b;
              accounts = (if su_exclude_non_circulating_accounts_list cfg then [] else map (show_key T) keys) in
          rbind (checked_sub total_supply lamports) (\<lambda>circulating.
          Inr (Inr (new_response K b \<lparr>sp_total = total_supply, sp_circulating = circulating,
            sp_non_circulating = lamports, sp_non_circulating_accounts = accounts\<rparr>))))"

section \<open>Parameters of a request\<close>

definition verify_pubkey :: "text_api \<Rightarrow> string \<Rightarrow> 'sim rpc_error + pubkey" where
  "verify_pubkey T input = map_err (\<lambda>e. InvalidParams (''Invalid param: '' @ e)) (parse_key T input)"

definition verify_hash :: "text_api \<Rightarrow> string \<Rightarrow> 'sim rpc_error + hash" where
  "verify_hash T input = map_err (\<lambda>e. InvalidParams (''Invalid param: '' @ e)) (parse_hash T input)"

definition verify_signature :: "text_api \<Rightarrow> string \<Rightarrow> 'sim rpc_error + signature" where
  "verify_signature T input = map_err (\<lambda>e. InvalidParams (''Invalid param: '' @ e)) (parse_sig T input)"

definition check_is_at_least_confirmed :: "commitment_config \<Rightarrow> 'sim rpc_error + unit" where
  "check_is_at_least_confirmed commitment =
     guard (is_at_least_confirmed commitment) (InvalidParams ''Method does not support commitment below `confirmed`'')"

section \<open>Vote accounts\<close>

record vote_accounts_config =
  vc_vote_pubkey :: "string option"
  vc_commitment :: "commitment_config option"
  vc_keep_unstaked_delinquents :: "bool option"
  vc_delinquent_slot_distance :: "nat option"

definition vote_accounts_config_default :: vote_accounts_config where
  "vote_accounts_config_default = \<lparr>vc_vote_pubkey = None, vc_commitment = None, vc_keep_unstaked_delinquents = None,
     vc_delinquent_slot_distance = None\<rparr>"

record vote_account_info =
  va_vote_pubkey :: string
  va_node_pubkey :: string
  va_activated_stake :: nat
  va_commission :: nat
  va_root_slot :: slot
  va_epoch_credits :: "(nat \<times> nat \<times> nat) list"
  va_epoch_vote_account :: bool
  va_last_vote :: slot

definition vote_account_info_of ::
  "rpc_limits \<Rightarrow> text_api \<Rightarrow> 'b rpc_bank_api \<Rightarrow> pubkey set \<Rightarrow> pubkey \<times> nat \<times> vote_state option \<Rightarrow> vote_account_info" where
  "vote_account_info_of N T K epoch_vote_accounts = (\<lambda>(vote_pubkey, activated_stake, state).
     let vs = unwrap_or (k_vote_state_default K) state;
         last_vote = (if vs_votes vs = [] then 0 else last (vs_votes vs));
         credits = vs_epoch_credits vs;
         credits' = (if length credits > MAX_EPOCH_CREDITS_HISTORY N
           then drop (length credits - MAX_EPOCH_CREDITS_HISTORY N) credits else credits) in
     \<lparr>va_vote_pubkey = show_key T vote_pubkey, va_node_pubkey = show_key T (vs_node_pubkey vs),
      va_activated_stake = activated_stake, va_commission = vs_commission vs,
      va_root_slot = unwrap_or 0 (vs_root_slot vs), va_epoch_credits = credits',
      va_epoch_vote_account = (vote_pubkey \<in> epoch_vote_accounts), va_last_vote = last_vote\<rparr>)"

text \<open>A validator is current when its last vote is less than the distance behind the bank.\<close>

definition is_current :: "slot \<Rightarrow> nat \<Rightarrow> vote_account_info \<Rightarrow> bool" where
  "is_current s distance info =
     (if distance \<le> s then va_last_vote info > s - distance else va_last_vote info > 0)"

record vote_account_status =
  vt_current :: "vote_account_info list"
  vt_delinquent :: "vote_account_info list"

definition get_vote_accounts ::
  "rpc_limits \<Rightarrow> text_api \<Rightarrow> 'b rpc_bank_api \<Rightarrow> ('b, 'blk, 'ctx, 'tx) request_processor \<Rightarrow> vote_accounts_config option
     \<Rightarrow> 'sim rpc_error + vote_account_status" where
  "get_vote_accounts N T K M cfg0 =
     (let cfg = unwrap_or vote_accounts_config_default cfg0 in
      ebind (case vc_vote_pubkey cfg of Some k \<Rightarrow> map_sum id Some (verify_pubkey T k) | None \<Rightarrow> Inr None) (\<lambda>filter_by.
      let b = rpc_bank M (vc_commitment cfg) in
      ebind (ok_or (InvalidRequest '''') (k_epoch_vote_accounts K b (k_epoch_of_slot K b (k_slot K b)))) (\<lambda>epoch_vote_accounts.
      let distance = unwrap_or (DELINQUENT_VALIDATOR_SLOT_DISTANCE N) (vc_delinquent_slot_distance cfg);
          infos = map (vote_account_info_of N T K epoch_vote_accounts)
            (filter (\<lambda>(k, _). filter_by = None \<or> filter_by = Some k) (k_vote_accounts K b));
          (current, delinquent) = partition (is_current (k_slot K b) distance) infos;
          keep = unwrap_or False (vc_keep_unstaked_delinquents cfg) in
      Inr \<lparr>vt_current = current,
        vt_delinquent = (if \<not> keep then filter (\<lambda>i. va_activated_stake i > 0) delinquent else delinquent)\<rparr>)))"

section \<open>The bank of a request\<close>

lemma bank_with_config_ok [act_simps]:
  "get_bank_with_config K M cfg = Inr b \<longleftrightarrow> b = fv_working_bank (rp_bank_forks M) \<and>
    (case cc_min_context_slot cfg of Some m \<Rightarrow> m \<le> k_slot K b | None \<Rightarrow> True)"
  by (auto simp: get_bank_with_config_def rpc_bank_def Let_def split: option.splits if_splits)

end
