(* ===== verification/Rpc_Example.thy ===== *)
theory Rpc_Example
  imports Rpc_Processor
begin

text \<open>
  A small node for the witnesses of the JSON-RPC server: a bank is its slot together with its accounts, a
  key is printed as a string of its length, and the block store has three rooted slots.
\<close>

type_synonym example_bank = "slot \<times> (pubkey \<times> account) list"

definition example_text :: text_api where
  "example_text = \<lparr>show_key = (\<lambda>k. replicate (unat k) CHR ''k''), parse_key = (\<lambda>s. Inr (of_nat (length s))),
     show_hash = (\<lambda>h. replicate (unat h) CHR ''h''), parse_hash = (\<lambda>s. Inr (of_nat (length s))),
     show_sig = (\<lambda>g. replicate (unat g) CHR ''s''), parse_sig = (\<lambda>s. Inr (of_nat (length s)))\<rparr>"

definition example_limits :: rpc_limits where
  "example_limits = \<lparr>MAX_GET_CONFIRMED_BLOCKS_RANGE = 10, MAX_GET_CONFIRMED_SIGNATURES_FOR_ADDRESS2_LIMIT = 5,
     MAX_GET_PROGRAM_ACCOUNT_FILTERS = 4, MAX_GET_SIGNATURE_STATUSES_QUERY_ITEMS = 4, MAX_GET_SLOT_LEADERS = 10,
     MAX_MULTIPLE_ACCOUNTS = 4, MAX_TX_ACCOUNT_LOCKS = 4, MAX_PERMITTED_DATA_LENGTH = 100, MAX_PROCESSING_AGE = 5,
     NUM_LARGEST_ACCOUNTS = 2, MAX_BASE58_BYTES = 128, PACKET_DATA_SIZE = 100, DELINQUENT_VALIDATOR_SLOT_DISTANCE = 3,
     MAX_EPOCH_CREDITS_HISTORY = 2\<rparr>"

definition bank_api_of :: "('b \<Rightarrow> slot) \<Rightarrow> ('b \<Rightarrow> (pubkey \<times> account) list) \<Rightarrow> 'b rpc_bank_api" where
  "bank_api_of slot_of accounts_of = \<lparr>k_slot = slot_of, k_block_height = slot_of, k_collector_id = (\<lambda>_. 1), k_get_account = (\<lambda>b. map_of (accounts_of b)),
     k_get_balance = (\<lambda>b k. case map_of (accounts_of b) k of Some a \<Rightarrow> acc_lamports a | None \<Rightarrow> 0), k_transaction_count = (\<lambda>_. 0),
     k_last_blockhash = (\<lambda>_. 7), k_confirmed_last_blockhash = (\<lambda>_. 7), k_last_valid_block_height = (\<lambda>b h. if h = 7 then Some (slot_of b + 5) else None),
     k_is_blockhash_valid = (\<lambda>_ h. h = 7), k_capitalization = (\<lambda>_. 100), k_non_circulating_supply = (\<lambda>_. Inr (30, [2])),
     k_largest_accounts = (\<lambda>b n ks include srt. Inr (take n (map (\<lambda>(k, a). (k, acc_lamports a)) (accounts_of b)))),
     k_genesis_creation_time = (\<lambda>_. 1000), k_unix_timestamp = (\<lambda>b. 1000 + int (slot_of b)), k_status_cache_ancestors = (\<lambda>b. {slot_of b}),
     k_signature_status = (\<lambda>_ _. None), k_signature_status_slot = (\<lambda>_ _. None), k_minimum_balance = (\<lambda>_ n. n),
     k_stake_minimum_delegation = (\<lambda>_. 1), k_epoch = (\<lambda>_. 0), k_epoch_of_slot = (\<lambda>_ s. s div 4), k_first_slot_in_epoch = (\<lambda>_ e. e * 4),
     k_partitioned_rewards_slot = (\<lambda>_. None),
     k_vote_accounts = (\<lambda>_. [(3, 10, None)]), k_epoch_vote_accounts = (\<lambda>_ _. Some {3}),
     k_vote_state_default = \<lparr>vs_votes = [], vs_epoch_credits = [], vs_node_pubkey = 0, vs_commission = 0, vs_root_slot = None\<rparr>,
     k_slot_history = (\<lambda>b. \<lparr>sh_oldest = 0, sh_newest = slot_of b, sh_found = (\<lambda>_. True)\<rparr>),
     k_indexed_accounts = (\<lambda>b _ f _. Inr (filter (\<lambda>(k, a). f a) (accounts_of b))),
     k_program_accounts = (\<lambda>b p f _. Inr (filter (\<lambda>(k, a). acc_owner a = p \<and> f a) (accounts_of b)))\<rparr>"

definition example_rpc_bank :: "example_bank rpc_bank_api" where
  "example_rpc_bank = bank_api_of fst snd"

lemmas example_rpc_bank_defs = example_rpc_bank_def bank_api_of_def

definition example_signature_infos :: "signature_info list" where
  "example_signature_infos = [\<lparr>sn_signature = 3, sn_slot = 5, sn_err = None, sn_memo = None, sn_block_time = None\<rparr>]"

definition example_store :: "('blk, 'ctx) blockstore_view" where
  "example_store = \<lparr>v_is_root = (\<lambda>s. s \<in> {2, 4, 5}), v_max_root = 5, v_is_skipped = (\<lambda>s. s = 3), v_first_available_block = Inr 2,
     v_rooted_block = (\<lambda>_. Inl SlotCleanedUp), v_complete_block = (\<lambda>_. Inl SlotCleanedUp), v_rooted_block_time = (\<lambda>_. Inl SlotCleanedUp),
     v_rooted_slots = (\<lambda>s. Inr (filter (\<lambda>n. s \<le> n) [2, 4, 5])), v_slot_metas = Inr [2, 4, 5],
     v_rooted_transaction_status = (\<lambda>_. Inr None), v_complete_transaction = (\<lambda>_ _. Inr None), v_rooted_transaction = (\<lambda>_. Inr None),
     v_signatures_for_address = (\<lambda>_ _ _. Inr []), v_signatures_for_address2 = (\<lambda>_ _ before _ n.
       Inr (take n (filter (\<lambda>x. before \<noteq> Some (sn_signature x)) example_signature_infos), False)),
     v_recent_perf_samples = (\<lambda>_. Inr [])\<rparr>"

definition example_bigtable :: "('blk, 'ctx) bigtable_view" where
  "example_bigtable = \<lparr>bt_confirmed_block = (\<lambda>s. Inl (BlockNotFound s)), bt_confirmed_blocks = (\<lambda>s n. Inr (take n [s..<2])),
     bt_signature_status = (\<lambda>_. Inl SignatureNotFound), bt_confirmed_transaction = (\<lambda>_. Inr None),
     bt_signatures_for_address = (\<lambda>_ _ _ n. Inr (take n [(\<lparr>sn_signature = 3, sn_slot = 5, sn_err = None, sn_memo = None, sn_block_time = None\<rparr>, 0),
       (\<lparr>sn_signature = 2, sn_slot = 1, sn_err = None, sn_memo = None, sn_block_time = None\<rparr>, 0)])),
     bt_first_available_block = Inr (Some 0)\<rparr>"

definition example_processor :: "(pubkey \<times> account) list \<Rightarrow> (example_bank, 'blk, 'ctx, 'tx) request_processor" where
  "example_processor accounts = \<lparr>rp_bank_forks = \<lparr>fv_working_bank = (6, accounts), fv_root_bank = (5, accounts), fv_root = 5,
       fv_get = (\<lambda>s. if s \<in> {5, 6} then Some (s, accounts) else None)\<rparr>,
     rp_blockstore = example_store, rp_config = json_rpc_config_default\<lparr>enable_rpc_transaction_history := True\<rparr>,
     rp_snapshot_config = None, rp_genesis_hash = 0, rp_tx_channel = [], rp_bigtable_ledger_storage = Some example_bigtable,
     rp_largest_accounts_cache = new_largest_accounts_cache 30, rp_max_complete_transaction_status_slot = 5,
     rp_prioritization_fees = (\<lambda>_. [])\<rparr>"

lemma replicate_2: "replicate 2 x = [x, x]"
  by (simp add: numeral_2_eq_2)

end
