(* ===== verification/Rpc_Accounts.thy ===== *)
theory Rpc_Accounts
  imports Rpc_Example Cached_Lookup "HOL-Library.Product_Lexorder"
begin

text \<open>
  The requests for accounts (\<^verbatim>\<open>rpc/src/jsonrpc/core.rs\<close>): encoding, the accounts of the token programs
  (\<^verbatim>\<open>parsed_token_accounts.rs\<close>) and the accounts a simulation overwrites (\<^verbatim>\<open>account_resolver.rs\<close>).

  The decoding of token accounts and mints and the encoding of an account belong to other crates and are arguments;
  \<open>'ua\<close> is an encoded account, \<open>'am\<close> a rendered amount and \<open>'ic\<close> the configuration of an interest-bearing mint.
\<close>

section \<open>The token programs\<close>

record 'ic additional_data =
  ad_decimals :: nat
  ad_interest_bearing_config :: "('ic \<times> int) option"

record 'ic mint_state =
  mi_supply :: nat
  mi_decimals :: nat
  mi_interest_bearing_config :: "'ic option"

datatype ui_account_encoding = EncBinary | EncBase58 | EncBase64 | EncJsonParsed | EncBase64Zstd

record data_slice =
  ds_offset :: nat
  ds_length :: nat

record ('ua, 'am, 'ic) decoder_api =
  is_known_spl_token_id :: "pubkey \<Rightarrow> bool"
  spl_token_id :: pubkey
  token_2022_id :: pubkey
  native_mint_id :: pubkey
  native_mint_decimals :: nat
  unpack_mint :: "u8 list \<Rightarrow> 'ic mint_state option"
  unpack_token_account :: "u8 list \<Rightarrow> (pubkey \<times> nat) option"
  get_token_account_mint :: "u8 list \<Rightarrow> pubkey option"
  valid_account_data :: "u8 list \<Rightarrow> bool"
  token_amount_to_ui_amount :: "nat \<Rightarrow> 'ic additional_data \<Rightarrow> 'am"
  ui_account_encode :: "pubkey \<Rightarrow> account \<Rightarrow> ui_account_encoding \<Rightarrow> 'ic additional_data option \<Rightarrow> data_slice option \<Rightarrow> 'ua"
  ui_data_is_json :: "'ua \<Rightarrow> bool"
  key_bytes :: "pubkey \<Rightarrow> u8 list"
  key_of_bytes :: "u8 list \<Rightarrow> pubkey option"
  packed_len :: nat
  ACCOUNTTYPE_ACCOUNT :: u8
  MINT_OFFSET :: nat
  OWNER_OFFSET :: nat
  PUBKEY_BYTES :: nat

section \<open>Accounts and their encoding\<close>

definition get_account_from_overwrites_or_bank ::
  "'b rpc_bank_api \<Rightarrow> pubkey \<Rightarrow> 'b \<Rightarrow> (pubkey \<Rightarrow> account option) option \<Rightarrow> account option" where
  "get_account_from_overwrites_or_bank K key b overwrite =
     (case Option.bind overwrite (\<lambda>accounts. accounts key) of
        Some a \<Rightarrow> Some a
      | None \<Rightarrow> k_get_account K b key)"

definition get_additional_mint_data ::
  "('ua, 'am, 'ic) decoder_api \<Rightarrow> 'b rpc_bank_api \<Rightarrow> 'b \<Rightarrow> u8 list \<Rightarrow> 'sim rpc_error + 'ic additional_data" where
  "get_additional_mint_data D K b data =
     ebind (ok_or (InvalidParams ''Invalid param: Token mint could not be unpacked'') (unpack_mint D data)) (\<lambda>mint.
     Inr \<lparr>ad_decimals = mi_decimals mint,
       ad_interest_bearing_config = map_option (\<lambda>x. (x, k_unix_timestamp K b)) (mi_interest_bearing_config mint)\<rparr>)"

definition get_mint_owner_and_additional_data ::
  "('ua, 'am, 'ic) decoder_api \<Rightarrow> 'b rpc_bank_api \<Rightarrow> 'b \<Rightarrow> pubkey \<Rightarrow> 'sim rpc_error + pubkey \<times> 'ic additional_data" where
  "get_mint_owner_and_additional_data D K b mint =
     (if mint = native_mint_id D
      then Inr (spl_token_id D, \<lparr>ad_decimals = native_mint_decimals D, ad_interest_bearing_config = None\<rparr>)
      else
        ebind (ok_or (InvalidParams ''Invalid param: could not find mint'') (k_get_account K b mint)) (\<lambda>mint_account.
        ebind (get_additional_mint_data D K b (acc_data mint_account)) (\<lambda>data. Inr (acc_owner mint_account, data))))"

definition get_parsed_token_account ::
  "('ua, 'am, 'ic) decoder_api \<Rightarrow> 'b rpc_bank_api \<Rightarrow> 'b \<Rightarrow> pubkey \<Rightarrow> account \<Rightarrow> (pubkey \<Rightarrow> account option) option \<Rightarrow> 'ua" where
  "get_parsed_token_account D K b key a overwrite =
     (let data = Option.bind (get_token_account_mint D (acc_data a)) (\<lambda>mint.
        Option.bind (get_account_from_overwrites_or_bank K mint b overwrite) (\<lambda>mint_account.
        res_ok (get_additional_mint_data D K b (acc_data mint_account) :: unit rpc_error + 'ic additional_data))) in
      ui_account_encode D key a EncJsonParsed data None)"

record 'ua keyed_account =
  ka_pubkey :: string
  ka_account :: 'ua

text \<open>The additional data of a mint is looked up once and kept for the accounts that follow.\<close>

definition parsed_additional_data ::
  "('ua, 'am, 'ic) decoder_api \<Rightarrow> 'b rpc_bank_api \<Rightarrow> 'b \<Rightarrow> account \<Rightarrow> (pubkey \<Rightarrow> 'ic additional_data option)
     \<Rightarrow> 'ic additional_data option \<times> (pubkey \<Rightarrow> 'ic additional_data option)" where
  "parsed_additional_data D K b a mint_data =
     (case get_token_account_mint D (acc_data a) of
        None \<Rightarrow> (None, mint_data)
      | Some mint \<Rightarrow>
          (case mint_data mint of
             Some data \<Rightarrow> (Some data, mint_data)
           | None \<Rightarrow>
               (case res_ok (get_mint_owner_and_additional_data D K b mint :: unit rpc_error + pubkey \<times> 'ic additional_data) of
                  None \<Rightarrow> (None, mint_data)
                | Some (_, data) \<Rightarrow> (Some data, mint_data(mint \<mapsto> data)))))"

fun parsed_token_accounts_loop ::
  "text_api \<Rightarrow> ('ua, 'am, 'ic) decoder_api \<Rightarrow> 'b rpc_bank_api \<Rightarrow> 'b \<Rightarrow> (pubkey \<times> account) list
     \<Rightarrow> (pubkey \<Rightarrow> 'ic additional_data option) \<Rightarrow> 'ua keyed_account list" where
  "parsed_token_accounts_loop T D K b [] mint_data = []"
| "parsed_token_accounts_loop T D K b ((key, a) # rest) mint_data =
     (let (data, mint_data') = parsed_additional_data D K b a mint_data;
          encoded = ui_account_encode D key a EncJsonParsed data None;
          others = parsed_token_accounts_loop T D K b rest mint_data' in
      if ui_data_is_json D encoded then \<lparr>ka_pubkey = show_key T key, ka_account = encoded\<rparr> # others else others)"

definition get_parsed_token_accounts where
  "get_parsed_token_accounts T D K b keyed_accounts = parsed_token_accounts_loop T D K b keyed_accounts Map.empty"

definition encode_account ::
  "rpc_limits \<Rightarrow> ('ua, 'am, 'ic) decoder_api \<Rightarrow> account \<Rightarrow> pubkey \<Rightarrow> ui_account_encoding \<Rightarrow> data_slice option \<Rightarrow> 'sim rpc_error + 'ua" where
  "encode_account N D a key encoding dslice =
     (let len = (case dslice of
            Some s \<Rightarrow> min (ds_length s) (sat_sub (length (acc_data a)) (ds_offset s))
          | None \<Rightarrow> length (acc_data a)) in
      if (encoding = EncBinary \<or> encoding = EncBase58) \<and> len > MAX_BASE58_BYTES N
      then Inl (InvalidRequest ''Encoded binary (base 58) data should be less than MAX_BASE58_BYTES bytes, please use Base64 encoding.'')
      else Inr (ui_account_encode D key a encoding None dslice))"

definition get_encoded_account ::
  "rpc_limits \<Rightarrow> ('ua, 'am, 'ic) decoder_api \<Rightarrow> 'b rpc_bank_api \<Rightarrow> 'b \<Rightarrow> pubkey \<Rightarrow> ui_account_encoding \<Rightarrow> data_slice option
     \<Rightarrow> (pubkey \<Rightarrow> account option) option \<Rightarrow> 'sim rpc_error + 'ua option" where
  "get_encoded_account N D K b key encoding dslice overwrite =
     (case get_account_from_overwrites_or_bank K key b overwrite of
        Some a \<Rightarrow>
          ebind (if is_known_spl_token_id D (acc_owner a) \<and> encoding = EncJsonParsed
                 then Inr (get_parsed_token_account D K b key a overwrite)
                 else encode_account N D a key encoding dslice) (\<lambda>response. Inr (Some response))
      | None \<Rightarrow> Inr None)"

record account_info_config =
  ai_encoding :: "ui_account_encoding option"
  ai_data_slice :: "data_slice option"
  ai_commitment :: "commitment_config option"
  ai_min_context_slot :: "slot option"

definition account_info_config_default :: account_info_config where
  "account_info_config_default = \<lparr>ai_encoding = None, ai_data_slice = None, ai_commitment = None, ai_min_context_slot = None\<rparr>"

definition account_context :: "account_info_config \<Rightarrow> context_config" where
  "account_context cfg = \<lparr>cc_commitment = ai_commitment cfg, cc_min_context_slot = ai_min_context_slot cfg\<rparr>"

definition get_account_info ::
  "rpc_limits \<Rightarrow> ('ua, 'am, 'ic) decoder_api \<Rightarrow> 'b rpc_bank_api \<Rightarrow> ('b, 'blk, 'ctx, 'tx) request_processor \<Rightarrow> pubkey
     \<Rightarrow> account_info_config option \<Rightarrow> 'sim rpc_error + 'ua option rpc_response" where
  "get_account_info N D K M key cfg0 =
     (let cfg = unwrap_or account_info_config_default cfg0 in
      ebind (get_bank_with_config K M (account_context cfg)) (\<lambda>b.
      ebind (get_encoded_account N D K b key (unwrap_or EncBinary (ai_encoding cfg)) (ai_data_slice cfg) None) (\<lambda>response.
      Inr (new_response K b response))))"

definition get_multiple_accounts ::
  "rpc_limits \<Rightarrow> ('ua, 'am, 'ic) decoder_api \<Rightarrow> 'b rpc_bank_api \<Rightarrow> ('b, 'blk, 'ctx, 'tx) request_processor \<Rightarrow> pubkey list
     \<Rightarrow> account_info_config option \<Rightarrow> 'sim rpc_error + 'ua option list rpc_response" where
  "get_multiple_accounts N D K M keys cfg0 =
     (let cfg = unwrap_or account_info_config_default cfg0 in
      ebind (get_bank_with_config K M (account_context cfg)) (\<lambda>b.
      ebind (collect_results (map (\<lambda>key.
          get_encoded_account N D K b key (unwrap_or EncBase64 (ai_encoding cfg)) (ai_data_slice cfg) None) keys)) (\<lambda>accounts.
      Inr (new_response K b accounts))))"

section \<open>The cache of the mints\<close>

text \<open>Every entry of the cache is what a look-up gives.\<close>

definition mint_cache_ok ::
  "('ua, 'am, 'ic) decoder_api \<Rightarrow> 'b rpc_bank_api \<Rightarrow> 'b \<Rightarrow> (pubkey \<Rightarrow> 'ic additional_data option) \<Rightarrow> bool" where
  "mint_cache_ok D K b mint_data \<longleftrightarrow> (\<forall>m d. mint_data m = Some d \<longrightarrow>
     (\<exists>own. (get_mint_owner_and_additional_data D K b m :: unit rpc_error + pubkey \<times> 'ic additional_data) = Inr (own, d)))"

definition looked_up_data ::
  "('ua, 'am, 'ic) decoder_api \<Rightarrow> 'b rpc_bank_api \<Rightarrow> 'b \<Rightarrow> account \<Rightarrow> 'ic additional_data option" where
  "looked_up_data D K b a = Option.bind (get_token_account_mint D (acc_data a)) (\<lambda>mint.
     map_option snd (res_ok (get_mint_owner_and_additional_data D K b mint :: unit rpc_error + pubkey \<times> 'ic additional_data)))"

lemma parsed_additional_data_uncached:
  assumes "mint_cache_ok D K b mint_data"
  shows "fst (parsed_additional_data D K b a mint_data) = looked_up_data D K b a \<and>
    mint_cache_ok D K b (snd (parsed_additional_data D K b a mint_data))"
proof (cases "get_token_account_mint D (acc_data a)")
  case (Some mint)
  show ?thesis
  proof (cases "mint_data mint")
    case None
    then show ?thesis
      using assms Some
      by (cases "get_mint_owner_and_additional_data D K b mint :: unit rpc_error + pubkey \<times> _")
        (auto simp: parsed_additional_data_def looked_up_data_def mint_cache_ok_def split: prod.splits)
  next
    case (Some d)
    then obtain own where "(get_mint_owner_and_additional_data D K b mint :: unit rpc_error + pubkey \<times> _) = Inr (own, d)"
      using assms by (auto simp: mint_cache_ok_def)
    then show ?thesis
      using assms Some \<open>get_token_account_mint D (acc_data a) = Some mint\<close>
      by (simp add: parsed_additional_data_def looked_up_data_def)
  qed
qed (use assms in \<open>simp add: parsed_additional_data_def looked_up_data_def\<close>)

definition parsed_step where
  "parsed_step T D K b = (\<lambda>(key, a) mint_data. let (data, mint_data') = parsed_additional_data D K b a mint_data;
     encoded = ui_account_encode D key a EncJsonParsed data None in
     (if ui_data_is_json D encoded then Some \<lparr>ka_pubkey = show_key T key, ka_account = encoded\<rparr> else None, mint_data'))"

definition parsed_directly where
  "parsed_directly T D K b = (\<lambda>(key, a). let encoded = ui_account_encode D key a EncJsonParsed (looked_up_data D K b a) None in
     if ui_data_is_json D encoded then Some \<lparr>ka_pubkey = show_key T key, ka_account = encoded\<rparr> else None)"

lemma parsed_loop_visit: "parsed_token_accounts_loop T D K b xs mint_data = fst (visit (parsed_step T D K b) xs mint_data)"
  by (induction xs arbitrary: mint_data) (auto simp: parsed_step_def Let_def split: prod.splits)

interpretation mints: cached_look_ups "parsed_step T D K b" "parsed_directly T D K b" "mint_cache_ok D K b" for T D K b
proof
  fix c and x :: "pubkey \<times> account"
  assume c: "mint_cache_ok D K b c"
  obtain key a where x: "x = (key, a)" by fastforce
  from parsed_additional_data_uncached [OF c, of a]
  show "fst (parsed_step T D K b x c) = parsed_directly T D K b x" "mint_cache_ok D K b (snd (parsed_step T D K b x c))"
    by (auto simp: parsed_step_def parsed_directly_def x Let_def split: prod.splits)
qed

section \<open>Properties\<close>

text \<open>
  C35.  Keeping the data of the mints while a list of token accounts is parsed changes no answer: each account is
  encoded with the data that a look-up of its own mint gives, the accounts stay in their order, and exactly those
  that do not become JSON are left out.
\<close>

theorem parsed_token_accounts_uncached:
  "get_parsed_token_accounts T D K b xs =
    filter (\<lambda>r. ui_data_is_json D (ka_account r)) (map (\<lambda>(key, a).
      \<lparr>ka_pubkey = show_key T key, ka_account = ui_account_encode D key a EncJsonParsed (looked_up_data D K b a) None\<rparr>) xs)"
proof -
  have "mint_cache_ok D K b Map.empty" by (simp add: mint_cache_ok_def)
  from mints.visit_direct [OF this, where T = T and xs = xs] have "get_parsed_token_accounts T D K b xs = List.map_filter (parsed_directly T D K b) xs"
    by (simp add: get_parsed_token_accounts_def parsed_loop_visit)
  also have "\<dots> = filter (\<lambda>r. ui_data_is_json D (ka_account r)) (map (\<lambda>(key, a).
      \<lparr>ka_pubkey = show_key T key, ka_account = ui_account_encode D key a EncJsonParsed (looked_up_data D K b a) None\<rparr>) xs)"
    by (induction xs) (auto simp: map_filter_simps parsed_directly_def Let_def)
  finally show ?thesis .
qed

end
