(* ===== verification/Rpc_Scan.thy ===== *)
theory Rpc_Scan
  imports Rpc_Accounts
begin

text \<open>
  Scanning for accounts (\<^verbatim>\<open>rpc/src/jsonrpc/core.rs\<close>): the accounts of a program, and the accounts of a
  token by owner, by mint and by delegate.  Filters are compared with the data of an account
  (\<^verbatim>\<open>filter.rs\<close>); where the node keeps a secondary index that fits the filters, the index is scanned
  instead of all accounts of the program.
\<close>

section \<open>Filters\<close>

datatype 'mc filter_type = DataSize nat | Memcmp 'mc | TokenAccountState

text \<open>
  \<^verbatim>\<open>Memcmp\<close>: bytes, raw or encoded, that are expected at an offset.  Converting to raw bytes gives the
  text of its error together with the filter unchanged.
\<close>

record 'mc memcmp_api =
  mc_offset :: "'mc \<Rightarrow> nat"
  mc_raw_bytes :: "'mc \<Rightarrow> u8 list option"
  mc_convert_to_raw_bytes :: "'mc \<Rightarrow> string + 'mc"
  mc_bytes_match :: "'mc \<Rightarrow> u8 list \<Rightarrow> bool"
  mc_new_raw_bytes :: "nat \<Rightarrow> u8 list \<Rightarrow> 'mc"
  mc_verify :: "'mc filter_type \<Rightarrow> string + unit"

definition filter_allows :: "('ua, 'am, 'ic) decoder_api \<Rightarrow> 'mc memcmp_api \<Rightarrow> 'mc filter_type \<Rightarrow> account \<Rightarrow> bool" where
  "filter_allows D C f a =
     (case f of
        DataSize n \<Rightarrow> length (acc_data a) = n
      | Memcmp m \<Rightarrow> mc_bytes_match C m (acc_data a)
      | TokenAccountState \<Rightarrow> valid_account_data D (acc_data a))"

definition optimize_filter :: "'mc memcmp_api \<Rightarrow> 'mc filter_type \<Rightarrow> 'mc filter_type" where
  "optimize_filter C f =
     (case f of
        Memcmp m \<Rightarrow> (case mc_convert_to_raw_bytes C m of Inl err \<Rightarrow> f | Inr m' \<Rightarrow> Memcmp m')
      | _ \<Rightarrow> f)"

definition optimize_filters :: "'mc memcmp_api \<Rightarrow> 'mc filter_type list \<Rightarrow> 'mc filter_type list" where
  "optimize_filters C fs = map (optimize_filter C) fs"

definition verify_filter :: "'mc memcmp_api \<Rightarrow> 'mc filter_type \<Rightarrow> 'sim rpc_error + unit" where
  "verify_filter C f = map_err (\<lambda>e. InvalidParams (''Invalid param: '' @ e)) (mc_verify C f)"

text \<open>
  What the two analyses of the filters collect: the data size, the bytes at the account type of a
  token account, the key at the offset in question, the length of bytes there that are no key, and whether
  the state of a token account is asked for.
\<close>

record filter_analysis =
  fa_data_size :: "nat option"
  fa_memcmp :: "u8 list option"
  fa_key :: "pubkey option"
  fa_incorrect_len :: "nat option"
  fa_token_account_state :: bool

definition analyse_filter ::
  "('ua, 'am, 'ic) decoder_api \<Rightarrow> 'mc memcmp_api \<Rightarrow> nat \<Rightarrow> pubkey \<Rightarrow> 'mc filter_type \<Rightarrow> filter_analysis \<Rightarrow> filter_analysis" where
  "analyse_filter D C key_offset program_id f A =
     (case f of
        DataSize n \<Rightarrow> A\<lparr>fa_data_size := Some n\<rparr>
      | Memcmp m \<Rightarrow>
          (case mc_raw_bytes C m of
             None \<Rightarrow> A
           | Some bytes \<Rightarrow>
               if mc_offset C m = packed_len D \<and> program_id = token_2022_id D then A\<lparr>fa_memcmp := Some bytes\<rparr>
               else if mc_offset C m = key_offset
               then if length bytes = PUBKEY_BYTES D then A\<lparr>fa_key := key_of_bytes D bytes\<rparr>
                 else A\<lparr>fa_incorrect_len := Some (length bytes)\<rparr>
               else A)
      | TokenAccountState \<Rightarrow> A\<lparr>fa_token_account_state := True\<rparr>)"

definition analyse_filters ::
  "('ua, 'am, 'ic) decoder_api \<Rightarrow> 'mc memcmp_api \<Rightarrow> nat \<Rightarrow> pubkey \<Rightarrow> 'mc filter_type list \<Rightarrow> pubkey option" where
  "analyse_filters D C key_offset program_id fs =
     (if \<not> is_known_spl_token_id D program_id then None
      else
        let A = fold (analyse_filter D C key_offset program_id) fs
              \<lparr>fa_data_size = None, fa_memcmp = None, fa_key = None, fa_incorrect_len = None, fa_token_account_state = False\<rparr> in
        if fa_data_size A = Some (packed_len D) \<or> fa_memcmp A = Some [ACCOUNTTYPE_ACCOUNT D] \<or> fa_token_account_state A
        then fa_key A else None)"

definition get_spl_token_owner_filter where
  "get_spl_token_owner_filter D C program_id fs = analyse_filters D C (OWNER_OFFSET D) program_id fs"

definition get_spl_token_mint_filter where
  "get_spl_token_mint_filter D C program_id fs = analyse_filters D C (MINT_OFFSET D) program_id fs"

section \<open>Scans\<close>

type_synonym keyed = "pubkey \<times> account"

definition get_filtered_program_accounts ::
  "text_api \<Rightarrow> ('ua, 'am, 'ic) decoder_api \<Rightarrow> 'mc memcmp_api \<Rightarrow> 'b rpc_bank_api \<Rightarrow> ('b, 'blk, 'ctx, 'tx) request_processor
     \<Rightarrow> 'b \<Rightarrow> pubkey \<Rightarrow> 'mc filter_type list \<Rightarrow> bool \<Rightarrow> 'sim rpc_custom_error + keyed list" where
  "get_filtered_program_accounts T D C K M b program_id filters0 sort_results =
     (let filters = optimize_filters C filters0;
          filter_closure = (\<lambda>a. list_all (\<lambda>f. filter_allows D C f a) filters) in
      if ix_contains (rp_config M) ProgramIdIndex
      then
        if \<not> ix_include_key (rp_config M) program_id then Inl (KeyExcludedFromSecondaryIndex (show_key T program_id))
        else map_err ScanError (k_indexed_accounts K b (IndexProgramId program_id)
               (\<lambda>a. acc_owner a = program_id \<and> filter_closure a) sort_results)
      else map_err ScanError (k_program_accounts K b program_id filter_closure sort_results))"

definition get_filtered_spl_token_accounts_by_owner ::
  "text_api \<Rightarrow> ('ua, 'am, 'ic) decoder_api \<Rightarrow> 'mc memcmp_api \<Rightarrow> 'b rpc_bank_api \<Rightarrow> ('b, 'blk, 'ctx, 'tx) request_processor
     \<Rightarrow> 'b \<Rightarrow> pubkey \<Rightarrow> pubkey \<Rightarrow> 'mc filter_type list \<Rightarrow> bool \<Rightarrow> 'sim rpc_custom_error + keyed list" where
  "get_filtered_spl_token_accounts_by_owner T D C K M b program_id owner_key filters0 sort_results =
     (let filters = filters0 @ [TokenAccountState, Memcmp (mc_new_raw_bytes C (OWNER_OFFSET D) (key_bytes D owner_key))] in
      if ix_contains (rp_config M) SplTokenOwnerIndex
      then
        if \<not> ix_include_key (rp_config M) owner_key then Inl (KeyExcludedFromSecondaryIndex (show_key T owner_key))
        else map_err ScanError (k_indexed_accounts K b (IndexSplTokenOwner owner_key)
               (\<lambda>a. acc_owner a = program_id \<and> list_all (\<lambda>f. filter_allows D C f a) filters) sort_results)
      else get_filtered_program_accounts T D C K M b program_id filters sort_results)"

definition get_filtered_spl_token_accounts_by_mint ::
  "text_api \<Rightarrow> ('ua, 'am, 'ic) decoder_api \<Rightarrow> 'mc memcmp_api \<Rightarrow> 'b rpc_bank_api \<Rightarrow> ('b, 'blk, 'ctx, 'tx) request_processor
     \<Rightarrow> 'b \<Rightarrow> pubkey \<Rightarrow> pubkey \<Rightarrow> 'mc filter_type list \<Rightarrow> bool \<Rightarrow> 'sim rpc_custom_error + keyed list" where
  "get_filtered_spl_token_accounts_by_mint T D C K M b program_id mint_key filters0 sort_results =
     (let filters = filters0 @ [TokenAccountState, Memcmp (mc_new_raw_bytes C (MINT_OFFSET D) (key_bytes D mint_key))] in
      if ix_contains (rp_config M) SplTokenMintIndex
      then
        if \<not> ix_include_key (rp_config M) mint_key then Inl (KeyExcludedFromSecondaryIndex (show_key T mint_key))
        else map_err ScanError (k_indexed_accounts K b (IndexSplTokenMint mint_key)
               (\<lambda>a. acc_owner a = program_id \<and> list_all (\<lambda>f. filter_allows D C f a) filters) sort_results)
      else get_filtered_program_accounts T D C K M b program_id filters sort_results)"

text \<open>The accounts of a program that pass the filters, through the index that fits them.\<close>

definition select_program_accounts ::
  "text_api \<Rightarrow> ('ua, 'am, 'ic) decoder_api \<Rightarrow> 'mc memcmp_api \<Rightarrow> 'b rpc_bank_api \<Rightarrow> ('b, 'blk, 'ctx, 'tx) request_processor
     \<Rightarrow> 'b \<Rightarrow> pubkey \<Rightarrow> 'mc filter_type list \<Rightarrow> bool \<Rightarrow> 'sim rpc_custom_error + keyed list" where
  "select_program_accounts T D C K M b program_id filters0 sort_results =
     (let filters = optimize_filters C filters0 in
      case get_spl_token_owner_filter D C program_id filters of
        Some owner \<Rightarrow> get_filtered_spl_token_accounts_by_owner T D C K M b program_id owner filters sort_results
      | None \<Rightarrow>
          (case get_spl_token_mint_filter D C program_id filters of
             Some mint \<Rightarrow> get_filtered_spl_token_accounts_by_mint T D C K M b program_id mint filters sort_results
           | None \<Rightarrow> get_filtered_program_accounts T D C K M b program_id filters sort_results))"

definition encode_keyed ::
  "rpc_limits \<Rightarrow> text_api \<Rightarrow> ('ua, 'am, 'ic) decoder_api \<Rightarrow> ui_account_encoding \<Rightarrow> data_slice option \<Rightarrow> keyed list
     \<Rightarrow> 'sim rpc_error + 'ua keyed_account list" where
  "encode_keyed N T D encoding dslice keyed_accounts =
     collect_results (map (\<lambda>(key, a).
       ebind (encode_account N D a key encoding dslice) (\<lambda>e. Inr \<lparr>ka_pubkey = show_key T key, ka_account = e\<rparr>)) keyed_accounts)"

datatype 'a optional_context = WithContext "'a rpc_response" | NoContext 'a

definition get_program_accounts ::
  "rpc_limits \<Rightarrow> text_api \<Rightarrow> ('ua, 'am, 'ic) decoder_api \<Rightarrow> 'mc memcmp_api \<Rightarrow> 'b rpc_bank_api
     \<Rightarrow> ('b, 'blk, 'ctx, 'tx) request_processor \<Rightarrow> pubkey \<Rightarrow> account_info_config option \<Rightarrow> 'mc filter_type list \<Rightarrow> bool \<Rightarrow> bool
     \<Rightarrow> 'sim rpc_error + 'ua keyed_account list optional_context" where
  "get_program_accounts N T D C K M program_id cfg0 filters with_context sort_results =
     (let cfg = unwrap_or account_info_config_default cfg0 in
      ebind (get_bank_with_config K M (account_context cfg)) (\<lambda>b.
      let encoding = unwrap_or EncBinary (ai_encoding cfg) in
      ebind (map_err CustomError (select_program_accounts T D C K M b program_id filters sort_results)) (\<lambda>keyed_accounts.
      ebind (if is_known_spl_token_id D program_id \<and> encoding = EncJsonParsed
             then Inr (get_parsed_token_accounts T D K b keyed_accounts)
             else encode_keyed N T D encoding (ai_data_slice cfg) keyed_accounts) (\<lambda>accounts.
      Inr (if with_context then WithContext (new_response K b accounts) else NoContext accounts)))))"

section \<open>Tokens\<close>

datatype token_accounts_filter = MintFilter pubkey | ProgramIdFilter pubkey
datatype rpc_token_accounts_filter = RpcMintFilter string | RpcProgramIdFilter string

definition verify_token_account_filter :: "text_api \<Rightarrow> rpc_token_accounts_filter \<Rightarrow> 'sim rpc_error + token_accounts_filter" where
  "verify_token_account_filter T f =
     (case f of
        RpcMintFilter s \<Rightarrow> ebind (verify_pubkey T s) (\<lambda>mint. Inr (MintFilter mint))
      | RpcProgramIdFilter s \<Rightarrow> ebind (verify_pubkey T s) (\<lambda>program_id. Inr (ProgramIdFilter program_id)))"

definition get_token_program_id_and_mint ::
  "('ua, 'am, 'ic) decoder_api \<Rightarrow> 'b rpc_bank_api \<Rightarrow> 'b \<Rightarrow> token_accounts_filter \<Rightarrow> 'sim rpc_error + pubkey \<times> pubkey option" where
  "get_token_program_id_and_mint D K b f =
     (case f of
        MintFilter mint \<Rightarrow>
          ebind (get_mint_owner_and_additional_data D K b mint) (\<lambda>(mint_owner, _).
          if \<not> is_known_spl_token_id D mint_owner then Inl (InvalidParams ''Invalid param: not a Token mint'')
          else Inr (mint_owner, Some mint))
      | ProgramIdFilter program_id \<Rightarrow>
          if is_known_spl_token_id D program_id then Inr (program_id, None)
          else Inl (InvalidParams ''Invalid param: unrecognized Token program id''))"

definition get_token_account_balance ::
  "('ua, 'am, 'ic) decoder_api \<Rightarrow> 'b rpc_bank_api \<Rightarrow> ('b, 'blk, 'ctx, 'tx) request_processor \<Rightarrow> pubkey \<Rightarrow> commitment_config option
     \<Rightarrow> 'sim rpc_error + 'am rpc_response" where
  "get_token_account_balance D K M key commitment =
     (let b = rpc_bank M commitment in
      ebind (ok_or (InvalidParams ''Invalid param: could not find account'') (k_get_account K b key)) (\<lambda>a.
      if \<not> is_known_spl_token_id D (acc_owner a) then Inl (InvalidParams ''Invalid param: not a Token account'')
      else
        ebind (ok_or (InvalidParams ''Invalid param: not a Token account'') (unpack_token_account D (acc_data a))) (\<lambda>(mint, amount).
        ebind (get_mint_owner_and_additional_data D K b mint) (\<lambda>(_, data).
        Inr (new_response K b (token_amount_to_ui_amount D amount data))))))"

definition get_token_supply ::
  "('ua, 'am, 'ic) decoder_api \<Rightarrow> 'b rpc_bank_api \<Rightarrow> ('b, 'blk, 'ctx, 'tx) request_processor \<Rightarrow> pubkey \<Rightarrow> commitment_config option
     \<Rightarrow> 'sim rpc_error + 'am rpc_response" where
  "get_token_supply D K M key commitment =
     (let b = rpc_bank M commitment in
      ebind (ok_or (InvalidParams ''Invalid param: could not find account'') (k_get_account K b key)) (\<lambda>mint_account.
      if \<not> is_known_spl_token_id D (acc_owner mint_account) then Inl (InvalidParams ''Invalid param: not a Token mint'')
      else
        ebind (ok_or (InvalidParams ''Invalid param: mint could not be unpacked'') (unpack_mint D (acc_data mint_account))) (\<lambda>mint.
        Inr (new_response K b (token_amount_to_ui_amount D (mi_supply mint)
          \<lparr>ad_decimals = mi_decimals mint,
           ad_interest_bearing_config = map_option (\<lambda>x. (x, k_unix_timestamp K b)) (mi_interest_bearing_config mint)\<rparr>)))))"

text \<open>
  A \<^verbatim>\<open>BinaryHeap\<close> of reversed entries is the ascending list of its entries: the greatest reversed entry
  is the head of the list, and the sorted vector of the reversed entries is the list in descending order.
\<close>

definition push_token_balance :: "nat \<Rightarrow> nat \<times> pubkey \<Rightarrow> (nat \<times> pubkey) list \<Rightarrow> (nat \<times> pubkey) list res" where
  "push_token_balance n new_entry heap =
     (if n \<le> length heap
      then
        (case heap of
           [] \<Rightarrow> Inl (UnwrapOnNone ''BinaryHeap::peek should succeed when len > 0'')
         | entry # rest \<Rightarrow> if new_entry \<le> entry then Inr heap else Inr (insort new_entry rest))
      else Inr (insort new_entry heap))"

record 'am token_account_balance =
  tl_address :: string
  tl_amount :: 'am

definition token_entry :: "('ua, 'am, 'ic) decoder_api \<Rightarrow> keyed \<Rightarrow> nat \<times> pubkey" where
  "token_entry D = (\<lambda>(address, a). (case unpack_token_account D (acc_data a) of Some (_, amount) \<Rightarrow> amount | None \<Rightarrow> 0, address))"

definition get_token_largest_accounts ::
  "rpc_limits \<Rightarrow> text_api \<Rightarrow> ('ua, 'am, 'ic) decoder_api \<Rightarrow> 'mc memcmp_api \<Rightarrow> 'b rpc_bank_api
     \<Rightarrow> ('b, 'blk, 'ctx, 'tx) request_processor \<Rightarrow> pubkey \<Rightarrow> commitment_config option
     \<Rightarrow> ('sim rpc_error + 'am token_account_balance list rpc_response) res" where
  "get_token_largest_accounts N T D C K M mint commitment =
     (let b = rpc_bank M commitment in
      case ebind (get_mint_owner_and_additional_data D K b mint) (\<lambda>(mint_owner, data).
           if \<not> is_known_spl_token_id D mint_owner then Inl (InvalidParams ''Invalid param: not a Token mint'')
           else map_sum CustomError (Pair data) (get_filtered_spl_token_accounts_by_mint T D C K M b mint_owner mint [] True)) of
        Inl e \<Rightarrow> Inr (Inl e)
      | Inr (data, found) \<Rightarrow>
          rbind (rfold (push_token_balance (NUM_LARGEST_ACCOUNTS N)) (map (token_entry D) found) []) (\<lambda>heap.
          Inr (Inr (new_response K b (map (\<lambda>(amount, address).
            \<lparr>tl_address = show_key T address, tl_amount = token_amount_to_ui_amount D amount data\<rparr>) (rev heap))))))"

definition get_token_accounts_by_owner ::
  "rpc_limits \<Rightarrow> text_api \<Rightarrow> ('ua, 'am, 'ic) decoder_api \<Rightarrow> 'mc memcmp_api \<Rightarrow> 'b rpc_bank_api
     \<Rightarrow> ('b, 'blk, 'ctx, 'tx) request_processor \<Rightarrow> pubkey \<Rightarrow> token_accounts_filter \<Rightarrow> account_info_config option \<Rightarrow> bool
     \<Rightarrow> 'sim rpc_error + 'ua keyed_account list rpc_response" where
  "get_token_accounts_by_owner N T D C K M owner f cfg0 sort_results =
     (let cfg = unwrap_or account_info_config_default cfg0 in
      ebind (get_bank_with_config K M (account_context cfg)) (\<lambda>b.
      let encoding = unwrap_or EncBinary (ai_encoding cfg) in
      ebind (get_token_program_id_and_mint D K b f) (\<lambda>(token_program_id, mint).
      let filters = (case mint of Some m \<Rightarrow> [Memcmp (mc_new_raw_bytes C 0 (key_bytes D m))] | None \<Rightarrow> []) in
      ebind (map_err CustomError
        (get_filtered_spl_token_accounts_by_owner T D C K M b token_program_id owner filters sort_results)) (\<lambda>keyed_accounts.
      ebind (if encoding = EncJsonParsed then Inr (get_parsed_token_accounts T D K b keyed_accounts)
             else encode_keyed N T D encoding (ai_data_slice cfg) keyed_accounts) (\<lambda>accounts.
      Inr (new_response K b accounts))))))"

text \<open>The tag of a delegate that is present, a \<^verbatim>\<open>u32\<close> in little-endian order.\<close>

definition delegate_filters :: "('ua, 'am, 'ic) decoder_api \<Rightarrow> 'mc memcmp_api \<Rightarrow> pubkey \<Rightarrow> 'mc filter_type list" where
  "delegate_filters D C delegate =
     [Memcmp (mc_new_raw_bytes C 72 [1, 0, 0, 0]), Memcmp (mc_new_raw_bytes C 76 (key_bytes D delegate))]"

definition get_token_accounts_by_delegate ::
  "rpc_limits \<Rightarrow> text_api \<Rightarrow> ('ua, 'am, 'ic) decoder_api \<Rightarrow> 'mc memcmp_api \<Rightarrow> 'b rpc_bank_api
     \<Rightarrow> ('b, 'blk, 'ctx, 'tx) request_processor \<Rightarrow> pubkey \<Rightarrow> token_accounts_filter \<Rightarrow> account_info_config option \<Rightarrow> bool
     \<Rightarrow> 'sim rpc_error + 'ua keyed_account list rpc_response" where
  "get_token_accounts_by_delegate N T D C K M delegate f cfg0 sort_results =
     (let cfg = unwrap_or account_info_config_default cfg0 in
      ebind (get_bank_with_config K M (account_context cfg)) (\<lambda>b.
      let encoding = unwrap_or EncBinary (ai_encoding cfg) in
      ebind (get_token_program_id_and_mint D K b f) (\<lambda>(token_program_id, mint).
      ebind (map_err CustomError (case mint of
          Some m \<Rightarrow> get_filtered_spl_token_accounts_by_mint T D C K M b token_program_id m (delegate_filters D C delegate) sort_results
        | None \<Rightarrow> get_filtered_program_accounts T D C K M b token_program_id
            (delegate_filters D C delegate @ [TokenAccountState]) sort_results)) (\<lambda>keyed_accounts.
      ebind (if encoding = EncJsonParsed then Inr (get_parsed_token_accounts T D K b keyed_accounts)
             else encode_keyed N T D encoding (ai_data_slice cfg) keyed_accounts) (\<lambda>accounts.
      Inr (new_response K b accounts))))))"

section \<open>The largest entries\<close>

lemma drop_insort_le: "\<lbrakk>sorted s; k < length s; e \<le> s ! k\<rbrakk> \<Longrightarrow> drop (Suc k) (insort e s) = drop k s"
proof (induction s arbitrary: k)
  case (Cons x s)
  show ?case
  proof (cases k)
    case (Suc j)
    with Cons.prems have "j < length s" "e \<le> s ! j" by auto
    with Cons.IH [of j] Cons.prems(1) show ?thesis
      by (cases "e \<le> x") (simp_all add: Suc)
  qed (use Cons.prems in simp)
qed simp

lemma drop_insort_gt: "\<lbrakk>sorted s; k < length s; s ! k < e\<rbrakk> \<Longrightarrow> drop (Suc k) (insort e s) = insort e (drop (Suc k) s)"
proof (induction s arbitrary: k)
  case (Cons x s)
  then have "x < e"
    using le_less_trans [of x "s ! (k - 1)" e] by (cases k) auto
  with Cons show ?case by (cases k) auto
qed simp

text \<open>Pushing every entry keeps the greatest entries, in ascending order.\<close>

lemma push_token_balances:
  assumes "0 < n"
  shows "rfold (push_token_balance n) es [] = Inr (drop (length es - n) (sort es))"
proof (induction es rule: rev_induct)
  case (snoc e es)
  let ?s = "sort es"
  have srt: "sort (es @ [e]) = insort e ?s"
    by (rule properties_for_sort) (simp_all add: sorted_insort)
  have step: "rfold (push_token_balance n) (es @ [e]) [] = push_token_balance n e (drop (length es - n) ?s)"
    by (cases "push_token_balance n e (drop (length es - n) ?s)") (simp_all add: rfold_append snoc)
  show ?case
  proof (cases "length es < n")
    case True
    then show ?thesis unfolding step srt by (simp add: push_token_balance_def)
  next
    case False
    then have k: "length es - n < length ?s" and len: "length (es @ [e]) - n = Suc (length es - n)" using assms by auto
    then have h: "drop (length es - n) ?s = ?s ! (length es - n) # drop (Suc (length es - n)) ?s"
      by (simp add: Cons_nth_drop_Suc)
    with False drop_insort_le [OF sorted_sort k, of e] drop_insort_gt [OF sorted_sort k, of e] show ?thesis
      unfolding step srt len by (auto simp: push_token_balance_def not_le)
  qed
qed simp

section \<open>What the scans return\<close>

definition bytes_at :: "nat \<Rightarrow> u8 list \<Rightarrow> u8 list \<Rightarrow> bool" where
  "bytes_at offset bytes data \<longleftrightarrow> offset \<le> length data \<and> take (length bytes) (drop offset data) = bytes"

text \<open>
  \<^verbatim>\<open>Memcmp\<close> compares its bytes with those at its offset, and decoding its bytes keeps what it compares;
  the bytes of a key are read back as that key and no other.
\<close>

definition memcmp_laws :: "'mc memcmp_api \<Rightarrow> bool" where
  "memcmp_laws C \<longleftrightarrow>
     (\<forall>m m' data. mc_convert_to_raw_bytes C m = Inr m' \<longrightarrow> mc_bytes_match C m' data = mc_bytes_match C m data) \<and>
     (\<forall>m bytes data. mc_raw_bytes C m = Some bytes \<longrightarrow> mc_bytes_match C m data = bytes_at (mc_offset C m) bytes data) \<and>
     (\<forall>n bytes. mc_raw_bytes C (mc_new_raw_bytes C n bytes) = Some bytes \<and> mc_offset C (mc_new_raw_bytes C n bytes) = n)"

definition key_bytes_laws :: "('ua, 'am, 'ic) decoder_api \<Rightarrow> bool" where
  "key_bytes_laws D \<longleftrightarrow> (\<forall>bytes k. key_of_bytes D bytes = Some k \<longleftrightarrow> bytes = key_bytes D k)"

text \<open>
  The accounts a secondary index must list under a key: those of the program, and for the indexes of the
  token programs the valid token accounts with that owner or mint.
\<close>

definition must_index :: "('ua, 'am, 'ic) decoder_api \<Rightarrow> index_key \<Rightarrow> account \<Rightarrow> bool" where
  "must_index D key a =
     (let token = (\<lambda>offset k. is_known_spl_token_id D (acc_owner a) \<and> valid_account_data D (acc_data a) \<and>
        bytes_at offset (key_bytes D k) (acc_data a)) in
      case key of
        IndexProgramId p \<Rightarrow> acc_owner a = p
      | IndexSplTokenOwner k \<Rightarrow> token (OWNER_OFFSET D) k
      | IndexSplTokenMint k \<Rightarrow> token (MINT_OFFSET D) k)"

text \<open>
  A scan that succeeds returns the accounts that its closure accepts: all of the program's, and from an
  index at least those that the index must list.
\<close>

definition scan_laws :: "('ua, 'am, 'ic) decoder_api \<Rightarrow> 'b rpc_bank_api \<Rightarrow> 'b \<Rightarrow> (pubkey \<Rightarrow> account option) \<Rightarrow> bool" where
  "scan_laws D K b accounts \<longleftrightarrow>
     (\<forall>p f srt xs. k_program_accounts K b p f srt = Inr xs \<longrightarrow>
        set xs = {(k, a). accounts k = Some a \<and> acc_owner a = p \<and> f a}) \<and>
     (\<forall>key f srt xs. k_indexed_accounts K b key f srt = Inr xs \<longrightarrow>
        set xs \<subseteq> {(k, a). accounts k = Some a \<and> f a} \<and>
        {(k, a). accounts k = Some a \<and> must_index D key a \<and> f a} \<subseteq> set xs)"

lemma allows_optimized:
  "memcmp_laws C \<Longrightarrow> filter_allows D C (optimize_filter C f) a = filter_allows D C f a"
  by (auto simp: memcmp_laws_def optimize_filter_def filter_allows_def split: filter_type.splits sum.splits)

lemma all_allow_optimized:
  "memcmp_laws C \<Longrightarrow> list_all (\<lambda>f. filter_allows D C f a) (optimize_filters C fs) = list_all (\<lambda>f. filter_allows D C f a) fs"
  by (simp add: optimize_filters_def list_all_length allows_optimized)

lemma new_raw_bytes_allows:
  "memcmp_laws C \<Longrightarrow> filter_allows D C (Memcmp (mc_new_raw_bytes C n bytes)) a = bytes_at n bytes (acc_data a)"
  by (simp add: memcmp_laws_def filter_allows_def)

text \<open>The accounts of a program that pass a list of filters.\<close>

definition matching :: "('ua, 'am, 'ic) decoder_api \<Rightarrow> 'mc memcmp_api \<Rightarrow> (pubkey \<Rightarrow> account option) \<Rightarrow> pubkey \<Rightarrow> 'mc filter_type list \<Rightarrow> keyed set" where
  "matching D C accounts p fs = {(k, a). accounts k = Some a \<and> acc_owner a = p \<and> list_all (\<lambda>f. filter_allows D C f a) fs}"

lemma indexed_scan_exact:
  assumes "scan_laws D K b accounts"
    and "k_indexed_accounts K b key (\<lambda>a. acc_owner a = p \<and> list_all (\<lambda>f. filter_allows D C f a) fs) srt = Inr xs"
    and "\<And>a. acc_owner a = p \<Longrightarrow> list_all (\<lambda>f. filter_allows D C f a) fs \<Longrightarrow> must_index D key a"
  shows "set xs = matching D C accounts p fs"
proof -
  have "set xs \<subseteq> matching D C accounts p fs"
    and "{(k, a). accounts k = Some a \<and> must_index D key a \<and> acc_owner a = p \<and> list_all (\<lambda>f. filter_allows D C f a) fs} \<subseteq> set xs"
    using assms(1,2) unfolding scan_laws_def matching_def by blast+
  with assms(3) show ?thesis unfolding matching_def by blast
qed

lemma filtered_program_accounts_exact:
  assumes "scan_laws D K b accounts" and "memcmp_laws C"
    and "get_filtered_program_accounts T D C K M b p fs srt = (Inr xs :: 'sim rpc_custom_error + keyed list)"
  shows "set xs = matching D C accounts p fs"
proof (cases "ix_contains (rp_config M) ProgramIdIndex")
  case True
  with assms have "k_indexed_accounts K b (IndexProgramId p) (\<lambda>a. acc_owner a = p \<and> list_all (\<lambda>f. filter_allows D C f a) fs) srt = Inr xs"
    by (simp add: get_filtered_program_accounts_def all_allow_optimized map_err_Inr_iff split: if_splits)
  from indexed_scan_exact [OF assms(1) this] show ?thesis by (simp add: must_index_def)
next
  case False
  with assms have "k_program_accounts K b p (\<lambda>a. list_all (\<lambda>f. filter_allows D C f a) fs) srt = Inr xs"
    by (simp add: get_filtered_program_accounts_def all_allow_optimized map_err_Inr_iff)
  with assms(1) show ?thesis by (simp add: scan_laws_def matching_def)
qed

text \<open>The filters that the scans of the token accounts add.\<close>

definition token_filters :: "'mc memcmp_api \<Rightarrow> nat \<Rightarrow> u8 list \<Rightarrow> 'mc filter_type list" where
  "token_filters C offset bytes = [TokenAccountState, Memcmp (mc_new_raw_bytes C offset bytes)]"

lemma token_filters_allow:
  "memcmp_laws C \<Longrightarrow> list_all (\<lambda>f. filter_allows D C f a) (token_filters C n bytes) \<longleftrightarrow>
    valid_account_data D (acc_data a) \<and> bytes_at n bytes (acc_data a)"
  by (simp add: token_filters_def new_raw_bytes_allows) (simp add: filter_allows_def)

lemma spl_token_accounts_by_owner_exact:
  assumes "scan_laws D K b accounts" and "memcmp_laws C" and "is_known_spl_token_id D p"
    and "get_filtered_spl_token_accounts_by_owner T D C K M b p owner fs srt = (Inr xs :: 'sim rpc_custom_error + keyed list)"
  shows "set xs = matching D C accounts p (fs @ token_filters C (OWNER_OFFSET D) (key_bytes D owner))"
proof (cases "ix_contains (rp_config M) SplTokenOwnerIndex")
  case True
  with assms(4) have "k_indexed_accounts K b (IndexSplTokenOwner owner) (\<lambda>a. acc_owner a = p \<and>
      list_all (\<lambda>f. filter_allows D C f a) (fs @ token_filters C (OWNER_OFFSET D) (key_bytes D owner))) srt = Inr xs"
    by (simp add: get_filtered_spl_token_accounts_by_owner_def token_filters_def map_err_Inr_iff split: if_splits)
  from indexed_scan_exact [OF assms(1) this] show ?thesis
    using assms(2,3) by (simp add: must_index_def token_filters_allow)
next
  case False
  with assms(4) show ?thesis
    by (intro filtered_program_accounts_exact [OF assms(1,2)])
      (simp add: get_filtered_spl_token_accounts_by_owner_def token_filters_def)
qed

lemma spl_token_accounts_by_mint_exact:
  assumes "scan_laws D K b accounts" and "memcmp_laws C" and "is_known_spl_token_id D p"
    and "get_filtered_spl_token_accounts_by_mint T D C K M b p mint fs srt = (Inr xs :: 'sim rpc_custom_error + keyed list)"
  shows "set xs = matching D C accounts p (fs @ token_filters C (MINT_OFFSET D) (key_bytes D mint))"
proof (cases "ix_contains (rp_config M) SplTokenMintIndex")
  case True
  with assms(4) have "k_indexed_accounts K b (IndexSplTokenMint mint) (\<lambda>a. acc_owner a = p \<and>
      list_all (\<lambda>f. filter_allows D C f a) (fs @ token_filters C (MINT_OFFSET D) (key_bytes D mint))) srt = Inr xs"
    by (simp add: get_filtered_spl_token_accounts_by_mint_def token_filters_def map_err_Inr_iff split: if_splits)
  from indexed_scan_exact [OF assms(1) this] show ?thesis
    using assms(2,3) by (simp add: must_index_def token_filters_allow)
next
  case False
  with assms(4) show ?thesis
    by (intro filtered_program_accounts_exact [OF assms(1,2)])
      (simp add: get_filtered_spl_token_accounts_by_mint_def token_filters_def)
qed

text \<open>A key that the analysis finds is one that a filter asks for at the offset.\<close>

lemma analysed_key:
  assumes "fa_key (fold (analyse_filter D C off p) fs A) = Some k"
  shows "fa_key A = Some k \<or> (\<exists>m bytes. Memcmp m \<in> set fs \<and> mc_raw_bytes C m = Some bytes \<and>
    mc_offset C m = off \<and> key_of_bytes D bytes = Some k)"
  using assms
proof (induction fs arbitrary: A)
  case (Cons f fs)
  then consider "fa_key (analyse_filter D C off p f A) = Some k"
    | "\<exists>m bytes. Memcmp m \<in> set fs \<and> mc_raw_bytes C m = Some bytes \<and> mc_offset C m = off \<and> key_of_bytes D bytes = Some k"
    by fastforce
  then show ?case
  proof cases
    case 1
    then show ?thesis
      by (cases f) (auto simp: analyse_filter_def split: option.splits if_splits)
  qed auto
qed simp

lemma analyse_filters_sound:
  assumes "analyse_filters D C off p fs = Some k" and "memcmp_laws C" and "key_bytes_laws D"
  shows "is_known_spl_token_id D p"
    and "list_all (\<lambda>f. filter_allows D C f a) fs \<Longrightarrow> bytes_at off (key_bytes D k) (acc_data a)"
proof -
  show "is_known_spl_token_id D p" using assms(1) by (simp add: analyse_filters_def split: if_splits)
  from assms(1) obtain m bytes where "Memcmp m \<in> set fs" "mc_raw_bytes C m = Some bytes" "mc_offset C m = off"
    "key_of_bytes D bytes = Some k"
    by (auto simp: analyse_filters_def Let_def split: if_splits dest!: analysed_key)
  then show "bytes_at off (key_bytes D k) (acc_data a)" if "list_all (\<lambda>f. filter_allows D C f a) fs"
    using that assms(2,3) by (fastforce simp: list_all_iff filter_allows_def memcmp_laws_def key_bytes_laws_def)
qed

lemma matching_token_filters:
  assumes "analyse_filters D C off p fs = Some k" and "memcmp_laws C" and "key_bytes_laws D"
  shows "matching D C accounts p (fs @ token_filters C off (key_bytes D k)) =
    {(x, a) \<in> matching D C accounts p fs. valid_account_data D (acc_data a)}"
  using analyse_filters_sound(2) [OF assms] assms(2) by (auto simp: matching_def token_filters_allow)

lemma matching_optimized: "memcmp_laws C \<Longrightarrow> matching D C accounts p (optimize_filters C fs) = matching D C accounts p fs"
  by (simp add: matching_def all_allow_optimized)

section \<open>Properties\<close>

text \<open>
  C11.  The scan for the accounts of a program answers the question it was asked, whichever secondary indexes the
  node keeps: every account it returns is an account of the program that passes all filters of the request, and every
  such account is returned, for a token program every one whose data is a valid token account.
\<close>

theorem program_accounts_exact:
  assumes "scan_laws D K b accounts" and "memcmp_laws C" and "key_bytes_laws D"
    and "select_program_accounts T D C K M b p fs srt = (Inr xs :: 'sim rpc_custom_error + keyed list)"
  shows "set xs \<subseteq> matching D C accounts p fs \<and>
    {(k, a) \<in> matching D C accounts p fs. is_known_spl_token_id D p \<longrightarrow> valid_account_data D (acc_data a)} \<subseteq> set xs"
proof -
  let ?fs = "optimize_filters C fs"
  consider (owner) k where "analyse_filters D C (OWNER_OFFSET D) p ?fs = Some k"
      "get_filtered_spl_token_accounts_by_owner T D C K M b p k ?fs srt = (Inr xs :: 'sim rpc_custom_error + keyed list)"
    | (mint) k where "analyse_filters D C (MINT_OFFSET D) p ?fs = Some k"
      "get_filtered_spl_token_accounts_by_mint T D C K M b p k ?fs srt = (Inr xs :: 'sim rpc_custom_error + keyed list)"
    | (other) "get_filtered_program_accounts T D C K M b p ?fs srt = (Inr xs :: 'sim rpc_custom_error + keyed list)"
    using assms(4) by (auto simp: select_program_accounts_def Let_def get_spl_token_owner_filter_def
      get_spl_token_mint_filter_def split: option.splits)
  then show ?thesis
  proof cases
    case (owner k)
    note an = matching_token_filters [OF owner(1) assms(2,3)] analyse_filters_sound(1) [OF owner(1) assms(2,3)]
    from spl_token_accounts_by_owner_exact [OF assms(1,2) an(2) owner(2)] show ?thesis
      using an assms(2) by (auto simp: matching_optimized)
  next
    case (mint k)
    note an = matching_token_filters [OF mint(1) assms(2,3)] analyse_filters_sound(1) [OF mint(1) assms(2,3)]
    from spl_token_accounts_by_mint_exact [OF assms(1,2) an(2) mint(2)] show ?thesis
      using an assms(2) by (auto simp: matching_optimized)
  next
    case other
    from filtered_program_accounts_exact [OF assms(1,2) other] show ?thesis
      using assms(2) by (auto simp: matching_optimized)
  qed
qed

text \<open>
  C23.  The largest accounts of a token are its accounts in descending order of amount and address, cut off after the
  first twenty (\<^verbatim>\<open>NUM_LARGEST_ACCOUNTS\<close>): the heap of bounded size loses none of them, and its \<^verbatim>\<open>expect\<close>
  never fires.
\<close>

theorem token_largest_accounts_top:
  assumes "get_mint_owner_and_additional_data D K (rpc_bank M commitment) mint = (Inr (own, data) :: 'sim rpc_error + pubkey \<times> 'ic additional_data)"
    and "is_known_spl_token_id D own"
    and "get_filtered_spl_token_accounts_by_mint T D C K M (rpc_bank M commitment) own mint [] True =
      (Inr found :: 'sim rpc_custom_error + keyed list)"
    and "0 < NUM_LARGEST_ACCOUNTS N"
  shows "get_token_largest_accounts N T D C K M mint commitment =
    Inr (Inr (new_response K (rpc_bank M commitment) (map (\<lambda>(amount, address).
      \<lparr>tl_address = show_key T address, tl_amount = token_amount_to_ui_amount D amount data\<rparr>)
      (take (NUM_LARGEST_ACCOUNTS N) (rev (sort (map (token_entry D) found)))))) :: 'sim rpc_error + _)"
  using assms(1-3) by (simp add: get_token_largest_accounts_def Let_def push_token_balances [OF assms(4)] take_rev)

section \<open>Witnesses\<close>

text \<open>A token account of five bytes: the mint, the owner and the amount; a key is written as that many bytes.\<close>

definition example_decoder :: "(account, nat, unit) decoder_api" where
  "example_decoder = \<lparr>is_known_spl_token_id = (\<lambda>k. k = 9), spl_token_id = 9, token_2022_id = 10, native_mint_id = 2,
     native_mint_decimals = 1, unpack_mint = (\<lambda>_. None),
     unpack_token_account = (\<lambda>d. if length d = 5 then Some (2, unat (last d)) else None), get_token_account_mint = (\<lambda>_. Some 2),
     valid_account_data = (\<lambda>d. length d = 5), token_amount_to_ui_amount = (\<lambda>n _. n), ui_account_encode = (\<lambda>_ a _ _ _. a),
     ui_data_is_json = (\<lambda>_. True), key_bytes = (\<lambda>k. replicate (unat k) 1),
     key_of_bytes = (\<lambda>bs. if bs = replicate (unat (of_nat (length bs) :: pubkey)) 1 then Some (of_nat (length bs)) else None),
     packed_len = 5, ACCOUNTTYPE_ACCOUNT = 2, MINT_OFFSET = 0, OWNER_OFFSET = 2, PUBKEY_BYTES = 2\<rparr>"

definition example_memcmp :: "(nat \<times> u8 list) memcmp_api" where
  "example_memcmp = \<lparr>mc_offset = fst, mc_raw_bytes = (\<lambda>m. Some (snd m)), mc_convert_to_raw_bytes = Inr,
     mc_bytes_match = (\<lambda>(n, bs) d. bytes_at n bs d), mc_new_raw_bytes = Pair, mc_verify = (\<lambda>_. Inr ())\<rparr>"

definition example_token_account :: "u8 list \<Rightarrow> account" where
  "example_token_account d = \<lparr>acc_lamports = 1, acc_data = d, acc_owner = 9, acc_executable = False, acc_rent_epoch = 0\<rparr>"

definition example_token_accounts :: "(pubkey \<times> account) list" where
  "example_token_accounts = [(1, example_token_account [1, 1, 1, 1, 7]), (3, example_token_account [1, 1, 0, 0, 8]),
     (4, example_token_account [1, 1, 1, 1, 9]), (5, example_token_account [1, 1, 1, 1])]"

lemma example_memcmp_laws: "memcmp_laws example_memcmp"
  by (auto simp: memcmp_laws_def example_memcmp_def)

lemma example_key_bytes_laws: "key_bytes_laws example_decoder"
  by (auto simp: key_bytes_laws_def example_decoder_def)

lemma example_scan_laws: "distinct (map fst xs) \<Longrightarrow> scan_laws example_decoder example_rpc_bank (s, xs) (map_of xs)"
  by (auto simp: scan_laws_def example_rpc_bank_defs)

definition example_indexed :: "(example_bank, unit, unit, unit) request_processor" where
  "example_indexed = (example_processor example_token_accounts)\<lparr>rp_config := json_rpc_config_default\<lparr>ix_contains := (\<lambda>_. True)\<rparr>\<rparr>"

lemmas example_scan_defs = example_decoder_def example_memcmp_def example_token_account_def example_token_accounts_def
  example_indexed_def example_processor_def example_rpc_bank_defs json_rpc_config_default_def

lemma example_by_owner:
  "select_program_accounts example_text example_decoder example_memcmp example_rpc_bank example_indexed (6, example_token_accounts) 9
     [DataSize 5, Memcmp (2, [1, 1])] True = (Inr [(1, example_token_account [1, 1, 1, 1, 7]),
       (4, example_token_account [1, 1, 1, 1, 9])] :: unit rpc_custom_error + keyed list)"
  by (simp add: select_program_accounts_def get_spl_token_owner_filter_def analyse_filters_def analyse_filter_def
    Let_def optimize_filters_def optimize_filter_def get_filtered_spl_token_accounts_by_owner_def filter_allows_def bytes_at_def
    map_err_def replicate_2 example_scan_defs)

theorem program_accounts_exact_witness:
  "{(k, a) \<in> matching example_decoder example_memcmp (map_of example_token_accounts) 9 [DataSize 5, Memcmp (2, [1, 1])].
      is_known_spl_token_id example_decoder 9 \<longrightarrow> valid_account_data example_decoder (acc_data a)} \<subseteq>
    {(1, example_token_account [1, 1, 1, 1, 7]), (4, example_token_account [1, 1, 1, 1, 9])}"
  using program_accounts_exact [OF example_scan_laws example_memcmp_laws example_key_bytes_laws example_by_owner]
  by (simp add: example_token_accounts_def)

lemma example_by_mint:
  "get_filtered_spl_token_accounts_by_mint example_text example_decoder example_memcmp example_rpc_bank example_indexed
     (rpc_bank example_indexed None) 9 2 [] True = (Inr [(1, example_token_account [1, 1, 1, 1, 7]),
       (3, example_token_account [1, 1, 0, 0, 8]), (4, example_token_account [1, 1, 1, 1, 9])] :: unit rpc_custom_error + keyed list)"
  by (simp add: get_filtered_spl_token_accounts_by_mint_def Let_def filter_allows_def bytes_at_def rpc_bank_def
    map_err_def replicate_2 example_scan_defs)

lemma example_native_mint:
  "get_mint_owner_and_additional_data example_decoder K b 2 =
    (Inr (9, \<lparr>ad_decimals = 1, ad_interest_bearing_config = None\<rparr>) :: unit rpc_error + pubkey \<times> unit additional_data)"
  by (simp add: get_mint_owner_and_additional_data_def example_decoder_def)

lemma example_top:
  "take (NUM_LARGEST_ACCOUNTS example_limits) (rev (sort (map (token_entry example_decoder)
     [(1, example_token_account [1, 1, 1, 1, 7]), (3, example_token_account [1, 1, 0, 0, 8]),
      (4, example_token_account [1, 1, 1, 1, 9])]))) = [(9, 4), (8, 3)]"
  by (simp add: token_entry_def example_token_account_def example_decoder_def example_limits_def)

lemma example_known_token: "is_known_spl_token_id example_decoder 9" "0 < NUM_LARGEST_ACCOUNTS example_limits"
  by (simp_all add: example_decoder_def example_limits_def)

theorem token_largest_accounts_top_witness:
  "get_token_largest_accounts example_limits example_text example_decoder example_memcmp example_rpc_bank example_indexed 2 None =
    (Inr (Inr \<lparr>context_slot = 6, rpc_value = [\<lparr>tl_address = show_key example_text 4, tl_amount = 9\<rparr>,
       \<lparr>tl_address = show_key example_text 3, tl_amount = 8\<rparr>]\<rparr>) :: (unit rpc_error + _) res)"
  unfolding token_largest_accounts_top [OF example_native_mint example_known_token(1) example_by_mint example_known_token(2)]
    example_top
  by (simp add: new_response_def rpc_bank_def example_indexed_def example_processor_def example_rpc_bank_defs example_decoder_def)

end
