(* ===== verification/Rpc_History.thy ===== *)
theory Rpc_History
  imports Rpc_Example
begin

text \<open>
  The requests for the history (\<^verbatim>\<open>rpc/src/jsonrpc/core.rs\<close>): blocks, their times, transactions, signatures
  and rewards, from the block store and, where the node has one, from the long-term storage.

  \<open>'x\<close> is what a confirmed block holds besides its time and height, \<open>'y\<close> the same of an encoded block,
  \<open>'z\<close> what a confirmed transaction holds besides its slot and time, and \<open>'u\<close> an encoded transaction.
  The encoding belongs to another crate and is an argument; its error is already converted.
\<close>

section \<open>Data\<close>

record 'x confirmed_block =
  cb_block_time :: "int option"
  cb_block_height :: "nat option"
  cb_rest :: 'x

datatype reward_type = FeeReward | RentReward | StakingReward | VotingReward

record reward =
  rw_pubkey :: string
  rw_lamports :: int
  rw_post_balance :: nat
  rw_reward_type :: "reward_type option"
  rw_commission :: "nat option"

record 'y ui_confirmed_block =
  ub_block_time :: "int option"
  ub_block_height :: "nat option"
  ub_rewards :: "reward list option"
  ub_num_reward_partitions :: "nat option"
  ub_previous_blockhash :: string
  ub_rest :: 'y

record 'z confirmed_transaction =
  ct_slot :: slot
  ct_block_time :: "int option"
  ct_rest :: 'z

datatype tx_encoding = TxBinary | TxBase64 | TxBase58 | TxJson | TxJsonParsed
datatype transaction_details = DetailsFull | DetailsSignatures | DetailsNone | DetailsAccounts

record block_config =
  bk_encoding :: "tx_encoding option"
  bk_transaction_details :: "transaction_details option"
  bk_rewards :: "bool option"
  bk_commitment :: "commitment_config option"
  bk_max_supported_transaction_version :: "nat option"

definition block_config_default :: block_config where
  "block_config_default = \<lparr>bk_encoding = None, bk_transaction_details = None, bk_rewards = None, bk_commitment = None,
     bk_max_supported_transaction_version = None\<rparr>"

record block_encoding_options =
  bo_transaction_details :: transaction_details
  bo_show_rewards :: bool
  bo_max_supported_transaction_version :: "nat option"

record transaction_config =
  tc_encoding :: "tx_encoding option"
  tc_commitment :: "commitment_config option"
  tc_max_supported_transaction_version :: "nat option"

definition transaction_config_default :: transaction_config where
  "transaction_config_default = \<lparr>tc_encoding = None, tc_commitment = None, tc_max_supported_transaction_version = None\<rparr>"

record ('x, 'y, 'z, 'u, 'sim) encode_api =
  encode_block :: "tx_encoding \<Rightarrow> block_encoding_options \<Rightarrow> 'x confirmed_block \<Rightarrow> 'sim rpc_custom_error + 'y ui_confirmed_block"
  encode_transaction :: "tx_encoding \<Rightarrow> nat option \<Rightarrow> 'z confirmed_transaction \<Rightarrow> 'sim rpc_custom_error + 'u"
  rewards_with_commitment :: "commitment_config option \<Rightarrow> block_config"

type_synonym ('b, 'x, 'z, 'tx) history_processor = "('b, 'x confirmed_block, 'z confirmed_transaction, 'tx) request_processor"

section \<open>Checks\<close>

definition check_blockstore_root ::
  "('b, 'blk, 'ctx, 'tx) request_processor \<Rightarrow> blockstore_error + 'a \<Rightarrow> slot \<Rightarrow> 'sim rpc_error + unit" where
  "check_blockstore_root M result s =
     (if isl result
      then if v_max_root (rp_blockstore M) \<le> s then Inl (CustomError (BlockNotAvailable s))
        else if v_is_skipped (rp_blockstore M) s then Inl (CustomError (SlotSkipped s))
        else Inr ()
      else Inr ())"

definition first_available :: "('b, 'blk, 'ctx, 'tx) request_processor \<Rightarrow> slot" where
  "first_available M = unwrap_or 0 (res_ok (v_first_available_block (rp_blockstore M)))"

definition check_slot_cleaned_up ::
  "('b, 'blk, 'ctx, 'tx) request_processor \<Rightarrow> blockstore_error + 'a \<Rightarrow> slot \<Rightarrow> 'sim rpc_error + unit" where
  "check_slot_cleaned_up M result s =
     (let first_available_block = first_available M;
          err = CustomError (BlockCleanedUp s first_available_block) in
      case result of
        Inl SlotCleanedUp \<Rightarrow> Inl err
      | _ \<Rightarrow> if s < first_available_block then Inl err else Inr ())"

definition check_bigtable_result :: "bigtable_error + 'a \<Rightarrow> 'sim rpc_error + unit" where
  "check_bigtable_result result =
     (case result of Inl (BlockNotFound s) \<Rightarrow> Inl (CustomError (LongTermStorageSlotSkipped s)) | _ \<Rightarrow> Inr ())"

definition check_blockstore_writes_complete :: "('b, 'blk, 'ctx, 'tx) request_processor \<Rightarrow> slot \<Rightarrow> 'sim rpc_error + unit" where
  "check_blockstore_writes_complete M s =
     guard (s \<le> rp_max_complete_transaction_status_slot M) (CustomError (BlockStatusNotAvailableYet s))"

section \<open>Blocks\<close>

definition encode_rooted_block ::
  "('x, 'y, 'z, 'u, 'sim) encode_api \<Rightarrow> 'b rpc_bank_api \<Rightarrow> ('b, 'blk, 'ctx, 'tx) request_processor \<Rightarrow> slot \<Rightarrow> tx_encoding
     \<Rightarrow> block_encoding_options \<Rightarrow> 'x confirmed_block \<Rightarrow> 'sim rpc_error + 'y ui_confirmed_block" where
  "encode_rooted_block E K M s encoding options block =
     ebind (map_err CustomError (encode_block E encoding options block)) (\<lambda>encoded.
     Inr (if s = 0 then encoded\<lparr>ub_block_time := Some (genesis_creation_time K M), ub_block_height := Some 0\<rparr> else encoded))"

text \<open>A block that is not yet a root takes the time and height it lacks from its bank.\<close>

definition fill_from_bank ::
  "'b rpc_bank_api \<Rightarrow> 'b forks_view \<Rightarrow> slot \<Rightarrow> 'x confirmed_block \<Rightarrow> 'x confirmed_block" where
  "fill_from_bank K F s block =
     (if cb_block_time block = None \<or> cb_block_height block = None
      then (case fv_get F s of
          Some b \<Rightarrow> block\<lparr>
            cb_block_time := (case cb_block_time block of None \<Rightarrow> Some (k_unix_timestamp K b) | t \<Rightarrow> t),
            cb_block_height := (case cb_block_height block of None \<Rightarrow> Some (k_block_height K b) | h \<Rightarrow> h)\<rparr>
        | None \<Rightarrow> block)
      else block)"

definition get_rooted_block ::
  "('x, 'y, 'z, 'u, 'sim) encode_api \<Rightarrow> 'b rpc_bank_api \<Rightarrow> ('b, 'x, 'z, 'tx) history_processor \<Rightarrow> slot \<Rightarrow> tx_encoding
     \<Rightarrow> block_encoding_options \<Rightarrow> 'sim rpc_error + 'y ui_confirmed_block option" where
  "get_rooted_block E K M s encoding options =
     ebind (check_blockstore_writes_complete M s) (\<lambda>_.
     let result = v_rooted_block (rp_blockstore M) s in
     ebind (check_blockstore_root M result s) (\<lambda>_.
     case (isl result, rp_bigtable_ledger_storage M) of
       (True, Some bigtable) \<Rightarrow>
         let bigtable_result = bt_confirmed_block bigtable s in
         ebind (check_bigtable_result bigtable_result) (\<lambda>_.
         transpose_res (map_option (encode_rooted_block E K M s encoding options) (res_ok bigtable_result)))
     | _ \<Rightarrow>
         ebind (check_slot_cleaned_up M result s) (\<lambda>_.
         transpose_res (map_option (encode_rooted_block E K M s encoding options) (res_ok result)))))"

definition get_block ::
  "('x, 'y, 'z, 'u, 'sim) encode_api \<Rightarrow> 'b rpc_bank_api \<Rightarrow> ('b, 'x, 'z, 'tx) history_processor \<Rightarrow> slot \<Rightarrow> block_config option
     \<Rightarrow> 'sim rpc_error + 'y ui_confirmed_block option" where
  "get_block E K M s cfg0 =
     (if enable_rpc_transaction_history (rp_config M)
      then
        let cfg = unwrap_or block_config_default cfg0;
            encoding = unwrap_or TxJson (bk_encoding cfg);
            options = \<lparr>bo_transaction_details = unwrap_or DetailsFull (bk_transaction_details cfg),
              bo_show_rewards = unwrap_or True (bk_rewards cfg),
              bo_max_supported_transaction_version = bk_max_supported_transaction_version cfg\<rparr>;
            commitment = unwrap_or commitment_default (bk_commitment cfg) in
        ebind (check_is_at_least_confirmed commitment) (\<lambda>_.
        if s \<le> fv_root (rp_bank_forks M) then get_rooted_block E K M s encoding options
        else if is_confirmed commitment
        then transpose_res (map_option (\<lambda>block.
          map_err CustomError (encode_block E encoding options (fill_from_bank K (rp_bank_forks M) s block)))
            (res_ok (v_complete_block (rp_blockstore M) s)))
        else Inl (CustomError (BlockNotAvailable s)))
      else Inl (CustomError TransactionHistoryNotAvailable))"

definition get_blocks ::
  "rpc_limits \<Rightarrow> 'b rpc_bank_api \<Rightarrow> ('b, 'blk, 'ctx, 'tx) request_processor \<Rightarrow> slot \<Rightarrow> slot option \<Rightarrow> context_config option
     \<Rightarrow> 'sim rpc_error + slot list" where
  "get_blocks N K M start_slot end_slot0 cfg0 =
     (let cfg = unwrap_or context_config_default cfg0;
          commitment = unwrap_or commitment_default (cc_commitment cfg) in
      ebind (check_is_at_least_confirmed commitment) (\<lambda>_.
      ebind (get_bank_with_config K M cfg) (\<lambda>b.
      let current_slot = k_slot K b;
          end_slot = min (unwrap_or (sat_add 64 start_slot (MAX_GET_CONFIRMED_BLOCKS_RANGE N)) end_slot0) current_slot in
      if end_slot < start_slot then Inr []
      else if end_slot - start_slot > MAX_GET_CONFIRMED_BLOCKS_RANGE N
      then Inl (InvalidParams ''Slot range too large; max MAX_GET_CONFIRMED_BLOCKS_RANGE'')
      else
        let lowest_blockstore_slot = first_available M in
        case (start_slot < lowest_blockstore_slot, rp_bigtable_ledger_storage M) of
          (True, Some bigtable) \<Rightarrow>
            (case bt_confirmed_blocks bigtable start_slot (end_slot - start_slot + 1) of
               Inr blocks \<Rightarrow> Inr (filter (\<lambda>s. s \<le> end_slot) blocks)
             | Inl e \<Rightarrow> Inl (InvalidParams ''BigTable query failed (maybe timeout due to too large range?)''))
        | _ \<Rightarrow>
            ebind (map_err (\<lambda>_. InternalError) (v_rooted_slots (rp_blockstore M) (max start_slot lowest_blockstore_slot))) (\<lambda>slots.
            Inr (filter (\<lambda>s. s \<le> end_slot \<and> s \<le> current_slot) slots)))))"

definition get_blocks_with_limit ::
  "rpc_limits \<Rightarrow> 'b rpc_bank_api \<Rightarrow> ('b, 'blk, 'ctx, 'tx) request_processor \<Rightarrow> slot \<Rightarrow> nat \<Rightarrow> context_config option
     \<Rightarrow> 'sim rpc_error + slot list" where
  "get_blocks_with_limit N K M start_slot limit cfg0 =
     (let cfg = unwrap_or context_config_default cfg0;
          commitment = unwrap_or commitment_default (cc_commitment cfg) in
      ebind (check_is_at_least_confirmed commitment) (\<lambda>_.
      if limit > MAX_GET_CONFIRMED_BLOCKS_RANGE N
      then Inl (InvalidParams ''Limit too large; max MAX_GET_CONFIRMED_BLOCKS_RANGE'')
      else
        let lowest_blockstore_slot = first_available M in
        case (start_slot < lowest_blockstore_slot, rp_bigtable_ledger_storage M) of
          (True, Some bigtable) \<Rightarrow> Inr (unwrap_or [] (res_ok (bt_confirmed_blocks bigtable start_slot limit)))
        | _ \<Rightarrow>
            ebind (get_bank_with_config K M cfg) (\<lambda>b.
            ebind (map_err (\<lambda>_. InternalError) (v_rooted_slots (rp_blockstore M) (max start_slot lowest_blockstore_slot))) (\<lambda>slots.
            Inr (filter (\<lambda>s. s \<le> k_slot K b) (take limit slots))))))"

definition get_block_time ::
  "'b rpc_bank_api \<Rightarrow> ('b, 'x, 'z, 'tx) history_processor \<Rightarrow> slot \<Rightarrow> 'sim rpc_error + int option" where
  "get_block_time K M s =
     (if s = 0 then Inr (Some (genesis_creation_time K M))
      else if s \<le> fv_root (rp_bank_forks M)
      then
        let result = v_rooted_block_time (rp_blockstore M) s in
        ebind (check_blockstore_root M result s) (\<lambda>_.
        case (isl result, rp_bigtable_ledger_storage M) of
          (True, Some bigtable) \<Rightarrow>
            let bigtable_result = bt_confirmed_block bigtable s in
            ebind (check_bigtable_result bigtable_result) (\<lambda>_.
            Inr (Option.bind (res_ok bigtable_result) cb_block_time))
        | _ \<Rightarrow>
            ebind (check_slot_cleaned_up M result s) (\<lambda>_. Inr (res_ok result)))
      else (case fv_get (rp_bank_forks M) s of
          Some b \<Rightarrow> Inr (Some (k_unix_timestamp K b))
        | None \<Rightarrow> Inl (CustomError (BlockNotAvailable s))))"

definition get_first_available_block :: "('b, 'blk, 'ctx, 'tx) request_processor \<Rightarrow> slot" where
  "get_first_available_block M =
     (let s = first_available M in
      case rp_bigtable_ledger_storage M of
        Some bigtable \<Rightarrow>
          let bigtable_slot = unwrap_or s (unwrap_or None (res_ok (bt_first_available_block bigtable))) in
          if bigtable_slot < s then bigtable_slot else s
      | None \<Rightarrow> s)"

section \<open>Transactions and signatures\<close>

definition get_signature_status where
  "get_signature_status K M sg commitment = map_option snd (k_signature_status_slot K (rpc_bank M commitment) sg)"

definition finalized_status :: "slot \<Rightarrow> tx_result \<Rightarrow> transaction_status" where
  "finalized_status s status = \<lparr>st_slot = s, st_status = status, st_confirmations = None,
     st_err = (case status of Inl e \<Rightarrow> Some e | Inr _ \<Rightarrow> None), st_confirmation_status = Some FinalizedStatus\<rparr>"

definition get_transaction_status :: "'b rpc_bank_api \<Rightarrow> signature \<Rightarrow> 'b \<Rightarrow> transaction_status option" where
  "get_transaction_status K sg b = map_option (\<lambda>(s, status). finalized_status s status) (k_signature_status_slot K b sg)"

definition signature_status_of ::
  "'b rpc_bank_api \<Rightarrow> ('b, 'blk, 'ctx, 'tx) request_processor \<Rightarrow> bool \<Rightarrow> 'b \<Rightarrow> signature \<Rightarrow> 'sim rpc_error + transaction_status option" where
  "signature_status_of K M search b sg =
     (case get_transaction_status K sg b of
        Some status \<Rightarrow> Inr (Some status)
      | None \<Rightarrow>
          if enable_rpc_transaction_history (rp_config M) \<and> search
          then
            ebind (map_err (\<lambda>_. InternalError) (v_rooted_transaction_status (rp_blockstore M) sg)) (\<lambda>found.
            case (case found of Some (s, status) \<Rightarrow> if s \<le> fv_root (rp_bank_forks M) then Some (s, status) else None | None \<Rightarrow> None) of
              Some (s, status) \<Rightarrow> Inr (Some (finalized_status s status))
            | None \<Rightarrow>
                (case rp_bigtable_ledger_storage M of
                   Some bigtable \<Rightarrow> Inr (res_ok (bt_signature_status bigtable sg))
                 | None \<Rightarrow> Inr None))
          else Inr None)"

definition get_signature_statuses ::
  "'b rpc_bank_api \<Rightarrow> ('b, 'blk, 'ctx, 'tx) request_processor \<Rightarrow> signature list \<Rightarrow> bool option
     \<Rightarrow> 'sim rpc_error + transaction_status option list rpc_response" where
  "get_signature_statuses K M sgs search_transaction_history =
     (let search = unwrap_or False search_transaction_history; b = rpc_bank M None in
      if search \<and> \<not> enable_rpc_transaction_history (rp_config M) then Inl (CustomError TransactionHistoryNotAvailable)
      else
        ebind (collect_results (map (signature_status_of K M search b) sgs)) (\<lambda>statuses.
        Inr (new_response K b statuses)))"

definition get_transaction ::
  "('x, 'y, 'z, 'u, 'sim) encode_api \<Rightarrow> 'b rpc_bank_api \<Rightarrow> ('b, 'x, 'z, 'tx) history_processor \<Rightarrow> signature
     \<Rightarrow> transaction_config option \<Rightarrow> 'sim rpc_error + 'u option" where
  "get_transaction E K M sg cfg0 =
     (let cfg = unwrap_or transaction_config_default cfg0;
          commitment = unwrap_or commitment_default (tc_commitment cfg);
          encode = (\<lambda>t. map_err CustomError (encode_transaction E (unwrap_or TxJson (tc_encoding cfg))
            (tc_max_supported_transaction_version cfg) t)) in
      ebind (check_is_at_least_confirmed commitment) (\<lambda>_.
      if enable_rpc_transaction_history (rp_config M)
      then
        let b = rpc_bank M None;
            found = (if is_confirmed commitment then v_complete_transaction (rp_blockstore M) sg (k_slot K b)
              else v_rooted_transaction (rp_blockstore M) sg) in
        case unwrap_or None (res_ok found) of
          Some t \<Rightarrow>
            if is_confirmed commitment \<and> ct_slot t \<in> k_status_cache_ancestors K b
            then
              let t' = (if ct_block_time t = None
                then t\<lparr>ct_block_time := map_option (k_unix_timestamp K) (fv_get (rp_bank_forks M) (ct_slot t))\<rparr> else t) in
              map_sum id Some (encode t')
            else if ct_slot t \<le> fv_root (rp_bank_forks M) then map_sum id Some (encode t)
            else Inr None
        | None \<Rightarrow>
            (case rp_bigtable_ledger_storage M of
               Some bigtable \<Rightarrow>
                 transpose_res (map_option encode (unwrap_or None (res_ok (bt_confirmed_transaction bigtable sg))))
             | None \<Rightarrow> Inr None)
      else Inl (CustomError TransactionHistoryNotAvailable)))"

definition get_confirmed_signatures_for_address where
  "get_confirmed_signatures_for_address M key start_slot end_slot =
     (if enable_rpc_transaction_history (rp_config M)
      then unwrap_or [] (res_ok (v_signatures_for_address (rp_blockstore M) key start_slot end_slot))
      else [])"

record rpc_signature_info =
  ri_signature :: string
  ri_slot :: slot
  ri_err :: "string option"
  ri_memo :: "string option"
  ri_block_time :: "int option"
  ri_confirmation_status :: "confirmation_status option"

definition map_result :: "text_api \<Rightarrow> 'b rpc_bank_api \<Rightarrow> 'b forks_view \<Rightarrow> signature_info \<Rightarrow> rpc_signature_info" where
  "map_result T K F x = \<lparr>ri_signature = show_sig T (sn_signature x), ri_slot = sn_slot x, ri_err = sn_err x, ri_memo = sn_memo x,
     ri_block_time = (case sn_block_time x of None \<Rightarrow> map_option (k_unix_timestamp K) (fv_get F (sn_slot x)) | t \<Rightarrow> t),
     ri_confirmation_status = Some FinalizedStatus\<rparr>"

text \<open>
  The signatures of the long-term storage that follow those of the block store, up to what is left of
  the limit.  Where the signature to start from has not been uploaded yet, the newest ones are asked for.
\<close>

definition query_bigtable ::
  "('blk, 'ctx) bigtable_view \<Rightarrow> pubkey \<Rightarrow> signature option \<Rightarrow> signature option \<Rightarrow> nat \<Rightarrow> signature_info list \<Rightarrow> signature option
     \<Rightarrow> signature_info list" where
  "query_bigtable bigtable address before until limit results bigtable_before =
     (case bt_signatures_for_address bigtable address bigtable_before until limit of
        Inr found \<Rightarrow> results @ filter (\<lambda>x. before \<noteq> Some (sn_signature x) \<and> sn_signature x \<notin> sn_signature ` set results) (map fst found)
      | Inl err \<Rightarrow> results)"

definition extend_from_bigtable ::
  "('blk, 'ctx) bigtable_view \<Rightarrow> pubkey \<Rightarrow> signature option \<Rightarrow> signature option \<Rightarrow> nat \<Rightarrow> signature_info list \<Rightarrow> bool
     \<Rightarrow> signature_info list" where
  "extend_from_bigtable bigtable address before until limit0 results found_before =
     (let limit = (if results \<noteq> [] then limit0 - length results else limit0);
          bigtable_before = (if results \<noteq> [] then Some (sn_signature (last results)) else before);
          query = query_bigtable bigtable address before until limit results in
      case (found_before, bigtable_before) of
        (True, Some sg) \<Rightarrow>
          (case bt_signature_status bigtable sg of
             Inl SignatureNotFound \<Rightarrow> query None
           | Inl err \<Rightarrow> results
           | Inr _ \<Rightarrow> query bigtable_before)
      | _ \<Rightarrow> query bigtable_before)"

definition get_signatures_for_address ::
  "text_api \<Rightarrow> 'b rpc_bank_api \<Rightarrow> ('b, 'blk, 'ctx, 'tx) request_processor \<Rightarrow> pubkey \<Rightarrow> signature option \<Rightarrow> signature option
     \<Rightarrow> nat \<Rightarrow> context_config \<Rightarrow> 'sim rpc_error + rpc_signature_info list" where
  "get_signatures_for_address T K M address before until limit cfg =
     (let commitment = unwrap_or commitment_default (cc_commitment cfg) in
      ebind (check_is_at_least_confirmed commitment) (\<lambda>_.
      if enable_rpc_transaction_history (rp_config M)
      then
        ebind (get_bank_with_config K M cfg) (\<lambda>b.
        ebind (map_err InvalidParams (v_signatures_for_address2 (rp_blockstore M) address (k_slot K b) before until limit))
          (\<lambda>(results, found_before).
        let all_results = (case (length results < limit, rp_bigtable_ledger_storage M) of
              (True, Some bigtable) \<Rightarrow> extend_from_bigtable bigtable address before until limit results found_before
            | _ \<Rightarrow> results) in
        Inr (map (map_result T K (rp_bank_forks M)) all_results)))
      else Inl (CustomError TransactionHistoryNotAvailable)))"

definition verify_and_parse_signatures_for_address_params ::
  "rpc_limits \<Rightarrow> text_api \<Rightarrow> string \<Rightarrow> string option \<Rightarrow> string option \<Rightarrow> nat option
     \<Rightarrow> 'sim rpc_error + pubkey \<times> signature option \<times> signature option \<times> nat" where
  "verify_and_parse_signatures_for_address_params N T address before until limit0 =
     ebind (verify_pubkey T address) (\<lambda>key.
     ebind (transpose_res (map_option (verify_signature T) before)) (\<lambda>before'.
     ebind (transpose_res (map_option (verify_signature T) until)) (\<lambda>until'.
     let limit = unwrap_or (MAX_GET_CONFIRMED_SIGNATURES_FOR_ADDRESS2_LIMIT N) limit0 in
     if limit = 0 \<or> limit > MAX_GET_CONFIRMED_SIGNATURES_FOR_ADDRESS2_LIMIT N
     then Inl (InvalidParams ''Invalid limit; max MAX_GET_CONFIRMED_SIGNATURES_FOR_ADDRESS2_LIMIT'')
     else Inr (key, before', until', limit))))"

section \<open>Inflation rewards\<close>

definition filter_rewards :: "reward list option \<Rightarrow> (reward_type \<Rightarrow> bool) \<Rightarrow> reward list" where
  "filter_rewards rewards p = filter (\<lambda>r. case rw_reward_type r of Some t \<Rightarrow> p t | None \<Rightarrow> False) (unwrap_or [] rewards)"

text \<open>Collecting into a hash map keeps the last entry of a key.\<close>

definition filter_map_rewards ::
  "reward list option \<Rightarrow> slot \<Rightarrow> string list \<Rightarrow> (reward_type \<Rightarrow> bool) \<Rightarrow> (string \<Rightarrow> (reward \<times> slot) option)" where
  "filter_map_rewards rewards s addresses p =
     map_of (rev (map (\<lambda>r. (rw_pubkey r, (r, s))) (filter (\<lambda>r. rw_pubkey r \<in> set addresses) (filter_rewards rewards p))))"

definition push_partition :: "nat \<Rightarrow> string \<Rightarrow> (nat \<times> string list) list \<Rightarrow> (nat \<times> string list) list" where
  "push_partition i a ps =
     (if i \<in> fst ` set ps then map (\<lambda>(j, l). if j = i then (j, l @ [a]) else (j, l)) ps else ps @ [(i, [a])])"

record epoch_config =
  ep_epoch :: "nat option"
  ep_commitment :: "commitment_config option"
  ep_min_context_slot :: "slot option"

definition epoch_config_default :: epoch_config where
  "epoch_config_default = \<lparr>ep_epoch = None, ep_commitment = None, ep_min_context_slot = None\<rparr>"

record inflation_reward =
  ir_epoch :: nat
  ir_effective_slot :: slot
  ir_amount :: nat
  ir_post_balance :: nat
  ir_commission :: "nat option"

text \<open>
  The hashing of addresses to partitions, and the order in which the hash map of the partitions is
  visited; both are arguments.
\<close>

record rewards_api =
  hash_address_to_partition :: "nat \<Rightarrow> hash \<Rightarrow> pubkey \<Rightarrow> nat"
  partition_order :: "(nat \<times> string list) list \<Rightarrow> (nat \<times> string list) list"

definition available_block ::
  "('x, 'y, 'z, 'u, 'sim) encode_api \<Rightarrow> 'b rpc_bank_api \<Rightarrow> ('b, 'x, 'z, 'tx) history_processor \<Rightarrow> slot \<Rightarrow> commitment_config option
     \<Rightarrow> 'sim rpc_error + 'y ui_confirmed_block" where
  "available_block E K M s commitment =
     (case get_block E K M s (Some (rewards_with_commitment E commitment)) of
        Inr (Some block) \<Rightarrow> Inr block
      | _ \<Rightarrow> Inl (CustomError (BlockNotAvailable s)))"

definition partition_rewards ::
  "('x, 'y, 'z, 'u, 'sim) encode_api \<Rightarrow> 'b rpc_bank_api \<Rightarrow> commitment_config option \<Rightarrow> nat option \<Rightarrow> nat \<Rightarrow> slot list
     \<Rightarrow> nat \<times> string list \<Rightarrow> (('b, 'x, 'z, 'tx) history_processor, 'sim rpc_error, string \<Rightarrow> (reward \<times> slot) option) act" where
  "partition_rewards E K commitment boundary_height num_partitions block_list = (\<lambda>(index, addresses) M.
     if index < length block_list
     then
       let s = block_list ! index in
       abind (alift (available_block E K M s commitment)) (\<lambda>block.
       aret (filter_map_rewards (ub_rewards block) s addresses (\<lambda>t. t = StakingReward))) M
     else
       abind (apanic (runwrap ''every block after partitioned_epoch_reward_enabled should have a populated block_height'' boundary_height))
         (\<lambda>height. athrow (CustomError (EpochRewardsPeriodActive (k_slot K (rpc_bank M commitment)) (k_block_height K (rpc_bank M commitment))
           (sat_add 64 (sat_add 64 height num_partitions) 1)))) M)"

definition staking_rewards ::
  "rpc_limits \<Rightarrow> text_api \<Rightarrow> ('x, 'y, 'z, 'u, 'sim) encode_api \<Rightarrow> rewards_api \<Rightarrow> 'b rpc_bank_api \<Rightarrow> context_config \<Rightarrow> slot
     \<Rightarrow> 'y ui_confirmed_block \<Rightarrow> pubkey list \<Rightarrow> (string \<Rightarrow> (reward \<times> slot) option)
     \<Rightarrow> (('b, 'x, 'z, 'tx) history_processor, 'sim rpc_error, string \<Rightarrow> (reward \<times> slot) option) act" where
  "staking_rewards N T E R K ctx first_block boundary addresses reward_map M =
     abind (apanic (runwrap ''epoch-boundary block should have num_reward_partitions after partitioned epoch rewards enabled''
         (ub_num_reward_partitions boundary))) (\<lambda>num_partitions.
     abind (apanic (runwrap ''UiConfirmedBlock::previous_blockhash should be properly formed''
         (res_ok (parse_hash T (ub_previous_blockhash boundary))))) (\<lambda>previous.
     let partitions = fold (\<lambda>address ps. if reward_map (show_key T address) = None
           then push_partition (hash_address_to_partition R num_partitions previous address) (show_key T address) ps else ps) addresses [] in
     abind (apanic (checked_add 64 first_block 1)) (\<lambda>next_block.
     abind (alift (get_blocks_with_limit N K M next_block num_partitions (Some ctx))) (\<lambda>block_list.
     abind (afor (partition_rewards E K (cc_commitment ctx) (ub_block_height boundary) num_partitions block_list) (partition_order R partitions))
       (\<lambda>found. aret (fold (\<lambda>m acc. acc ++ m) found reward_map)))))) M"

definition get_inflation_reward ::
  "rpc_limits \<Rightarrow> text_api \<Rightarrow> ('x, 'y, 'z, 'u, 'sim) encode_api \<Rightarrow> rewards_api \<Rightarrow> 'b rpc_bank_api \<Rightarrow> pubkey list \<Rightarrow> epoch_config option
     \<Rightarrow> (('b, 'x, 'z, 'tx) history_processor, 'sim rpc_error, inflation_reward option list) act" where
  "get_inflation_reward N T E R K addresses cfg0 M =
     (let cfg = unwrap_or epoch_config_default cfg0;
          first_available_block = get_first_available_block M;
          ctx = \<lparr>cc_commitment = ep_commitment cfg, cc_min_context_slot = ep_min_context_slot cfg\<rparr>;
          schedule = rpc_bank M None in
      abind (alift (case ep_epoch cfg of
          Some epoch \<Rightarrow> Inr epoch
        | None \<Rightarrow> ebind (get_slot K M ctx) (\<lambda>s. Inr (sat_sub (k_epoch_of_slot K schedule s) 1)))) (\<lambda>epoch.
      let first_slot_in_epoch = k_first_slot_in_epoch K schedule (sat_add 64 epoch 1) in
      if first_slot_in_epoch < first_available_block
      then athrow (CustomError (if rp_bigtable_ledger_storage M \<noteq> None then LongTermStorageSlotSkipped first_slot_in_epoch
        else BlockCleanedUp first_slot_in_epoch first_available_block))
      else
        abind (alift (get_blocks_with_limit N K M first_slot_in_epoch 1 (Some ctx))) (\<lambda>blocks.
        abind (alift (case blocks of s # _ \<Rightarrow> Inr s | [] \<Rightarrow> Inl (CustomError (BlockNotAvailable first_slot_in_epoch)))) (\<lambda>first_block.
        abind (alift (get_bank_with_config K M ctx)) (\<lambda>b.
        let partitioned = (case k_partitioned_rewards_slot K b of Some s \<Rightarrow> s \<le> first_block | None \<Rightarrow> False) in
        abind (alift (available_block E K M first_block (ep_commitment cfg))) (\<lambda>boundary.
        let reward_map = filter_map_rewards (ub_rewards boundary) first_block (map (show_key T) addresses)
              (\<lambda>t. t = VotingReward \<or> (\<not> partitioned \<and> t = StakingReward)) in
        abind (if partitioned then staking_rewards N T E R K ctx first_block boundary addresses reward_map else aret reward_map) (\<lambda>found.
        aret (map (\<lambda>address. case found (show_key T address) of
            Some (r, s) \<Rightarrow> Some \<lparr>ir_epoch = epoch, ir_effective_slot = s, ir_amount = nat \<bar>rw_lamports r\<bar>,
              ir_post_balance = rw_post_balance r, ir_commission = rw_commission r\<rparr>
          | None \<Rightarrow> None) addresses))))))) M)"

section \<open>What the stores promise\<close>

text \<open>
  The rooted slots from a slot on come in ascending order from the block store, and so do the confirmed
  ones from the long-term storage, at most as many as were asked for.
\<close>

definition slot_store_laws :: "('b, 'blk, 'ctx, 'tx) request_processor \<Rightarrow> bool" where
  "slot_store_laws M \<longleftrightarrow>
     (\<forall>s xs. v_rooted_slots (rp_blockstore M) s = Inr xs \<longrightarrow> sorted_wrt (<) xs \<and> (\<forall>x\<in>set xs. s \<le> x)) \<and>
     (\<forall>g s n xs. rp_bigtable_ledger_storage M = Some g \<longrightarrow> bt_confirmed_blocks g s n = Inr xs \<longrightarrow>
        sorted_wrt (<) xs \<and> (\<forall>x\<in>set xs. s \<le> x) \<and> length xs \<le> n)"

text \<open>
  Each store lists a signature once, no more of them than were asked for, and the block store does not
  list the one to start from.
\<close>

definition signature_store_laws :: "('b, 'blk, 'ctx, 'tx) request_processor \<Rightarrow> bool" where
  "signature_store_laws M \<longleftrightarrow>
     (\<forall>a s before until n xs found. v_signatures_for_address2 (rp_blockstore M) a s before until n = Inr (xs, found) \<longrightarrow>
        distinct (map sn_signature xs) \<and> length xs \<le> n \<and> before \<notin> Some ` sn_signature ` set xs) \<and>
     (\<forall>g a before until n xs. rp_bigtable_ledger_storage M = Some g \<longrightarrow> bt_signatures_for_address g a before until n = Inr xs \<longrightarrow>
        distinct (map (sn_signature \<circ> fst) xs) \<and> length xs \<le> n)"

lemma ascending_in_range:
  assumes "sorted_wrt (<) xs" and "\<forall>x\<in>set xs. lo \<le> x \<and> x \<le> (hi :: nat)"
  shows "length xs \<le> Suc hi - lo"
proof -
  have "distinct xs" using assms(1) by (simp add: strict_sorted_iff)
  then have "length xs = card (set xs)" by (simp add: distinct_card)
  also have "\<dots> \<le> card {lo..hi}" using assms(2) by (intro card_mono) auto
  finally show ?thesis by simp
qed

lemma get_blocks_found:
  assumes "get_blocks N K M start end_slot cfg = (Inr xs :: 'sim rpc_error + slot list)" and "slot_store_laws M" and "xs \<noteq> []"
  shows "\<exists>hi. sorted_wrt (<) xs \<and> (\<forall>x\<in>set xs. start \<le> x \<and> x \<le> hi) \<and> hi - start \<le> MAX_GET_CONFIRMED_BLOCKS_RANGE N \<and> start \<le> hi \<and>
    hi = min (unwrap_or (sat_add 64 start (MAX_GET_CONFIRMED_BLOCKS_RANGE N)) end_slot) (k_slot K (rpc_bank M None))"
proof (intro exI conjI)
  let ?hi = "min (unwrap_or (sat_add 64 start (MAX_GET_CONFIRMED_BLOCKS_RANGE N)) end_slot) (k_slot K (rpc_bank M None))"
  show "?hi = ?hi" ..
  show le: "start \<le> ?hi" and "?hi - start \<le> MAX_GET_CONFIRMED_BLOCKS_RANGE N"
    using assms(1,3) by (auto simp: get_blocks_def Let_def act_simps rpc_bank_def split: if_splits)
  define hi where "hi = ?hi"
  from assms(1,3) consider
      (table) g ys where "rp_bigtable_ledger_storage M = Some g" "bt_confirmed_blocks g start (hi - start + 1) = Inr ys"
        "xs = filter (\<lambda>s. s \<le> hi) ys"
    | (store) ys where "v_rooted_slots (rp_blockstore M) (max start (first_available M)) = Inr ys"
        "xs = filter (\<lambda>s. s \<le> hi \<and> s \<le> k_slot K (rpc_bank M None)) ys"
    by (cases "start < first_available M"; cases "rp_bigtable_ledger_storage M")
      (auto simp: get_blocks_def Let_def act_simps rpc_bank_def hi_def split: if_splits sum.splits)
  then obtain ys lo where xs: "xs = filter (\<lambda>s. s \<le> ?hi) ys" and lo: "start \<le> lo"
    and ys: "(\<exists>g n. rp_bigtable_ledger_storage M = Some g \<and> bt_confirmed_blocks g lo n = Inr ys) \<or> v_rooted_slots (rp_blockstore M) lo = Inr ys"
  proof cases
    case (table g ys)
    then show ?thesis by (intro that [of ys start]) (auto simp: hi_def)
  next
    case (store ys)
    then show ?thesis by (intro that [of ys "max start (first_available M)"]) (auto simp: hi_def intro: filter_cong)
  qed
  from ys assms(2) have "sorted_wrt (<) ys \<and> (\<forall>x\<in>set ys. lo \<le> x)"
    unfolding slot_store_laws_def by blast
  then show "sorted_wrt (<) xs" "\<forall>x\<in>set xs. start \<le> x \<and> x \<le> ?hi"
    unfolding xs using lo by (auto intro: sorted_wrt_filter)
qed

section \<open>Signatures from two stores\<close>

definition signature_list_ok :: "signature option \<Rightarrow> nat \<Rightarrow> signature_info list \<Rightarrow> bool" where
  "signature_list_ok before limit xs \<longleftrightarrow>
     distinct (map sn_signature xs) \<and> length xs \<le> limit \<and> before \<notin> Some ` sn_signature ` set xs"

lemma extended_query_ok:
  assumes "signature_list_ok before limit results" and "distinct (map (sn_signature \<circ> fst) found)"
    and "length found \<le> (if results \<noteq> [] then limit - length results else limit)"
  shows "signature_list_ok before limit
    (results @ filter (\<lambda>x. before \<noteq> Some (sn_signature x) \<and> sn_signature x \<notin> sn_signature ` set results) (map fst found))"
proof -
  let ?new = "filter (\<lambda>x. before \<noteq> Some (sn_signature x) \<and> sn_signature x \<notin> sn_signature ` set results) (map fst found)"
  have "length ?new \<le> length found" using length_filter_le [of _ "map fst found"] unfolding length_map .
  moreover have "length results \<le> limit" "length found \<le> limit - length results"
    using assms(1,3) by (auto simp: signature_list_ok_def split: if_splits)
  ultimately have len: "length (results @ ?new) \<le> limit" unfolding length_append by arith
  have "distinct (map sn_signature ?new)" using assms(2) by (simp add: distinct_map_filter)
  moreover have "sn_signature ` set results \<inter> sn_signature ` set ?new = {}" by (auto simp: image_iff)
  ultimately have "distinct (map sn_signature (results @ ?new))"
    using assms(1) unfolding signature_list_ok_def map_append distinct_append set_map by simp
  moreover have "before \<notin> Some ` sn_signature ` set (results @ ?new)"
    using assms(1) unfolding signature_list_ok_def by force
  ultimately show ?thesis using len unfolding signature_list_ok_def by (intro conjI)
qed

lemma extend_from_bigtable_ok:
  assumes "signature_list_ok before limit results"
    and "\<And>before' n found. bt_signatures_for_address g address before' until n = Inr found \<Longrightarrow>
      distinct (map (sn_signature \<circ> fst) found) \<and> length found \<le> n"
  shows "signature_list_ok before limit (extend_from_bigtable g address before until limit results found_before)"
proof -
  let ?n = "if results \<noteq> [] then limit - length results else limit"
  have "signature_list_ok before limit (query_bigtable g address before until ?n results before')" for before'
  proof (cases "bt_signatures_for_address g address before' until ?n")
    case (Inr found)
    from assms(2) [OF this] show ?thesis
      unfolding query_bigtable_def Inr sum.case by (intro extended_query_ok [OF assms(1)]) simp_all
  qed (simp add: query_bigtable_def assms(1))
  with assms(1) show ?thesis
    unfolding extend_from_bigtable_def Let_def
    by (cases "bt_signature_status g (sn_signature (last results))"; cases before; cases found_before)
      (auto split: option.split sum.split bigtable_error.split)
qed

section \<open>Rewards come from blocks\<close>

text \<open>A reward of an address that a block at a slot records.\<close>

definition recorded_reward ::
  "('x, 'y, 'z, 'u, 'sim) encode_api \<Rightarrow> 'b rpc_bank_api \<Rightarrow> ('b, 'x, 'z, 'tx) history_processor \<Rightarrow> commitment_config option
     \<Rightarrow> string \<Rightarrow> reward \<times> slot \<Rightarrow> bool" where
  "recorded_reward E K M commitment a = (\<lambda>(r, s). \<exists>block. available_block E K M s commitment = Inr block \<and>
     r \<in> set (unwrap_or [] (ub_rewards block)) \<and> rw_pubkey r = a \<and> rw_reward_type r \<in> {Some VotingReward, Some StakingReward})"

lemma filtered_reward_recorded:
  assumes "filter_map_rewards (ub_rewards block) s addresses p a = Some x" and "available_block E K M s commitment = Inr block"
    and "\<And>t. p t \<Longrightarrow> t = VotingReward \<or> t = StakingReward"
  shows "recorded_reward E K M commitment a x"
  using map_of_SomeD [OF assms(1) [unfolded filter_map_rewards_def]] assms(2,3)
  by (fastforce simp: filter_rewards_def recorded_reward_def split: option.splits)

lemma partition_rewards_recorded:
  assumes "partition_rewards E K commitment h n block_list p M = Inr (Inr m, M')"
  shows "M' = M \<and> (\<forall>a x. m a = Some x \<longrightarrow> recorded_reward E K M commitment a x)"
  using assms by (cases p) (auto simp: partition_rewards_def Let_def act_simps split: if_splits elim: filtered_reward_recorded)

lemma athrow_if_ok: "(if b then athrow e else m) s = Inr (Inr y, t) \<longleftrightarrow> \<not> b \<and> m s = Inr (Inr y, t)"
  by (simp add: athrow_def)

lemma afor_reads:
  assumes "afor f xs s = Inr (Inr ys, t)" and "\<And>x y t. f x s = Inr (Inr y, t) \<Longrightarrow> t = s \<and> Q y"
  shows "t = s \<and> (\<forall>y\<in>set ys. Q y)"
  using assms(1)
proof (induction xs arbitrary: ys t)
  case (Cons x xs)
  then obtain y u zs where "f x s = Inr (Inr y, u)" "afor f xs u = Inr (Inr zs, t)" "ys = y # zs"
    by (auto simp: act_simps)
  then show ?case using assms(2) [of x y u] Cons.IH [of zs t] by auto
qed auto

lemma joined_maps:
  assumes "fold (\<lambda>m acc. acc ++ m) ms acc a = Some x" and "\<forall>m\<in>set ms. \<forall>a x. m a = Some x \<longrightarrow> Q a x"
    and "\<And>a x. acc a = Some x \<Longrightarrow> Q a x"
  shows "Q a x"
  using assms by (induction ms arbitrary: acc) (fastforce simp: map_add_Some_iff)+

lemma staking_rewards_recorded:
  assumes "staking_rewards N T E R K ctx first_block boundary addresses reward_map M = Inr (Inr m, M')"
    and "\<And>a x. reward_map a = Some x \<Longrightarrow> recorded_reward E K M (cc_commitment ctx) a x"
  shows "M' = M \<and> (\<forall>a x. m a = Some x \<longrightarrow> recorded_reward E K M (cc_commitment ctx) a x)"
proof -
  from assms(1) obtain n block_list ps found where
    loop: "afor (partition_rewards E K (cc_commitment ctx) (ub_block_height boundary) n block_list) ps M = Inr (Inr found, M')"
    and m: "m = fold (\<lambda>m acc. acc ++ m) found reward_map"
    unfolding staking_rewards_def Let_def act_simps by blast
  have read: "M' = M \<and> (\<forall>m\<in>set found. \<forall>a x. m a = Some x \<longrightarrow> recorded_reward E K M (cc_commitment ctx) a x)"
    by (rule afor_reads [OF loop]) (rule partition_rewards_recorded)
  have "recorded_reward E K M (cc_commitment ctx) a x" if "m a = Some x" for a x
    by (rule joined_maps [OF that [unfolded m]]) (use read assms(2) in simp_all)
  with read show ?thesis by simp
qed

section \<open>Properties\<close>

text \<open>
  C34.  \<^verbatim>\<open>getBlocks\<close> answers with slots in strictly ascending order, from the first slot asked for up to the
  last one asked for and no later than the slot of the bank, and with at most one more of them than the greatest range
  that may be asked for, whichever of the two stores answers.
\<close>

theorem blocks_in_range:
  assumes "get_blocks N K M start end_slot cfg = (Inr xs :: 'sim rpc_error + slot list)" and "slot_store_laws M"
  shows "sorted_wrt (<) xs \<and> length xs \<le> MAX_GET_CONFIRMED_BLOCKS_RANGE N + 1 \<and>
    (\<forall>x\<in>set xs. start \<le> x \<and> x \<le> k_slot K (rpc_bank M None) \<and> (\<forall>last. end_slot = Some last \<longrightarrow> x \<le> last))"
proof (cases "xs = []")
  case False
  from get_blocks_found [OF assms False] obtain hi where hi: "sorted_wrt (<) xs" "\<forall>x\<in>set xs. start \<le> x \<and> x \<le> hi"
    "hi - start \<le> MAX_GET_CONFIRMED_BLOCKS_RANGE N"
    "hi = min (unwrap_or (sat_add 64 start (MAX_GET_CONFIRMED_BLOCKS_RANGE N)) end_slot) (k_slot K (rpc_bank M None))"
    by blast
  then show ?thesis using ascending_in_range [OF hi(1,2)] by fastforce
qed simp


text \<open>
  C25.  Every reward that \<^verbatim>\<open>getInflationReward\<close> reports is one that a block records: there is an answer for each
  address in the order of the request, and a reported amount, balance and commission are those of a voting or staking
  reward of that very address in the block at the slot that the answer names, also when the rewards of the epoch are
  spread over several blocks.
\<close>

theorem inflation_rewards_recorded:
  assumes "get_inflation_reward N T E R K addresses cfg M = Inr (Inr rs, M')"
  shows "M' = M \<and> length rs = length addresses \<and> (\<forall>i ir. i < length addresses \<longrightarrow> rs ! i = Some ir \<longrightarrow>
    (\<exists>r. recorded_reward E K M (ep_commitment (unwrap_or epoch_config_default cfg)) (show_key T (addresses ! i)) (r, ir_effective_slot ir) \<and>
      ir_amount ir = nat \<bar>rw_lamports r\<bar> \<and> ir_post_balance ir = rw_post_balance r \<and> ir_commission ir = rw_commission r))"
proof -
  let ?cfg = "unwrap_or epoch_config_default cfg"
  from assms obtain epoch first_block boundary p found where
    boundary: "available_block E K M first_block (ep_commitment ?cfg) = Inr boundary"
    and found: "(if p then staking_rewards N T E R K \<lparr>cc_commitment = ep_commitment ?cfg, cc_min_context_slot = ep_min_context_slot ?cfg\<rparr>
        first_block boundary addresses (filter_map_rewards (ub_rewards boundary) first_block (map (show_key T) addresses)
          (\<lambda>t. t = VotingReward \<or> (\<not> p \<and> t = StakingReward)))
      else aret (filter_map_rewards (ub_rewards boundary) first_block (map (show_key T) addresses)
          (\<lambda>t. t = VotingReward \<or> (\<not> p \<and> t = StakingReward)))) M = Inr (Inr found, M')"
    and rs: "rs = map (\<lambda>address. case found (show_key T address) of
        Some (r, s) \<Rightarrow> Some \<lparr>ir_epoch = epoch, ir_effective_slot = s, ir_amount = nat \<bar>rw_lamports r\<bar>,
          ir_post_balance = rw_post_balance r, ir_commission = rw_commission r\<rparr>
      | None \<Rightarrow> None) addresses"
    unfolding get_inflation_reward_def Let_def act_simps athrow_if_ok by blast
  have first: "recorded_reward E K M (ep_commitment ?cfg) a x"
    if "filter_map_rewards (ub_rewards boundary) first_block (map (show_key T) addresses)
      (\<lambda>t. t = VotingReward \<or> (\<not> p \<and> t = StakingReward)) a = Some x" for a x
    by (rule filtered_reward_recorded [OF that boundary]) blast
  have "M' = M \<and> (\<forall>a x. found a = Some x \<longrightarrow> recorded_reward E K M (ep_commitment ?cfg) a x)"
  proof (cases p)
    case True
    from staking_rewards_recorded [OF found [unfolded if_P [OF True]]] first show ?thesis by (simp add: True)
  qed (use found first in \<open>simp add: act_simps\<close>)
  then show ?thesis unfolding rs by (fastforce split: option.splits)
qed

section \<open>Witnesses\<close>

lemmas example_history_defs = example_processor_def example_store_def example_bigtable_def example_rpc_bank_defs
  json_rpc_config_default_def context_config_default_def commitment_default_def

lemma example_slot_store: "slot_store_laws (example_processor xs)"
  unfolding slot_store_laws_def
proof (intro conjI allI impI)
  fix s ys assume "v_rooted_slots (rp_blockstore (example_processor xs)) s = Inr ys"
  then have "ys = filter ((\<le>) s) [2, 4, 5]" by (simp add: example_history_defs)
  then show "sorted_wrt (<) ys" "\<forall>x\<in>set ys. s \<le> x" by (simp_all del: filter.simps add: sorted_wrt_filter)
next
  fix g s n ys assume "rp_bigtable_ledger_storage (example_processor xs) = Some g" "bt_confirmed_blocks g s n = Inr ys"
  then have "ys = take n [s..<2]" by (auto simp: example_history_defs)
  then show "sorted_wrt (<) ys" "\<forall>x\<in>set ys. s \<le> x" "length ys \<le> n" by (auto simp: sorted_wrt_take dest: in_set_takeD)
qed

lemma example_blocks:
  "get_blocks example_limits example_rpc_bank (example_processor []) 2 (Some 4) None = (Inr [2, 4] :: unit rpc_error + slot list)"
  by (simp add: get_blocks_def guard_def check_is_at_least_confirmed_def get_bank_with_config_def rpc_bank_def first_available_def
    example_limits_def map_err_def example_history_defs)

theorem blocks_in_range_witness:
  "sorted_wrt (<) [2, 4 :: slot] \<and> length [2, 4 :: slot] \<le> MAX_GET_CONFIRMED_BLOCKS_RANGE example_limits + 1"
  using blocks_in_range [OF example_blocks example_slot_store] by blast

lemma example_signature_store: "signature_store_laws (example_processor xs)"
  by (auto simp: signature_store_laws_def example_processor_def example_store_def example_bigtable_def
    example_signature_infos_def take_Cons' split: if_splits)

definition example_signature_answer :: "rpc_signature_info list" where
  "example_signature_answer = map (map_result example_text example_rpc_bank (rp_bank_forks (example_processor [] ::
     (example_bank, unit, unit, unit) request_processor))) [\<lparr>sn_signature = 3, sn_slot = 5, sn_err = None, sn_memo = None, sn_block_time = None\<rparr>,
     \<lparr>sn_signature = 2, sn_slot = 1, sn_err = None, sn_memo = None, sn_block_time = None\<rparr>]"

lemma example_signatures:
  "get_signatures_for_address example_text example_rpc_bank (example_processor [] :: (example_bank, unit, unit, unit) request_processor)
     1 (Some 9) None 4 context_config_default = (Inr example_signature_answer :: unit rpc_error + rpc_signature_info list)"
  by (simp add: get_signatures_for_address_def guard_def check_is_at_least_confirmed_def get_bank_with_config_def rpc_bank_def
    extend_from_bigtable_def query_bigtable_def map_err_def example_signature_infos_def example_signature_answer_def example_history_defs)


text \<open>A store whose block at slot 4 holds the rewards of an epoch.\<close>

definition example_reward :: reward where
  "example_reward = \<lparr>rw_pubkey = show_key example_text 2, rw_lamports = 30, rw_post_balance = 130,
     rw_reward_type = Some VotingReward, rw_commission = Some 5\<rparr>"

definition example_encode :: "(reward list, unit, unit, unit, unit) encode_api" where
  "example_encode = \<lparr>encode_block = (\<lambda>_ _ block. Inr \<lparr>ub_block_time = cb_block_time block, ub_block_height = cb_block_height block,
       ub_rewards = Some (cb_rest block), ub_num_reward_partitions = None, ub_previous_blockhash = [], ub_rest = ()\<rparr>),
     encode_transaction = (\<lambda>_ _ _. Inr ()), rewards_with_commitment = (\<lambda>c. block_config_default\<lparr>bk_commitment := c\<rparr>)\<rparr>"

definition example_rewarded :: "(example_bank, reward list, unit, unit) history_processor" where
  "example_rewarded = (example_processor [])\<lparr>rp_blockstore := example_store\<lparr>v_rooted_block :=
     (\<lambda>s. Inr \<lparr>cb_block_time = None, cb_block_height = None, cb_rest = [example_reward]\<rparr>)\<rparr>\<rparr>"

definition example_rewards_api :: rewards_api where
  "example_rewards_api = \<lparr>hash_address_to_partition = (\<lambda>_ _ _. 0), partition_order = (\<lambda>ps. ps)\<rparr>"

definition example_epoch :: "epoch_config option" where
  "example_epoch = Some \<lparr>ep_epoch = Some 0, ep_commitment = None, ep_min_context_slot = None\<rparr>"

lemma example_rewarded_sel [simp]:
  "rp_config example_rewarded = json_rpc_config_default\<lparr>enable_rpc_transaction_history := True\<rparr>"
  "rpc_bank example_rewarded c = (6, [])" "fv_root (rp_bank_forks example_rewarded) = 5"
  "rp_max_complete_transaction_status_slot example_rewarded = 5" "first_available example_rewarded = 2"
  "rp_bigtable_ledger_storage example_rewarded = Some example_bigtable"
  "v_rooted_slots (rp_blockstore example_rewarded) s = Inr (filter (\<lambda>n. s \<le> n) [2, 4, 5])"
  "v_rooted_block (rp_blockstore example_rewarded) s = Inr \<lparr>cb_block_time = None, cb_block_height = None, cb_rest = [example_reward]\<rparr>"
  by (simp_all add: example_rewarded_def example_processor_def example_store_def rpc_bank_def first_available_def)

lemma example_reward_block:
  "available_block example_encode example_rpc_bank example_rewarded 4 None = Inr \<lparr>ub_block_time = None, ub_block_height = None,
     ub_rewards = Some [example_reward], ub_num_reward_partitions = None, ub_previous_blockhash = [], ub_rest = ()\<rparr>"
  by (simp add: available_block_def get_block_def get_rooted_block_def check_blockstore_writes_complete_def guard_def
    check_is_at_least_confirmed_def check_blockstore_root_def check_slot_cleaned_up_def encode_rooted_block_def map_err_def
    example_encode_def block_config_default_def commitment_default_def transpose_res_def)

lemma example_first_block:
  "get_blocks_with_limit example_limits example_rpc_bank example_rewarded 4 1 (Some \<lparr>cc_commitment = None, cc_min_context_slot = None\<rparr>) =
    (Inr [4] :: unit rpc_error + slot list)"
  by (simp add: get_blocks_with_limit_def guard_def check_is_at_least_confirmed_def get_bank_with_config_def map_err_def
    example_limits_def example_rpc_bank_defs commitment_default_def)

lemma example_filtered_rewards:
  "filter_map_rewards (Some [example_reward]) 4 (map (show_key example_text) [1, 2]) (\<lambda>t. t = VotingReward \<or> t = StakingReward) =
    [show_key example_text 2 \<mapsto> (example_reward, 4)]"
  by (simp add: filter_map_rewards_def filter_rewards_def example_reward_def)

lemma example_reward_run:
  "get_inflation_reward example_limits example_text example_encode example_rewards_api example_rpc_bank [1, 2] example_epoch example_rewarded =
    Inr (Inr [None, Some \<lparr>ir_epoch = 0, ir_effective_slot = 4, ir_amount = 30, ir_post_balance = 130, ir_commission = Some 5\<rparr>],
      example_rewarded)"
proof -
  have "k_first_slot_in_epoch example_rpc_bank b 1 = 4" "sat_add 64 0 1 = 1" "get_first_available_block example_rewarded = 0"
    "k_partitioned_rewards_slot example_rpc_bank b = None" for b
    by (simp_all add: example_rpc_bank_defs sat_add_def umax_def get_first_available_block_def example_bigtable_def)
  moreover have "show_key example_text 1 \<noteq> show_key example_text 2" by (simp add: example_text_def replicate_2)
  moreover have "rw_lamports example_reward = 30" "rw_post_balance example_reward = 130" "rw_commission example_reward = Some 5"
    by (simp_all add: example_reward_def)
  ultimately show ?thesis
    using example_first_block example_reward_block example_filtered_rewards
    by (simp add: get_inflation_reward_def example_epoch_def get_bank_with_config_def aret_def)
qed

theorem inflation_rewards_recorded_witness:
  "\<exists>r. recorded_reward example_encode example_rpc_bank example_rewarded None (show_key example_text 2) (r, 4) \<and> nat \<bar>rw_lamports r\<bar> = 30"
  using inflation_rewards_recorded [OF example_reward_run] by (auto simp: example_epoch_def less_Suc_eq all_conj_distrib)

end
