(* ===== verification/Rpc_Api.thy ===== *)
theory Rpc_Api
  imports Rpc_Scan Rpc_History
begin

text \<open>
  The interfaces that clients call (\<^verbatim>\<open>rpc/src/jsonrpc/core.rs\<close>, modules \<^verbatim>\<open>rpc_minimal\<close>, \<^verbatim>\<open>rpc_bank\<close>,
  \<^verbatim>\<open>rpc_accounts\<close>, \<^verbatim>\<open>rpc_accounts_scan\<close> and \<^verbatim>\<open>rpc_full\<close>): parameters are parsed and limits checked before
  the request processor is called, and transactions are decoded, sanitised, simulated and sent.

  A method that only hands on its arguments to the processor is not repeated.  The binary decoders,
  sanitisation, verification and simulation belong to other crates and are the record \<open>tx_api\<close>; \<open>'v\<close> is
  a transaction as it was sent, \<open>'tx\<close> a sanitised one, \<open>'m\<close> a message, \<open>'rd\<close> returned data and \<open>'ii\<close> inner
  instructions.
\<close>

section \<open>Simulation and decoding\<close>

record ('rd, 'ii) simulation_result =
  sr_result :: tx_result
  sr_logs :: "string list"
  sr_post_simulation_accounts :: "(pubkey \<times> account) list"
  sr_units_consumed :: nat
  sr_return_data :: "'rd option"
  sr_inner_instructions :: "'ii option"

record ('ua, 'rd, 'ii) simulate_response =
  sm_err :: "string option"
  sm_logs :: "string list option"
  sm_accounts :: "'ua option list option"
  sm_units_consumed :: "nat option"
  sm_return_data :: "'rd option"
  sm_inner_instructions :: "'ii option"
  sm_replacement_blockhash :: "rpc_blockhash option"

datatype binary_encoding = Base58Binary | Base64Binary

record ('b, 'v, 'tx, 'm, 'rd, 'ii) tx_api =
  into_binary_encoding :: "tx_encoding \<Rightarrow> binary_encoding option"
  bs58_decode :: "string \<Rightarrow> string + u8 list"
  base64_decode :: "string \<Rightarrow> string + u8 list"
  deserialize_tx :: "u8 list \<Rightarrow> string + 'v"
  deserialize_message :: "u8 list \<Rightarrow> string + 'm"
  try_create :: "'b \<Rightarrow> 'v \<Rightarrow> string + 'tx"
  set_recent_blockhash :: "hash \<Rightarrow> 'v \<Rightarrow> 'v"
  tx_signature :: "'tx \<Rightarrow> signature"
  tx_recent_blockhash :: "'tx \<Rightarrow> hash"
  tx_durable_nonce :: "'tx \<Rightarrow> pubkey option"
  tx_keys :: "'tx \<Rightarrow> pubkey list"
  tx_verify :: "'tx \<Rightarrow> string + unit"
  tx_verify_precompiles :: "'b \<Rightarrow> 'tx \<Rightarrow> string + unit"
  bank_simulate :: "'b \<Rightarrow> 'tx \<Rightarrow> bool \<Rightarrow> ('rd, 'ii) simulation_result"
  request_airdrop_transaction :: "string \<Rightarrow> pubkey \<Rightarrow> nat \<Rightarrow> hash \<Rightarrow> string + 'v"
  message_fee :: "'b \<Rightarrow> 'm \<Rightarrow> string + nat option"

definition MAX_BASE58_SIZE :: nat where
  "MAX_BASE58_SIZE = 1683"

definition MAX_BASE64_SIZE :: nat where
  "MAX_BASE64_SIZE = 1644"

definition decode_wire ::
  "('b, 'v, 'tx, 'm, 'rd, 'ii) tx_api \<Rightarrow> string \<Rightarrow> binary_encoding \<Rightarrow> 'sim rpc_error + u8 list" where
  "decode_wire X encoded encoding =
     (case encoding of
        Base58Binary \<Rightarrow>
          if length encoded > MAX_BASE58_SIZE then Inl (InvalidParams ''base58 encoded too large'')
          else map_err (\<lambda>e. InvalidParams (''invalid base58 encoding: '' @ e)) (bs58_decode X encoded)
      | Base64Binary \<Rightarrow>
          if length encoded > MAX_BASE64_SIZE then Inl (InvalidParams ''base64 encoded too large'')
          else map_err (\<lambda>e. InvalidParams (''invalid base64 encoding: '' @ e)) (base64_decode X encoded))"

definition decode_and_deserialize ::
  "rpc_limits \<Rightarrow> ('b, 'v, 'tx, 'm, 'rd, 'ii) tx_api \<Rightarrow> (u8 list \<Rightarrow> string + 't) \<Rightarrow> string \<Rightarrow> binary_encoding \<Rightarrow> 'sim rpc_error + 't" where
  "decode_and_deserialize N X deserialize encoded encoding =
     ebind (decode_wire X encoded encoding) (\<lambda>wire_output.
     if length wire_output > PACKET_DATA_SIZE N then Inl (InvalidParams ''decoded too large'')
     else map_err (\<lambda>e. InvalidParams (''failed to deserialize: '' @ e)) (deserialize wire_output))"

definition sanitize_transaction ::
  "('b, 'v, 'tx, 'm, 'rd, 'ii) tx_api \<Rightarrow> 'v \<Rightarrow> 'b \<Rightarrow> 'sim rpc_error + 'tx" where
  "sanitize_transaction X v b = map_err (\<lambda>e. InvalidParams (''invalid transaction: '' @ e)) (try_create X b v)"

definition verify_transaction ::
  "('b, 'v, 'tx, 'm, 'rd, 'ii) tx_api \<Rightarrow> 'tx \<Rightarrow> 'b \<Rightarrow> 'sim rpc_error + unit" where
  "verify_transaction X t b =
     (if isl (tx_verify X t) then Inl (CustomError TransactionSignatureVerificationFailure)
      else map_err (\<lambda>e. CustomError (TransactionPrecompileVerificationFailure e)) (tx_verify_precompiles X b t))"

section \<open>Transactions\<close>

text \<open>The height and the nonce are not used: there is no queue of retries.\<close>

definition send_transaction_to_channel ::
  "text_api \<Rightarrow> signature \<Rightarrow> 'tx \<Rightarrow> nat \<Rightarrow> (pubkey \<times> hash) option
     \<Rightarrow> (('b, 'blk, 'ctx, 'tx) request_processor, 'sim rpc_error, string) act" where
  "send_transaction_to_channel T sg t last_valid_block_height durable_nonce_info =
     abind (amodify (\<lambda>M. M\<lparr>rp_tx_channel := rp_tx_channel M @ [t]\<rparr>)) (\<lambda>_. aret (show_sig T sg))"

record send_transaction_config =
  se_skip_preflight :: bool
  se_preflight_commitment :: "commitment_config option"
  se_encoding :: "tx_encoding option"
  se_min_context_slot :: "slot option"

definition send_transaction_config_default :: send_transaction_config where
  "send_transaction_config_default = \<lparr>se_skip_preflight = False, se_preflight_commitment = None, se_encoding = None,
     se_min_context_slot = None\<rparr>"

text \<open>The commitment \<^verbatim>\<open>processed\<close>, which is not at least confirmed.\<close>

definition commitment_processed :: commitment_config where
  "commitment_processed = \<lparr>is_at_least_confirmed = False, is_confirmed = False\<rparr>"

definition preflight ::
  "('b, 'v, 'tx, 'm, 'rd, 'ii) tx_api \<Rightarrow> 'tx \<Rightarrow> 'b \<Rightarrow> ('ua, 'rd, 'ii) simulate_response rpc_error + unit" where
  "preflight X t b =
     ebind (verify_transaction X t b) (\<lambda>_.
     let sim = bank_simulate X b t False in
     case sr_result sim of
       Inl err \<Rightarrow> Inl (CustomError (SendTransactionPreflightFailure (''Transaction simulation failed: '' @ err)
         \<lparr>sm_err = Some err, sm_logs = Some (sr_logs sim), sm_accounts = None, sm_units_consumed = Some (sr_units_consumed sim),
          sm_return_data = sr_return_data sim, sm_inner_instructions = None, sm_replacement_blockhash = None\<rparr>))
     | Inr _ \<Rightarrow> Inr ())"

definition send_transaction ::
  "rpc_limits \<Rightarrow> text_api \<Rightarrow> ('b, 'v, 'tx, 'm, 'rd, 'ii) tx_api \<Rightarrow> 'b rpc_bank_api \<Rightarrow> string \<Rightarrow> send_transaction_config option
     \<Rightarrow> (('b, 'blk, 'ctx, 'tx) request_processor, ('ua, 'rd, 'ii) simulate_response rpc_error, string) act" where
  "send_transaction N T X K data cfg0 M =
     (let cfg = unwrap_or send_transaction_config_default cfg0;
          skip_preflight = se_skip_preflight cfg in
      abind (alift (ok_or (InvalidParams ''unsupported encoding. Supported encodings: base58, base64'')
        (into_binary_encoding X (unwrap_or TxBase58 (se_encoding cfg))))) (\<lambda>encoding.
      abind (alift (decode_and_deserialize N X (deserialize_tx X) data encoding)) (\<lambda>unsanitized.
      abind (alift (get_bank_with_config K M
        \<lparr>cc_commitment = (if skip_preflight then Some commitment_processed else se_preflight_commitment cfg),
         cc_min_context_slot = se_min_context_slot cfg\<rparr>)) (\<lambda>b.
      abind (alift (sanitize_transaction X unsanitized b)) (\<lambda>t.
      let height = unwrap_or 0 (k_last_valid_block_height K b (tx_recent_blockhash X t));
          durable_nonce_info = map_option (\<lambda>key. (key, tx_recent_blockhash X t)) (tx_durable_nonce X t) in
      abind (apanic (if durable_nonce_info \<noteq> None \<or> (skip_preflight \<and> height = 0)
        then checked_add 64 (k_block_height K b) (MAX_PROCESSING_AGE N) else Inr height)) (\<lambda>last_valid_block_height.
      abind (alift (if skip_preflight then Inr () else preflight X t b)) (\<lambda>_.
      send_transaction_to_channel T (tx_signature X t) t last_valid_block_height durable_nonce_info)))))) M)"

record request_airdrop_config =
  rd_recent_blockhash :: "string option"
  rd_commitment :: "commitment_config option"

definition request_airdrop_config_default :: request_airdrop_config where
  "request_airdrop_config_default = \<lparr>rd_recent_blockhash = None, rd_commitment = None\<rparr>"

definition request_airdrop ::
  "text_api \<Rightarrow> ('b, 'v, 'tx, 'm, 'rd, 'ii) tx_api \<Rightarrow> 'b rpc_bank_api \<Rightarrow> string \<Rightarrow> nat \<Rightarrow> request_airdrop_config option
     \<Rightarrow> (('b, 'blk, 'ctx, 'tx) request_processor, 'sim rpc_error, string) act" where
  "request_airdrop T X K pubkey_str lamports cfg0 M =
     abind (alift (ok_or (InvalidRequest '''') (faucet_addr (rp_config M)))) (\<lambda>faucet.
     abind (alift (verify_pubkey T pubkey_str)) (\<lambda>key.
     let cfg = unwrap_or request_airdrop_config_default cfg0; b = rpc_bank M (rd_commitment cfg) in
     abind (alift (case rd_recent_blockhash cfg of Some h \<Rightarrow> verify_hash T h | None \<Rightarrow> Inr (k_confirmed_last_blockhash K b))) (\<lambda>blockhash.
     let last_valid_block_height = unwrap_or 0 (k_last_valid_block_height K b blockhash) in
     abind (alift (map_err (\<lambda>_. InternalError) (request_airdrop_transaction X faucet key lamports blockhash))) (\<lambda>unsanitized.
     abind (alift (sanitize_transaction X unsanitized b)) (\<lambda>t.
     send_transaction_to_channel T (tx_signature X t) t last_valid_block_height None))))) M"

record simulate_accounts_config =
  sa_encoding :: "ui_account_encoding option"
  sa_addresses :: "string list"

record simulate_transaction_config =
  si_sig_verify :: bool
  si_replace_recent_blockhash :: bool
  si_commitment :: "commitment_config option"
  si_encoding :: "tx_encoding option"
  si_accounts :: "simulate_accounts_config option"
  si_min_context_slot :: "slot option"
  si_inner_instructions :: bool

definition simulate_transaction_config_default :: simulate_transaction_config where
  "simulate_transaction_config_default = \<lparr>si_sig_verify = False, si_replace_recent_blockhash = False, si_commitment = None,
     si_encoding = None, si_accounts = None, si_min_context_slot = None, si_inner_instructions = False\<rparr>"

text \<open>The accounts after the simulation: what it changed, and otherwise the accounts of the bank.\<close>

definition simulated_accounts ::
  "rpc_limits \<Rightarrow> text_api \<Rightarrow> ('ua, 'am, 'ic) decoder_api \<Rightarrow> 'b rpc_bank_api \<Rightarrow> 'b \<Rightarrow> nat \<Rightarrow> ('rd, 'ii) simulation_result
     \<Rightarrow> simulate_accounts_config option \<Rightarrow> 'sim rpc_error + 'ua option list option" where
  "simulated_accounts N T D K b number_of_accounts sim cfg0 =
     (case cfg0 of
        None \<Rightarrow> Inr None
      | Some cfg \<Rightarrow>
          let encoding = unwrap_or EncBase64 (sa_encoding cfg) in
          if encoding = EncBinary \<or> encoding = EncBase58 then Inl (InvalidParams ''base58 encoding not supported'')
          else if length (sa_addresses cfg) > number_of_accounts then Inl (InvalidParams ''Too many accounts provided'')
          else if isl (sr_result sim) then Inr (Some (replicate (length (sa_addresses cfg)) None))
          else
            map_sum id Some (collect_results (map (\<lambda>address.
              ebind (verify_pubkey T address) (\<lambda>key.
              get_encoded_account N D K b key encoding None (Some (map_of (rev (sr_post_simulation_accounts sim)))))) (sa_addresses cfg))))"

definition simulate_transaction ::
  "rpc_limits \<Rightarrow> text_api \<Rightarrow> ('ua, 'am, 'ic) decoder_api \<Rightarrow> ('b, 'v, 'tx, 'm, 'rd, 'ii) tx_api \<Rightarrow> 'b rpc_bank_api \<Rightarrow> string
     \<Rightarrow> simulate_transaction_config option
     \<Rightarrow> (('b, 'blk, 'ctx, 'tx) request_processor, 'sim rpc_error, ('ua, 'rd, 'ii) simulate_response rpc_response) act" where
  "simulate_transaction N T D X K data cfg0 M =
     (let cfg = unwrap_or simulate_transaction_config_default cfg0 in
      abind (alift (ok_or (InvalidParams ''unsupported encoding. Supported encodings: base58, base64'')
        (into_binary_encoding X (unwrap_or TxBase58 (si_encoding cfg))))) (\<lambda>encoding.
      abind (alift (decode_and_deserialize N X (deserialize_tx X) data encoding)) (\<lambda>unsanitized.
      abind (alift (get_bank_with_config K M \<lparr>cc_commitment = si_commitment cfg, cc_min_context_slot = si_min_context_slot cfg\<rparr>)) (\<lambda>b.
      abind (if si_replace_recent_blockhash cfg
        then
          if si_sig_verify cfg then athrow (InvalidParams ''sigVerify may not be used with replaceRecentBlockhash'')
          else
            let h = k_last_blockhash K b in
            abind (apanic (runwrap ''bank blockhash queue should contain blockhash'' (k_last_valid_block_height K b h))) (\<lambda>height.
            aret (set_recent_blockhash X h unsanitized, Some \<lparr>bh_blockhash = show_hash T h, bh_last_valid_block_height = height\<rparr>))
        else aret (unsanitized, None)) (\<lambda>(unsanitized', blockhash).
      abind (alift (sanitize_transaction X unsanitized' b)) (\<lambda>t.
      abind (alift (if si_sig_verify cfg then verify_transaction X t b else Inr ())) (\<lambda>_.
      let sim = bank_simulate X b t (si_inner_instructions cfg) in
      abind (alift (simulated_accounts N T D K b (length (tx_keys X t)) sim (si_accounts cfg))) (\<lambda>accounts.
      aret (new_response K b
        \<lparr>sm_err = (case sr_result sim of Inl e \<Rightarrow> Some e | Inr _ \<Rightarrow> None), sm_logs = Some (sr_logs sim), sm_accounts = accounts,
         sm_units_consumed = Some (sr_units_consumed sim), sm_return_data = sr_return_data sim,
         sm_inner_instructions = sr_inner_instructions sim, sm_replacement_blockhash = blockhash\<rparr>)))))))) M)"

definition get_fee_for_message ::
  "rpc_limits \<Rightarrow> ('b, 'v, 'tx, 'm, 'rd, 'ii) tx_api \<Rightarrow> 'b rpc_bank_api \<Rightarrow> ('b, 'blk, 'ctx, 'tx) request_processor \<Rightarrow> string
     \<Rightarrow> context_config option \<Rightarrow> 'sim rpc_error + nat option rpc_response" where
  "get_fee_for_message N X K M data cfg =
     ebind (decode_and_deserialize N X (deserialize_message X) data Base64Binary) (\<lambda>message.
     ebind (get_bank_with_config K M (unwrap_or context_config_default cfg)) (\<lambda>b.
     ebind (map_err (\<lambda>e. InvalidParams (''invalid transaction message: '' @ e)) (message_fee X b message)) (\<lambda>fee.
     Inr (new_response K b fee))))"

section \<open>The minimal interface\<close>

definition minimal_get_balance ::
  "text_api \<Rightarrow> 'b rpc_bank_api \<Rightarrow> ('b, 'blk, 'ctx, 'tx) request_processor \<Rightarrow> string \<Rightarrow> context_config option
     \<Rightarrow> 'sim rpc_error + nat rpc_response" where
  "minimal_get_balance T K M pubkey_str cfg =
     ebind (verify_pubkey T pubkey_str) (\<lambda>key. rpc_get_balance K M key (unwrap_or context_config_default cfg))"

definition get_genesis_hash :: "text_api \<Rightarrow> ('b, 'blk, 'ctx, 'tx) request_processor \<Rightarrow> 'sim rpc_error + string" where
  "get_genesis_hash T M = Inr (show_hash T (rp_genesis_hash M))"

definition get_health :: "'sim rpc_error + string" where
  "get_health = Inr ''ok''"

definition get_identity :: "text_api \<Rightarrow> 'b rpc_bank_api \<Rightarrow> ('b, 'blk, 'ctx, 'tx) request_processor \<Rightarrow> 'sim rpc_error + string" where
  "get_identity T K M = Inr (show_key T (k_collector_id K (rpc_bank M None)))"

record snapshot_api =
  highest_full_snapshot_slot :: "path \<Rightarrow> slot option"
  highest_incremental_snapshot_slot :: "path \<Rightarrow> slot \<Rightarrow> slot option"

definition get_highest_snapshot_slot ::
  "snapshot_api \<Rightarrow> ('b, 'blk, 'ctx, 'tx) request_processor \<Rightarrow> 'sim rpc_error + slot \<times> slot option" where
  "get_highest_snapshot_slot P M =
     (case rp_snapshot_config M of
        None \<Rightarrow> Inl (CustomError NoSnapshot)
      | Some cfg \<Rightarrow>
          ebind (ok_or (CustomError NoSnapshot) (highest_full_snapshot_slot P (full_snapshot_archives_dir cfg))) (\<lambda>full.
          Inr (full, highest_incremental_snapshot_slot P (incremental_snapshot_archives_dir cfg) full)))"

definition get_leader_schedule :: "'sim rpc_error + (string \<times> nat list) list option" where
  "get_leader_schedule = Inr None"

section \<open>The interface of the bank\<close>

definition bank_get_minimum_balance_for_rent_exemption ::
  "rpc_limits \<Rightarrow> 'b rpc_bank_api \<Rightarrow> ('b, 'blk, 'ctx, 'tx) request_processor \<Rightarrow> nat \<Rightarrow> commitment_config option \<Rightarrow> 'sim rpc_error + nat" where
  "bank_get_minimum_balance_for_rent_exemption N K M data_len commitment =
     (if data_len > MAX_PERMITTED_DATA_LENGTH N then Inl (InvalidRequest '''')
      else Inr (get_minimum_balance_for_rent_exemption K M data_len commitment))"

definition bank_get_slot_leaders ::
  "rpc_limits \<Rightarrow> text_api \<Rightarrow> 'b rpc_bank_api \<Rightarrow> ('b, 'blk, 'ctx, 'tx) request_processor \<Rightarrow> slot \<Rightarrow> nat \<Rightarrow> 'sim rpc_error + string list" where
  "bank_get_slot_leaders N T K M start_slot limit =
     (if limit > MAX_GET_SLOT_LEADERS N then Inl (InvalidParams ''Invalid limit; max MAX_GET_SLOT_LEADERS'')
      else ebind (get_slot_leaders K M None start_slot limit) (\<lambda>leaders. Inr (map (show_key T) leaders)))"

record block_production_config =
  bp_identity :: "string option"
  bp_range :: "(slot \<times> slot option) option"
  bp_commitment :: "commitment_config option"

definition block_production_config_default :: block_production_config where
  "block_production_config_default = \<lparr>bp_identity = None, bp_range = None, bp_commitment = None\<rparr>"

record block_production =
  bd_by_identity :: "pubkey \<Rightarrow> (nat \<times> nat) option"
  bd_range :: "slot \<times> slot"

text \<open>The leader slots and the blocks that were produced, for every leader in the order of the slots.\<close>

definition count_leader_slot ::
  "slot_history \<Rightarrow> pubkey option \<Rightarrow> pubkey \<Rightarrow> slot \<times> (pubkey \<Rightarrow> (nat \<times> nat) option) \<Rightarrow> (slot \<times> (pubkey \<Rightarrow> (nat \<times> nat) option)) res" where
  "count_leader_slot history filter_by identity = (\<lambda>(s, production).
     rbind (checked_add 64 s 1) (\<lambda>s'.
     if filter_by \<noteq> None \<and> filter_by \<noteq> Some identity then Inr (s', production)
     else
       let (leader_slots, blocks_produced) = unwrap_or (0, 0) (production identity) in
       rbind (if sh_found history s then checked_add 64 blocks_produced 1 else Inr blocks_produced) (\<lambda>blocks.
       rbind (checked_add 64 leader_slots 1) (\<lambda>slots.
       Inr (s', production(identity \<mapsto> (slots, blocks)))))))"

definition get_block_production ::
  "text_api \<Rightarrow> 'b rpc_bank_api \<Rightarrow> block_production_config option
     \<Rightarrow> (('b, 'blk, 'ctx, 'tx) request_processor, 'sim rpc_error, block_production rpc_response) act" where
  "get_block_production T K cfg0 M =
     (let cfg = unwrap_or block_production_config_default cfg0 in
      abind (alift (case bp_identity cfg of Some i \<Rightarrow> map_sum id Some (verify_pubkey T i) | None \<Rightarrow> Inr None)) (\<lambda>filter_by.
      let b = rpc_bank M (bp_commitment cfg); history = k_slot_history K b in
      abind (alift (case bp_range cfg of
          None \<Rightarrow> Inr (k_first_slot_in_epoch K b (k_epoch K b), k_slot K b)
        | Some (first_slot, last_slot0) \<Rightarrow>
            let last_slot = unwrap_or (k_slot K b) last_slot0 in
            if last_slot < first_slot then Inl (InvalidParams ''lastSlot cannot be less than firstSlot'')
            else Inr (first_slot, last_slot))) (\<lambda>(first_slot, last_slot).
      if first_slot < sh_oldest history then athrow (InvalidParams ''firstSlot is too small'')
      else if last_slot > sh_newest history then athrow (InvalidParams ''lastSlot is too large'')
      else
        abind (apanic (checked_add 64 (sat_sub last_slot first_slot) 1)) (\<lambda>limit.
        abind (alift (get_slot_leaders K M (bp_commitment cfg) first_slot limit)) (\<lambda>leaders.
        abind (apanic (rfold (count_leader_slot history filter_by) leaders (first_slot, Map.empty))) (\<lambda>(_, production).
        aret (new_response K b \<lparr>bd_by_identity = production, bd_range = (first_slot, last_slot)\<rparr>)))))) M)"

section \<open>The interfaces of the accounts\<close>

definition accounts_get_account_info where
  "accounts_get_account_info N T D K M pubkey_str cfg =
     ebind (verify_pubkey T pubkey_str) (\<lambda>key. get_account_info N D K M key cfg)"

definition accounts_get_multiple_accounts ::
  "rpc_limits \<Rightarrow> text_api \<Rightarrow> ('ua, 'am, 'ic) decoder_api \<Rightarrow> 'b rpc_bank_api \<Rightarrow> ('b, 'blk, 'ctx, 'tx) request_processor \<Rightarrow> string list
     \<Rightarrow> account_info_config option \<Rightarrow> 'sim rpc_error + 'ua option list rpc_response" where
  "accounts_get_multiple_accounts N T D K M pubkey_strs cfg =
     (if length pubkey_strs > unwrap_or (MAX_MULTIPLE_ACCOUNTS N) (max_multiple_accounts (rp_config M))
      then Inl (InvalidParams ''Too many inputs provided'')
      else
        ebind (collect_results (map (verify_pubkey T) pubkey_strs)) (\<lambda>keys.
        get_multiple_accounts N D K M keys cfg))"

definition accounts_get_token_account_balance where
  "accounts_get_token_account_balance T D K M pubkey_str commitment =
     ebind (verify_pubkey T pubkey_str) (\<lambda>key. get_token_account_balance D K M key commitment)"

definition accounts_get_token_supply where
  "accounts_get_token_supply T D K M mint_str commitment =
     ebind (verify_pubkey T mint_str) (\<lambda>mint. get_token_supply D K M mint commitment)"

record 'mc program_accounts_config =
  pc_account_config :: account_info_config
  pc_filters :: "'mc filter_type list option"
  pc_with_context :: "bool option"
  pc_sort_results :: "bool option"

definition scan_get_program_accounts ::
  "rpc_limits \<Rightarrow> text_api \<Rightarrow> ('ua, 'am, 'ic) decoder_api \<Rightarrow> 'mc memcmp_api \<Rightarrow> 'b rpc_bank_api
     \<Rightarrow> ('b, 'blk, 'ctx, 'tx) request_processor \<Rightarrow> string \<Rightarrow> 'mc program_accounts_config option
     \<Rightarrow> 'sim rpc_error + 'ua keyed_account list optional_context" where
  "scan_get_program_accounts N T D C K M program_id_str cfg0 =
     ebind (verify_pubkey T program_id_str) (\<lambda>program_id.
     let (cfg, filters, with_context, sort_results) = (case cfg0 of
           Some c \<Rightarrow> (Some (pc_account_config c), unwrap_or [] (pc_filters c), unwrap_or False (pc_with_context c),
             unwrap_or True (pc_sort_results c))
         | None \<Rightarrow> (None, [], False, True)) in
     if length filters > MAX_GET_PROGRAM_ACCOUNT_FILTERS N
     then Inl (InvalidParams ''Too many filters provided; max MAX_GET_PROGRAM_ACCOUNT_FILTERS'')
     else
       ebind (collect_results (map (verify_filter C) filters)) (\<lambda>_.
       get_program_accounts N T D C K M program_id cfg filters with_context sort_results))"

definition scan_get_token_largest_accounts ::
  "rpc_limits \<Rightarrow> text_api \<Rightarrow> ('ua, 'am, 'ic) decoder_api \<Rightarrow> 'mc memcmp_api \<Rightarrow> 'b rpc_bank_api
     \<Rightarrow> ('b, 'blk, 'ctx, 'tx) request_processor \<Rightarrow> string \<Rightarrow> commitment_config option
     \<Rightarrow> ('sim rpc_error + 'am token_account_balance list rpc_response) res" where
  "scan_get_token_largest_accounts N T D C K M mint_str commitment =
     (case verify_pubkey T mint_str of
        Inl e \<Rightarrow> Inr (Inl e)
      | Inr mint \<Rightarrow> get_token_largest_accounts N T D C K M mint commitment)"

definition scan_get_token_accounts_by_owner where
  "scan_get_token_accounts_by_owner N T D C K M owner_str f cfg =
     ebind (verify_pubkey T owner_str) (\<lambda>owner.
     ebind (verify_token_account_filter T f) (\<lambda>f'.
     get_token_accounts_by_owner N T D C K M owner f' cfg True))"

definition scan_get_token_accounts_by_delegate where
  "scan_get_token_accounts_by_delegate N T D C K M delegate_str f cfg =
     ebind (verify_pubkey T delegate_str) (\<lambda>delegate.
     ebind (verify_token_account_filter T f) (\<lambda>f'.
     get_token_accounts_by_delegate N T D C K M delegate f' cfg True))"

section \<open>The full interface\<close>

definition full_get_inflation_reward where
  "full_get_inflation_reward N T E R K address_strs cfg =
     abind (alift (collect_results (map (verify_pubkey T) address_strs))) (\<lambda>addresses.
     get_inflation_reward N T E R K addresses cfg)"

record rpc_perf_sample =
  ps_slot :: slot
  ps_num_transactions :: nat
  ps_num_non_vote_transactions :: "nat option"
  ps_num_slots :: nat
  ps_sample_period_secs :: nat

fun rpc_perf_sample_from_perf_sample :: "slot \<Rightarrow> perf_sample \<Rightarrow> rpc_perf_sample" where
  "rpc_perf_sample_from_perf_sample s (PerfSampleV1 num_transactions num_slots secs) =
     \<lparr>ps_slot = s, ps_num_transactions = num_transactions, ps_num_non_vote_transactions = None, ps_num_slots = num_slots,
      ps_sample_period_secs = secs\<rparr>"
| "rpc_perf_sample_from_perf_sample s (PerfSampleV2 num_transactions num_non_vote num_slots secs) =
     \<lparr>ps_slot = s, ps_num_transactions = num_transactions, ps_num_non_vote_transactions = Some num_non_vote,
      ps_num_slots = num_slots, ps_sample_period_secs = secs\<rparr>"

definition get_recent_performance_samples ::
  "('b, 'blk, 'ctx, 'tx) request_processor \<Rightarrow> nat option \<Rightarrow> 'sim rpc_error + rpc_perf_sample list" where
  "get_recent_performance_samples M limit0 =
     (let limit = unwrap_or PERFORMANCE_SAMPLES_LIMIT limit0 in
      if limit > PERFORMANCE_SAMPLES_LIMIT then Inl (InvalidParams ''Invalid limit; max PERFORMANCE_SAMPLES_LIMIT'')
      else
        ebind (map_err (\<lambda>_. InvalidRequest '''') (v_recent_perf_samples (rp_blockstore M) limit)) (\<lambda>samples.
        Inr (map (\<lambda>(s, sample). rpc_perf_sample_from_perf_sample s sample) samples)))"

definition full_get_signature_statuses ::
  "rpc_limits \<Rightarrow> text_api \<Rightarrow> 'b rpc_bank_api \<Rightarrow> ('b, 'blk, 'ctx, 'tx) request_processor \<Rightarrow> string list \<Rightarrow> bool option
     \<Rightarrow> 'sim rpc_error + transaction_status option list rpc_response" where
  "full_get_signature_statuses N T K M signature_strs search =
     (if length signature_strs > MAX_GET_SIGNATURE_STATUSES_QUERY_ITEMS N
      then Inl (InvalidParams ''Too many inputs provided; max MAX_GET_SIGNATURE_STATUSES_QUERY_ITEMS'')
      else
        ebind (collect_results (map (verify_signature T) signature_strs)) (\<lambda>sgs.
        get_signature_statuses K M sgs search))"

text \<open>The configuration may be given together with the last slot or on its own, which takes precedence.\<close>

definition full_get_blocks ::
  "rpc_limits \<Rightarrow> 'b rpc_bank_api \<Rightarrow> ('b, 'blk, 'ctx, 'tx) request_processor \<Rightarrow> slot \<Rightarrow> (slot option \<times> context_config option) option
     \<Rightarrow> context_config option \<Rightarrow> 'sim rpc_error + slot list" where
  "full_get_blocks N K M start_slot wrapper cfg =
     (let (end_slot, maybe_cfg) = unwrap_or (None, None) wrapper in
      get_blocks N K M start_slot end_slot (case cfg of Some c \<Rightarrow> Some c | None \<Rightarrow> maybe_cfg))"

definition full_get_transaction where
  "full_get_transaction T E K M signature_str cfg =
     ebind (verify_signature T signature_str) (\<lambda>sg. get_transaction E K M sg cfg)"

record signatures_for_address_config =
  sf_before :: "string option"
  sf_until :: "string option"
  sf_limit :: "nat option"
  sf_commitment :: "commitment_config option"
  sf_min_context_slot :: "slot option"

definition signatures_for_address_config_default :: signatures_for_address_config where
  "signatures_for_address_config_default = \<lparr>sf_before = None, sf_until = None, sf_limit = None, sf_commitment = None,
     sf_min_context_slot = None\<rparr>"

definition full_get_signatures_for_address ::
  "rpc_limits \<Rightarrow> text_api \<Rightarrow> 'b rpc_bank_api \<Rightarrow> ('b, 'blk, 'ctx, 'tx) request_processor \<Rightarrow> string
     \<Rightarrow> signatures_for_address_config option \<Rightarrow> 'sim rpc_error + rpc_signature_info list" where
  "full_get_signatures_for_address N T K M address cfg0 =
     (let cfg = unwrap_or signatures_for_address_config_default cfg0 in
      ebind (verify_and_parse_signatures_for_address_params N T address (sf_before cfg) (sf_until cfg) (sf_limit cfg))
        (\<lambda>(key, before, until, limit).
      get_signatures_for_address T K M key before until limit
        \<lparr>cc_commitment = sf_commitment cfg, cc_min_context_slot = sf_min_context_slot cfg\<rparr>))"

definition full_is_blockhash_valid ::
  "text_api \<Rightarrow> 'b rpc_bank_api \<Rightarrow> ('b, 'blk, 'ctx, 'tx) request_processor \<Rightarrow> string \<Rightarrow> context_config option
     \<Rightarrow> 'sim rpc_error + bool rpc_response" where
  "full_is_blockhash_valid T K M blockhash cfg =
     ebind (map_err InvalidParams (parse_hash T blockhash)) (\<lambda>h.
     is_blockhash_valid K M h (unwrap_or context_config_default cfg))"

definition full_get_recent_prioritization_fees ::
  "rpc_limits \<Rightarrow> text_api \<Rightarrow> ('b, 'blk, 'ctx, 'tx) request_processor \<Rightarrow> string list option \<Rightarrow> 'sim rpc_error + prioritization_fee list" where
  "full_get_recent_prioritization_fees N T M pubkey_strs0 =
     (let pubkey_strs = unwrap_or [] pubkey_strs0 in
      if length pubkey_strs > MAX_TX_ACCOUNT_LOCKS N then Inl (InvalidParams ''Too many inputs provided; max MAX_TX_ACCOUNT_LOCKS'')
      else ebind (collect_results (map (verify_pubkey T) pubkey_strs)) (\<lambda>keys. get_recent_prioritization_fees M keys))"

section \<open>Properties\<close>

lemma decoded_fits:
  assumes "decode_and_deserialize N X deserialize encoded encoding = Inr v"
  shows "\<exists>wire. decode_wire X encoded encoding = (Inr wire :: 'sim rpc_error + u8 list) \<and> length wire \<le> PACKET_DATA_SIZE N \<and>
    deserialize wire = Inr v"
  using assms
  by (cases encoding) (auto simp: decode_and_deserialize_def decode_wire_def act_simps split: if_splits)

lemma verified_transaction:
  "verify_transaction X t b = Inr u \<longleftrightarrow> tx_verify X t = Inr () \<and> tx_verify_precompiles X b t = Inr ()"
  by (cases "tx_verify X t") (simp_all add: verify_transaction_def act_simps)

lemma preflight_passed:
  "preflight X t b = Inr u \<longleftrightarrow> tx_verify X t = Inr () \<and> tx_verify_precompiles X b t = Inr () \<and> sr_result (bank_simulate X b t False) = Inr ()"
  by (cases "sr_result (bank_simulate X b t False)") (auto simp: preflight_def Let_def act_simps verified_transaction)

text \<open>A step that only reads either ends the request with its error or hands on its value.\<close>

lemma reading_step_err:
  "abind (alift r) f s = Inr (Inl e, t) \<longleftrightarrow> (r = Inl e \<and> t = s) \<or> (\<exists>x. r = Inr x \<and> f x s = Inr (Inl e, t))"
  "abind (apanic p) f s = Inr (Inl e, t) \<longleftrightarrow> (\<exists>x. p = Inr x \<and> f x s = Inr (Inl e, t))"
  by (cases r, auto simp: alift_def abind_def) (cases p, auto simp: apanic_def abind_def)

lemma sent_to_channel:
  "send_transaction_to_channel T sg t h nonce M = Inr (Inr (show_sig T sg), M\<lparr>rp_tx_channel := rp_tx_channel M @ [t]\<rparr>)"
  by (simp add: send_transaction_to_channel_def aret_def)

lemma send_transaction_error:
  "send_transaction N T X K data cfg M = Inr (Inl e, M') \<Longrightarrow> M' = M"
  unfolding send_transaction_def Let_def reading_step_err sent_to_channel by auto

lemma send_transaction_ok:
  assumes "send_transaction N T X K data cfg M =
    (Inr (Inr sg, M') :: ((('ua, 'rd, 'ii) simulate_response rpc_error + string) \<times> ('b, 'blk, 'ctx, 'tx) request_processor) res)"
  shows "\<exists>enc v t. into_binary_encoding X (unwrap_or TxBase58 (se_encoding (unwrap_or send_transaction_config_default cfg))) = Some enc \<and>
    decode_and_deserialize N X (deserialize_tx X) data enc = (Inr v :: ('ua, 'rd, 'ii) simulate_response rpc_error + 'v) \<and>
    try_create X (rpc_bank M None) v = Inr t \<and> sg = show_sig T (tx_signature X t) \<and>
    M' = M\<lparr>rp_tx_channel := rp_tx_channel M @ [t]\<rparr> \<and>
    (\<not> se_skip_preflight (unwrap_or send_transaction_config_default cfg) \<longrightarrow>
      preflight X t (rpc_bank M None) = (Inr () :: ('ua, 'rd, 'ii) simulate_response rpc_error + unit))"
proof -
  let ?cfg = "unwrap_or send_transaction_config_default cfg"
  from assms obtain enc v t u where
    "into_binary_encoding X (unwrap_or TxBase58 (se_encoding ?cfg)) = Some enc"
    "decode_and_deserialize N X (deserialize_tx X) data enc = (Inr v :: ('ua, 'rd, 'ii) simulate_response rpc_error + 'v)"
    "try_create X (rpc_bank M None) v = Inr t" "sg = show_sig T (tx_signature X t)"
    "M' = M\<lparr>rp_tx_channel := rp_tx_channel M @ [t]\<rparr>"
    "(if se_skip_preflight ?cfg then Inr () else preflight X t (rpc_bank M None)) = (Inr u :: ('ua, 'rd, 'ii) simulate_response rpc_error + unit)"
    unfolding send_transaction_def Let_def act_simps sanitize_transaction_def sent_to_channel rpc_bank_def
      sum.inject prod.inject by blast
  then show ?thesis by (intro exI conjI) (simp_all split: if_splits)
qed

text \<open>
  C10.  \<^verbatim>\<open>sendTransaction\<close> puts nothing on the channel but what the client sent and the node checked: when it
  answers with an error the processor is unchanged, and when it answers with a signature exactly one transaction has been
  appended, the one decoded from the client's text, from no more bytes than a packet holds, sanitised against the bank,
  with that signature; unless the client asked to skip it, its signatures and its precompiles have been verified and its
  simulation has succeeded.
\<close>

theorem send_transaction_sends:
  assumes "send_transaction N T X K data cfg M =
    (Inr (r, M') :: ((('ua, 'rd, 'ii) simulate_response rpc_error + string) \<times> ('b, 'blk, 'ctx, 'tx) request_processor) res)"
  shows "case r of Inl e \<Rightarrow> M' = M | Inr sg \<Rightarrow>
    (\<exists>enc wire v t. decode_wire X data enc = (Inr wire :: ('ua, 'rd, 'ii) simulate_response rpc_error + u8 list) \<and>
      length wire \<le> PACKET_DATA_SIZE N \<and> deserialize_tx X wire = Inr v \<and> try_create X (rpc_bank M None) v = Inr t \<and>
      sg = show_sig T (tx_signature X t) \<and> M' = M\<lparr>rp_tx_channel := rp_tx_channel M @ [t]\<rparr> \<and>
      (se_skip_preflight (unwrap_or send_transaction_config_default cfg) \<or>
        tx_verify X t = Inr () \<and> tx_verify_precompiles X (rpc_bank M None) t = Inr () \<and>
        sr_result (bank_simulate X (rpc_bank M None) t False) = Inr ()))"
proof (cases r)
  case (Inl e)
  with assms show ?thesis using send_transaction_error by auto
next
  case (Inr sg)
  from send_transaction_ok [OF assms [unfolded this]] obtain enc v t where
    dec: "decode_and_deserialize N X (deserialize_tx X) data enc = (Inr v :: ('ua, 'rd, 'ii) simulate_response rpc_error + _)"
    and rest: "try_create X (rpc_bank M None) v = Inr t" "sg = show_sig T (tx_signature X t)"
      "M' = M\<lparr>rp_tx_channel := rp_tx_channel M @ [t]\<rparr>"
    and pre: "\<not> se_skip_preflight (unwrap_or send_transaction_config_default cfg) \<longrightarrow>
      preflight X t (rpc_bank M None) = (Inr () :: ('ua, 'rd, 'ii) simulate_response rpc_error + unit)" by blast
  from decoded_fits [OF dec] obtain wire where
    "decode_wire X data enc = (Inr wire :: ('ua, 'rd, 'ii) simulate_response rpc_error + u8 list)"
    "length wire \<le> PACKET_DATA_SIZE N" "deserialize_tx X wire = Inr v" by blast
  with rest pre preflight_passed [of X t "rpc_bank M None" "()"] show ?thesis
    unfolding Inr sum.case by (intro exI conjI) blast+
qed

section \<open>Witness\<close>

text \<open>A transaction is a number, written as a string of that length; an even number fails in simulation.\<close>

definition example_tx_api :: "(example_bank, nat, nat, unit, unit, unit) tx_api" where
  "example_tx_api = \<lparr>into_binary_encoding = (\<lambda>e. if e = TxBase58 then Some Base58Binary else None),
     bs58_decode = (\<lambda>s. Inr (replicate (length s) 1)), base64_decode = (\<lambda>_. Inl ''''), deserialize_tx = (\<lambda>w. Inr (length w)),
     deserialize_message = (\<lambda>_. Inl ''''), try_create = (\<lambda>_ v. if v = 0 then Inl '''' else Inr v), set_recent_blockhash = (\<lambda>_ v. v),
     tx_signature = of_nat, tx_recent_blockhash = (\<lambda>_. 7), tx_durable_nonce = (\<lambda>_. None), tx_keys = (\<lambda>_. []),
     tx_verify = (\<lambda>_. Inr ()), tx_verify_precompiles = (\<lambda>_ _. Inr ()),
     bank_simulate = (\<lambda>_ t _. \<lparr>sr_result = (if even t then Inl '''' else Inr ()), sr_logs = [], sr_post_simulation_accounts = [],
       sr_units_consumed = 0, sr_return_data = None, sr_inner_instructions = None\<rparr>),
     request_airdrop_transaction = (\<lambda>_ _ _ _. Inl ''''), message_fee = (\<lambda>_ _. Inr None)\<rparr>"

lemma example_send:
  "send_transaction example_limits example_text example_tx_api example_rpc_bank ''xyz'' None
     (example_processor [] :: (example_bank, unit, unit, nat) request_processor) =
   (Inr (Inr (show_sig example_text 3), (example_processor [])\<lparr>rp_tx_channel := [3]\<rparr>)
     :: (((unit, unit, unit) simulate_response rpc_error + string) \<times> (example_bank, unit, unit, nat) request_processor) res)"
  by (simp add: send_transaction_def send_transaction_config_default_def decode_and_deserialize_def decode_wire_def MAX_BASE58_SIZE_def
    sanitize_transaction_def get_bank_with_config_def rpc_bank_def preflight_def verify_transaction_def sent_to_channel
    ok_or_def map_err_def example_tx_api_def example_limits_def example_processor_def example_rpc_bank_defs apanic_def abind_def
    alift_def)

theorem send_transaction_sends_witness:
  "tx_verify example_tx_api 3 = Inr () \<and> sr_result (bank_simulate example_tx_api (6, []) 3 False) = Inr ()"
  using send_transaction_sends [OF example_send]
  by (auto simp: send_transaction_config_default_def rpc_bank_def example_processor_def)

end
