(* ===== verification/Text_Parsing.thy ===== *)
theory Text_Parsing
  imports Igloo_Prelude
begin

text \<open>
  The operations on strings of the Rust standard library that the program uses: \<^verbatim>\<open>split\<close> at a
  character, \<^verbatim>\<open>strip_prefix\<close>, and \<^verbatim>\<open>parse\<close> for an unsigned number of a given width and for a boolean,
  together with the decimal printing of a number.
\<close>

section \<open>Splitting\<close>

fun split_at :: "char \<Rightarrow> string \<Rightarrow> string list" where
  "split_at c [] = [[]]"
| "split_at c (x # xs) =
     (if x = c then [] # split_at c xs else (case split_at c xs of [] \<Rightarrow> [[x]] | p # ps \<Rightarrow> (x # p) # ps))"

fun strip_prefix :: "string \<Rightarrow> string \<Rightarrow> string option" where
  "strip_prefix [] s = Some s"
| "strip_prefix (p # ps) [] = None"
| "strip_prefix (p # ps) (x # xs) = (if p = x then strip_prefix ps xs else None)"

lemma split_at_not_Nil [simp]: "split_at c s \<noteq> []"
  by (induction s) (auto split: list.splits)

lemma split_at_no_sep: "c \<notin> set s \<Longrightarrow> split_at c s = [s]"
  by (induction s) auto

lemma split_at_append: "c \<notin> set s \<Longrightarrow> split_at c (s @ c # t) = s # split_at c t"
  by (induction s) auto

lemma strip_prefix_append [simp]: "strip_prefix p (p @ s) = Some s"
  by (induction p) auto

lemma strip_prefix_Some: "strip_prefix p s = Some t \<longleftrightarrow> s = p @ t"
  by (induction p s rule: strip_prefix.induct) auto

section \<open>Numbers and booleans\<close>

definition digit_of :: "char \<Rightarrow> nat option" where
  "digit_of c = (let n = of_char c :: nat in if 48 \<le> n \<and> n \<le> 57 then Some (n - 48) else None)"

fun parse_digits :: "nat \<Rightarrow> nat \<Rightarrow> string \<Rightarrow> string + nat" where
  "parse_digits w acc [] = Inr acc"
| "parse_digits w acc (c # cs) =
     (case digit_of c of
        None \<Rightarrow> Inl ''invalid digit found in string''
      | Some d \<Rightarrow>
          if acc * 10 + d > umax w then Inl ''number too large to fit in target type''
          else parse_digits w (acc * 10 + d) cs)"

text \<open>A sign \<^verbatim>\<open>+\<close> is allowed in front of a number, but not on its own.\<close>

definition parse_nat :: "nat \<Rightarrow> string \<Rightarrow> string + nat" where
  "parse_nat w s =
     (case s of
        [] \<Rightarrow> Inl ''cannot parse integer from empty string''
      | c # cs \<Rightarrow>
          if c = CHR ''+'' then (if cs = [] then Inl ''invalid digit found in string'' else parse_digits w 0 cs)
          else parse_digits w 0 s)"

definition parse_bool :: "string \<Rightarrow> string + bool" where
  "parse_bool s =
     (if s = ''true'' then Inr True else if s = ''false'' then Inr False
      else Inl ''provided string was not `true` or `false`'')"

fun show_nat :: "nat \<Rightarrow> string" where
  "show_nat n = (if n < 10 then [char_of (48 + n)] else show_nat (n div 10) @ [char_of (48 + n mod 10)])"

declare show_nat.simps [simp del]

definition show_bool :: "bool \<Rightarrow> string" where
  "show_bool b = (if b then ''true'' else ''false'')"

lemma digit_of_char_of [simp]: "d < 10 \<Longrightarrow> digit_of (char_of (48 + d)) = Some d"
  by (simp add: digit_of_def)

lemma parse_digits_append:
  "parse_digits w acc (s @ t) = (case parse_digits w acc s of Inl e \<Rightarrow> Inl e | Inr n \<Rightarrow> parse_digits w n t)"
  by (induction s arbitrary: acc) (auto split: option.splits)

lemma parse_digits_show_nat: "n \<le> umax w \<Longrightarrow> parse_digits w 0 (show_nat n) = Inr n"
proof (induction n rule: show_nat.induct)
  case (1 n)
  show ?case
  proof (cases "n < 10")
    case True
    then show ?thesis using 1(2) by (simp add: show_nat.simps [of n])
  next
    case False
    have "n div 10 \<le> umax w" using 1(2) by (meson div_le_dividend le_trans)
    with False have "parse_digits w 0 (show_nat (n div 10)) = Inr (n div 10)" using 1(1) by simp
    then show ?thesis
      using False 1(2) by (subst show_nat.simps) (simp add: parse_digits_append)
  qed
qed

lemma show_nat_digits: "c \<in> set (show_nat n) \<Longrightarrow> 48 \<le> (of_char c :: nat) \<and> of_char c \<le> (57 :: nat)"
proof (induction n rule: show_nat.induct)
  case (1 n)
  show ?case
  proof (cases "n < 10")
    case True
    then show ?thesis using 1(2) by (auto simp: show_nat.simps [of n])
  next
    case False
    have "n mod 10 < 10" by simp
    then show ?thesis using 1 False by (auto simp: show_nat.simps [of n])
  qed
qed

lemma show_nat_not_Nil [simp]: "show_nat n \<noteq> []"
  by (subst show_nat.simps) simp

lemma parse_show_nat: "n \<le> umax w \<Longrightarrow> parse_nat w (show_nat n) = Inr n"
proof -
  assume n: "n \<le> umax w"
  have "CHR ''+'' \<notin> set (show_nat n)" using show_nat_digits [of "CHR ''+''" n] by auto
  then show ?thesis
    using parse_digits_show_nat [OF n] by (cases "show_nat n") (auto simp: parse_nat_def)
qed

lemma comma_not_in_show [simp]: "CHR '','' \<notin> set (show_nat n)" "CHR '','' \<notin> set (show_bool b)"
  using show_nat_digits [of "CHR '',''" n] by (auto simp: show_bool_def)

lemma parse_show_bool [simp]: "parse_bool (show_bool b) = Inr b"
  by (simp add: parse_bool_def show_bool_def)

end
