(* ===== verification/Rpc_Service.thy ===== *)
theory Rpc_Service
  imports Rpc_Example Text_Parsing
begin

text \<open>
  The server around the request processor: the middleware that answers requests for files
  (\<^verbatim>\<open>rpc/src/jsonrpc/service.rs\<close>), and starting the service for a storage (\<^verbatim>\<open>rpc/src/service.rs\<close>).

  The file system, the snapshot archives, the regular expressions for their names and the HTTP
  server are arguments.  The runtime, the thread of the server and the handle that closes it are
  represented by whether the server is open.
\<close>

section \<open>Requests for files\<close>

definition FULL_SNAPSHOT_REQUEST_PATH :: string where
  "FULL_SNAPSHOT_REQUEST_PATH = ''/snapshot.tar.bz2''"

definition INCREMENTAL_SNAPSHOT_REQUEST_PATH :: string where
  "INCREMENTAL_SNAPSHOT_REQUEST_PATH = ''/incremental-snapshot.tar.bz2''"

definition LARGEST_ACCOUNTS_CACHE_DURATION :: nat where
  "LARGEST_ACCOUNTS_CACHE_DURATION = 60 * 60 * 2"

datatype io_error = NotFound | OtherIoError

record file_server_api =
  DEFAULT_GENESIS_DOWNLOAD_PATH :: string
  full_regex_matches :: "string \<Rightarrow> bool"
  incremental_regex_matches :: "string \<Rightarrow> bool"
  highest_full_archive :: "path \<Rightarrow> (slot \<times> string option) option"
  highest_incremental_archive :: "path \<Rightarrow> slot \<Rightarrow> string option option"
  remote_dir :: "path \<Rightarrow> path"
  fs_exists :: "path \<Rightarrow> bool"
  fs_len :: "path \<Rightarrow> nat option"
  fs_open_no_follow :: "path \<Rightarrow> io_error + unit"
  show_sol :: "nat \<Rightarrow> string"

record 'b request_middleware =
  mw_ledger_path :: path
  mw_snapshot_config :: "snapshot_config option"
  mw_bank_forks :: "'b forks_view"

datatype http_body = EmptyBody | TextBody string | FileBody path

record http_response =
  hr_status :: nat
  hr_location :: "string option"
  hr_content_length :: "nat option"
  hr_body :: http_body

datatype middleware_action = Respond http_response | ProceedToRpc

definition http_redirect :: "string \<Rightarrow> http_response" where
  "http_redirect location = \<lparr>hr_status = 303, hr_location = Some location, hr_content_length = None, hr_body = TextBody location\<rparr>"

definition http_not_found :: http_response where
  "http_not_found = \<lparr>hr_status = 404, hr_location = None, hr_content_length = None, hr_body = EmptyBody\<rparr>"

definition http_internal_server_error :: http_response where
  "http_internal_server_error = \<lparr>hr_status = 500, hr_location = None, hr_content_length = None, hr_body = EmptyBody\<rparr>"

definition http_ok :: "string \<Rightarrow> http_response" where
  "http_ok text = \<lparr>hr_status = 200, hr_location = None, hr_content_length = None, hr_body = TextBody text\<rparr>"

definition strip_leading_slash :: "string \<Rightarrow> string option" where
  "strip_leading_slash p = strip_prefix ''/'' p"

text \<open>\<^verbatim>\<open>Path::join\<close>: an absolute path replaces the one it is joined to.\<close>

definition join_path :: "path \<Rightarrow> string \<Rightarrow> path" where
  "join_path root stem = (case strip_prefix ''/'' stem of Some rest \<Rightarrow> split_at CHR ''/'' rest | None \<Rightarrow> root @ split_at CHR ''/'' stem)"

definition is_file_get_path :: "file_server_api \<Rightarrow> 'b request_middleware \<Rightarrow> string \<Rightarrow> bool" where
  "is_file_get_path Y W p =
     (if p = DEFAULT_GENESIS_DOWNLOAD_PATH Y then True
      else if mw_snapshot_config W = None then False
      else (case strip_leading_slash p of
          None \<Rightarrow> False
        | Some stem \<Rightarrow> full_regex_matches Y stem \<or> incremental_regex_matches Y stem))"

definition find_snapshot_file :: "file_server_api \<Rightarrow> 'b request_middleware \<Rightarrow> string \<Rightarrow> path res" where
  "find_snapshot_file Y W stem =
     rbind (runwrap ''snapshot_config'' (mw_snapshot_config W)) (\<lambda>cfg.
     let root = (if full_regex_matches Y stem then full_snapshot_archives_dir cfg else incremental_snapshot_archives_dir cfg);
         local_path = join_path root stem in
     Inr (if fs_exists Y local_path then local_path else join_path (remote_dir Y root) stem))"

definition file_response :: "file_server_api \<Rightarrow> path \<Rightarrow> http_response" where
  "file_response Y filename =
     (case fs_open_no_follow Y filename of
        Inl err \<Rightarrow> if err = NotFound then http_not_found else http_internal_server_error
      | Inr _ \<Rightarrow> \<lparr>hr_status = 200, hr_location = None, hr_content_length = Some (unwrap_or 0 (fs_len Y filename)),
          hr_body = FileBody filename\<rparr>)"

definition process_file_get :: "file_server_api \<Rightarrow> 'b request_middleware \<Rightarrow> string \<Rightarrow> middleware_action res" where
  "process_file_get Y W p =
     rbind (runwrap ''path already verified'' (strip_leading_slash p)) (\<lambda>stem.
     rbind (if p = DEFAULT_GENESIS_DOWNLOAD_PATH Y then Inr (join_path (mw_ledger_path W) stem) else find_snapshot_file Y W stem) (\<lambda>filename.
     Inr (Respond (file_response Y filename))))"

definition health_check :: string where
  "health_check = ''ok''"

definition process_rest :: "file_server_api \<Rightarrow> 'b rpc_bank_api \<Rightarrow> 'b forks_view \<Rightarrow> string \<Rightarrow> string option res" where
  "process_rest Y K F p =
     (if p = ''/v0/circulating-supply''
      then
        let b = fv_root_bank F in
        rbind (runwrap ''Scan should not error on root banks'' (res_ok (k_non_circulating_supply K b))) (\<lambda>(lamports, _).
        rbind (checked_sub (k_capitalization K b) lamports) (\<lambda>circulating. Inr (Some (show_sol Y circulating))))
      else if p = ''/v0/total-supply'' then Inr (Some (show_sol Y (k_capitalization K (fv_root_bank F))))
      else Inr None)"

text \<open>The redirection to the latest snapshot; a name that cannot be rendered is empty.\<close>

definition redirect_to_snapshot :: "file_server_api \<Rightarrow> snapshot_config \<Rightarrow> string \<Rightarrow> http_response" where
  "redirect_to_snapshot Y cfg p =
     (case (case highest_full_archive Y (full_snapshot_archives_dir cfg) of
          None \<Rightarrow> None
        | Some (s, name) \<Rightarrow>
            if p = FULL_SNAPSHOT_REQUEST_PATH then Some name
            else highest_incremental_archive Y (incremental_snapshot_archives_dir cfg) s) of
        Some name \<Rightarrow> http_redirect (''/'' @ unwrap_or '''' name)
      | None \<Rightarrow> http_not_found)"

definition answer_request :: "file_server_api \<Rightarrow> 'b rpc_bank_api \<Rightarrow> 'b request_middleware \<Rightarrow> string \<Rightarrow> middleware_action res" where
  "answer_request Y K W p =
     rbind (process_rest Y K (mw_bank_forks W) p) (\<lambda>rest.
     case rest of
       Some result \<Rightarrow> Inr (Respond (http_ok result))
     | None \<Rightarrow>
         if is_file_get_path Y W p then process_file_get Y W p
         else if p = ''/health'' then Inr (Respond (http_ok health_check))
         else Inr ProceedToRpc)"

definition on_request :: "file_server_api \<Rightarrow> 'b rpc_bank_api \<Rightarrow> 'b request_middleware \<Rightarrow> string \<Rightarrow> middleware_action res" where
  "on_request Y K W p =
     (case mw_snapshot_config W of
        Some cfg \<Rightarrow>
          if p = FULL_SNAPSHOT_REQUEST_PATH \<or> p = INCREMENTAL_SNAPSHOT_REQUEST_PATH
          then Inr (Respond (redirect_to_snapshot Y cfg p))
          else answer_request Y K W p
      | None \<Rightarrow> answer_request Y K W p)"

section \<open>The service\<close>

datatype rpc_interface = MinimalInterface | BankDataInterface | AccountsDataInterface | AccountsScanInterface | FullInterface

record ('b, 'blk, 'ctx, 'tx) json_rpc_service =
  js_processor :: "('b, 'blk, 'ctx, 'tx) request_processor"
  js_middleware :: "'b request_middleware"
  js_interfaces :: "rpc_interface list"
  js_worker_threads :: nat
  js_max_request_body_size :: nat
  js_open :: bool

text \<open>
  \<open>start_http\<close> is the HTTP server, which may refuse the address.  There is no long-term storage.  Where the
  server does not start, the thread that reports it ends and so does the construction.
\<close>

definition new_json_rpc_service ::
  "('addr \<Rightarrow> string + unit) \<Rightarrow> 'addr \<Rightarrow> json_rpc_config \<Rightarrow> snapshot_config option \<Rightarrow> 'b forks_view \<Rightarrow> ('blk, 'ctx) blockstore_view
     \<Rightarrow> hash \<Rightarrow> 'tx list \<Rightarrow> path \<Rightarrow> slot \<Rightarrow> (pubkey list \<Rightarrow> (slot \<times> nat) list)
     \<Rightarrow> string + ('b, 'blk, 'ctx, 'tx) json_rpc_service" where
  "new_json_rpc_service start_http rpc_addr cfg snapshot forks store gh tx_channel ledger max_complete fees =
     (let threads = max 1 (rpc_threads cfg);
          cache = new_largest_accounts_cache LARGEST_ACCOUNTS_CACHE_DURATION;
          body_size = unwrap_or MAX_REQUEST_BODY_SIZE (max_request_body_size cfg);
          processor = new_request_processor cfg snapshot forks store gh tx_channel None cache max_complete fees;
          interfaces = [MinimalInterface] @
            (if full_api cfg then [BankDataInterface, AccountsDataInterface, AccountsScanInterface, FullInterface] else []);
          middleware = \<lparr>mw_ledger_path = ledger, mw_snapshot_config = snapshot, mw_bank_forks = forks\<rparr> in
      ebind (start_http rpc_addr) (\<lambda>_.
      Inr \<lparr>js_processor = processor, js_middleware = middleware, js_interfaces = interfaces, js_worker_threads = threads,
        js_max_request_body_size = body_size, js_open = True\<rparr>))"

text \<open>The metadata of a request: a client can switch off the long-term storage.\<close>

definition extract_meta ::
  "('b, 'blk, 'ctx, 'tx) json_rpc_service \<Rightarrow> string option \<Rightarrow> ('b, 'blk, 'ctx, 'tx) request_processor" where
  "extract_meta J xbigtable =
     (if xbigtable = Some ''disabled'' then clone_without_bigtable (js_processor J) else js_processor J)"

definition exit_json_rpc_service where
  "exit_json_rpc_service J = J\<lparr>js_open := False\<rparr>"

definition join_json_rpc_service where
  "join_json_rpc_service J = exit_json_rpc_service J"

record 'addr rpc_config =
  rpc_addr :: 'addr
  jsonrpc_config :: json_rpc_config

datatype rpc_init_error = InitJsonRpc string

text \<open>What the server reads of a storage: the banks of its forks, and its block store.\<close>

definition forks_view_of ::
  "('b, 'f) forks_api \<Rightarrow> ('f \<Rightarrow> bank_ref) \<Rightarrow> ('b, 'f, 's, 'i, 'kp) rollup_storage \<Rightarrow> 'b forks_view" where
  "forks_view_of F root_bank S =
     \<lparr>fv_working_bank = bank_at S (bf_working_bank F (bank_forks S)), fv_root_bank = bank_at S (root_bank (bank_forks S)),
      fv_root = bf_root F (bank_forks S), fv_get = (\<lambda>s. map_option (bank_at S) (bf_get F (bank_forks S) s))\<rparr>"

definition new_rpc_service where
  "new_rpc_service start_http R snapshot forks store gh tx_channel ledger max_complete fees =
     map_err InitJsonRpc (new_json_rpc_service start_http (rpc_addr R) (jsonrpc_config R) (Some snapshot) forks store gh tx_channel
       ledger max_complete fees)"

text \<open>
  The second component says whether the calling thread is parked after the service was started, as it is when
  the storage is to halt at a slot.
\<close>

definition rpc_service_of_storage ::
  "('addr \<Rightarrow> string + unit) \<Rightarrow> ('b, 'f) forks_api \<Rightarrow> ('f \<Rightarrow> bank_ref) \<Rightarrow> ('s \<Rightarrow> ('blk, 'ctx) blockstore_view)
     \<Rightarrow> (pubkey list \<Rightarrow> (slot \<times> nat) list) \<Rightarrow> slot \<Rightarrow> 'addr rpc_config \<Rightarrow> 'tx list \<Rightarrow> ('b, 'f, 's, 'i, 'kp) rollup_storage
     \<Rightarrow> rpc_init_error + ('b, 'blk, 'ctx, 'tx) json_rpc_service \<times> bool" where
  "rpc_service_of_storage start_http F root_bank view fees max_complete R tx_channel S =
     (let cfg = config S in
      ebind (new_rpc_service start_http R (sc_snapshot_config (gc_storage cfg)) (forks_view_of F root_bank S) (view (blockstore S))
        (unwrap_or (genesis_hash (genesis cfg)) (expected_genesis_hash (gc_storage cfg))) tx_channel (ledger_path cfg) max_complete fees)
        (\<lambda>jsonrpc. Inr (jsonrpc, halt_at_slot (gc_storage cfg) \<noteq> None)))"

section \<open>Confinement\<close>

text \<open>
  The patterns for the names of snapshot archives are anchored and have no slash, and the path of the
  genesis archive is a slash followed by a name.
\<close>

definition plain_names :: "file_server_api \<Rightarrow> bool" where
  "plain_names Y \<longleftrightarrow> (\<forall>s. full_regex_matches Y s \<or> incremental_regex_matches Y s \<longrightarrow> CHR ''/'' \<notin> set s) \<and>
     (\<exists>name. DEFAULT_GENESIS_DOWNLOAD_PATH Y = ''/'' @ name \<and> CHR ''/'' \<notin> set name)"

definition served_dirs :: "file_server_api \<Rightarrow> 'b request_middleware \<Rightarrow> path set" where
  "served_dirs Y W = {mw_ledger_path W} \<union> (case mw_snapshot_config W of
     None \<Rightarrow> {}
   | Some cfg \<Rightarrow> {full_snapshot_archives_dir cfg, incremental_snapshot_archives_dir cfg,
       remote_dir Y (full_snapshot_archives_dir cfg), remote_dir Y (incremental_snapshot_archives_dir cfg)})"

lemma join_plain: "CHR ''/'' \<notin> set name \<Longrightarrow> join_path root name = root @ [name]"
  by (cases name) (auto simp: join_path_def split_at_no_sep)

lemma file_response_body: "hr_body (file_response Y f) = FileBody g \<Longrightarrow> g = f"
  by (auto simp: file_response_def http_not_found_def http_internal_server_error_def split: sum.splits if_splits)

lemma process_file_get_name:
  "process_file_get Y W (''/'' @ name) =
     rbind (if ''/'' @ name = DEFAULT_GENESIS_DOWNLOAD_PATH Y then Inr (join_path (mw_ledger_path W) name)
       else find_snapshot_file Y W name) (\<lambda>filename. Inr (Respond (file_response Y filename)))"
  unfolding process_file_get_def strip_leading_slash_def strip_prefix_append by (simp add: runwrap_def)

lemma file_get_confined:
  assumes "plain_names Y" "is_file_get_path Y W p"
  obtains name dir where "p = ''/'' @ name" "CHR ''/'' \<notin> set name" "dir \<in> served_dirs Y W"
    "process_file_get Y W p = Inr (Respond (file_response Y (dir @ [name])))"
proof (cases "p = DEFAULT_GENESIS_DOWNLOAD_PATH Y")
  case True
  then obtain name where name: "p = ''/'' @ name" "CHR ''/'' \<notin> set name" using assms(1) by (auto simp: plain_names_def)
  show thesis
    by (rule that [of name "mw_ledger_path W"], unfold name(1) process_file_get_name)
      (use True name in \<open>auto simp: join_plain served_dirs_def\<close>)
next
  case False
  then obtain cfg name where cfg: "mw_snapshot_config W = Some cfg" and name: "p = ''/'' @ name"
    "full_regex_matches Y name \<or> incremental_regex_matches Y name"
    using assms(2) by (auto simp: is_file_get_path_def strip_leading_slash_def strip_prefix_Some split: if_splits option.splits)
  have plain: "CHR ''/'' \<notin> set name" using assms(1) name(2) by (auto simp: plain_names_def)
  let ?root = "if full_regex_matches Y name then full_snapshot_archives_dir cfg else incremental_snapshot_archives_dir cfg"
  let ?dir = "if fs_exists Y (?root @ [name]) then ?root else remote_dir Y ?root"
  have "find_snapshot_file Y W name = Inr (?dir @ [name])"
    by (simp add: find_snapshot_file_def cfg runwrap_def Let_def join_plain [OF plain])
  with False show thesis
    by (intro that [of name ?dir], unfold name(1) process_file_get_name) (use plain in \<open>auto simp: served_dirs_def cfg\<close>)
qed

section \<open>Properties\<close>


section \<open>Witnesses\<close>

definition example_server :: file_server_api where
  "example_server = \<lparr>DEFAULT_GENESIS_DOWNLOAD_PATH = ''/g'', full_regex_matches = (\<lambda>s. s = ''a''), incremental_regex_matches = (\<lambda>_. False),
     highest_full_archive = (\<lambda>_. None), highest_incremental_archive = (\<lambda>_ _. None), remote_dir = (\<lambda>d. d @ [''remote'']),
     fs_exists = (\<lambda>_. False), fs_len = (\<lambda>_. Some 5), fs_open_no_follow = (\<lambda>_. Inr ()), show_sol = (\<lambda>_. [])\<rparr>"

definition example_middleware :: "example_bank request_middleware" where
  "example_middleware = \<lparr>mw_ledger_path = [''l''], mw_snapshot_config = Some \<lparr>full_snapshot_archive_interval_slots = 0,
     incremental_snapshot_archive_interval_slots = 0, full_snapshot_archives_dir = [''f''], incremental_snapshot_archives_dir = [''i''],
     bank_snapshots_dir = []\<rparr>, mw_bank_forks = \<lparr>fv_working_bank = (1, []), fv_root_bank = (0, []), fv_root = 0, fv_get = (\<lambda>_. None)\<rparr>\<rparr>"


end
