(* ===== verification/Rpc_Chain.thy ===== *)
theory Rpc_Chain
  imports Executor_Chain Rpc_Service Rpc_History
begin

text \<open>
  The JSON-RPC server beside the engine.  The service is started on the storage of an engine and shares the forks
  and the block store with it, so that a request reads the state they have when it arrives (\<open>service_at\<close>).
\<close>

definition service_at ::
  "('b, 'f) forks_api \<Rightarrow> ('f \<Rightarrow> bank_ref) \<Rightarrow> ('s \<Rightarrow> ('blk, 'ctx) blockstore_view) \<Rightarrow> ('b, 'f, 's, 'i, 'kp) rollup_storage
     \<Rightarrow> ('b, 'blk, 'ctx, 'tx) json_rpc_service \<Rightarrow> ('b, 'blk, 'ctx, 'tx) json_rpc_service" where
  "service_at F root_bank view S J =
     J\<lparr>js_processor := (js_processor J)\<lparr>rp_bank_forks := forks_view_of F root_bank S, rp_blockstore := view (blockstore S)\<rparr>,
       js_middleware := (js_middleware J)\<lparr>mw_bank_forks := forks_view_of F root_bank S\<rparr>\<rparr>"

lemma service_starts_at:
  assumes "rpc_service_of_storage start_http F root_bank view fees max_complete R tx_channel S = Inr (J, parked)"
  shows "service_at F root_bank view S J = J"
  using assms by (auto simp: rpc_service_of_storage_def new_rpc_service_def new_json_rpc_service_def new_request_processor_def
    service_at_def Let_def act_simps)

lemma service_forks: "rp_bank_forks (extract_meta (service_at F root_bank view S J) x) = forks_view_of F root_bank S"
  by (simp add: extract_meta_def clone_without_bigtable_def service_at_def)

text \<open>On a chain, the working bank of the server is the engine's current bank, and there is no bank above it.\<close>

lemma view_of_chain:
  assumes "forks_laws F ok" and "chain_ok F ok S"
  shows "fv_working_bank (forks_view_of F root_bank S) = bank_at S (bank S)"
    and "fv_get (forks_view_of F root_bank S) (current_height S) = Some (bank_at S (bank S))"
    and "current_height S < s \<Longrightarrow> fv_get (forks_view_of F root_bank S) s = None"
proof -
  show "fv_working_bank (forks_view_of F root_bank S) = bank_at S (bank S)"
    by (simp add: forks_view_of_def chain_working [OF assms])
  show "fv_get (forks_view_of F root_bank S) (current_height S) = Some (bank_at S (bank S))"
    using assms(2) by (simp add: forks_view_of_def chain_ok_def current_height_def)
  show "fv_get (forks_view_of F root_bank S) s = None" if "current_height S < s"
    using assms(2) that line_get [of "bf_get F (bank_forks S)" _ "ref_slot (bank S)" s]
    by (auto simp: forks_view_of_def chain_ok_def current_height_def)
qed

lemma block_time_above_root:
  assumes "fv_root (rp_bank_forks M) < s"
  shows "get_block_time K M s = (case fv_get (rp_bank_forks M) s of
    Some b \<Rightarrow> Inr (Some (k_unix_timestamp K b)) | None \<Rightarrow> Inl (CustomError (BlockNotAvailable s)))"
  using assms by (simp add: get_block_time_def)

section \<open>Property\<close>

text \<open>
  C9.  The JSON-RPC service follows the engine.  It was started on the storage of an engine in a reachable state and reports the
  engine's slot; after the engine has executed a block, a client that asks for the slot is told the slot the engine reports as its new head,
  one above the one before; the working bank of its requests is the bank of that block, which also answers for the
  block's time as long as the block is no root; a request that insists on a later slot is refused, and the time of any
  later block is not available.
\<close>

theorem service_follows_engine:
  assumes laws: "forks_laws (env_forks E) ok" and "executor_ok (env_forks E) ok X0"
    and run: "executor_run E V P X0 X" and S: "ex_storage X = Some S"
    and service: "rpc_service_of_storage start_http (env_forks E) root_bank view fees max_complete R tx_channel S = Inr (J, parked)"
    and block: "new_block E V P b X = Inr (Inr info, X')"
    and slot0: "k_slot K (bank_at S (bank S)) = ref_slot (bank S)"
    and slot: "\<And>S'. ex_storage X' = Some S' \<Longrightarrow> k_slot K (bank_at S' (bank S')) = ref_slot (bank S')"
  shows "get_slot K (extract_meta J xbigtable) context_config_default = (Inr (current_height S) :: 'sim rpc_error + slot) \<and>
    (\<exists>S'. ex_storage X' = Some S' \<and> (let M = extract_meta (service_at (env_forks E) root_bank view S' J) xbigtable;
      head = current_height S + 1; root = bf_root (env_forks E) (bank_forks S') in
    get_slot K M context_config_default = (Inr head :: 'sim rpc_error + slot) \<and> sh_slot (si_head info) = head \<and>
    rpc_bank M None = bank_at S' (bank S') \<and>
    (root < head \<longrightarrow> get_block_time K M head = (Inr (Some (k_unix_timestamp K (bank_at S' (bank S')))) :: 'sim rpc_error + int option)) \<and>
    (\<forall>s. head < s \<longrightarrow>
      get_slot K M \<lparr>cc_commitment = None, cc_min_context_slot = Some s\<rparr> = (Inl (CustomError (MinContextSlotNotReached head)) :: 'sim rpc_error + slot) \<and>
      (root < s \<longrightarrow> get_block_time K M s = (Inl (CustomError (BlockNotAvailable s)) :: 'sim rpc_error + int option)))))"
proof -
  have chain: "chain_ok (env_forks E) ok S" using executor_run_ok [OF laws assms(2) run] S by (simp add: executor_ok_def)
  have first: "get_slot K (extract_meta J xbigtable) context_config_default = (Inr (current_height S) :: 'sim rpc_error + slot)"
    using service_forks [of "env_forks E" root_bank view S J xbigtable] view_of_chain(1) [OF laws chain, of root_bank] slot0
    unfolding service_starts_at [OF service]
    by (simp add: get_slot_def get_bank_with_config_def rpc_bank_def context_config_default_def current_height_def)
  from new_block_ok [OF block S] obtain S1 S' where bump: "bump (env_pubkey_of E) (env_bank E) (env_forks E) S = Inr (Inr (), S1)"
    and S': "ex_storage X' = Some S'" "bank S' = bank S1" "bank_forks S' = bank_forks S1"
    and info: "get_slot_info (env_bank E) (env_forks E) (env_blockstore E) (current_height S') S' = Inr info" .
  from bump_cases [OF laws chain bump] S' have chain': "chain_ok (env_forks E) ok S'" and head: "current_height S' = current_height S + 1"
    by (auto simp: chain_ok_def current_height_def)
  note view = view_of_chain [OF laws chain', where root_bank = root_bank]
  have root: "fv_root (forks_view_of (env_forks E) root_bank S') = bf_root (env_forks E) (bank_forks S')" by (simp add: forks_view_of_def)
  have "k_slot K (bank_at S' (bank S')) = current_height S + 1" using slot [OF S'(1)] head by (simp add: current_height_def)
  moreover have "sh_slot (si_head info) = current_height S + 1"
    using get_slot_info_Inr [OF info] head by (simp add: get_slot_head_slot)
  ultimately show ?thesis
    using first S'(1) view(1) view(2) [unfolded head] view(3) [unfolded head]
    by (intro conjI exI [of _ S'])
      (simp_all add: Let_def get_slot_def get_bank_with_config_def rpc_bank_def service_forks block_time_above_root root context_config_default_def)
qed

section \<open>Witness\<close>

text \<open>The banks of the engine's example are their tick heights, with two ticks to a slot.\<close>

lemma chain_example_head:
  assumes "new_block chain_env chain_verifier chain_processor (new_block_payload [10, 11]) (chain_executor 0) = Inr (Inr info, X')"
    and "ex_storage X' = Some S'"
  shows "bank_at S' (bank S') = 2 \<and> ref_slot (bank S') = 1"
  using assms by (auto simp: chain_run_defs)

theorem service_follows_engine_witness:
  "\<exists>info X' S' J. new_block chain_env chain_verifier chain_processor (new_block_payload [10, 11]) (chain_executor 0) = Inr (Inr info, X') \<and>
     ex_storage X' = Some S' \<and>
     rpc_service_of_storage (\<lambda>_. Inr ()) list_forks (hd \<circ> fst) (\<lambda>_. example_store :: (unit confirmed_block, unit confirmed_transaction) blockstore_view)
       (\<lambda>_. []) 0 \<lparr>rpc_addr = (), jsonrpc_config = json_rpc_config_default\<rparr> [] (chain_storage 0) =
       Inr (J :: (nat, unit confirmed_block, unit confirmed_transaction, unit) json_rpc_service, False) \<and>
     get_slot (bank_api_of (\<lambda>b. b div 2) (\<lambda>_. [])) (extract_meta (service_at list_forks (hd \<circ> fst) (\<lambda>_. example_store) S' J) None)
       context_config_default = (Inr 1 :: unit rpc_error + slot)"
proof -
  obtain info X' where run: "new_block chain_env chain_verifier chain_processor (new_block_payload [10, 11]) (chain_executor 0) = Inr (Inr info, X')"
    using chain_example_block by blast
  obtain J where J: "rpc_service_of_storage (\<lambda>_. Inr ()) (env_forks chain_env) (hd \<circ> fst)
      (\<lambda>_. example_store :: (unit confirmed_block, unit confirmed_transaction) blockstore_view)
      (\<lambda>_. []) 0 \<lparr>rpc_addr = (), jsonrpc_config = json_rpc_config_default\<rparr> [] (chain_storage 0) =
      Inr (J :: (nat, unit confirmed_block, unit confirmed_transaction, unit) json_rpc_service, False)"
    by (simp add: rpc_service_of_storage_def new_rpc_service_def new_json_rpc_service_def map_err_def chain_storage_def Let_def
      example_config_def storage_config_default_def)
  have laws: "forks_laws (env_forks chain_env) list_forks_ok" and ok: "executor_ok (env_forks chain_env) list_forks_ok (chain_executor 0)"
    by (simp_all add: list_forks_laws chain_executor_ok)
  have S: "ex_storage (chain_executor 0) = Some (chain_storage 0)" by (simp add: chain_executor_def)
  let ?K = "bank_api_of (\<lambda>b. b div 2) (\<lambda>_. []) :: nat rpc_bank_api"
  have slot0: "k_slot ?K (bank_at (chain_storage 0) (bank (chain_storage 0))) = ref_slot (bank (chain_storage 0))"
    by (simp add: bank_api_of_def bank_at_def chain_storage_def Let_def)
  have slot: "k_slot ?K (bank_at S' (bank S')) = ref_slot (bank S')" if "ex_storage X' = Some S'" for S'
    using chain_example_head [OF run that] by (simp add: bank_api_of_def)
  from service_follows_engine [OF laws ok executor_run.start S J run slot0 slot, where xbigtable = None] run J show ?thesis
    by (auto simp: current_height_def Let_def)
qed

end
