(* ===== verification/Scheduling_Simulation.thy ===== *)
theory Scheduling_Simulation
  imports Prio_Scheduler Status_Slicing Executor_Chain
begin

text \<open>
  The simulation \<^verbatim>\<open>scheduler/bin/scheduling_simulation.rs\<close>, which puts the scheduler, the transaction processor
  and the load statistics together: transfers are cut into batches with fresh identifiers and given to the
  scheduler, worker threads execute what it sends them on one shared bank and report when they were idle and when
  active, and the reports are summarised.

  The workers run concurrently, so the simulation is a step relation: a batch is delivered to a worker, or a
  worker takes one and processes it.  The readings of the clock are arguments of a step.
\<close>

section \<open>The work\<close>

definition TOTAL_TX_NUM :: nat where
  "TOTAL_TX_NUM = 1024 * 4"

definition TOTAL_WORKER_NUM :: nat where
  "TOTAL_WORKER_NUM = 4"

definition NUM_ACCOUNTS :: nat where
  "NUM_ACCOUNTS = TOTAL_TX_NUM * 2"

definition SCHEDULER_BATCH_SIZE :: nat where
  "SCHEDULER_BATCH_SIZE = 2048"

text \<open>The accounts are taken two by two, and the first of each pair pays the second.\<close>

definition transfer_txs :: "('kp \<Rightarrow> 'kp \<Rightarrow> 'tx) \<Rightarrow> 'kp list \<Rightarrow> 'tx list res" where
  "transfer_txs transfer accounts =
     rmap (\<lambda>chunk. rbind (rindex chunk 0) (\<lambda>from. rbind (rindex chunk 1) (\<lambda>to. Inr (transfer from to)))) (chunks 2 accounts)"

fun gen_ids :: "'tx list \<Rightarrow> id_generator \<Rightarrow> transaction_id list \<times> id_generator" where
  "gen_ids [] g = ([], g)"
| "gen_ids (t # ts) g = (let (i, g1) = gen TransactionId g; (is, g2) = gen_ids ts g1 in (i # is, g2))"

definition max_age_default :: max_age where
  "max_age_default = \<lparr>epoch_invalidation_slot = 0, alt_invalidation_slot = 0\<rparr>"

fun make_batches :: "'tx list list \<Rightarrow> id_generator \<Rightarrow> id_generator \<Rightarrow> 'tx scheduling_batch list" where
  "make_batches [] batch_id_gen tx_id_gen = []"
| "make_batches (txs # rest) batch_id_gen tx_id_gen =
     (let (ids, tx_id_gen') = gen_ids txs tx_id_gen;
          (batch_id, batch_id_gen') = gen TransactionBatchId batch_id_gen in
      \<lparr>sb_batch_id = batch_id, sb_ids = ids, sb_transactions = txs, sb_max_ages = replicate (length txs) max_age_default\<rparr> #
      make_batches rest batch_id_gen' tx_id_gen')"

definition simulation_batches :: "'tx list \<Rightarrow> 'tx scheduling_batch list" where
  "simulation_batches txs = make_batches (chunks SCHEDULER_BATCH_SIZE txs) id_generator_default id_generator_default"

text \<open>Each batch is scheduled, and then whatever has been completed is received.\<close>

fun schedule_all ::
  "('tx, 'h, 'g, 's, 'r) runtime \<Rightarrow> nat \<Rightarrow> 'tx scheduling_batch list \<Rightarrow> ('h, 'tx, 's, 'r) wrapper
     \<Rightarrow> ((scheduler_error + unit) \<times> ('h, 'tx, 's, 'r) wrapper) res" where
  "schedule_all rt fuel [] w = Inr (Inr (), w)"
| "schedule_all rt fuel (batch # rest) w =
     abind (schedule_batch rt fuel batch) (\<lambda>_. abind (receive_complete rt fuel) (\<lambda>_. schedule_all rt fuel rest)) w"

section \<open>The workers\<close>

text \<open>The batch a worker is processing is kept with the time at which it was received.\<close>

record 'tx sim_worker =
  sw_receiver :: "'tx scheduling_batch list"
  sw_current :: "('tx scheduling_batch \<times> nat) option"
  sw_success_count :: nat
  sw_idle_start :: nat

record ('b, 'tx) simulation =
  sm_bank :: 'b
  sm_workers :: "'tx sim_worker list"
  sm_status :: "worker_status_update list"
  sm_completed :: "'tx scheduling_batch_result list"

definition new_sim_worker :: "nat \<Rightarrow> 'tx sim_worker" where
  "new_sim_worker now = \<lparr>sw_receiver = [], sw_current = None, sw_success_count = 0, sw_idle_start = now\<rparr>"

definition start_simulation :: "'b \<Rightarrow> nat list \<Rightarrow> ('b, 'tx) simulation" where
  "start_simulation b starts = \<lparr>sm_bank = b, sm_workers = map new_sim_worker starts, sm_status = [], sm_completed = []\<rparr>"

text \<open>The channel of a worker: what the scheduler sends.\<close>

definition deliver :: "'tx scheduling_batch \<Rightarrow> 'tx sim_worker \<Rightarrow> 'tx sim_worker" where
  "deliver batch w = w\<lparr>sw_receiver := sw_receiver w @ [batch]\<rparr>"

text \<open>
  The loop of \<^verbatim>\<open>worker_process\<close> up to the processing of a batch, and from there on.  The receivers of the status
  and of the results are kept until the workers have ended, so that no send fails, and the processor never
  returns an error.
\<close>

definition worker_takes :: "nat \<Rightarrow> nat \<Rightarrow> 'tx sim_worker \<Rightarrow> ('tx sim_worker \<times> worker_status_update) option" where
  "worker_takes thread_id active_start w =
     (case (sw_current w, sw_receiver w) of
        (None, scheduled_txs # rest) \<Rightarrow>
          Some (w\<lparr>sw_receiver := rest, sw_current := Some (scheduled_txs, active_start)\<rparr>,
            \<lparr>wu_thread_id = thread_id, wu_status = new_idle (sw_idle_start w) active_start\<rparr>)
      | _ \<Rightarrow> None)"

definition worker_finishes where
  "worker_finishes B V P cfg was_executed_successfully thread_id active_end b w =
     (case sw_current w of
        Some (scheduled_txs, active_start) \<Rightarrow>
          let (execute_result, b') = process_transactions B V P cfg (sb_transactions scheduled_txs) b;
              count = length (filter was_executed_successfully (execution_results execute_result)) in
          Some (w\<lparr>sw_current := None, sw_success_count := sw_success_count w + count, sw_idle_start := active_end\<rparr>,
            \<lparr>wu_thread_id = thread_id, wu_status = new_active active_start active_end\<rparr>,
            \<lparr>sr_batch = scheduled_txs, sr_retryable_indexes = []\<rparr>, b')
      | None \<Rightarrow> None)"

definition total_success_count :: "('b, 'tx) simulation \<Rightarrow> nat" where
  "total_success_count M = sum_list (map sw_success_count (sm_workers M))"

text \<open>The stable sort by thread and, within a thread, by the start of the period.\<close>

definition sort_status :: "worker_status_update list \<Rightarrow> worker_status_update list" where
  "sort_status us = sort_key wu_thread_id (sort_key (\<lambda>u. status_start (wu_status u)) us)"

definition simulation_load where
  "simulation_load F M = calculate_thread_load_summary F (sort_status (sm_status M))"

section \<open>The simulation as a whole\<close>

text \<open>
  In any order, the scheduler delivers a batch to a worker, a worker takes a batch, and a worker finishes one.
  The clock of a worker does not go back.
\<close>

inductive sim_step where
  deliver: "i < length (sm_workers M) \<Longrightarrow>
    sim_step B V P cfg ok M (M\<lparr>sm_workers := (sm_workers M)[i := deliver batch (sm_workers M ! i)]\<rparr>)"
| take: "i < length (sm_workers M) \<Longrightarrow> worker_takes i now (sm_workers M ! i) = Some (w, u) \<Longrightarrow> sw_idle_start (sm_workers M ! i) \<le> now \<Longrightarrow>
    sim_step B V P cfg ok M (M\<lparr>sm_workers := (sm_workers M)[i := w], sm_status := sm_status M @ [u]\<rparr>)"
| finish: "i < length (sm_workers M) \<Longrightarrow> worker_finishes B V P cfg ok i now (sm_bank M) (sm_workers M ! i) = Some (w, u, r, b) \<Longrightarrow>
    sw_current (sm_workers M ! i) = Some (batch, active_start) \<Longrightarrow> active_start \<le> now \<Longrightarrow>
    sim_step B V P cfg ok M (M\<lparr>sm_bank := b, sm_workers := (sm_workers M)[i := w], sm_status := sm_status M @ [u],
      sm_completed := sm_completed M @ [r]\<rparr>)"

inductive sim_run where
  start: "sim_run B V P cfg ok M0 M0"
| step: "sim_run B V P cfg ok M0 M \<Longrightarrow> sim_step B V P cfg ok M M' \<Longrightarrow> sim_run B V P cfg ok M0 M'"

section \<open>The batches\<close>

lemma gen_ids_many: "gen_ids ts g = (map TransactionId (gen_many (length ts) g), g\<lparr>next_id := next_id g - of_nat (length ts)\<rparr>)"
proof (induction ts arbitrary: g)
  case (Cons t ts)
  then show ?case by (simp add: gen_def Let_def algebra_simps)
qed simp

lemma gen_many_add: "gen_many (m + n) g = gen_many m g @ gen_many n (g\<lparr>next_id := next_id g - of_nat m\<rparr>)"
proof (induction m arbitrary: g)
  case (Suc m)
  then show ?case by (simp add: gen_def Let_def algebra_simps)
qed simp

lemma make_batches_ok:
  "map sb_transactions (make_batches cs g h) = cs \<and> list_all valid (make_batches cs g h) \<and>
   concat (map sb_ids (make_batches cs g h)) = map TransactionId (gen_many (length (concat cs)) h) \<and>
   map sb_batch_id (make_batches cs g h) = map TransactionBatchId (gen_many (length cs) g)"
proof (induction cs arbitrary: g h)
  case (Cons c cs)
  have g: "gen TransactionBatchId g = (TransactionBatchId (next_id g), g\<lparr>next_id := next_id g - 1\<rparr>)" for g by (simp add: gen_def)
  show ?case
    using Cons.IH [of "g\<lparr>next_id := next_id g - 1\<rparr>" "h\<lparr>next_id := next_id h - of_nat (length c)\<rparr>"]
    by (simp add: gen_ids_many g Let_def valid_def length_gen_many gen_many_add) (simp add: gen_def)
qed simp

text \<open>
  The transfers are cut into well-formed batches that hold all of them in their order, and no two transactions
  and no two batches get the same identifier.
\<close>

lemma simulation_batches_ok:
  assumes "length txs \<le> 2 ^ 64"
  shows "concat (map sb_transactions (simulation_batches txs)) = txs" "list_all valid (simulation_batches txs)"
    "distinct (concat (map sb_ids (simulation_batches txs)))" "distinct (map sb_batch_id (simulation_batches txs))"
proof -
  let ?cs = "chunks SCHEDULER_BATCH_SIZE txs"
  note ok = make_batches_ok [of ?cs id_generator_default id_generator_default, folded simulation_batches_def]
  have c: "concat ?cs = txs" by (simp add: concat_chunks SCHEDULER_BATCH_SIZE_def)
  then show "concat (map sb_transactions (simulation_batches txs)) = txs" using ok by simp
  show "list_all valid (simulation_batches txs)" using ok by simp
  have inj: "inj_on TransactionId A" "inj_on TransactionBatchId B" for A B by (simp_all add: inj_on_def)
  show "distinct (concat (map sb_ids (simulation_batches txs)))"
    using ok c gen_distinct [OF assms] by (simp add: distinct_map inj)
  have "length cs \<le> length (concat cs)" if "[] \<notin> set cs" for cs :: "'a list list"
    using that by (induction cs) (auto simp: Suc_le_eq intro: add_less_le_mono order_le_less_trans)
  then have "length ?cs \<le> length (concat ?cs)"
    using chunks_nonempty [of SCHEDULER_BATCH_SIZE "[]" txs] by (auto simp: SCHEDULER_BATCH_SIZE_def)
  then show "distinct (map sb_batch_id (simulation_batches txs))"
    using ok c gen_distinct [of "length ?cs"] assms by (simp add: distinct_map inj)
qed

section \<open>The periods of a worker\<close>

text \<open>The periods follow each other without a gap from one time to another.\<close>

fun tiles :: "nat \<Rightarrow> slicing_status list \<Rightarrow> nat \<Rightarrow> bool" where
  "tiles a [] e \<longleftrightarrow> a = e"
| "tiles a (s # ss) e \<longleftrightarrow> status_start s = a \<and> a \<le> status_end s \<and> tiles (status_end s) ss e"

lemma tiles_append: "tiles a (ss @ ts) e \<longleftrightarrow> (\<exists>m. tiles a ss m \<and> tiles m ts e)"
  by (induction ss arbitrary: a) auto

lemma tiles_le: "tiles a ss e \<Longrightarrow> a \<le> e \<and> (\<forall>s\<in>set ss. a \<le> status_start s \<and> status_start s \<le> status_end s \<and> status_end s \<le> e)"
  by (induction ss arbitrary: a) fastforce+

lemma tiles_sorted: "tiles a ss e \<Longrightarrow> sorted (map status_start ss)"
proof (induction ss arbitrary: a)
  case (Cons s ss)
  then have "tiles (status_end s) ss e" by simp
  from Cons.IH [OF this] tiles_le [OF this] Cons.prems show ?case by fastforce
qed simp

lemma active_slice_within: "active_slice s \<subseteq> {status_start s..<status_end s}"
  by (cases s) auto

lemma tiles_disjoint: "tiles a ss e \<Longrightarrow> sorted_wrt (\<lambda>s t. active_slice s \<inter> active_slice t = {}) ss"
proof (induction ss arbitrary: a)
  case (Cons s ss)
  then have rest: "tiles (status_end s) ss e" by simp
  have "active_slice s \<inter> active_slice t = {}" if "t \<in> set ss" for t
    using that tiles_le [OF rest] active_slice_within [of s] active_slice_within [of t] by fastforce
  with Cons.IH [OF rest] show ?case by simp
qed simp

lemma tiles_duration: "tiles a ss e \<Longrightarrow> (\<Sum>s\<leftarrow>ss. duration_ms s) = e - a"
proof (induction ss arbitrary: a)
  case (Cons s ss)
  then have "tiles (status_end s) ss e" by simp
  from Cons.IH [OF this] tiles_le [OF this] Cons.prems show ?case by (cases s) (simp_all add: sat_sub_def)
qed simp

definition worker_time :: "'tx sim_worker \<Rightarrow> nat" where
  "worker_time w = (case sw_current w of Some (_, active_start) \<Rightarrow> active_start | None \<Rightarrow> sw_idle_start w)"

text \<open>The periods every worker has reported follow each other from its start to its last reading of the clock.\<close>

definition simulation_ok :: "nat list \<Rightarrow> ('b, 'tx) simulation \<Rightarrow> bool" where
  "simulation_ok starts M \<longleftrightarrow> length (sm_workers M) = length starts \<and>
     (\<forall>u \<in> set (sm_status M). wu_thread_id u < length starts) \<and>
     (\<forall>i < length starts. tiles (starts ! i) (statuses_of i (sm_status M)) (worker_time (sm_workers M ! i)))"

lemma statuses_of_append [simp]: "statuses_of t (us @ [u]) = statuses_of t us @ (if wu_thread_id u = t then [wu_status u] else [])"
  by (simp add: statuses_of_def)

lemma simulation_ok_report:
  assumes "simulation_ok starts M" "i < length (sm_workers M)" "wu_thread_id u = i"
    and "status_start (wu_status u) = worker_time (sm_workers M ! i)" "status_start (wu_status u) \<le> status_end (wu_status u)"
    and "worker_time w = status_end (wu_status u)"
    and "sm_workers M' = (sm_workers M)[i := w]" "sm_status M' = sm_status M @ [u]"
  shows "simulation_ok starts M'"
  using assms by (auto simp: simulation_ok_def nth_list_update tiles_append)

lemma worker_time_deliver [simp]: "worker_time (deliver batch w) = worker_time w"
  by (simp add: worker_time_def deliver_def split: option.split)

lemma sim_step_ok:
  assumes "sim_step B V P cfg ok M M'" and "simulation_ok starts M"
  shows "simulation_ok starts M'"
  using assms(1)
proof cases
  case (deliver i batch)
  then show ?thesis using assms(2) by (auto simp: simulation_ok_def nth_list_update)
next
  case (take i now w u)
  then show ?thesis
    by (intro simulation_ok_report [OF assms(2), of i u w])
      (auto simp: worker_takes_def worker_time_def new_idle_def split: option.splits list.splits)
next
  case (finish i now w u r b batch active_start)
  then show ?thesis
    by (intro simulation_ok_report [OF assms(2), of i u w])
      (auto simp: worker_finishes_def worker_time_def new_active_def Let_def split: prod.splits)
qed

lemma sim_run_ok:
  assumes "sim_run B V P cfg ok M0 M" and "M0 = start_simulation b starts"
  shows "simulation_ok starts M"
  using assms
proof (induction rule: sim_run.induct)
  case (start B V P cfg ok M0)
  then show ?case by (simp add: simulation_ok_def start_simulation_def new_sim_worker_def worker_time_def statuses_of_def)
next
  case (step B V P cfg ok M0 M M')
  then show ?case using sim_step_ok by blast
qed

section \<open>The reports\<close>

lemma statuses_of_sorted:
  assumes "sorted (map status_start (statuses_of t us))"
  shows "statuses_of t (sort_status us) = statuses_of t us"
proof -
  let ?us = "filter (\<lambda>u. wu_thread_id u = t) us"
  have "sort_key (\<lambda>u. status_start (wu_status u)) ?us = ?us"
    using assms by (intro sort_key_id_if_sorted) (simp add: statuses_of_def comp_def)
  then show ?thesis by (simp add: statuses_of_def sort_status_def sort_key_stable filter_sort)
qed

lemma sum_by_thread:
  "\<forall>u\<in>set us. wu_thread_id u < n \<Longrightarrow> (\<Sum>u\<leftarrow>us. f (wu_status u)) = (\<Sum>t<n. \<Sum>s\<leftarrow>statuses_of t us. f s :: nat)"
proof (induction us)
  case (Cons u us)
  have "(\<Sum>t<n. \<Sum>s\<leftarrow>statuses_of t (u # us). f s) = (\<Sum>t<n. (if t = wu_thread_id u then f (wu_status u) else 0) + (\<Sum>s\<leftarrow>statuses_of t us. f s))"
    by (intro sum.cong) (auto simp: statuses_of_def)
  then show ?case using Cons by (simp add: sum.distrib)
qed (simp add: statuses_of_def)

lemma mset_sort_status: "mset (sort_status us) = mset us"
  by (simp add: sort_status_def)

lemma set_sort_status [simp]: "set (sort_status us) = set us"
  using mset_sort_status by (metis set_mset_mset)

lemma threads_le: "\<forall>u\<in>set us. wu_thread_id u < n \<Longrightarrow> length (group_statuses us) \<le> n"
proof -
  assume us: "\<forall>u\<in>set us. wu_thread_id u < n"
  have d: "distinct (map fst (group_statuses us))" using group_statuses_map_of [of us] by blast
  have "t < n" if "t \<in> fst ` set (group_statuses us)" for t
  proof -
    from that have "map_of (group_statuses us) t \<noteq> None" by (simp add: map_of_eq_None_iff)
    then have "statuses_of t us \<noteq> []" using group_statuses_map_of [of us t] by (auto split: if_splits)
    then show ?thesis using us by (auto simp: statuses_of_def filter_empty_conv)
  qed
  then have "card (fst ` set (group_statuses us)) \<le> card {..<n}" by (intro card_mono) auto
  then show ?thesis using distinct_card [OF d] by simp
qed

section \<open>Properties\<close>


section \<open>Witness\<close>

definition simulated_batch :: "nat scheduling_batch" where
  "simulated_batch = \<lparr>sb_batch_id = TransactionBatchId 1, sb_ids = [TransactionId 2], sb_transactions = [10], sb_max_ages = [max_age_default]\<rparr>"

text \<open>The first of two workers takes a batch at 5 and finishes it at 9.\<close>

lemma example_simulation_run:
  "\<exists>M. sim_run (env_bank chain_env) chain_verifier chain_processor (settings_default ()) id (start_simulation 0 [3, 4]) M \<and>
    (\<forall>w \<in> set (sm_workers M). worker_time w \<le> 9) \<and> length (sm_status M) = 2"
proof -
  let ?run = "sim_run (env_bank chain_env) chain_verifier chain_processor (settings_default ()) id (start_simulation 0 [3, 4])"
  let ?M1 = "(start_simulation 0 [3, 4])\<lparr>sm_workers := [deliver simulated_batch (new_sim_worker 3), new_sim_worker 4]\<rparr>"
  let ?u = "\<lparr>wu_thread_id = 0, wu_status = Idle 3 5\<rparr>"
  let ?w = "\<lparr>sw_receiver = [], sw_current = Some (simulated_batch, 5), sw_success_count = 0, sw_idle_start = 3\<rparr>"
  let ?M2 = "?M1\<lparr>sm_workers := [?w, new_sim_worker 4], sm_status := [?u]\<rparr>"
  have 1: "?run ?M1"
    using sim_run.step [OF sim_run.start sim_step.deliver [of 0 "start_simulation 0 [3, 4]" _ _ _ _ _ simulated_batch]]
    by (simp add: start_simulation_def)
  have 2: "?run ?M2"
    using sim_run.step [OF 1 sim_step.take [of 0 ?M1 5 ?w ?u]]
    by (simp add: start_simulation_def worker_takes_def deliver_def new_sim_worker_def new_idle_def)
  obtain out b where p: "process_transactions (env_bank chain_env) chain_verifier chain_processor (settings_default ()) [10] (0 :: nat) = (out, b)"
    by fastforce
  let ?w' = "?w\<lparr>sw_current := None, sw_success_count := length (filter id (execution_results out)), sw_idle_start := 9\<rparr>"
  let ?u' = "\<lparr>wu_thread_id = 0, wu_status = Active 5 9\<rparr>"
  have "worker_finishes (env_bank chain_env) chain_verifier chain_processor (settings_default ()) id 0 9 (0 :: nat) ?w =
      Some (?w', ?u', \<lparr>sr_batch = simulated_batch, sr_retryable_indexes = []\<rparr>, b)"
    using p by (simp add: worker_finishes_def simulated_batch_def new_active_def)
  with sim_run.step [OF 2 sim_step.finish [of 0 ?M2 _ _ _ _ _ 9 ?w' ?u']] show ?thesis
    by (fastforce simp: start_simulation_def worker_time_def new_sim_worker_def)
qed


end
