(* ===== verification/Svm_Cli.thy ===== *)
theory Svm_Cli
  imports Svm_Builder Text_Parsing
begin

text \<open>
  The command line of the virtual machine, \<^verbatim>\<open>svm/cli\<close>: the accounts of a run are given as texts of up to four parts
  separated by commas, the call data in hexadecimal, and a program is run with them on one of the two banks.
  The values of the options are the record \<open>cli\<close>; reading a key and the hexadecimal decoder belong to other crates
  and are arguments.
\<close>

section \<open>Options\<close>

record cli =
  cli_program_path :: "string option"
  cli_program_buffer :: "u8 list option"
  cli_calldata :: string
  cli_enable_v0_message :: bool
  cli_accounts :: "string list"
  cli_print_balances :: bool
  cli_memory_mode :: bool

datatype cli_error = AccountIsEmpty | KeyParseError string | NumberParseError string | BoolParseError string

type_synonym account_spec = "pubkey \<times> nat option \<times> bool \<times> bool"

text \<open>A part that is missing or empty leaves the default.\<close>

definition optional_part :: "string list \<Rightarrow> nat \<Rightarrow> string option" where
  "optional_part parts i = (if i < length parts \<and> parts ! i \<noteq> [] then Some (parts ! i) else None)"

definition parse_account :: "(string \<Rightarrow> string + pubkey) \<Rightarrow> string \<Rightarrow> cli_error + account_spec" where
  "parse_account from_str account =
     (case split_at (CHR '','') account of
        [] \<Rightarrow> Inl AccountIsEmpty
      | key # rest \<Rightarrow>
          let parts = key # rest in
          case from_str key of
            Inl e \<Rightarrow> Inl (KeyParseError e)
          | Inr k \<Rightarrow>
              (case (case optional_part parts 1 of None \<Rightarrow> Inr None | Some s \<Rightarrow> map_sum NumberParseError Some (parse_nat 64 s)) of
                 Inl e \<Rightarrow> Inl e
               | Inr lamports \<Rightarrow>
                   (case (case optional_part parts 2 of None \<Rightarrow> Inr False | Some s \<Rightarrow> map_sum BoolParseError id (parse_bool s)) of
                      Inl e \<Rightarrow> Inl e
                    | Inr signer \<Rightarrow>
                        (case (case optional_part parts 3 of None \<Rightarrow> Inr False | Some s \<Rightarrow> map_sum BoolParseError id (parse_bool s)) of
                           Inl e \<Rightarrow> Inl e
                         | Inr writable \<Rightarrow> Inr (k, lamports, signer, writable)))))"

definition parse_accounts :: "(string \<Rightarrow> string + pubkey) \<Rightarrow> cli \<Rightarrow> cli_error + account_spec list" where
  "parse_accounts from_str c = collect_results (map (parse_account from_str) (cli_accounts c))"

definition decode_hex_with_prefix :: "(string \<Rightarrow> string + u8 list) \<Rightarrow> string \<Rightarrow> string + u8 list" where
  "decode_hex_with_prefix hex s = hex (case strip_prefix ''0x'' s of Some stripped \<Rightarrow> stripped | None \<Rightarrow> s)"

section \<open>Running\<close>

text \<open>The builder with the accounts, the call data and the program of the command line.\<close>

definition cli_builder where
  "cli_builder c specs calldata X =
     with_v0_message (cli_enable_v0_message c) (with_program_buffer (cli_program_buffer c) (with_program_path (cli_program_path c)
       ((if cli_calldata c \<noteq> [] then with_calldata calldata else id)
         (fold (\<lambda>(pubkey, lamports, signer, writable). account_with_balance pubkey lamports signer writable) specs X))))"

text \<open>Accounts that cannot be parsed are unwrapped, and call data that is no hexadecimal text is returned as an error.\<close>

definition cli_run where
  "cli_run A T FS Y from_str hex c bank =
     (case simple_builder_init bank of
        Inl e \<Rightarrow> Inr (Inl e)
      | Inr X \<Rightarrow>
          (case parse_accounts from_str c of
             Inl e \<Rightarrow> Inl (UnwrapOnNone ''parse_accounts'')
           | Inr specs \<Rightarrow>
               (case (if cli_calldata c \<noteq> [] then decode_hex_with_prefix hex (cli_calldata c) else Inr []) of
                  Inl e \<Rightarrow> Inr (Inl (BuilderError e))
                | Inr calldata \<Rightarrow>
                    rbind (build_out A T FS Y (cli_builder c specs calldata X)) (\<lambda>(r, _). Inr r))))"

definition cli_main where
  "cli_main A A' L W FS Y from_str hex c =
     (if cli_memory_mode c then cli_run A (mock_bank_trait L) FS Y from_str hex c mock_init
      else rbind (wrapper_init W wrapper_config_default) (cli_run A' (bank_wrapper_trait L W) FS Y from_str hex c))"

section \<open>The accounts of a run\<close>

fun spec_account :: "account_spec \<Rightarrow> account_meta \<times> account option" where
  "spec_account (k, lamports, signer, writable) =
     (\<lparr>meta_pubkey = k, is_signer = signer, is_writable = writable\<rparr>, map_option (\<lambda>l. account_default\<lparr>acc_lamports := l\<rparr>) lamports)"

lemma cli_accounts_added:
  "fold (\<lambda>(pubkey, lamports, signer, writable). account_with_balance pubkey lamports signer writable) specs X =
    X\<lparr>sb_accounts := sb_accounts X @ map spec_account specs\<rparr>"
  by (induction specs arbitrary: X) (auto simp: account_with_balance_def account_with_def)

text \<open>A run from the command line is a run of the builder on exactly the accounts, data and program it names.\<close>

lemma cli_run_builds:
  assumes "parse_accounts from_str c = Inr specs"
    and "(if cli_calldata c \<noteq> [] then decode_hex_with_prefix hex (cli_calldata c) else Inr []) = Inr calldata"
  shows "cli_run A T FS Y from_str hex c (Inr b) = rbind (build_out A T FS Y
    \<lparr>sb_bank = b, sb_settings = builder_settings_default, sb_tx_builder = transaction_builder_default, sb_tx_processor = None,
     sb_program_path = cli_program_path c, sb_program_buffer = cli_program_buffer c, sb_calldata = calldata,
     sb_accounts = map spec_account specs, sb_v0_message = cli_enable_v0_message c, sb_check_result = None\<rparr>) (\<lambda>(r, _). Inr r)"
  using assms
  by (auto simp: cli_run_def cli_builder_def simple_builder_init_def cli_accounts_added with_v0_message_def
    with_program_buffer_def with_program_path_def with_calldata_def)

section \<open>Parsing what was printed\<close>

definition show_spec :: "(pubkey \<Rightarrow> string) \<Rightarrow> account_spec \<Rightarrow> string" where
  "show_spec show_key = (\<lambda>(k, lamports, signer, writable).
     show_key k @ '','' @ (case lamports of Some l \<Rightarrow> show_nat l | None \<Rightarrow> []) @ '','' @ show_bool signer @ '','' @ show_bool writable)"

lemma show_bool_not_Nil [simp]: "show_bool b \<noteq> []"
  by (simp add: show_bool_def)

lemma split_spec:
  assumes "CHR '','' \<notin> set (show_key k)"
  shows "split_at (CHR '','') (show_spec show_key (k, lamports, signer, writable)) =
    [show_key k, case lamports of Some l \<Rightarrow> show_nat l | None \<Rightarrow> [], show_bool signer, show_bool writable]"
proof -
  have "CHR '','' \<notin> set (case lamports of Some l \<Rightarrow> show_nat l | None \<Rightarrow> [])" by (simp split: option.split)
  with assms show ?thesis by (simp add: show_spec_def split_at_append split_at_no_sep)
qed

text \<open>
  Every list of account specifications that is printed with its four parts is parsed back, given that keys are
  printed without commas and read back.
\<close>

lemma parse_accounts_roundtrip:
  assumes keys: "\<And>k. from_str (show_key k) = Inr k" "\<And>k. CHR '','' \<notin> set (show_key k)"
    and amounts: "\<forall>(k, lamports, signer, writable) \<in> set specs. \<forall>l. lamports = Some l \<longrightarrow> l \<le> umax 64"
  shows "parse_accounts from_str (c\<lparr>cli_accounts := map (show_spec show_key) specs\<rparr>) = Inr specs"
proof -
  have "parse_account from_str (show_spec show_key spec) = Inr spec" if "spec \<in> set specs" for spec
  proof -
    obtain k lamports signer writable where spec: "spec = (k, lamports, signer, writable)" by (cases spec)
    have num: "\<forall>l. lamports = Some l \<longrightarrow> parse_nat 64 (show_nat l) = Inr l" using amounts that spec parse_show_nat by fastforce
    show ?thesis
      unfolding spec parse_account_def split_spec [OF keys(2)]
      using num by (cases lamports) (simp_all add: keys(1) optional_part_def numeral_3_eq_3 numeral_2_eq_2)
  qed
  then show ?thesis by (simp add: parse_accounts_def collect_results_Inr)
qed

end
