(* ===== verification/Spec2Isabelle.thy ===== *)
theory Spec2Isabelle
  imports Scheduler_Conservation Status_Slicing No_Lock_Scheduler Scheduler_Metrics
    Executor_Chain Example_Runner Rpc_Api Rpc_Chain Scheduling_Simulation Svm_Cli
begin

text \<open>
  A verification development of the igloo rollup node.  Paths are relative to \<^verbatim>\<open>src/\<close>.

  \<^bold>\<open>The program.\<close>  igloo runs Solana transactions as a rollup.  A block arrives from the layer 1 or is
  produced locally, the engine (\<^verbatim>\<open>executor/\<close>) has it checked by the verifier (\<^verbatim>\<open>verifier/\<close>), runs its
  batches on the bank of a new slot, and has the storage (\<^verbatim>\<open>storage/\<close>) commit the results, cut the block
  into shreds and write the history.  The scheduler (\<^verbatim>\<open>scheduler/\<close>) decides which worker thread
  executes which transaction, so that transactions that conflict never run at the same time.
  Clients read the state and send transactions through a JSON-RPC server (\<^verbatim>\<open>rpc/\<close>) that shares
  the forks and the block store with the engine.  Apart from that, single programs can be run on a bank
  of their own (\<^verbatim>\<open>svm/\<close>), and \<^verbatim>\<open>example/\<close> is a small rollup complete with a mocked layer 1, a batcher
  and a data availability (DA) layer.

  \<^bold>\<open>How code becomes definitions.\<close>

  \<^item> A struct is a record, an enum a datatype, a method a function of the same name that takes the
    state and returns the new one.  Where the name is taken in HOL it carries a suffix or prefix.
  \<^item> A panic is \<^verbatim>\<open>Inl\<close> of the type \<^verbatim>\<open>res\<close>, which includes failed unwraps, indexes out of range,
    assertions and overflow.  A Rust \<^verbatim>\<open>Result\<close> is a value inside that type.  Methods that change an object
    and may return an error early keep the state they had reached (\<^verbatim>\<open>Actions\<close>): nothing is rolled back,
    as in the code.
  \<^item> Counters are natural numbers with checked or saturating arithmetic of their width;
    identifiers, hashes and bit sets are words (\<^verbatim>\<open>Igloo_Prelude\<close>).
  \<^item> Banks are shared objects, so the storage keeps their contents in a store with addresses
    (\<^verbatim>\<open>Storage_Types\<close>).
  \<^item> What belongs to other crates (the Solana crates, the heap, the priority graph, channels, the file
    system, the clock, random keys) is an argument, mostly a record whose name ends in \<^verbatim>\<open>_api\<close> or \<^verbatim>\<open>_env\<close>.  A
    theorem that relies on its behaviour has it as a hypothesis with a name ending in \<^verbatim>\<open>_laws\<close>, and a
    witness shows the hypothesis to hold of a concrete instance.
  \<^item> Tasks and threads that run side by side are steps of an inductive relation, taken in any order.

  \<^bold>\<open>The prelude.\<close>

  \<^item> \<^verbatim>\<open>Igloo_Prelude\<close>, \<^verbatim>\<open>Actions\<close>: arithmetic, panics, early returns, loops, and the collections
    \<^verbatim>\<open>res_simps\<close> and \<^verbatim>\<open>act_simps\<close> that take a successful run apart.
  \<^item> \<^verbatim>\<open>Text_Parsing\<close>: splitting, parsing and printing of the standard library.
  \<^item> \<^verbatim>\<open>Cached_Lookup\<close>: the contract of a cache that must make no difference (locale
    \<^verbatim>\<open>cached_look_ups\<close>), interpreted in \<^verbatim>\<open>Commit_Batch\<close> and \<^verbatim>\<open>Rpc_Accounts\<close>.

  \<^bold>\<open>The scheduler\<close>, \<^verbatim>\<open>scheduler/src\<close>.

  \<^item> \<^verbatim>\<open>Thread_Set\<close>, \<^verbatim>\<open>Account_Locks\<close>: \<^verbatim>\<open>thread_aware_account_locks.rs\<close>.  Every operation on the bit set is
    the set operation it names.  The lock table satisfies the contract of counted locks
    (\<^verbatim>\<open>Lock_Interface\<close>, locale \<^verbatim>\<open>counted_locks\<close>, interpreted as \<^verbatim>\<open>lt\<close>); a transaction is only locked
    on a thread where no other thread's lock conflicts; unlocking restores the table exactly.
  \<^item> \<^verbatim>\<open>Scheduler_Messages\<close>, \<^verbatim>\<open>Account_Set\<close>, \<^verbatim>\<open>Transaction_State\<close>, \<^verbatim>\<open>State_Container\<close>, \<^verbatim>\<open>In_Flight\<close>: the files
    of these names, with \<^verbatim>\<open>id_generator.rs\<close> and \<^verbatim>\<open>transaction_priority_id.rs\<close>.  They show that
    check_locks is precise, that the life of a transaction follows its state machine (\<^verbatim>\<open>tx_life\<close>), that
    the container stays well-formed and within its capacity, and what the counters in flight count.
  \<^item> \<^verbatim>\<open>Prio_Scheduler\<close>: \<^verbatim>\<open>PrioGraphScheduler\<close> of \<^verbatim>\<open>scheduler.rs\<close>, loop by loop, and its wrapper in \<^verbatim>\<open>mod.rs\<close>.
    \<^verbatim>\<open>Thread_Selection\<close> shows what select_thread chooses.  \<^verbatim>\<open>Scheduler_Safety\<close> runs the scheduler with its
    workers (\<^verbatim>\<open>scheduler_run\<close>) and shows by induction over the run that the locks of the table are
    exactly those of the work in flight; hence no two transactions that conflict are in flight on
    different threads, and no lock is leaked.  \<^verbatim>\<open>Scheduler_Progress\<close> and \<^verbatim>\<open>Scheduler_Conservation\<close> show
    that a pass neither panics nor runs forever, and that it loses no transaction.
    \<^verbatim>\<open>Scheduler_Example\<close> is the concrete runtime of the witnesses.
  \<^item> \<^verbatim>\<open>No_Lock_Scheduler\<close>, \<^verbatim>\<open>Scheduler_Metrics\<close>, \<^verbatim>\<open>Status_Slicing\<close>: the scheduler without locks, the counters
    with \<^verbatim>\<open>stopwatch.rs\<close>, and the load statistics.  \<^verbatim>\<open>Scheduling_Simulation\<close> is
    \<^verbatim>\<open>bin/scheduling_simulation.rs\<close>, in which all of them meet (\<^verbatim>\<open>sim_step\<close>, \<^verbatim>\<open>sim_run\<close>).

  \<^bold>\<open>The storage\<close>, \<^verbatim>\<open>storage/src\<close>.

  \<^item> \<^verbatim>\<open>Storage_Types\<close>: errors, configuration and the state of \<^verbatim>\<open>RollupStorage\<close>.
  \<^item> \<^verbatim>\<open>Storage_Ledger\<close>, \<^verbatim>\<open>Storage_Reorg\<close>: slots, roots and reorganisations (\<^verbatim>\<open>ledger/mod.rs\<close>).  Exactly the
    blocks that are neither ancestors nor descendants of the new root are marked as dead.
  \<^item> \<^verbatim>\<open>Shred_Processor\<close>, \<^verbatim>\<open>Commit_Batch\<close>, \<^verbatim>\<open>Storage_Commit\<close>: \<^verbatim>\<open>blockstore/\<close>, \<^verbatim>\<open>execution/\<close>, \<^verbatim>\<open>history/\<close>,
    \<^verbatim>\<open>events.rs\<close> and the commits of \<^verbatim>\<open>accounts/\<close>.  A committed block is recorded completely as a hash chain
    of entries, its shreds are numbered without gaps, and the cache of mints changes no balance.
  \<^item> \<^verbatim>\<open>Storage_Init\<close>: \<^verbatim>\<open>config.rs\<close>, \<^verbatim>\<open>init/\<close>, closing, and the wait for snapshots of \<^verbatim>\<open>background.rs\<close>.

  \<^bold>\<open>The engine\<close>, \<^verbatim>\<open>verifier/src\<close> and \<^verbatim>\<open>executor/src\<close>.  \<^verbatim>\<open>Verifier\<close> shows that transactions of a batch that
  pass do not conflict and that no lock is left, and that ticks may be verified piece by piece.  \<^verbatim>\<open>Executor\<close>
  is the engine on top of verifier, storage and virtual machine.  \<^verbatim>\<open>Executor_Chain\<close> takes its
  operations in any order (\<^verbatim>\<open>executor_run\<close>): the banks always form one line, a new block extends it, and a
  reorganisation never undoes a block.

  \<^bold>\<open>The virtual machine\<close>, \<^verbatim>\<open>svm\<close>.  \<^verbatim>\<open>Tx_Builder\<close> builds a transaction, and reading it back gives what was put in.
  \<^verbatim>\<open>Svm_Bank\<close> holds the two banks behind the traits \<^verbatim>\<open>BankOperations\<close> and \<^verbatim>\<open>BankInfo\<close>; \<^verbatim>\<open>Svm_Builder\<close> is
  \<^verbatim>\<open>SimpleBuilder\<close>, generic in the bank.  What it relies on of a bank is the locale \<^verbatim>\<open>bank_contract\<close>,
  interpreted on the bank in memory as \<^verbatim>\<open>mock\<close> and proved of the bank that wraps Solana's.  \<^verbatim>\<open>Svm_Cli\<close> is the
  command line of \<^verbatim>\<open>svm/cli\<close>, whose text form of an account is shown to round-trip.

  \<^bold>\<open>The example rollup\<close>, \<^verbatim>\<open>example/src\<close>.  \<^verbatim>\<open>Example_Data\<close> holds the data, the derivation of blocks and the
  mocks, \<^verbatim>\<open>Example_Batcher\<close> the two tasks of the batcher, which refine a queue and deliver everything,
  \<^verbatim>\<open>Example_Engine\<close> the producer, the block store and the engine, and \<^verbatim>\<open>Example_Runner\<close> the runner and the
  whole program (\<^verbatim>\<open>rollup_step\<close>, \<^verbatim>\<open>rollup_reachable\<close>): heights are consecutive and no block is executed twice.

  \<^bold>\<open>The JSON-RPC server\<close>, \<^verbatim>\<open>rpc/src\<close>.

  \<^item> \<^verbatim>\<open>Rpc_Types\<close>, \<^verbatim>\<open>Rpc_Processor\<close>: the state of \<^verbatim>\<open>JsonRpcRequestProcessor\<close>, what it reads, and the requests
    about the bank.  \<^verbatim>\<open>Rpc_Example\<close> is the concrete node of the witnesses.
  \<^item> \<^verbatim>\<open>Rpc_Accounts\<close>, \<^verbatim>\<open>Rpc_Scan\<close>: accounts, encodings, scans and tokens.  A scan finds exactly the accounts that
    pass the filters, whichever secondary indexes the node keeps; caching mints changes no answer; the
    heap of bounded size yields the largest accounts.
  \<^item> \<^verbatim>\<open>Rpc_History\<close>: blocks, transactions, signatures and rewards from two stores, joined without
    duplicates and within the limits.
  \<^item> \<^verbatim>\<open>Rpc_Api\<close>: the interfaces of the clients; a transaction is sent exactly if it was decoded,
    sanitised and, unless the client skips it, verified and simulated.
  \<^item> \<^verbatim>\<open>Rpc_Service\<close>: the middleware, which opens no file outside the directories of the node, and the start
    of the service.  \<^verbatim>\<open>Rpc_Chain\<close> composes the service with the engine: after every block it answers from the
    new head.

  \<^bold>\<open>Loops that may not end.\<close>

  \<^item> The loops of a scheduling pass and of the receipt of results depend on the answers of the
    graph and of a channel, so they take fuel.  More fuel than there are ids in the queue is enough
    for a pass, which is part of \<^verbatim>\<open>schedule_returns\<close>; the safety theorems hold for every amount of fuel.
  \<^item> Closing the storage polls for snapshots; its fuel is the number of polls.
  \<^item> \<^verbatim>\<open>climb\<close> of \<^verbatim>\<open>Storage_Ledger\<close>, the loop over the ancestors of a bank, is a partial function: it does not
    return on a chain that still has its genesis bank while slot 0 is finalized, and the theorem
    on reorganisations of the engine says so (\<^verbatim>\<open>OutOfFuel\<close>).
  \<^item> \<^verbatim>\<open>goto_end_of_slot_with_scheduler\<close> of \<^verbatim>\<open>Svm_Bank\<close> is a partial function that is proved to return.
  \<^item> All other recursions are total.

  \<^bold>\<open>Not modelled.\<close>

  \<^item> Declarations without code: the traits of \<^verbatim>\<open>interface/\<close> and \<^verbatim>\<open>scheduler.rs\<close>, module files, and types without
    operations (\<^verbatim>\<open>sig_hub.rs\<close>, \<^verbatim>\<open>l1/batch.rs\<close>).  Tests.
  \<^item> Code that only calls other crates and has no decisions of its own: the service threads of
    \<^verbatim>\<open>StorageBackground\<close>, the scan of all accounts and the snapshot archive of the storage, the configuration of the
    program environment in \<^verbatim>\<open>svm/executor/src/env.rs\<close>, and in the server the methods that only hand on their
    arguments, the epoch information and schedule, the inflation governor and rate, the version
    and the list of cluster nodes.
  \<^item> Logging, formatting and the sending of metrics; the creation of keys and the printing of the simulation.
  \<^item> Floating-point arithmetic, which is an argument, and the pauses of the tasks of the example.
\<close>

end
